(* ===== verification/Prelude.thy ===== *)
theory Prelude
  imports Main "HOL-Library.Word" "HOL-Library.Monad_Syntax"
begin

unbundle bit_operations_syntax

text \<open>
  Shared vocabulary of the development.

  \<^item> The C integer types: unsigned types are words (\<open>+\<close>, \<open>-\<close>, \<open>*\<close> wrap as in C);
    a signed variable is an \<^typ>\<open>int\<close> that is brought back to its width by \<open>s32\<close> or
    \<open>s64\<close> after every arithmetic step; a conversion from signed to unsigned is
    \<^term>\<open>of_int\<close>, as in C.
  \<^item> The value \<^term>\<open>None\<close> of a handler is a kernel oops: a dereference of a pointer
    that is NULL or freed, or a division by zero.
  \<^item> The intrusive lists of the kernel: the loop cursors of
    \<open>hlist_for_each_entry_rcu\<close>, as they are left after the loop.
\<close>

section \<open>Collections\<close>

named_theorems frame_simps \<open>what an operation leaves unchanged\<close>
named_theorems inv_intros \<open>preservation of the invariants\<close>
named_theorems word_bounds \<open>reading word expressions as integers\<close>

section \<open>C integers\<close>

type_synonym u8 = "8 word"
type_synonym u16 = "16 word"
type_synonym u32 = "32 word"
type_synonym u64 = "64 word"
type_synonym ktime = int
type_synonym cpu = nat
type_synonym dev = nat

text \<open>A signed value brought back to 32 and to 64 bits.\<close>

definition s32 :: "int \<Rightarrow> int" where
  "s32 x = signed_take_bit 31 x"

definition s64 :: "int \<Rightarrow> int" where
  "s64 x = signed_take_bit 63 x"

lemma s32_id: "- (2 ^ 31) \<le> x \<Longrightarrow> x < 2 ^ 31 \<Longrightarrow> s32 x = x"
  unfolding s32_def by (rule signed_take_bit_int_eq_self) simp_all

lemma s64_id: "- (2 ^ 63) \<le> x \<Longrightarrow> x < 2 ^ 63 \<Longrightarrow> s64 x = x"
  unfolding s64_def by (rule signed_take_bit_int_eq_self) simp_all

lemma s32_range: "- (2 ^ 31) \<le> s32 x" "s32 x < 2 ^ 31"
  unfolding s32_def
  using signed_take_bit_int_greater_eq_minus_exp [of 31 x] signed_take_bit_int_less_exp [of 31 x]
  by simp_all

lemma uint_of_int [word_bounds]:
  "0 \<le> x \<Longrightarrow> x < 2 ^ LENGTH('a) \<Longrightarrow> uint (of_int x :: 'a::len word) = x"
  by (simp add: uint_word_of_int_eq take_bit_int_eq_self)

lemma uint_s32 [word_bounds]: "0 \<le> x \<Longrightarrow> x < 2 ^ 31 \<Longrightarrow> uint (of_int (s32 x) :: u32) = x"
  using uint_of_int [where 'a = 32, of x] s32_id [of x] by simp

lemma uint_add_bounded [word_bounds]:
  "uint (a :: 'a::len word) + uint b < 2 ^ LENGTH('a) \<Longrightarrow> uint (a + b) = uint a + uint b"
  by (simp add: uint_word_ariths)

lemma uint_mult_bounded [word_bounds]:
  "uint (a :: 'a::len word) * uint b < 2 ^ LENGTH('a) \<Longrightarrow> uint (a * b) = uint a * uint b"
  by (simp add: uint_word_ariths)

lemma uint_sub_bounded [word_bounds]:
  "uint (b :: 'a::len word) \<le> uint a \<Longrightarrow> uint (a - b) = uint a - uint b"
  by (simp add: uint_sub_lem)

lemma uint_ucast_bounded [word_bounds]:
  "uint (a :: 'a::len word) < 2 ^ LENGTH('b) \<Longrightarrow> uint (ucast a :: 'b::len word) = uint a"
  by (simp add: unsigned_ucast_eq take_bit_int_eq_self)

lemma uint_min [word_bounds]: "uint (min a b :: 'a::len word) = min (uint a) (uint b)"
  by (simp add: min_def word_le_def)

lemma uint_max [word_bounds]: "uint (max a b :: 'a::len word) = max (uint a) (uint b)"
  by (simp add: max_def word_le_def)

section \<open>Time\<close>

text \<open>\<open>ktime_us_delta(later, earlier)\<close>: the difference of two times in ns, in us.\<close>

definition ktime_us_delta :: "ktime \<Rightarrow> ktime \<Rightarrow> int" where
  "ktime_us_delta later earlier = s64 (later - earlier) div 1000"

lemma ktime_us_delta_self [simp]: "ktime_us_delta t t = 0"
  by (simp add: ktime_us_delta_def s64_def)

section \<open>Oopses\<close>

text \<open>Unsigned division; a zero divisor is a divide error.\<close>

definition udiv :: "'a::len word \<Rightarrow> 'a word \<Rightarrow> 'a word option" where
  "udiv x y = (if y = 0 then None else Some (x div y))"

lemma udiv_eq_Some [simp]: "udiv x y = Some z \<longleftrightarrow> y \<noteq> 0 \<and> z = x div y"
  by (auto simp: udiv_def)

lemma udiv_eq_None [simp]: "udiv x y = None \<longleftrightarrow> y = 0"
  by (auto simp: udiv_def)

text \<open>Signed 32-bit division, which rounds towards zero.\<close>

definition sdiv32 :: "int \<Rightarrow> int \<Rightarrow> int option" where
  "sdiv32 x y = (if y = 0 then None else Some (s32 (sgn x * sgn y * (\<bar>x\<bar> div \<bar>y\<bar>))))"

lemma sdiv32_nonneg:
  assumes "0 \<le> x" "x < 2 ^ 31" "0 < y"
  shows "sdiv32 x y = Some (x div y)"
proof -
  have "x div y \<le> x" "0 \<le> x div y"
    using assms div_by_1 [of x] zdiv_mono2 [of x 1 y] by (simp_all add: pos_imp_zdiv_nonneg_iff)
  then have "s32 (x div y) = x div y" using assms by (intro s32_id) simp_all
  moreover have "sgn x * sgn y * (\<bar>x\<bar> div \<bar>y\<bar>) = x div y" using assms by (cases "x = 0") auto
  ultimately show ?thesis using assms(3) unfolding sdiv32_def by simp
qed

section \<open>Loops over intrusive lists\<close>

text \<open>
  \<open>hlist_for_each_entry_rcu(pos, node, head, member) { if (p(pos)) break; }\<close> in the form
  with a separate \<open>node\<close> cursor: the entry cursor is assigned at each visited node and is
  not reset at the end, so after a loop without a match it still points to the last node.
  The test reads the node through the heap, hence the outer \<^typ>\<open>'a option\<close>.
\<close>

fun hlist_cursor :: "('p \<Rightarrow> bool option) \<Rightarrow> 'p list \<Rightarrow> 'p option \<Rightarrow> 'p option option" where
  "hlist_cursor p [] c = Some c"
| "hlist_cursor p (x # xs) c =
     do { b \<leftarrow> p x; if b then Some (Some x) else hlist_cursor p xs (Some x) }"

text \<open>The same loop with a \<open>return\<close>, \<open>goto\<close> or \<open>found = pos\<close> at the match.\<close>

fun hlist_find :: "('p \<Rightarrow> bool option) \<Rightarrow> 'p list \<Rightarrow> 'p option option" where
  "hlist_find p [] = Some None"
| "hlist_find p (x # xs) =
     do { b \<leftarrow> p x; if b then Some (Some x) else hlist_find p xs }"

lemma hlist_find_no_oops:
  "(\<And>x. x \<in> set xs \<Longrightarrow> p x \<noteq> None) \<Longrightarrow> hlist_find p xs \<noteq> None"
proof (induction xs)
  case (Cons x xs)
  then obtain b where "p x = Some b" by fastforce
  with Cons show ?case by simp
qed simp

lemma hlist_find_SomeD:
  "hlist_find p xs = Some (Some x) \<Longrightarrow> x \<in> set xs \<and> p x = Some True"
  by (induction xs) (auto split: Option.bind_splits if_splits)

lemma hlist_find_NoneD:
  "hlist_find p xs = Some None \<Longrightarrow> x \<in> set xs \<Longrightarrow> p x = Some False"
  by (induction xs) (auto split: Option.bind_splits if_splits)

lemma hlist_find_NoneI:
  "(\<And>x. x \<in> set xs \<Longrightarrow> p x = Some False) \<Longrightarrow> hlist_find p xs = Some None"
  by (induction xs) auto

lemma hlist_find_cong:
  "(\<And>x. x \<in> set xs \<Longrightarrow> p x = q x) \<Longrightarrow> hlist_find p xs = hlist_find q xs"
  by (induction xs) (auto cong: if_cong)

text \<open>The cursor is right exactly when a node matches; otherwise it is the last node.\<close>

lemma hlist_cursor_find:
  "hlist_find p xs = Some (Some x) \<Longrightarrow> hlist_cursor p xs c = Some (Some x)"
  by (induction xs arbitrary: c) (auto split: Option.bind_splits if_splits)

lemma hlist_cursor_miss:
  "hlist_find p xs = Some None \<Longrightarrow>
   hlist_cursor p xs c = Some (if xs = [] then c else Some (last xs))"
  by (induction xs arbitrary: c) (auto split: Option.bind_splits if_splits)

lemma hlist_cursor_mem:
  "hlist_cursor p xs c = Some (Some x) \<Longrightarrow> x \<in> set xs \<or> c = Some x"
  by (induction xs arbitrary: c) (auto split: Option.bind_splits if_splits)

lemma hlist_cursor_none: "hlist_cursor p xs c = Some None \<Longrightarrow> xs = [] \<and> c = None"
  by (induction xs arbitrary: c) (auto split: Option.bind_splits if_splits)

lemma hlist_cursor_no_oops:
  "(\<And>x. x \<in> set xs \<Longrightarrow> p x \<noteq> None) \<Longrightarrow> hlist_cursor p xs c \<noteq> None"
proof (induction xs arbitrary: c)
  case (Cons x xs)
  then obtain b where "p x = Some b" by fastforce
  with Cons show ?case by simp
qed simp

section \<open>Loops that may oops\<close>

text \<open>A loop over a list whose body may oops.\<close>

fun foldM :: "('x \<Rightarrow> 's \<Rightarrow> 's option) \<Rightarrow> 'x list \<Rightarrow> 's \<Rightarrow> 's option" where
  "foldM f [] s = Some s"
| "foldM f (x # xs) s = do { s' \<leftarrow> f x s; foldM f xs s' }"

lemma foldM_append: "foldM f (xs @ ys) s = do { t \<leftarrow> foldM f xs s; foldM f ys t }"
  by (induction xs arbitrary: s) (auto split: Option.bind_split)

lemma foldM_inv:
  assumes "\<And>x s s'. x \<in> set xs \<Longrightarrow> I s \<Longrightarrow> f x s = Some s' \<Longrightarrow> I s'"
    and "I s" "foldM f xs s = Some t"
  shows "I t"
  using assms by (induction xs arbitrary: s) (auto split: Option.bind_splits)

lemma foldM_total:
  assumes "\<And>x s. x \<in> set xs \<Longrightarrow> I s \<Longrightarrow> \<exists>s'. f x s = Some s' \<and> I s'"
    and "I s"
  shows "\<exists>t. foldM f xs s = Some t \<and> I t"
  using assms
proof (induction xs arbitrary: s)
  case (Cons x xs)
  then obtain s' where s': "f x s = Some s'" "I s'" by (meson list.set_intros(1))
  have "\<exists>t. foldM f xs s' = Some t \<and> I t"
    by (rule Cons.IH) (use Cons.prems s' in auto)
  with s' show ?case by simp
qed simp

end
