(* ===== verification/Params.thy ===== *)
theory Params
  imports Prelude
begin

text \<open>
  The tunables of \<open>src/params.h\<close> and \<open>src/params.c\<close>: the global \<open>int\<close> variables, their
  initial values, the table \<open>iso_params\<close> that exports them, and the registration of that
  table with sysctl in \<open>iso_params_init\<close>. A tunable is a C \<open>int\<close>, so its value is an
  \<^typ>\<open>int\<close> in the 32-bit range; sysctl writes any such value without a range check.
\<close>

section \<open>The tunables\<close>

record tunables =
  ISO_FALPHA :: int
  ISO_MAX_TX_RATE :: int
  ISO_VQ_DRAIN_RATE_MBPS :: int
  ISO_MAX_BURST_TIME_US :: int
  ISO_MIN_BURST_BYTES :: int
  ISO_RATEMEASURE_INTERVAL_US :: int
  ISO_TOKENBUCKET_TIMEOUT_NS :: int
  ISO_TOKENBUCKET_MARK_THRESH_BYTES :: int
  ISO_TOKENBUCKET_DROP_THRESH_BYTES :: int
  ISO_VQ_MARK_THRESH_BYTES :: int
  ISO_VQ_MAX_BYTES :: int
  ISO_RFAIR_INITIAL :: int
  ISO_MIN_RFAIR :: int
  ISO_RFAIR_INCREMENT :: int
  ISO_RFAIR_DECREASE_INTERVAL_US :: int
  ISO_RFAIR_INCREASE_INTERVAL_US :: int
  ISO_RFAIR_FEEDBACK_TIMEOUT_US :: int
  ISO_RFAIR_FEEDBACK_TIMEOUT_DEFAULT_RATE :: int
  IsoGlobalEnabled :: int
  IsoAutoGenerateFeedback :: int
  ISO_FEEDBACK_INTERVAL_US :: int
  ISO_FEEDBACK_INTERVAL_BYTES :: int
  ISO_FEEDBACK_PACKET_IPPROTO :: int
  ISO_RL_UPDATE_INTERVAL_US :: int
  ISO_BURST_FACTOR :: int
  ISO_VQ_UPDATE_INTERVAL_US :: int
  ISO_TXC_UPDATE_INTERVAL_US :: int
  ISO_VQ_REFRESH_INTERVAL_US :: int
  ISO_MAX_QUEUE_LEN_BYTES :: int
  ISO_TX_MARK_THRESH :: int
  ISO_GSO_THRESH_RATE :: int
  ISO_GSO_MIN_SPLIT_BYTES :: int
  ISO_ECN_MARK_THRESH_BYTES :: int
  ISO_VQ_HRCP_US :: int

text \<open>The initial values (\<open>src/params.c\<close>).\<close>

definition default_tunables :: tunables where
  "default_tunables = \<lparr>
     ISO_FALPHA = 8,
     ISO_MAX_TX_RATE = 9800,
     ISO_VQ_DRAIN_RATE_MBPS = 9000,
     ISO_MAX_BURST_TIME_US = 150,
     ISO_MIN_BURST_BYTES = 65536,
     ISO_RATEMEASURE_INTERVAL_US = 1000 * 100,
     ISO_TOKENBUCKET_TIMEOUT_NS = 50 * 1000,
     ISO_TOKENBUCKET_MARK_THRESH_BYTES = 512 * 1024,
     ISO_TOKENBUCKET_DROP_THRESH_BYTES = 512 * 1024,
     ISO_VQ_MARK_THRESH_BYTES = 128 * 1024,
     ISO_VQ_MAX_BYTES = 256 * 1024,
     ISO_RFAIR_INITIAL = 5000,
     ISO_MIN_RFAIR = 10,
     ISO_RFAIR_INCREMENT = 10,
     ISO_RFAIR_DECREASE_INTERVAL_US = 120,
     ISO_RFAIR_INCREASE_INTERVAL_US = 120,
     ISO_RFAIR_FEEDBACK_TIMEOUT_US = 1000 * 1000,
     ISO_RFAIR_FEEDBACK_TIMEOUT_DEFAULT_RATE = 10,
     IsoGlobalEnabled = 1,
     IsoAutoGenerateFeedback = 1,
     ISO_FEEDBACK_INTERVAL_US = 100,
     ISO_FEEDBACK_INTERVAL_BYTES = 10000,
     ISO_FEEDBACK_PACKET_IPPROTO = 143,
     ISO_RL_UPDATE_INTERVAL_US = 20,
     ISO_BURST_FACTOR = 8,
     ISO_VQ_UPDATE_INTERVAL_US = 200,
     ISO_TXC_UPDATE_INTERVAL_US = 200,
     ISO_VQ_REFRESH_INTERVAL_US = 500,
     ISO_MAX_QUEUE_LEN_BYTES = 128 * 1024,
     ISO_TX_MARK_THRESH = 100 * 1024,
     ISO_GSO_THRESH_RATE = 1000,
     ISO_GSO_MIN_SPLIT_BYTES = 10000,
     ISO_ECN_MARK_THRESH_BYTES = 30 * 1500,
     ISO_VQ_HRCP_US = 1000 \<rparr>"

text \<open>The constants of \<open>src/params.c\<close> and the macros of \<open>src/params.h\<close>.\<close>

definition ISO_FEEDBACK_PACKET_SIZE :: int where "ISO_FEEDBACK_PACKET_SIZE = 64"
definition ISO_FEEDBACK_HEADER_SIZE :: u16 where "ISO_FEEDBACK_HEADER_SIZE = 20"
definition ISO_FEEDBACK_PACKET_TTL :: u8 where "ISO_FEEDBACK_PACKET_TTL = 64"

definition ISO_MAX_TX_BUCKETS :: nat where "ISO_MAX_TX_BUCKETS = 256"
definition ISO_MAX_RL_BUCKETS :: nat where "ISO_MAX_RL_BUCKETS = 256"
definition ISO_MAX_STATE_BUCKETS :: nat where "ISO_MAX_STATE_BUCKETS = 256"
definition ISO_MAX_VQ_BUCKETS :: nat where "ISO_MAX_VQ_BUCKETS = 256"

definition ISO_IDLE_TIMEOUT_US :: int where "ISO_IDLE_TIMEOUT_US = s32 (100 * 1000 * 10 * 1000)"
definition ISO_IDLE_RATE :: int where "ISO_IDLE_RATE = 2500"
definition ISO_GSO_MAX_SIZE :: int where "ISO_GSO_MAX_SIZE = 32767"

lemma ISO_IDLE_TIMEOUT_US_value: "ISO_IDLE_TIMEOUT_US = 1000000000"
  by (simp add: ISO_IDLE_TIMEOUT_US_def s32_id)

text \<open>The index \<open>hash & (BUCKETS - 1)\<close> of a table of \<open>n\<close> buckets.\<close>

definition bucket_index :: "u32 \<Rightarrow> nat \<Rightarrow> nat" where
  "bucket_index h n = unat (h AND of_nat (n - 1))"

lemma bucket_index_bound: "0 < n \<Longrightarrow> n \<le> 2 ^ 32 \<Longrightarrow> bucket_index h n < n"
proof -
  assume n: "0 < n" "n \<le> 2 ^ 32"
  have "unat (h AND of_nat (n - 1)) \<le> unat (of_nat (n - 1) :: u32)"
    by (metis word_and_le1 word_le_nat_alt)
  also have "\<dots> \<le> n - 1" by (simp add: unat_of_nat)
  finally show ?thesis using n by (simp add: bucket_index_def)
qed

section \<open>The sysctl table\<close>

text \<open>
  An entry of \<open>iso_params\<close> is a name and a pointer to a tunable; the pointer is the pair
  of the record's selector and update. \<^term>\<open>None\<close> is the NULL that ends the table.
\<close>

record iso_param =
  param_name :: string
  param_ptr :: "((tunables \<Rightarrow> int) \<times> ((int \<Rightarrow> int) \<Rightarrow> tunables \<Rightarrow> tunables)) option"

definition iso_params :: "iso_param list" where
  "iso_params = map (\<lambda>(n, p). \<lparr>param_name = n, param_ptr = p\<rparr>)
   [(''ISO_MAX_TX_RATE'', Some (ISO_MAX_TX_RATE, ISO_MAX_TX_RATE_update)),
    (''ISO_VQ_DRAIN_RATE_MBPS'', Some (ISO_VQ_DRAIN_RATE_MBPS, ISO_VQ_DRAIN_RATE_MBPS_update)),
    (''ISO_MAX_BURST_TIME_US'', Some (ISO_MAX_BURST_TIME_US, ISO_MAX_BURST_TIME_US_update)),
    (''ISO_MIN_BURST_BYTES'', Some (ISO_MIN_BURST_BYTES, ISO_MIN_BURST_BYTES_update)),
    (''ISO_RATEMEASURE_INTERVAL_US'',
      Some (ISO_RATEMEASURE_INTERVAL_US, ISO_RATEMEASURE_INTERVAL_US_update)),
    (''ISO_TOKENBUCKET_TIMEOUT_NS'',
      Some (ISO_TOKENBUCKET_TIMEOUT_NS, ISO_TOKENBUCKET_TIMEOUT_NS_update)),
    (''ISO_TOKENBUCKET_MARK_THRESH_BYTES'',
      Some (ISO_TOKENBUCKET_MARK_THRESH_BYTES, ISO_TOKENBUCKET_MARK_THRESH_BYTES_update)),
    (''ISO_TOKENBUCKET_DROP_THRESH_BYTES'',
      Some (ISO_TOKENBUCKET_DROP_THRESH_BYTES, ISO_TOKENBUCKET_DROP_THRESH_BYTES_update)),
    (''ISO_VQ_MARK_THRESH_BYTES'',
      Some (ISO_VQ_MARK_THRESH_BYTES, ISO_VQ_MARK_THRESH_BYTES_update)),
    (''ISO_VQ_MAX_BYTES'', Some (ISO_VQ_MAX_BYTES, ISO_VQ_MAX_BYTES_update)),
    (''ISO_RFAIR_INITIAL'', Some (ISO_RFAIR_INITIAL, ISO_RFAIR_INITIAL_update)),
    (''ISO_MIN_RFAIR'', Some (ISO_MIN_RFAIR, ISO_MIN_RFAIR_update)),
    (''ISO_RFAIR_FEEDBACK_TIMEOUT'',
      Some (ISO_RFAIR_FEEDBACK_TIMEOUT_US, ISO_RFAIR_FEEDBACK_TIMEOUT_US_update)),
    (''ISO_RFAIR_FEEDBACK_TIMEOUT_DEFAULT_RATE'',
      Some (ISO_RFAIR_FEEDBACK_TIMEOUT_DEFAULT_RATE,
            ISO_RFAIR_FEEDBACK_TIMEOUT_DEFAULT_RATE_update)),
    (''IsoGlobalEnabled'', Some (IsoGlobalEnabled, IsoGlobalEnabled_update)),
    (''IsoAutoGenerateFeedback'',
      Some (IsoAutoGenerateFeedback, IsoAutoGenerateFeedback_update)),
    (''ISO_FEEDBACK_PACKET_IPPROTO'',
      Some (ISO_FEEDBACK_PACKET_IPPROTO, ISO_FEEDBACK_PACKET_IPPROTO_update)),
    (''ISO_FEEDBACK_INTERVAL_US'',
      Some (ISO_FEEDBACK_INTERVAL_US, ISO_FEEDBACK_INTERVAL_US_update)),
    (''ISO_FEEDBACK_INTERVAL_BYTES'',
      Some (ISO_FEEDBACK_INTERVAL_BYTES, ISO_FEEDBACK_INTERVAL_BYTES_update)),
    (''ISO_RL_UPDATE_INTERVAL_US'',
      Some (ISO_RL_UPDATE_INTERVAL_US, ISO_RL_UPDATE_INTERVAL_US_update)),
    (''ISO_VQ_UPDATE_INTERVAL_US'',
      Some (ISO_VQ_UPDATE_INTERVAL_US, ISO_VQ_UPDATE_INTERVAL_US_update)),
    (''ISO_TXC_UPDATE_INTERVAL_US'',
      Some (ISO_TXC_UPDATE_INTERVAL_US, ISO_TXC_UPDATE_INTERVAL_US_update)),
    (''ISO_VQ_REFRESH_INTERVAL_US'',
      Some (ISO_VQ_REFRESH_INTERVAL_US, ISO_VQ_REFRESH_INTERVAL_US_update)),
    (''ISO_MAX_QUEUE_LEN_BYTES'',
      Some (ISO_MAX_QUEUE_LEN_BYTES, ISO_MAX_QUEUE_LEN_BYTES_update)),
    (''ISO_TX_MARK_THRESH'', Some (ISO_TX_MARK_THRESH, ISO_TX_MARK_THRESH_update)),
    (''ISO_ECN_MARK_THRESH_BYTES'',
      Some (ISO_ECN_MARK_THRESH_BYTES, ISO_ECN_MARK_THRESH_BYTES_update)),
    (''ISO_VQ_HRCP_US'', Some (ISO_VQ_HRCP_US, ISO_VQ_HRCP_US_update)),
    ('''', None)]"

text \<open>
  \<open>iso_params_init\<close> zeroes a table of 32 \<open>ctl_table\<close> slots and fills slot \<open>i\<close> from
  \<open>iso_params[i]\<close> until the NULL entry. A zero slot has no name and ends the sysctl
  table. The result is the table; registering it (\<open>register_sysctl_paths\<close>) may fail,
  which is the argument \<open>registered\<close>.
\<close>

record ctl_table =
  procname :: "string option"
  ctl_data :: "((tunables \<Rightarrow> int) \<times> ((int \<Rightarrow> int) \<Rightarrow> tunables \<Rightarrow> tunables)) option"
  maxlen :: int
  ctl_mode :: int

definition ctl_zero :: ctl_table where
  "ctl_zero = \<lparr>procname = None, ctl_data = None, maxlen = 0, ctl_mode = 0\<rparr>"

fun fill_table :: "iso_param list \<Rightarrow> ctl_table list \<Rightarrow> ctl_table list" where
  "fill_table (p # ps) (e # es) =
     (case param_ptr p of
        None \<Rightarrow> e # es
      | Some d \<Rightarrow>
          e\<lparr>procname := Some (param_name p), ctl_data := Some d, maxlen := 4, ctl_mode := 420\<rparr>
          # fill_table ps es)"
| "fill_table _ es = es"

definition iso_params_init :: "bool \<Rightarrow> int \<times> ctl_table list" where
  "iso_params_init registered =
     (let t = fill_table iso_params (replicate 32 ctl_zero)
      in (if registered then 0 else - 1, t))"

text \<open>
  A write to \<open>/proc/sys/perfiso/<name>\<close>: \<open>proc_dointvec\<close> stores the integer into the
  variable of the entry with that name; an unknown name is no file.
\<close>

fun sysctl_entry :: "ctl_table list \<Rightarrow> string \<Rightarrow> ctl_table option" where
  "sysctl_entry [] n = None"
| "sysctl_entry (e # es) n =
     (case procname e of
        None \<Rightarrow> None
      | Some m \<Rightarrow> if m = n then Some e else sysctl_entry es n)"

definition sysctl_write :: "ctl_table list \<Rightarrow> string \<Rightarrow> int \<Rightarrow> tunables \<Rightarrow> tunables option" where
  "sysctl_write t n v P =
     do { e \<leftarrow> sysctl_entry t n; d \<leftarrow> ctl_data e; Some (snd d (\<lambda>_. s32 v) P) }"

definition sysctl_read :: "ctl_table list \<Rightarrow> string \<Rightarrow> tunables \<Rightarrow> int option" where
  "sysctl_read t n P = do { e \<leftarrow> sysctl_entry t n; d \<leftarrow> ctl_data e; Some (fst d P) }"

definition exported :: "string list" where
  "exported = map param_name (butlast iso_params)"

lemma exported_distinct: "distinct exported"
  by (simp add: exported_def iso_params_def)

lemma fill_table_slots:
  "map procname (snd (iso_params_init b)) = map Some exported @ replicate 5 None"
  by (simp add: iso_params_init_def iso_params_def exported_def ctl_zero_def numeral_eq_Suc)

section \<open>Sane tunables\<close>

text \<open>
  The ranges the control laws rely on. They hold for the initial values and for the 1GbE
  values that \<open>src/tools/perfiso.py\<close> installs; sysctl does not enforce them.
\<close>

definition sane_tunables :: "tunables \<Rightarrow> bool" where
  "sane_tunables P \<longleftrightarrow>
     1 \<le> ISO_MIN_RFAIR P \<and> ISO_MIN_RFAIR P \<le> ISO_VQ_DRAIN_RATE_MBPS P \<and>
     ISO_VQ_DRAIN_RATE_MBPS P \<le> ISO_MAX_TX_RATE P \<and> ISO_MAX_TX_RATE P \<le> 20000 \<and>
     0 < ISO_VQ_UPDATE_INTERVAL_US P \<and> 0 < ISO_TXC_UPDATE_INTERVAL_US P \<and>
     0 < ISO_VQ_HRCP_US P \<and>
     0 < ISO_RL_UPDATE_INTERVAL_US P \<and>
     0 < ISO_MIN_BURST_BYTES P \<and> ISO_MIN_BURST_BYTES P \<le> 2 ^ 20 \<and>
     0 < ISO_MAX_BURST_TIME_US P \<and> ISO_MAX_BURST_TIME_US P \<le> 10000 \<and>
     0 < ISO_MAX_QUEUE_LEN_BYTES P \<and> ISO_MAX_QUEUE_LEN_BYTES P \<le> 2 ^ 30 \<and>
     0 \<le> ISO_ECN_MARK_THRESH_BYTES P \<and> ISO_ECN_MARK_THRESH_BYTES P \<le> 2 ^ 17"

lemma default_tunables_sane: "sane_tunables default_tunables"
  by (simp add: sane_tunables_def default_tunables_def)

end
