(* ===== verification/Kernel.thy ===== *)
theory Kernel
  imports Params
begin

text \<open>
  What the module sees of Linux.

  \<^item> \<open>kenv\<close> is the part of the machine state every handler can read: the tunables, the
    readings of the clock, the outcomes of \<open>spin_trylock\<close> and of the allocators, the
    running CPU. The readings and outcomes are arbitrary sequences; each call takes the
    next one, so two calls in one handler may differ.
  \<^item> Packets: \<open>sk_buff\<close> with its Ethernet and IPv4 header, as far as the module reads or
    writes them (the checksum is left out), and the byte order of a little-endian host.
  \<^item> \<open>kapi\<close> holds the kernel functions whose result the module uses but whose code is not
    part of the repository: the hash \<open>jhash_1word\<close>, \<open>skb_gso_segment\<close> and
    \<open>ipv4_change_dsfield\<close>.
  \<^item> The inline packet helpers of \<open>src/rl.h\<close>, \<open>src/tx.h\<close> and \<open>src/rx.h\<close>.
\<close>

section \<open>The environment\<close>

record kenv =
  tun :: tunables
  clock :: "nat \<Rightarrow> ktime"
  ticks :: nat
  trylocks :: "nat \<Rightarrow> bool"
  nlocks :: nat
  allocs :: "nat \<Rightarrow> bool"
  nallocs :: nat
  fresh :: nat
  online :: "cpu list"
  possible :: "cpu list"
  this_cpu :: cpu
  iso_exiting :: bool
  garbage :: "nat \<Rightarrow> int"

definition ktime_get :: "'z kenv_scheme \<Rightarrow> ktime \<times> 'z kenv_scheme" where
  "ktime_get s = (clock s (ticks s), s\<lparr>ticks := Suc (ticks s)\<rparr>)"

definition spin_trylock :: "'z kenv_scheme \<Rightarrow> bool \<times> 'z kenv_scheme" where
  "spin_trylock s = (trylocks s (nlocks s), s\<lparr>nlocks := Suc (nlocks s)\<rparr>)"

text \<open>\<open>kmalloc\<close> and its kin: a fresh address, or NULL.\<close>

definition kmalloc :: "'z kenv_scheme \<Rightarrow> nat option \<times> 'z kenv_scheme" where
  "kmalloc s =
     (if allocs s (nallocs s) then (Some (fresh s), s\<lparr>nallocs := Suc (nallocs s), fresh := Suc (fresh s)\<rparr>)
      else (None, s\<lparr>nallocs := Suc (nallocs s)\<rparr>))"

definition alloc_percpu :: "'z kenv_scheme \<Rightarrow> bool \<times> 'z kenv_scheme" where
  "alloc_percpu s = (allocs s (nallocs s), s\<lparr>nallocs := Suc (nallocs s)\<rparr>)"

definition netdev_alloc_skb :: "'z kenv_scheme \<Rightarrow> bool \<times> 'z kenv_scheme" where
  "netdev_alloc_skb s = (allocs s (nallocs s), s\<lparr>nallocs := Suc (nallocs s)\<rparr>)"

lemmas kenv_ops = ktime_get_def spin_trylock_def kmalloc_def alloc_percpu_def
  netdev_alloc_skb_def

section \<open>Byte order\<close>

definition htons :: "u16 \<Rightarrow> u16" where
  "htons x = push_bit 8 x OR drop_bit 8 x"

text \<open>Octet \<open>i\<close> of a 32-bit value, counted from the least significant one, and the value
  with four given octets, the most significant first.\<close>

definition octet :: "nat \<Rightarrow> u32 \<Rightarrow> u32" where
  "octet i x = take_bit 8 (drop_bit (8 * i) x)"
definition octets :: "u32 \<Rightarrow> u32 \<Rightarrow> u32 \<Rightarrow> u32 \<Rightarrow> u32" where
  "octets a b c d = push_bit 24 a OR push_bit 16 b OR push_bit 8 c OR d"
definition htonl :: "u32 \<Rightarrow> u32" where
  "htonl x = octets (octet 0 x) (octet 1 x) (octet 2 x) (octet 3 x)"

lemma bit_octet: "bit (octet i x) n \<longleftrightarrow> n < 8 \<and> bit x (8 * i + n)"
  by (simp add: octet_def bit_simps)

lemma octet_octets:
  assumes "take_bit 8 a = a" "take_bit 8 b = b" "take_bit 8 c = c" "take_bit 8 d = d"
  shows "octet 3 (octets a b c d) = a" "octet 2 (octets a b c d) = b"
    "octet 1 (octets a b c d) = c" "octet 0 (octets a b c d) = d"
proof -
  have B: "bit y n \<Longrightarrow> n < 8" if "take_bit 8 y = y" for y :: u32 and n
    using that by (metis bit_take_bit_iff)
  note bs = B [OF assms(1)] B [OF assms(2)] B [OF assms(3)] B [OF assms(4)]
  show "octet 3 (octets a b c d) = a"
    by (rule bit_word_eqI) (use bs in \<open>force simp: bit_octet octets_def bit_simps\<close>)
  show "octet 2 (octets a b c d) = b"
    by (rule bit_word_eqI) (use bs in \<open>force simp: bit_octet octets_def bit_simps\<close>)
  show "octet 1 (octets a b c d) = c"
    by (rule bit_word_eqI) (use bs in \<open>force simp: bit_octet octets_def bit_simps\<close>)
  show "octet 0 (octets a b c d) = d"
    by (rule bit_word_eqI) (use bs in \<open>force simp: bit_octet octets_def bit_simps\<close>)
qed
lemma octets_octet: "octets (octet 3 x) (octet 2 x) (octet 1 x) (octet 0 x) = x"
proof (rule bit_word_eqI)
  fix n assume n: "n < LENGTH(32)"
  consider "n < 8" | "8 \<le> n" "n < 16" | "16 \<le> n" "n < 24" | "24 \<le> n" by linarith
  then show "bit (octets (octet 3 x) (octet 2 x) (octet 1 x) (octet 0 x)) n \<longleftrightarrow> bit x n"
    by cases (use n in \<open>auto simp: octets_def bit_octet bit_simps\<close>)
qed

lemma take_bit_octet [simp]: "take_bit 8 (octet i x) = octet i x"
  by (simp add: octet_def)

lemma htonl_htonl [simp]: "htonl (htonl x) = x"
  unfolding htonl_def
  by (simp only: octet_octets take_bit_octet octets_octet)

lemma htons_htons [simp]: "htons (htons x) = x"
  unfolding htons_def by (rule bit_word_eqI) (auto simp: bit_simps)

definition ETH_P_IP :: u16 where "ETH_P_IP = 0x0800"
definition ETH_HLEN :: u32 where "ETH_HLEN = 14"

section \<open>Packets\<close>

datatype pkt_type = PACKET_HOST | PACKET_OUTGOING | PACKET_LOOPBACK

record ethhdr =
  h_dest :: "48 word"
  h_source :: "48 word"
  h_proto :: u16

record iphdr =
  ihl :: nat
  version :: nat
  tos :: u8
  tot_len :: u16
  ip_id :: u16
  frag_off :: u16
  ttl :: u8
  protocol :: u8
  saddr :: u32
  daddr :: u32

record sk_buff =
  skb_len :: u32
  skb_dev :: dev
  skb_protocol :: u16
  skb_pkt_type :: pkt_type
  queue_mapping :: nat
  skb_mark :: u32
  eth_hdr :: ethhdr
  ip_hdr :: iphdr
  l4_dest :: u16

text \<open>The result of \<open>skb_gso_segment\<close>: an error pointer, NULL, or a chain of segments.\<close>

datatype gso = GsoErr | GsoNull | GsoSegs sk_buff "sk_buff list"

record kapi =
  jhash_1word :: "u32 \<Rightarrow> u32 \<Rightarrow> u32"
  skb_gso_segment :: "sk_buff \<Rightarrow> gso"
  ipv4_change_ds :: "u8 \<Rightarrow> u8 \<Rightarrow> u8 \<Rightarrow> u8"

text \<open>
  The documented behaviour of \<open>ipv4_change_dsfield(iph, mask, value)\<close>: the bits of the old
  field that are in \<open>mask\<close> are kept and the bits of \<open>value\<close> are added.
\<close>

definition change_ds_documented :: "kapi \<Rightarrow> bool" where
  "change_ds_documented K \<longleftrightarrow>
     (\<forall>old m val. ipv4_change_ds K old m val = (old AND m) OR val)"

definition ipv4_change_dsfield :: "kapi \<Rightarrow> u8 \<Rightarrow> u8 \<Rightarrow> sk_buff \<Rightarrow> sk_buff" where
  "ipv4_change_dsfield K m val skb =
     skb\<lparr>ip_hdr := (ip_hdr skb)\<lparr>tos := ipv4_change_ds K (tos (ip_hdr skb)) m val\<rparr>\<rparr>"

definition is_ip :: "sk_buff \<Rightarrow> bool" where
  "is_ip skb \<longleftrightarrow> h_proto (eth_hdr skb) = htons ETH_P_IP"

text \<open>\<open>skb_size\<close>: an unsigned sum returned as \<open>int\<close>.\<close>

definition skb_size :: "sk_buff \<Rightarrow> int" where
  "skb_size skb = sint (ETH_HLEN + skb_len skb)"

text \<open>A packet carries at most 64 KB of data behind its headers; 1 MB is a safe bound.\<close>

definition wf_skb :: "sk_buff \<Rightarrow> bool" where
  "wf_skb skb \<longleftrightarrow> uint (skb_len skb) < 2 ^ 20"

lemma skb_size_wf:
  assumes "wf_skb skb"
  shows "skb_size skb = 14 + uint (skb_len skb)" "14 \<le> skb_size skb" "skb_size skb < 2 ^ 21"
proof -
  have u: "uint (ETH_HLEN + skb_len skb) = 14 + uint (skb_len skb)"
    using assms by (subst uint_add_bounded) (simp_all add: ETH_HLEN_def wf_skb_def)
  have "sint (ETH_HLEN + skb_len skb) = uint (ETH_HLEN + skb_len skb)"
    using assms u by (simp add: sint_uint wf_skb_def signed_take_bit_int_eq_self)
  with u assms show "skb_size skb = 14 + uint (skb_len skb)"
    and "14 \<le> skb_size skb" and "skb_size skb < 2 ^ 21"
    by (simp_all add: skb_size_def wf_skb_def)
qed

text \<open>The size as the 64-bit counters add it, and as the 32-bit \<open>size\<close> subtracts it.\<close>

definition skb_bytes :: "sk_buff \<Rightarrow> u64" where
  "skb_bytes skb = of_int (skb_size skb)"

definition skb_size32 :: "sk_buff \<Rightarrow> u32" where
  "skb_size32 skb = of_int (skb_size skb)"

lemma uint_skb_bytes: "wf_skb skb \<Longrightarrow> uint (skb_bytes skb) = skb_size skb"
  using skb_size_wf(2,3) [of skb] unfolding skb_bytes_def by (subst uint_of_int) simp_all

lemma uint_skb_size32: "wf_skb skb \<Longrightarrow> uint (skb_size32 skb) = skb_size skb"
  using skb_size_wf(2,3) [of skb] unfolding skb_size32_def by (subst uint_of_int) simp_all

lemma ucast_skb_size32: "wf_skb skb \<Longrightarrow> ucast (skb_size32 skb) = skb_bytes skb"
  by (rule word_uint_eqI)
    (use skb_size_wf(3) [of skb] in \<open>simp add: uint_ucast_bounded uint_skb_size32 uint_skb_bytes\<close>)

text \<open>A change of the DS field changes neither size nor class of a packet.\<close>

lemma ipv4_change_dsfield_simps [simp]:
  "skb_len (ipv4_change_dsfield K m v skb) = skb_len skb"
  "skb_size (ipv4_change_dsfield K m v skb) = skb_size skb"
  "skb_bytes (ipv4_change_dsfield K m v skb) = skb_bytes skb"
  "skb_size32 (ipv4_change_dsfield K m v skb) = skb_size32 skb"
  "wf_skb (ipv4_change_dsfield K m v skb) = wf_skb skb"
  "is_ip (ipv4_change_dsfield K m v skb) = is_ip skb"
  "skb_dev (ipv4_change_dsfield K m v skb) = skb_dev skb"
  "eth_hdr (ipv4_change_dsfield K m v skb) = eth_hdr skb"
  "saddr (ip_hdr (ipv4_change_dsfield K m v skb)) = saddr (ip_hdr skb)"
  "daddr (ip_hdr (ipv4_change_dsfield K m v skb)) = daddr (ip_hdr skb)"
  "protocol (ip_hdr (ipv4_change_dsfield K m v skb)) = protocol (ip_hdr skb)"
  "ip_id (ip_hdr (ipv4_change_dsfield K m v skb)) = ip_id (ip_hdr skb)"
  by (simp_all add: ipv4_change_dsfield_def skb_size_def skb_bytes_def skb_size32_def
      wf_skb_def is_ip_def)

section \<open>ECN and feedback helpers\<close>

definition ISO_ECN_REFLECT_MASK :: u8 where "ISO_ECN_REFLECT_MASK = push_bit 3 1"

text \<open>
  \<open>skb_set_feedback\<close>: \<open>ipv4_copy_dscp(newdscp, iph)\<close> is
  \<open>ipv4_change_dsfield(iph, INET_ECN_MASK, newdscp & ~INET_ECN_MASK)\<close>.
\<close>

definition skb_set_feedback :: "kapi \<Rightarrow> sk_buff \<Rightarrow> int \<times> sk_buff" where
  "skb_set_feedback K skb =
     (if \<not> is_ip skb then (1, skb)
      else let newdscp = tos (ip_hdr skb) OR ISO_ECN_REFLECT_MASK
           in (0, ipv4_change_dsfield K 3 (newdscp AND NOT 3) skb))"

definition skb_has_feedback :: "tunables \<Rightarrow> sk_buff \<Rightarrow> int" where
  "skb_has_feedback P skb =
     (if \<not> is_ip skb then 0
      else if uint (protocol (ip_hdr skb)) \<noteq> ISO_FEEDBACK_PACKET_IPPROTO P then 0
      else uint (ip_id (ip_hdr skb)))"

definition iso_enable_ecn :: "kapi \<Rightarrow> sk_buff \<Rightarrow> sk_buff" where
  "iso_enable_ecn K skb = ipv4_change_dsfield K 0xff (tos (ip_hdr skb) OR 2) skb"

definition iso_clear_ecn :: "kapi \<Rightarrow> sk_buff \<Rightarrow> sk_buff" where
  "iso_clear_ecn K skb = ipv4_change_dsfield K 0xff (tos (ip_hdr skb) AND NOT 3) skb"

definition iso_is_generated_feedback :: "tunables \<Rightarrow> sk_buff \<Rightarrow> bool" where
  "iso_is_generated_feedback P skb \<longleftrightarrow>
     is_ip skb \<and> uint (protocol (ip_hdr skb)) = ISO_FEEDBACK_PACKET_IPPROTO P"

definition iso_is_feedback_marked :: "tunables \<Rightarrow> sk_buff \<Rightarrow> int" where
  "iso_is_feedback_marked P skb =
     (if is_ip skb \<and> uint (protocol (ip_hdr skb)) = ISO_FEEDBACK_PACKET_IPPROTO P
      then uint (ip_id (ip_hdr skb)) else 0)"

lemma iso_is_feedback_marked_eq: "iso_is_feedback_marked P skb = skb_has_feedback P skb"
  by (simp add: iso_is_feedback_marked_def skb_has_feedback_def)

text \<open>
  The packet that \<open>iso_generate_feedback(fb, pkt)\<close> hands to \<open>skb_xmit\<close>. The buffer of
  \<open>netdev_alloc_skb(pkt->dev, 64)\<close> is zero-filled here where the code does not set it
  (the mark); \<open>skb_pull\<close> and \<open>skb_push\<close> of the Ethernet header cancel.
  \<open>id\<close> is a 16-bit field and \<open>fb\<close> an \<open>int\<close>.
\<close>

definition feedback_packet :: "tunables \<Rightarrow> int \<Rightarrow> sk_buff \<Rightarrow> sk_buff" where
  "feedback_packet P fb pkt =
     \<lparr>skb_len = of_int ISO_FEEDBACK_PACKET_SIZE,
      skb_dev = skb_dev pkt,
      skb_protocol = htons ETH_P_IP,
      skb_pkt_type = PACKET_OUTGOING,
      queue_mapping = 0,
      skb_mark = 0,
      eth_hdr = \<lparr>h_dest = h_source (eth_hdr pkt), h_source = h_dest (eth_hdr pkt),
                 h_proto = h_proto (eth_hdr pkt)\<rparr>,
      ip_hdr = \<lparr>ihl = 5, version = 4,
                tos = 2 OR (if fb \<noteq> 0 then ISO_ECN_REFLECT_MASK else 0),
                tot_len = htons ISO_FEEDBACK_HEADER_SIZE,
                ip_id = of_int fb,
                frag_off = 0,
                ttl = ISO_FEEDBACK_PACKET_TTL,
                protocol = of_int (ISO_FEEDBACK_PACKET_IPPROTO P),
                saddr = daddr (ip_hdr pkt),
                daddr = saddr (ip_hdr pkt)\<rparr>,
      l4_dest = 0\<rparr>"

lemma feedback_packet_simps [simp]:
  "skb_dev (feedback_packet P fb pkt) = skb_dev pkt"
  "is_ip (feedback_packet P fb pkt) = is_ip pkt"
  "saddr (ip_hdr (feedback_packet P fb pkt)) = daddr (ip_hdr pkt)"
  "daddr (ip_hdr (feedback_packet P fb pkt)) = saddr (ip_hdr pkt)"
  "wf_skb (feedback_packet P fb pkt)"
  by (simp_all add: feedback_packet_def is_ip_def wf_skb_def ISO_FEEDBACK_PACKET_SIZE_def)

end
