(* ===== verification/Classes.thy ===== *)
theory Classes
  imports Kernel
begin

text \<open>
  Traffic classes (\<open>src/class.h\<close>). The module is built with \<open>ISO_TX_CLASS_IPADDR\<close>: a class
  is an IPv4 address in network byte order, read from the source address of a sent packet
  and from the destination address of a received one. Classes are configured as dotted
  strings, so the theory also models what the code uses of \<open>sprintf\<close> and \<open>sscanf\<close>. The
  class functions of the builds by packet mark and by layer-4 port follow at the end.
\<close>

section \<open>Decimal numbers\<close>

definition digit :: "nat \<Rightarrow> char" where
  "digit n = char_of (48 + n)"

definition is_digit :: "char \<Rightarrow> bool" where
  "is_digit c \<longleftrightarrow> 48 \<le> (of_char c :: nat) \<and> (of_char c :: nat) < 58"

definition digit_val :: "char \<Rightarrow> nat" where
  "digit_val c = of_char c - 48"

lemma digit_simps [simp]: "n < 10 \<Longrightarrow> is_digit (digit n)" "n < 10 \<Longrightarrow> digit_val (digit n) = n"
  by (simp_all add: digit_def is_digit_def digit_val_def)

text \<open>\<open>%u\<close> of \<open>sprintf\<close>.\<close>

fun dec :: "nat \<Rightarrow> string" where
  "dec n = (if n < 10 then [digit n] else dec (n div 10) @ [digit (n mod 10)])"

declare dec.simps [simp del]

text \<open>\<open>%u\<close> of \<open>sscanf\<close>: white space is skipped, then at least one digit is read.\<close>

fun scan_digits :: "nat \<Rightarrow> string \<Rightarrow> nat \<times> string" where
  "scan_digits acc [] = (acc, [])"
| "scan_digits acc (c # cs) =
     (if is_digit c then scan_digits (10 * acc + digit_val c) cs else (acc, c # cs))"

definition is_space :: "char \<Rightarrow> bool" where
  "is_space c \<longleftrightarrow> c = CHR '' '' \<or> (9 \<le> (of_char c :: nat) \<and> (of_char c :: nat) \<le> 13)"

definition scan_u :: "string \<Rightarrow> (nat \<times> string) option" where
  "scan_u str =
     (case dropWhile is_space str of
        [] \<Rightarrow> None
      | c # cs \<Rightarrow> if is_digit c then Some (scan_digits 0 (c # cs)) else None)"

definition scan_lit :: "char \<Rightarrow> string \<Rightarrow> string option" where
  "scan_lit c str = (case str of [] \<Rightarrow> None | d # ds \<Rightarrow> if d = c then Some ds else None)"

lemma dec_digits: "\<forall>c \<in> set (dec n). is_digit c"
proof (induction n rule: dec.induct)
  case (1 n)
  then show ?case by (subst dec.simps) auto
qed

lemma dec_nonempty: "dec n \<noteq> []"
  by (subst dec.simps) simp

lemma scan_digits_append:
  "\<forall>c \<in> set xs. is_digit c \<Longrightarrow>
   scan_digits acc (xs @ ys) = scan_digits (fst (scan_digits acc xs)) ys"
  by (induction xs arbitrary: acc) auto

lemma scan_digits_dec_value: "fst (scan_digits 0 (dec n)) = n"
proof (induction n rule: dec.induct)
  case (1 n)
  show ?case
  proof (cases "n < 10")
    case True
    then show ?thesis by (subst dec.simps) simp
  next
    case False
    with 1 have "fst (scan_digits 0 (dec (n div 10))) = n div 10" by simp
    with False show ?thesis
      by (subst dec.simps) (simp add: scan_digits_append dec_digits)
  qed
qed

lemma scan_digits_stop:
  "(case rest of [] \<Rightarrow> True | c # _ \<Rightarrow> \<not> is_digit c) \<Longrightarrow> scan_digits acc rest = (acc, rest)"
  by (cases rest) auto

lemma scan_u_dec:
  assumes "case rest of [] \<Rightarrow> True | c # _ \<Rightarrow> \<not> is_digit c"
  shows "scan_u (dec n @ rest) = Some (n, rest)"
proof -
  obtain c cs where cs: "dec n = c # cs" using dec_nonempty by (cases "dec n") auto
  with dec_digits [of n] have c: "is_digit c" by auto
  then have "\<not> is_space c" by (auto simp: is_digit_def is_space_def)
  moreover have "scan_digits 0 (dec n @ rest) = (n, rest)"
    using assms by (simp add: scan_digits_append dec_digits scan_digits_dec_value scan_digits_stop)
  ultimately show ?thesis using c cs by (simp add: scan_u_def)
qed

lemma scan_u_dec_dot: "scan_u (dec n @ CHR ''.'' # rest) = Some (n, CHR ''.'' # rest)"
  by (rule scan_u_dec) (simp add: is_digit_def)

lemma scan_u_dec_end: "scan_u (dec n) = Some (n, [])"
  using scan_u_dec [of "[]" n] by simp

section \<open>Classes by IP address\<close>

type_synonym iso_class_t = u32

definition iso_txc_classify :: "sk_buff \<Rightarrow> iso_class_t" where
  "iso_txc_classify skb = (if is_ip skb then saddr (ip_hdr skb) else 0)"

definition iso_rx_classify :: "sk_buff \<Rightarrow> iso_class_t" where
  "iso_rx_classify skb = (if is_ip skb then daddr (ip_hdr skb) else 0)"

text \<open>\<open>return a - b\<close>: an unsigned difference returned as \<open>int\<close>.\<close>

definition iso_class_cmp :: "iso_class_t \<Rightarrow> iso_class_t \<Rightarrow> int" where
  "iso_class_cmp a b = sint (a - b)"

definition iso_class_hash :: "kapi \<Rightarrow> iso_class_t \<Rightarrow> u32" where
  "iso_class_hash K klass = jhash_1word K klass 0xdeadbeef"

definition iso_class_show :: "iso_class_t \<Rightarrow> string" where
  "iso_class_show klass =
     (let addr = htonl klass in
      dec (unat (drop_bit 24 (addr AND 0xFF000000))) @ ''.'' @
      dec (unat (drop_bit 16 (addr AND 0x00FF0000))) @ ''.'' @
      dec (unat (drop_bit 8 (addr AND 0x0000FF00))) @ ''.'' @
      dec (unat (addr AND 0x000000FF)))"

text \<open>
  \<open>sscanf(ipaddr, "%u.%u.%u.%u", \<dots>)\<close> when all four conversions succeed; the octets are
  stored as 32-bit values.
\<close>

definition scan_ip :: "string \<Rightarrow> (u32 \<times> u32 \<times> u32 \<times> u32) option" where
  "scan_ip str = do {
     (a, s) \<leftarrow> scan_u str; s \<leftarrow> scan_lit (CHR ''.'') s;
     (b, s) \<leftarrow> scan_u s; s \<leftarrow> scan_lit (CHR ''.'') s;
     (c, s) \<leftarrow> scan_u s; s \<leftarrow> scan_lit (CHR ''.'') s;
     (d, s) \<leftarrow> scan_u s;
     Some (of_nat a, of_nat b, of_nat c, of_nat d) }"

definition iso_class_parse :: "string \<Rightarrow> iso_class_t" where
  "iso_class_parse ipaddr =
     (let addr = (case scan_ip ipaddr of
                    None \<Rightarrow> 0
                  | Some (o0, o1, o2, o3) \<Rightarrow> octets o0 o1 o2 o3)
      in htonl addr)"

lemma iso_class_cmp_eq_0 [simp]: "iso_class_cmp a b = 0 \<longleftrightarrow> a = b"
  unfolding iso_class_cmp_def by (simp only: signed_eq_0_iff right_minus_eq)

text \<open>The four fields that \<open>iso_class_show\<close> masks out are the octets.\<close>

lemma mask_octets:
  "drop_bit 24 (x AND 0xFF000000) = octet 3 x" "drop_bit 16 (x AND 0x00FF0000) = octet 2 x"
  "drop_bit 8 (x AND 0x0000FF00) = octet 1 x" "x AND 0x000000FF = octet 0 x" for x :: u32
proof -
  have m: "(0xFF000000 :: u32) = push_bit 24 (mask 8)" "(0x00FF0000 :: u32) = push_bit 16 (mask 8)"
    "(0x0000FF00 :: u32) = push_bit 8 (mask 8)" "(0x000000FF :: u32) = mask 8"
    by (simp_all add: mask_eq_exp_minus_1)
  show "drop_bit 24 (x AND 0xFF000000) = octet 3 x" "drop_bit 16 (x AND 0x00FF0000) = octet 2 x"
    "drop_bit 8 (x AND 0x0000FF00) = octet 1 x" "x AND 0x000000FF = octet 0 x"
    unfolding m by (rule bit_word_eqI; auto simp: bit_octet bit_simps)+
qed

lemma scan_ip_show:
  "scan_ip (iso_class_show k) =
     (let a = htonl k in Some (octet 3 a, octet 2 a, octet 1 a, octet 0 a))"
  unfolding iso_class_show_def mask_octets Let_def
  by (simp add: scan_ip_def scan_u_dec_dot scan_u_dec_end scan_lit_def)

section \<open>The builds by mark and by layer-4 port\<close>

definition iso_txc_classify_mark :: "sk_buff \<Rightarrow> u32" where
  "iso_txc_classify_mark skb = skb_mark skb"

definition iso_class_cmp_mark :: "u32 \<Rightarrow> u32 \<Rightarrow> int" where
  "iso_class_cmp_mark a b = sint (a - b)"

definition iso_class_hash_mark :: "u32 \<Rightarrow> u32" where
  "iso_class_hash_mark klass = klass"

definition iso_rx_classify_mark :: "sk_buff \<Rightarrow> u32" where
  "iso_rx_classify_mark skb = skb_mark skb"

definition iso_txc_classify_l4port :: "sk_buff \<Rightarrow> u32" where
  "iso_txc_classify_l4port skb =
     (if is_ip skb then
        (if protocol (ip_hdr skb) = 6 then ucast (l4_dest skb)
         else if protocol (ip_hdr skb) = 17 then ucast (l4_dest skb)
         else 0)
      else 0)"

definition iso_class_show_l4port :: "u32 \<Rightarrow> string" where
  "iso_class_show_l4port klass = dec (unat (htons (ucast klass)))"

definition iso_class_parse_l4port :: "string \<Rightarrow> u32" where
  "iso_class_parse_l4port portnum =
     (let port = (case scan_u portnum of None \<Rightarrow> (0 :: u32) | Some (v, _) \<Rightarrow> of_nat v)
      in ucast (htons (ucast port)))"

definition iso_rx_classify_l4port :: "sk_buff \<Rightarrow> u32" where
  "iso_rx_classify_l4port skb = iso_txc_classify_l4port skb"

end
