(* ===== verification/RateLimiter.thy ===== *)
theory RateLimiter
  imports Classes
begin

text \<open>
  The rate limiters (\<open>src/rl.h\<close>, \<open>src/rl.c\<close>): token buckets with one packet queue per CPU.

  A rate limiter is addressed by a \<open>rl_ptr\<close>: \<open>TxcRl t\<close> is the limiter embedded in the
  transmit class at address \<open>t\<close> (\<open>&txc->rl\<close>) and \<open>DestRl a\<close> one allocated for a
  destination; \<open>RlHead t\<close> is the address that the cursor of a loop over the empty
  \<open>prealloc_rl_list\<close> of class \<open>t\<close> ends with, which no limiter has. \<open>rls\<close> maps live limiters to
  their contents. A queue is the pair of its
  limiter and its CPU. \<open>rlcbs\<close> holds the per-CPU control blocks of each transmit context,
  identified by its device; the list of active queues, the pinned timer and the tasklet
  of a control block are its fields. \<open>wire\<close> and \<open>freed_skbs\<close> record the packets handed to
  the driver and the packets freed, in order.
\<close>

section \<open>State\<close>

datatype iso_verdict =
  ISO_VERDICT_SUCCESS | ISO_VERDICT_DROP | ISO_VERDICT_PASS | ISO_VERDICT_ERROR

record iso_rl_queue =
  q_list :: "sk_buff list"
  first_pkt_size :: int
  bytes_enqueued :: u64
  bytes_xmit :: u64
  feedback_backlog :: u64
  q_tokens :: u64

datatype rl_ptr = TxcRl nat | DestRl nat | RlHead nat

type_synonym q_ptr = "rl_ptr \<times> cpu"

record iso_rl =
  rl_rate :: u32
  rl_ip :: u32
  total_tokens :: u64
  accum_xmit :: u64
  accum_enqueued :: u64
  last_update_time :: ktime
  last_rate_update_time :: ktime
  rl_queue :: "cpu \<Rightarrow> iso_rl_queue"
  rl_txc :: "nat option"
  rl_rlcb :: dev

record iso_rl_cb =
  cb_timer :: bool
  cb_tasklet :: bool
  cb_active :: "q_ptr list"
  cb_last :: ktime
  cb_avg_us :: u64
  cb_tx_bytes :: u64

record rl_mem = kenv +
  rls :: "rl_ptr \<rightharpoonup> iso_rl"
  rlcbs :: "dev \<rightharpoonup> (cpu \<Rightarrow> iso_rl_cb)"
  txctx_xmit :: "dev \<rightharpoonup> bool"
  txq_stopped :: "dev \<Rightarrow> nat \<Rightarrow> bool"
  wire :: "sk_buff list"
  freed_skbs :: "sk_buff list"

section \<open>Set-up and tear-down\<close>

definition cb_zero :: iso_rl_cb where
  "cb_zero = \<lparr>cb_timer = False, cb_tasklet = False, cb_active = [], cb_last = 0,
              cb_avg_us = 0, cb_tx_bytes = 0\<rparr>"

text \<open>\<open>alloc_percpu\<close> returns zeroed memory; the loop sets the fields CPU by CPU.\<close>

fun init_cbs :: "cpu list \<Rightarrow> (cpu \<Rightarrow> iso_rl_cb) \<Rightarrow> 'z kenv_scheme \<Rightarrow>
    (cpu \<Rightarrow> iso_rl_cb) \<times> 'z kenv_scheme" where
  "init_cbs [] f s = (f, s)"
| "init_cbs (c # cs) f s =
     (let (now, s) = ktime_get s
      in init_cbs cs (f(c := \<lparr>cb_timer = False, cb_tasklet = False, cb_active = [],
           cb_last = now, cb_avg_us = 0, cb_tx_bytes = 0\<rparr>)) s)"

definition iso_rl_prep :: "dev \<Rightarrow> 'z rl_mem_scheme \<Rightarrow> int \<times> 'z rl_mem_scheme" where
  "iso_rl_prep d s =
     (let (ok, s) = alloc_percpu s in
      if \<not> ok then (- 1, s\<lparr>rlcbs := (rlcbs s)(d := None)\<rparr>)
      else let (cbs, s) = init_cbs (possible s) (\<lambda>_. cb_zero) s
           in (0, s\<lparr>rlcbs := (rlcbs s)(d \<mapsto> cbs)\<rparr>))"

text \<open>\<open>iso_rl_exit\<close> kills the tasklet and cancels the timer of every CPU.\<close>

definition iso_rl_exit :: "dev \<Rightarrow> 'z rl_mem_scheme \<Rightarrow> 'z rl_mem_scheme option" where
  "iso_rl_exit d s = do {
     cbs \<leftarrow> rlcbs s d;
     Some (s\<lparr>rlcbs := (rlcbs s)(d \<mapsto> (\<lambda>c. if c \<in> set (possible s)
       then (cbs c)\<lparr>cb_tasklet := False, cb_timer := False\<rparr> else cbs c))\<rparr>) }"

definition queue_init :: iso_rl_queue where
  "queue_init = \<lparr>q_list = [], first_pkt_size = 0, bytes_enqueued = 0, bytes_xmit = 0,
                 feedback_backlog = 0, q_tokens = 0\<rparr>"

text \<open>
  \<open>iso_rl_init\<close>. The result of \<open>alloc_percpu\<close> is not checked: if it is NULL, the loop over
  the CPUs writes through it. The destination \<open>rl->ip\<close> is not set here: the code leaves the memory of
  \<open>kmalloc\<close> as it is, the model has 0. The field of a destination's limiter is read only after \<open>iso_pick_rl\<close>
  has stored the address; that of a class's limiter is only printed in the statistics.
\<close>

definition iso_rl_init :: "dev \<Rightarrow> 'z kenv_scheme \<Rightarrow> (iso_rl \<times> 'z kenv_scheme) option" where
  "iso_rl_init d s =
     (let (t1, s) = ktime_get s; (t2, s) = ktime_get s; (ok, s) = alloc_percpu s in
      if \<not> ok then None
      else Some (\<lparr>rl_rate = of_int (ISO_RFAIR_INITIAL (tun s)), rl_ip = 0, total_tokens = 15000,
                  accum_xmit = 0, accum_enqueued = 0, last_update_time = t1,
                  last_rate_update_time = t2, rl_queue = (\<lambda>_. queue_init), rl_txc = None,
                  rl_rlcb = d\<rparr>, s))"

definition iso_rl_free :: "rl_ptr \<Rightarrow> 'z rl_mem_scheme \<Rightarrow> 'z rl_mem_scheme option" where
  "iso_rl_free p s = do { rl \<leftarrow> rls s p; Some (s\<lparr>rls := (rls s)(p := None)\<rparr>) }"

section \<open>Tokens\<close>

definition iso_rl_singleq_burst :: "tunables \<Rightarrow> iso_rl \<Rightarrow> u64" where
  "iso_rl_singleq_burst P rl =
     ucast (drop_bit 3 (rl_rate rl * of_int (ISO_MAX_BURST_TIME_US P)) div
            of_int (ISO_BURST_FACTOR P))"

definition iso_rl_should_refill :: "iso_rl \<Rightarrow> 'z kenv_scheme \<Rightarrow> bool \<times> 'z kenv_scheme" where
  "iso_rl_should_refill rl s =
     (let (now, s) = ktime_get s
      in (ISO_RL_UPDATE_INTERVAL_US (tun s) < ktime_us_delta now (last_update_time rl), s))"

text \<open>The burst capacity \<open>cap\<close> of \<open>iso_rl_clock\<close>, a 32-bit value.\<close>

definition rl_cap :: "tunables \<Rightarrow> iso_rl \<Rightarrow> u32" where
  "rl_cap P rl = max (drop_bit 3 (rl_rate rl * of_int (ISO_MAX_BURST_TIME_US P)))
                     (of_int (ISO_MIN_BURST_BYTES P))"

text \<open>The rate after the idle and the feedback timeout of \<open>iso_rl_clock\<close>.\<close>

definition rl_decay :: "tunables \<Rightarrow> ktime \<Rightarrow> iso_rl \<Rightarrow> iso_rl" where
  "rl_decay P now rl =
     (let us = (of_int (ktime_us_delta now (last_update_time rl)) :: u64);
          rl = (if of_int ISO_IDLE_TIMEOUT_US < us \<and> of_int ISO_IDLE_RATE < rl_rate rl
                then rl\<lparr>rl_rate := of_int ISO_IDLE_RATE\<rparr> else rl);
          us2 = (of_int (ktime_us_delta now (last_rate_update_time rl)) :: u64)
      in if of_int (ISO_RFAIR_FEEDBACK_TIMEOUT_US P) < us2
         then rl\<lparr>rl_rate := of_int (max 2 (sint (drop_bit 1 (rl_rate rl)))),
                 last_rate_update_time := now\<rparr>
         else rl)"

text \<open>The body of \<open>iso_rl_clock\<close> after its second reading of the clock.\<close>

definition rl_refill :: "tunables \<Rightarrow> ktime \<Rightarrow> iso_rl \<Rightarrow> iso_rl" where
  "rl_refill P now rl =
     (let us = (of_int (ktime_us_delta now (last_update_time rl)) :: u64);
          rl = rl_decay P now rl;
          rl = rl\<lparr>total_tokens := total_tokens rl + drop_bit 3 (ucast (rl_rate rl) * us)\<rparr>;
          cap = (ucast (rl_cap P rl) :: u64)
      in rl\<lparr>total_tokens := min cap (total_tokens rl), last_update_time := now\<rparr>)"

definition iso_rl_clock :: "iso_rl \<Rightarrow> 'z kenv_scheme \<Rightarrow> iso_rl \<times> 'z kenv_scheme" where
  "iso_rl_clock rl s =
     (let (refill, s) = iso_rl_should_refill rl s in
      if \<not> refill then (rl, s)
      else let (now, s) = ktime_get s in (rl_refill (tun s) now rl, s))"

text \<open>
  \<open>iso_rl_borrow_tokens\<close>: the queue takes the whole pool of its limiter. The first value
  of \<open>borrow\<close> in the source, a bounded burst, is overwritten before it is used.
\<close>

definition iso_rl_borrow_tokens ::
    "rl_ptr \<Rightarrow> cpu \<Rightarrow> 'z rl_mem_scheme \<Rightarrow> (bool \<times> 'z rl_mem_scheme) option" where
  "iso_rl_borrow_tokens p c s = do {
     let (locked, s) = spin_trylock s;
     if \<not> locked then Some (True, s)
     else do {
       rl \<leftarrow> rls s p;
       let borrow = total_tokens rl;
       let q = rl_queue rl c;
       let ok = (borrow \<le> total_tokens rl);
       let rl' = (if ok then rl\<lparr>total_tokens := total_tokens rl - borrow,
                    rl_queue := (rl_queue rl)(c := q\<lparr>q_tokens := q_tokens q + borrow\<rparr>)\<rparr> else rl);
       Some (\<not> ok \<and> \<not> iso_exiting s, s\<lparr>rls := (rls s)(p \<mapsto> rl')\<rparr>) } }"

definition iso_rl_accum :: "iso_rl \<Rightarrow> 'z kenv_scheme \<Rightarrow> iso_rl" where
  "iso_rl_accum rl s =
     rl\<lparr>accum_xmit := sum_list (map (\<lambda>c. bytes_xmit (rl_queue rl c)) (online s)),
        accum_enqueued := sum_list (map (\<lambda>c. bytes_enqueued (rl_queue rl c)) (online s))\<rparr>"

section \<open>Enqueue\<close>

definition MIN_PKT_SIZE :: int where "MIN_PKT_SIZE = 600"

definition skb_trim :: "sk_buff \<Rightarrow> u32 \<Rightarrow> sk_buff" where
  "skb_trim skb n = (if n < skb_len skb then skb\<lparr>skb_len := n\<rparr> else skb)"

definition enqueue_tail :: "kapi \<Rightarrow> tunables \<Rightarrow> nat option \<Rightarrow> iso_rl_queue \<Rightarrow> sk_buff \<Rightarrow> iso_rl_queue" where
  "enqueue_tail K P txc q pkt =
     (let bytes = bytes_enqueued q + skb_bytes pkt;
          pkt = (if txc = None \<and> of_int (ISO_TX_MARK_THRESH P) < bytes \<and> is_ip pkt
                 then ipv4_change_dsfield K 0 3 pkt else pkt)
      in q\<lparr>q_list := q_list q @ [pkt], bytes_enqueued := bytes\<rparr>)"

text \<open>The branch of \<open>iso_rl_enqueue\<close> that queues the packet as a whole.\<close>

definition enqueue_whole :: "kapi \<Rightarrow> tunables \<Rightarrow> nat option \<Rightarrow> iso_rl_queue \<Rightarrow> sk_buff \<Rightarrow>
    iso_verdict \<times> iso_rl_queue" where
  "enqueue_whole K P txc q pkt =
     (let len = skb_size pkt in
      if of_int (ISO_MAX_QUEUE_LEN_BYTES P) < bytes_enqueued q + of_int len
      then let diff = s32 (sint (ucast (bytes_enqueued q) :: u32) + len - ISO_MAX_QUEUE_LEN_BYTES P)
           in if len < diff \<or> s32 (diff - len) < MIN_PKT_SIZE
              then (ISO_VERDICT_DROP, q)
              else (ISO_VERDICT_SUCCESS, enqueue_tail K P txc q (skb_trim pkt (of_int diff)))
      else (ISO_VERDICT_SUCCESS, enqueue_tail K P txc q pkt))"

text \<open>The loop over the segments; the second result are the segments freed.\<close>

fun enqueue_segs :: "tunables \<Rightarrow> sk_buff list \<Rightarrow> iso_rl_queue \<Rightarrow> iso_rl_queue \<times> sk_buff list" where
  "enqueue_segs P [] q = (q, [])"
| "enqueue_segs P (skb # next) q =
     (if bytes_enqueued q < of_int (ISO_MAX_QUEUE_LEN_BYTES P)
      then enqueue_segs P next (q\<lparr>q_list := q_list q @ [skb],
             bytes_enqueued := bytes_enqueued q + skb_bytes skb\<rparr>)
      else (case enqueue_segs P next q of (q', fr) \<Rightarrow> (q', skb # fr)))"

definition iso_rl_enqueue :: "kapi \<Rightarrow> rl_ptr \<Rightarrow> sk_buff \<Rightarrow> cpu \<Rightarrow> 'z rl_mem_scheme \<Rightarrow>
    (iso_verdict \<times> 'z rl_mem_scheme) option" where
  "iso_rl_enqueue K p pkt c s = do {
     rl \<leftarrow> rls s p;
     let (rl, s) = iso_rl_clock rl s;
     let P = tun s;
     let q = rl_queue rl c;
     if of_int (ISO_GSO_THRESH_RATE P) < rl_rate rl \<or> skb_size pkt \<le> ISO_GSO_MIN_SPLIT_BYTES P
     then let (v, q') = enqueue_whole K P (rl_txc rl) q pkt
          in Some (v, s\<lparr>rls := (rls s)(p \<mapsto> rl\<lparr>rl_queue := (rl_queue rl)(c := q')\<rparr>)\<rparr>)
     else (case skb_gso_segment K pkt of
         GsoErr \<Rightarrow> Some (ISO_VERDICT_ERROR, s\<lparr>rls := (rls s)(p \<mapsto> rl)\<rparr>)
       | GsoNull \<Rightarrow> None
       | GsoSegs skb next \<Rightarrow>
           let (q', fr) = enqueue_segs P (skb # next) q
           in Some (ISO_VERDICT_SUCCESS,
                s\<lparr>rls := (rls s)(p \<mapsto> rl\<lparr>rl_queue := (rl_queue rl)(c := q')\<rparr>),
                  freed_skbs := freed_skbs s @ pkt # fr\<rparr>)) }"

definition iso_rl_has_space_for :: "rl_ptr \<Rightarrow> sk_buff \<Rightarrow> cpu \<Rightarrow> 'z rl_mem_scheme \<Rightarrow> bool option" where
  "iso_rl_has_space_for p pkt c s = do {
     rl \<leftarrow> rls s p;
     Some (bytes_enqueued (rl_queue rl c) + ucast (skb_size32 pkt)
           < of_int (ISO_MAX_QUEUE_LEN_BYTES (tun s))) }"

section \<open>Dequeue\<close>

text \<open>
  \<open>skb_xmit\<close> (\<open>src/qdisc.c\<close>): the packet goes to the driver's transmit function of the
  device's context; it is freed when its hardware queue is stopped. Without a transmit
  function it is neither sent nor freed.
\<close>

definition skb_xmit :: "sk_buff \<Rightarrow> 'z rl_mem_scheme \<Rightarrow> 'z rl_mem_scheme option" where
  "skb_xmit skb s = do {
     xmit \<leftarrow> txctx_xmit s (skb_dev skb);
     if xmit then
       (if \<not> txq_stopped s (skb_dev skb) (queue_mapping skb)
        then Some (s\<lparr>wire := wire s @ [skb]\<rparr>)
        else Some (s\<lparr>freed_skbs := freed_skbs s @ [skb]\<rparr>))
     else Some s }"

definition take_head :: "iso_rl_queue \<Rightarrow> sk_buff list \<Rightarrow> u32 \<Rightarrow> iso_rl_queue" where
  "take_head q rest sz =
     q\<lparr>q_list := rest, q_tokens := q_tokens q - ucast sz,
       bytes_enqueued := bytes_enqueued q - ucast sz,
       bytes_xmit := bytes_xmit q + ucast sz\<rparr>"

definition add_tx_bytes :: "dev \<Rightarrow> cpu \<Rightarrow> u32 \<Rightarrow> 'z rl_mem_scheme \<Rightarrow> 'z rl_mem_scheme option" where
  "add_tx_bytes d c sz s = do {
     cbs \<leftarrow> rlcbs s d;
     Some (s\<lparr>rlcbs := (rlcbs s)(d \<mapsto>
       cbs(c := (cbs c)\<lparr>cb_tx_bytes := cb_tx_bytes (cbs c) + ucast sz\<rparr>))\<rparr>) }"

text \<open>
  The loop of \<open>iso_rl_dequeue\<close> over the packets of the queue. The third result is
  \<open>timeout\<close>: whether packets are left. A limiter with a parent class hands the packet to
  the parent's queue of the same CPU, a limiter without one to the driver.
\<close>

fun dequeue_loop :: "kapi \<Rightarrow> cpu \<Rightarrow> nat option \<Rightarrow> dev \<Rightarrow> sk_buff list \<Rightarrow> iso_rl_queue \<Rightarrow> u64 \<Rightarrow>
    'z rl_mem_scheme \<Rightarrow> (iso_rl_queue \<times> u64 \<times> bool \<times> 'z rl_mem_scheme) option" where
  "dequeue_loop K c txc d [] q tot s = Some (q, tot, False, s)"
| "dequeue_loop K c txc d (pkt # rest) q tot s =
     (let sz = skb_size32 pkt;
          tot = tot + ucast sz;
          q = q\<lparr>first_pkt_size := sint sz\<rparr>
      in if ucast sz \<le> q_tokens q \<and> tot \<le> of_int (s32 (ISO_MIN_BURST_BYTES (tun s) * 2))
         then (case txc of
             None \<Rightarrow> do {
               s \<leftarrow> skb_xmit pkt s;
               s \<leftarrow> add_tx_bytes d c sz s;
               dequeue_loop K c txc d rest (take_head q rest sz) tot s }
           | Some t \<Rightarrow> do {
               space \<leftarrow> iso_rl_has_space_for (TxcRl t) pkt c s;
               if space then do {
                 (v, s) \<leftarrow> iso_rl_enqueue K (TxcRl t) pkt c s;
                 dequeue_loop K c txc d rest (take_head q rest sz) tot s }
               else Some (q, tot, True, s) })
         else Some (q, tot, True, s))"

text \<open>The code after the label \<open>timeout\<close>: the queue waits for the timer of its CPU.\<close>

definition rl_activate :: "rl_ptr \<Rightarrow> cpu \<Rightarrow> dev \<Rightarrow> 'z rl_mem_scheme \<Rightarrow> 'z rl_mem_scheme option" where
  "rl_activate p c d s = do {
     cbs \<leftarrow> rlcbs s d;
     let cb = cbs c;
     let cb = (if (p, c) \<in> set (cb_active cb) then cb else cb\<lparr>cb_active := cb_active cb @ [(p, c)]\<rparr>);
     let cb = (if \<not> cb_timer cb then cb\<lparr>cb_timer := True\<rparr> else cb);
     Some (s\<lparr>rlcbs := (rlcbs s)(d \<mapsto> cbs(c := cb))\<rparr>) }"

definition put_queue :: "rl_ptr \<Rightarrow> cpu \<Rightarrow> iso_rl_queue \<Rightarrow> 'z rl_mem_scheme \<Rightarrow> 'z rl_mem_scheme option" where
  "put_queue p c q s = do {
     rl \<leftarrow> rls s p;
     Some (s\<lparr>rls := (rls s)(p \<mapsto> rl\<lparr>rl_queue := (rl_queue rl)(c := q)\<rparr>)\<rparr>) }"

text \<open>
  \<open>iso_rl_dequeue\<close> up to the label \<open>unlock\<close>: borrow tokens if the first packet needs them,
  then run the loop. The first result tells that borrowing failed (\<open>goto timeout\<close>), the
  second is \<open>sum\<close>, the third \<open>timeout\<close>.
\<close>

definition dequeue_own :: "kapi \<Rightarrow> rl_ptr \<Rightarrow> cpu \<Rightarrow> 'z rl_mem_scheme \<Rightarrow>
    (bool \<times> u64 \<times> bool \<times> 'z rl_mem_scheme) option" where
  "dequeue_own K p c s = do {
     rl \<leftarrow> rls s p;
     let q = rl_queue rl c;
     (blocked, s) \<leftarrow> (if q_tokens q < of_int (first_pkt_size q)
                      then iso_rl_borrow_tokens p c s else Some (False, s));
     if blocked then Some (True, 0, True, s)
     else do {
       rl \<leftarrow> rls s p;
       let q = rl_queue rl c;
       if q_list q = [] then Some (False, 0, False, s)
       else do {
         (q, tot, timeout, s) \<leftarrow> dequeue_loop K c (rl_txc rl) (rl_rlcb rl) (q_list q) q 0 s;
         s \<leftarrow> put_queue p c q s;
         Some (False, tot, timeout, s) } } }"

text \<open>
  \<open>iso_rl_dequeue\<close>. After its own queue it calls itself on the parent's queue of the same
  CPU; the first argument bounds the depth of the calls, and no value at depth 0 is a
  stack overflow.
\<close>

fun iso_rl_dequeue :: "nat \<Rightarrow> kapi \<Rightarrow> rl_ptr \<Rightarrow> cpu \<Rightarrow> 'z rl_mem_scheme \<Rightarrow>
    (u32 \<times> 'z rl_mem_scheme) option" where
  "iso_rl_dequeue 0 K p c s = None"
| "iso_rl_dequeue (Suc n) K p c s = do {
     rl \<leftarrow> rls s p;
     (blocked, tot, timeout, s) \<leftarrow> dequeue_own K p c s;
     s \<leftarrow> (if blocked then Some s
           else (case rl_txc rl of
                   None \<Rightarrow> Some s
                 | Some t \<Rightarrow> do { (_, s) \<leftarrow> iso_rl_dequeue n K (TxcRl t) c s; Some s }));
     s \<leftarrow> (if timeout \<and> \<not> iso_exiting s then rl_activate p c (rl_rlcb rl) s else Some s);
     Some (ucast tot, s) }"

section \<open>Timer and tasklet\<close>

text \<open>\<open>iso_rl_timeout\<close>: the expired timer schedules the tasklet and is not restarted.\<close>

definition iso_rl_timeout :: "dev \<Rightarrow> cpu \<Rightarrow> 'z rl_mem_scheme \<Rightarrow> 'z rl_mem_scheme option" where
  "iso_rl_timeout d c s = do {
     cbs \<leftarrow> rlcbs s d;
     Some (s\<lparr>rlcbs := (rlcbs s)(d \<mapsto>
       cbs(c := (cbs c)\<lparr>cb_tasklet := True, cb_timer := False\<rparr>))\<rparr>) }"

definition budget :: nat where "budget = 500"

text \<open>
  The loop of \<open>iso_rl_xmit_tasklet\<close>. \<open>list_for_each_entry_safe\<close> reads the successor
  \<open>qtmp\<close> of the current queue before the body; the body unlinks the current queue and
  \<open>iso_rl_dequeue\<close> only appends to the list, so the current queue is always the head of
  the list and the loop ends when the head had no successor. \<open>count\<close> is incremented
  twice in each round, the second time inside the condition.
\<close>

function tasklet_loop :: "kapi \<Rightarrow> dev \<Rightarrow> cpu \<Rightarrow> q_ptr \<Rightarrow> nat \<Rightarrow> u32 \<Rightarrow> 'z rl_mem_scheme \<Rightarrow>
    'z rl_mem_scheme option" where
  "tasklet_loop K d c first count sent s = do {
     cbs \<leftarrow> rlcbs s d;
     case cb_active (cbs c) of
       [] \<Rightarrow> Some s
     | (p, c') # qs \<Rightarrow>
         if (qs \<noteq> [] \<and> hd qs = first) \<or> budget < Suc count \<or>
            of_int (s32 (2 * ISO_MIN_BURST_BYTES (tun s))) < sent
         then Some s
         else do {
           let s = s\<lparr>rlcbs := (rlcbs s)(d \<mapsto> cbs(c := (cbs c)\<lparr>cb_active := qs\<rparr>))\<rparr>;
           rl \<leftarrow> rls s p;
           let (rl, s) = iso_rl_clock rl s;
           let s = s\<lparr>rls := (rls s)(p \<mapsto> rl)\<rparr>;
           (n, s) \<leftarrow> iso_rl_dequeue 2 K p c' s;
           if qs = [] then Some s else tasklet_loop K d c first (count + 2) (sent + n) s } }"
  by pat_completeness auto
termination
  by (relation "measure (\<lambda>(K, d, c, first, count, sent, s). budget - count)") auto

declare tasklet_loop.simps [simp del]

text \<open>The tasklet from its loop on: serve the list, then arm the timer for what is left.\<close>

definition tasklet_serve :: "kapi \<Rightarrow> dev \<Rightarrow> cpu \<Rightarrow> 'z rl_mem_scheme \<Rightarrow> 'z rl_mem_scheme option" where
  "tasklet_serve K d c s = do {
     cbs \<leftarrow> rlcbs s d;
     s \<leftarrow> (case cb_active (cbs c) of
             [] \<Rightarrow> Some s
           | first # _ \<Rightarrow> tasklet_loop K d c first 0 0 s);
     cbs \<leftarrow> rlcbs s d;
     if cb_active (cbs c) \<noteq> [] \<and> \<not> iso_exiting s
     then Some (s\<lparr>rlcbs := (rlcbs s)(d \<mapsto> cbs(c := (cbs c)\<lparr>cb_timer := True\<rparr>))\<rparr>)
     else Some s }"

definition iso_rl_xmit_tasklet :: "kapi \<Rightarrow> dev \<Rightarrow> cpu \<Rightarrow> 'z rl_mem_scheme \<Rightarrow> 'z rl_mem_scheme option" where
  "iso_rl_xmit_tasklet K d c s = do {
     cbs \<leftarrow> rlcbs s d;
     let cb = (cbs c)\<lparr>cb_tasklet := False\<rparr>;
     if iso_exiting s then Some (s\<lparr>rlcbs := (rlcbs s)(d \<mapsto> cbs(c := cb))\<rparr>)
     else do {
       let (now, s) = ktime_get s;
       let cb = cb\<lparr>cb_last := now, cb_avg_us := of_int (ktime_us_delta now (cb_last cb))\<rparr>;
       tasklet_serve K d c (s\<lparr>rlcbs := (rlcbs s)(d \<mapsto> cbs(c := cb))\<rparr>) } }"

end
