(* ===== verification/Interfaces.thy ===== *)
theory Interfaces
  imports Prelude
begin

text \<open>
  Contracts that several components of the module share.

  \<^item> \<open>rcp_law\<close>: the rate update \<open>r' = r (3 C - y) / 2 C\<close>, clamped to a minimum and to the
    capacity \<open>C\<close>. The transmit context, the receive context and every virtual queue run it, on
    integers of different widths.
  \<^item> \<open>class_table\<close>: a table of classes with a lookup and an installation that refuses a class
    that is already there. The transmit classes and the virtual queues are such tables.
  \<^item> \<open>token_bucket\<close>: a level that is filled at a bounded rate and pays for what is sent, and the
    bound on what is sent in a window of a run. The limiter of a transmit class is one.

  Each is interpreted on the definitions of the component that provides it.
\<close>

section \<open>Proportional shares\<close>

text \<open>Shares \<open>w C / W\<close>, rounded down, of weights that sum to at most \<open>W\<close> fit into \<open>C\<close>.\<close>

lemma sum_shares:
  fixes ws :: "int list" and C W :: int
  assumes "0 \<le> C" "0 < W" "sum_list ws \<le> W" "\<forall>w \<in> set ws. 0 \<le> w"
  shows "(\<Sum>w\<leftarrow>ws. C * w div W) \<le> C"
proof -
  have "W * (\<Sum>w\<leftarrow>ws. C * w div W) \<le> C * sum_list ws"
  proof (induction ws)
    case (Cons w ws)
    have "W * (C * w div W) \<le> C * w" by (simp add: minus_mod_eq_mult_div [symmetric] assms(2))
    with Cons show ?case by (simp add: distrib_left)
  qed simp
  also have "\<dots> \<le> C * W" using assms(1,3) by (intro mult_left_mono)
  finally have "W * (\<Sum>w\<leftarrow>ws. C * w div W) \<le> W * C" by (simp add: mult.commute)
  then show ?thesis using assms(2) by simp
qed

section \<open>The RCP control law\<close>

locale rcp_law =
  fixes valid :: "'p \<Rightarrow> bool" and cap lo top :: "'p \<Rightarrow> int"
    and upd :: "'p \<Rightarrow> int \<Rightarrow> int \<Rightarrow> int"
  assumes caps: "valid p \<Longrightarrow> 0 < lo p \<and> lo p \<le> cap p \<and> cap p \<le> top p"
    and upd_eq: "valid p \<Longrightarrow> 0 \<le> r \<Longrightarrow> r \<le> top p \<Longrightarrow> 0 \<le> y \<Longrightarrow> y \<le> 3 * cap p \<Longrightarrow>
      upd p r y = max (lo p) (min (cap p) (r * (3 * cap p - y) div (2 * cap p)))"
begin

lemma cap_pos: "valid p \<Longrightarrow> 0 < cap p"
  using caps [of p] by linarith

lemma upd_bounds:
  "valid p \<Longrightarrow> 0 \<le> r \<Longrightarrow> r \<le> top p \<Longrightarrow> 0 \<le> y \<Longrightarrow> y \<le> 3 * cap p \<Longrightarrow>
     lo p \<le> upd p r y \<and> upd p r y \<le> cap p"
  using caps [of p] by (auto simp: upd_eq)

lemma upd_mono:
  assumes "valid p" "0 \<le> r" "r \<le> r'" "r' \<le> top p" "0 \<le> y" "y \<le> 3 * cap p"
  shows "upd p r y \<le> upd p r' y"
proof -
  have "r * (3 * cap p - y) div (2 * cap p) \<le> r' * (3 * cap p - y) div (2 * cap p)"
    using assms cap_pos [OF assms(1)] by (intro zdiv_mono1 mult_right_mono) auto
  then show ?thesis using assms by (auto simp: upd_eq)
qed

lemma upd_antimono:
  assumes "valid p" "0 \<le> r" "r \<le> top p" "0 \<le> y" "y \<le> y'" "y' \<le> 3 * cap p"
  shows "upd p r y' \<le> upd p r y"
proof -
  have "r * (3 * cap p - y') div (2 * cap p) \<le> r * (3 * cap p - y) div (2 * cap p)"
    using assms cap_pos [OF assms(1)] by (intro zdiv_mono1 mult_left_mono) auto
  then show ?thesis using assms by (auto simp: upd_eq)
qed

text \<open>The update moves the rate by \<open>r (C - y) / 2 C\<close>.\<close>

lemma upd_shift:
  assumes "valid p"
  shows "r * (3 * cap p - y) div (2 * cap p) = r + r * (cap p - y) div (2 * cap p)"
proof -
  have "r * (3 * cap p - y) = r * (cap p - y) + r * (2 * cap p)" by (simp add: algebra_simps)
  then show ?thesis using cap_pos [OF assms] by simp
qed

text \<open>A rate in range is kept exactly when the load equals the capacity.\<close>

lemma upd_hold:
  "valid p \<Longrightarrow> lo p \<le> r \<Longrightarrow> r \<le> cap p \<Longrightarrow> upd p r (cap p) = r"
  using caps [of p] by (simp add: upd_eq upd_shift)

lemma upd_raises:
  assumes "valid p" "lo p \<le> r" "r \<le> cap p" "0 \<le> y" "y \<le> cap p"
  shows "r \<le> upd p r y"
proof -
  have "0 \<le> r * (cap p - y) div (2 * cap p)"
    using assms caps [of p] by (intro pos_imp_zdiv_nonneg_iff [THEN iffD2] mult_nonneg_nonneg) auto
  then show ?thesis using assms caps [of p] by (simp add: upd_eq upd_shift)
qed

lemma upd_lowers:
  assumes "valid p" "lo p \<le> r" "r \<le> cap p" "cap p \<le> y" "y \<le> 3 * cap p"
  shows "upd p r y \<le> r"
proof -
  have "r * (cap p - y) div (2 * cap p) \<le> 0"
    using assms caps [of p] by (intro div_nonpos_pos_le0 mult_nonneg_nonpos) auto
  then show ?thesis using assms caps [of p] by (simp add: upd_eq upd_shift)
qed

text \<open>
  The closed loop of \<open>n\<close> sources that all send at the advertised rate: a feasible rate stays
  feasible and never falls, and after at most \<open>C\<close> rounds it is at rest, where the unused
  capacity times the rate is below \<open>2 C\<close>.
\<close>

abbreviation closed_loop :: "'p \<Rightarrow> int \<Rightarrow> int \<Rightarrow> int" where
  "closed_loop p n r \<equiv> upd p r (n * r)"

lemma loop_feasible:
  assumes "valid p" "0 < n" "lo p \<le> r" "n * r \<le> cap p"
  shows "r \<le> closed_loop p n r" "n * closed_loop p n r \<le> cap p" "lo p \<le> closed_loop p n r"
    "closed_loop p n r = r + r * (cap p - n * r) div (2 * cap p)"
proof -
  let ?C = "cap p" and ?d = "r * (cap p - n * r) div (2 * cap p)"
  have C: "0 < ?C" and lo: "0 < lo p" and top: "?C \<le> top p" using caps [OF assms(1)] by auto
  have r: "0 \<le> r" using assms(3) lo by linarith
  have rn: "r \<le> n * r" using assms(2) r by (simp add: mult_le_cancel_right1)
  have rC: "r \<le> ?C" using rn assms(4) by linarith
  have d0: "0 \<le> ?d" using r assms(4) C by (simp add: pos_imp_zdiv_nonneg_iff)
  have "n * r * (?C - n * r) \<le> ?C * (?C - n * r)" using assms(4) by (intro mult_right_mono) auto
  moreover have "2 * ?C * ?d \<le> r * (?C - n * r)" using C
    by (simp add: minus_mod_eq_mult_div [symmetric])
  then have "n * (2 * ?C * ?d) \<le> n * (r * (?C - n * r))" using assms(2) by (intro mult_left_mono) auto
  ultimately have "?C * (2 * (n * ?d)) \<le> ?C * (?C - n * r)" by (simp add: algebra_simps)
  then have nd: "2 * (n * ?d) \<le> ?C - n * r" using C by (simp only: mult_le_cancel_left_pos)
  have nd': "?d \<le> n * ?d" using assms(2) d0 by (simp add: mult_le_cancel_right1)
  have "r + ?d \<le> ?C" using nd nd' rn assms(4) d0 by linarith
  then show eq: "closed_loop p n r = r + ?d"
    using assms r rC top d0 by (simp add: upd_eq upd_shift)
  show "r \<le> closed_loop p n r" "lo p \<le> closed_loop p n r" using eq d0 assms(3) by auto
  show "n * closed_loop p n r \<le> ?C" using eq nd assms(4) by (simp add: distrib_left)
qed

lemma loop_iterates:
  assumes "valid p" "0 < n" "lo p \<le> r" "n * r \<le> cap p"
  shows "lo p \<le> (closed_loop p n ^^ k) r \<and> n * (closed_loop p n ^^ k) r \<le> cap p \<and>
    r \<le> (closed_loop p n ^^ k) r"
proof (induction k)
  case (Suc k)
  then show ?case using loop_feasible [OF assms(1,2), of "(closed_loop p n ^^ k) r"] by auto
qed (use assms in auto)

lemma loop_rests:
  assumes "valid p" "0 < n" "lo p \<le> r" "n * r \<le> cap p" "closed_loop p n r = r"
  shows "r * (cap p - n * r) < 2 * cap p"
proof -
  have "r * (cap p - n * r) div (2 * cap p) = 0"
    using loop_feasible(4) [OF assms(1-4)] assms(5) by simp
  moreover have "0 < 2 * cap p" using cap_pos [OF assms(1)] by simp
  ultimately show ?thesis using pos_imp_zdiv_pos_iff [of "2 * cap p" "r * (cap p - n * r)"] by linarith
qed

lemma loop_converges:
  assumes "valid p" "0 < n" "lo p \<le> r" "n * r \<le> cap p"
  shows "\<exists>k \<le> nat (cap p). \<forall>j \<ge> k. (closed_loop p n ^^ j) r = (closed_loop p n ^^ k) r"
proof (rule ccontr)
  let ?f = "closed_loop p n"
  let ?x = "\<lambda>k. (?f ^^ k) r"
  assume a: "\<not> ?thesis"
  have "?x k < ?x (Suc k)" if "k \<le> nat (cap p)" for k
  proof (rule ccontr)
    assume "\<not> ?x k < ?x (Suc k)"
    then have eq: "?f (?x k) = ?x k"
      using loop_feasible(1) [OF assms(1,2), of "?x k"] loop_iterates [OF assms, of k] by auto
    have "?x (k + i) = ?x k" for i by (induction i) (simp_all add: eq)
    then have "\<forall>j \<ge> k. ?x j = ?x k" by (metis le_iff_add)
    with a that show False by blast
  qed
  then have "r + int k \<le> ?x k" if "k \<le> Suc (nat (cap p))" for k
    using that by (induction k) force+
  from this [of "Suc (nat (cap p))"] have "cap p < ?x (Suc (nat (cap p)))"
    using assms(3) caps [OF assms(1)] by simp
  moreover have "?x (Suc (nat (cap p))) \<le> n * ?x (Suc (nat (cap p)))"
    using loop_iterates [OF assms, of "Suc (nat (cap p))"] caps [OF assms(1)] assms(2)
    by (simp only: mult_le_cancel_right1) auto
  ultimately show False using loop_iterates [OF assms, of "Suc (nat (cap p))"] by linarith
qed

lemma loop_settles:
  assumes "valid p" "0 < n" "lo p \<le> r" "n * r \<le> cap p"
  shows "(\<forall>k. n * (closed_loop p n ^^ k) r \<le> cap p) \<and>
    (\<exists>k \<le> nat (cap p). (\<forall>j \<ge> k. (closed_loop p n ^^ j) r = (closed_loop p n ^^ k) r) \<and>
       (closed_loop p n ^^ k) r * (cap p - n * (closed_loop p n ^^ k) r) < 2 * cap p)"
proof -
  let ?x = "\<lambda>k. (closed_loop p n ^^ k) r"
  obtain k where k: "k \<le> nat (cap p)" "\<forall>j \<ge> k. ?x j = ?x k" using loop_converges [OF assms] by blast
  from k(2) have "?x (Suc k) = ?x k" by (meson le_SucI order_refl)
  then have "closed_loop p n (?x k) = ?x k" by simp
  from loop_rests [OF assms(1,2) _ _ this] have "?x k * (cap p - n * ?x k) < 2 * cap p"
    using loop_iterates [OF assms, of k] by blast
  then show ?thesis using k loop_iterates [OF assms] by blast
qed

text \<open>
  The loop through a link of rate \<open>L\<close>, which is faster than the capacity and hides what the sources send
  beyond it. From an overload every update lowers the rate, so that it becomes feasible after at most \<open>C\<close>
  rounds and settles after at most \<open>C\<close> more.
\<close>

abbreviation link_loop :: "'p \<Rightarrow> int \<Rightarrow> int \<Rightarrow> int \<Rightarrow> int" where
  "link_loop p n L r \<equiv> upd p r (min (n * r) L)"

lemma link_lowers:
  assumes "valid p" "cap p < L" "L \<le> 3 * cap p" "n * lo p \<le> cap p" "lo p \<le> r" "r \<le> cap p" "cap p < n * r"
  shows "lo p \<le> link_loop p n L r" "link_loop p n L r < r"
proof -
  let ?y = "min (n * r) L"
  have C: "0 < cap p" and lo: "0 < lo p" and top: "cap p \<le> top p" using caps [OF assms(1)] by auto
  have r: "lo p < r" using assms(4,5,7) by (cases "r = lo p") auto
  have y: "cap p < ?y" "?y \<le> 3 * cap p" using assms(2,3,7) by auto
  have "r * (cap p - ?y) < 0" using r lo y(1) by (intro mult_pos_neg) auto
  then have "r * (cap p - ?y) div (2 * cap p) < 0" using C by (intro div_neg_pos_less0) auto
  moreover have "link_loop p n L r = max (lo p) (min (cap p) (r + r * (cap p - ?y) div (2 * cap p)))"
    using upd_eq [OF assms(1), of r ?y] upd_shift [OF assms(1), of r ?y] assms(6) r lo top y C by simp
  ultimately show "lo p \<le> link_loop p n L r" "link_loop p n L r < r" using r by auto
qed

lemma link_reaches:
  assumes "valid p" "cap p < L" "L \<le> 3 * cap p" "n * lo p \<le> cap p" "lo p \<le> r" "r \<le> cap p"
  shows "\<exists>k \<le> nat r. lo p \<le> (link_loop p n L ^^ k) r \<and> n * (link_loop p n L ^^ k) r \<le> cap p"
  using assms(5,6)
proof (induction "nat r" arbitrary: r rule: less_induct)
  case less
  show ?case
  proof (cases "n * r \<le> cap p")
    case True
    then show ?thesis using less.prems by (intro exI [of _ 0]) simp
  next
    case False
    let ?r = "link_loop p n L r"
    have r: "lo p \<le> ?r" "?r < r" using link_lowers [OF assms(1-4) less.prems] False by auto
    moreover have "0 < lo p" using caps [OF assms(1)] by simp
    ultimately have "nat ?r < nat r" by simp
    then obtain k where k: "k \<le> nat ?r" "lo p \<le> (link_loop p n L ^^ k) ?r \<and> n * (link_loop p n L ^^ k) ?r \<le> cap p"
      using less.hyps [of ?r] r less.prems(2) by auto
    then have "lo p \<le> (link_loop p n L ^^ Suc k) r \<and> n * (link_loop p n L ^^ Suc k) r \<le> cap p"
      by (simp only: funpow_Suc_right comp_apply)
    moreover have "Suc k \<le> nat r" using le_less_trans [OF k(1) \<open>nat ?r < nat r\<close>] by (simp only: Suc_le_eq)
    ultimately show ?thesis by blast
  qed
qed

lemma link_loop_feasible:
  assumes "valid p" "cap p < L" "0 < n" "lo p \<le> r" "n * r \<le> cap p"
  shows "(link_loop p n L ^^ k) r = (closed_loop p n ^^ k) r"
proof (induction k)
  case (Suc k)
  have "n * (closed_loop p n ^^ k) r \<le> cap p" using loop_iterates [OF assms(1,3-5), of k] by simp
  then show ?case using Suc assms(2) by (simp add: min_absorb1)
qed simp

lemma link_settles:
  assumes "valid p" "0 < n" "cap p < L" "L \<le> 3 * cap p" "n * lo p \<le> cap p" "lo p \<le> r" "r \<le> cap p"
  shows "\<exists>k \<le> 2 * nat (cap p). (\<forall>j \<ge> k. (link_loop p n L ^^ j) r = (link_loop p n L ^^ k) r) \<and>
    n * (link_loop p n L ^^ k) r \<le> cap p \<and>
    (link_loop p n L ^^ k) r * (cap p - n * (link_loop p n L ^^ k) r) < 2 * cap p"
proof -
  let ?f = "link_loop p n L"
  obtain i where i: "i \<le> nat r" "lo p \<le> (?f ^^ i) r" "n * (?f ^^ i) r \<le> cap p"
    using link_reaches [OF assms(1,3-7)] by blast
  define q where "q = (?f ^^ i) r"
  have q: "lo p \<le> q" "n * q \<le> cap p" using i by (simp_all add: q_def)
  note f = link_loop_feasible [OF assms(1,3,2) q]
  obtain k where k: "k \<le> nat (cap p)" "\<forall>j \<ge> k. (?f ^^ j) q = (?f ^^ k) q" "n * (?f ^^ k) q \<le> cap p"
    "(?f ^^ k) q * (cap p - n * (?f ^^ k) q) < 2 * cap p"
    using loop_settles [OF assms(1,2) q] unfolding f by blast
  have e: "(?f ^^ (m + i)) r = (?f ^^ m) q" for m by (simp only: funpow_add comp_apply q_def)
  have "(?f ^^ j) r = (?f ^^ (k + i)) r" if "k + i \<le> j" for j
  proof -
    have "(?f ^^ j) r = (?f ^^ (j - i)) q" using e [of "j - i"] that by (simp only: le_add_diff_inverse2 add_leD2)
    then show ?thesis using k(2) [rule_format, of "j - i"] e [of k] that by (simp only: le_diff_conv2 add_leD2)
  qed
  moreover have "k + i \<le> 2 * nat (cap p)" using i(1) k(1) nat_mono [OF assms(7)] by linarith
  ultimately show ?thesis using k(3,4) unfolding e [of k, symmetric] by blast
qed

end

section \<open>Tables of classes\<close>

locale class_table =
  fixes inv :: "'s \<Rightarrow> bool" and find :: "'k \<Rightarrow> 's \<Rightarrow> 'v option option"
    and alloc :: "'k \<Rightarrow> 's \<Rightarrow> ('v option \<times> 's) option"
    and install :: "'k \<Rightarrow> 's \<Rightarrow> (int \<times> 's) option"
  assumes find_total: "inv s \<Longrightarrow> find k s \<noteq> None"
    and alloc_inv: "inv s \<Longrightarrow> find k s = Some None \<Longrightarrow> alloc k s = Some (r, s') \<Longrightarrow> inv s'"
    and alloc_find: "inv s \<Longrightarrow> find k s = Some None \<Longrightarrow> alloc k s = Some (r, s') \<Longrightarrow>
      find k' s' = (if k' = k \<and> r \<noteq> None then Some r else find k' s)"
    and install_eq: "inv s \<Longrightarrow> install k s =
      (case find k s of None \<Rightarrow> None | Some (Some v) \<Rightarrow> Some (- 1, s)
       | Some None \<Rightarrow> map_option (\<lambda>(r, s'). (if r = None then - 1 else 0, s')) (alloc k s))"
begin

lemma install_result:
  assumes "inv s" "install k s = Some (r, s')"
  shows "r = 0 \<or> r = - 1" and "inv s'"
    and "r = 0 \<Longrightarrow> find k s = Some None \<and> (\<exists>v. find k s' = Some (Some v))"
    and "k' \<noteq> k \<or> r \<noteq> 0 \<Longrightarrow> find k' s' = find k' s"
  using assms find_total [OF assms(1), of k] install_eq [OF assms(1), of k]
    alloc_inv [OF assms(1), of k] alloc_find [OF assms(1), of k]
  by (auto split: option.splits if_splits)

text \<open>A second installation of the same class is refused and changes nothing.\<close>

lemma install_twice:
  assumes "inv s" "install k s = Some (0, s')"
  shows "install k s' = Some (- 1, s')"
  using install_result(2,3) [OF assms] install_eq [of s' k] by auto

text \<open>A sequence of installations; the classes found at the end are those found before and those
  whose installation succeeded.\<close>

fun install_all :: "'k list \<Rightarrow> 's \<Rightarrow> ('k list \<times> 's) option" where
  "install_all [] s = Some ([], s)"
| "install_all (k # ks) s = do {
     (r, s) \<leftarrow> install k s;
     (new, s) \<leftarrow> install_all ks s;
     Some (if r = 0 then k # new else new, s) }"

lemma install_all_found:
  assumes "inv s" "install_all ks s = Some (new, s')"
  shows "inv s' \<and> distinct new \<and> (\<forall>k \<in> set new. find k s = Some None) \<and>
    (\<forall>k. (\<exists>v. find k s' = Some (Some v)) \<longleftrightarrow> k \<in> set new \<or> (\<exists>v. find k s = Some (Some v)))"
  using assms
proof (induction ks arbitrary: s new)
  case (Cons k ks)
  from Cons.prems(2) obtain r s1 new1 where i: "install k s = Some (r, s1)"
    "install_all ks s1 = Some (new1, s')" "new = (if r = 0 then k # new1 else new1)"
    by (auto split: Option.bind_splits)
  note res = install_result [OF Cons.prems(1) i(1)]
  note IH = Cons.IH [OF res(2) i(2)]
  show ?case
  proof (cases "r = 0")
    case True
    then have fresh: "find k s = Some None" "\<exists>v. find k s1 = Some (Some v)" using res(3) by auto
    have same: "find k' s1 = find k' s" if "k' \<noteq> k" for k' using res(4) that by blast
    have "k \<notin> set new1" using IH fresh(2) by auto
    then show ?thesis using IH fresh same True i(3) by (metis distinct.simps(2) set_ConsD list.set_intros)
  next
    case False
    then have "find k' s1 = find k' s" for k' using res(4) by blast
    then show ?thesis using IH False i(3) by simp
  qed
qed simp

end

section \<open>Token buckets\<close>

text \<open>
  A step pays for what it sends from the level, and the level grows by at most
  \<open>rate / scale\<close> per unit of time.
\<close>

locale token_bucket =
  fixes inv :: "'s \<Rightarrow> bool" and level sent stamp :: "'s \<Rightarrow> int" and step :: "'e \<Rightarrow> 's \<Rightarrow> 's"
    and scale rate :: int
  assumes scale_pos: "0 < scale"
    and level_nonneg: "inv s \<Longrightarrow> 0 \<le> level s"
    and step_inv: "inv s \<Longrightarrow> inv (step e s)"
    and step_pays: "inv s \<Longrightarrow> scale * (level (step e s) + sent (step e s)) + rate * stamp s \<le>
      scale * (level s + sent s) + rate * stamp (step e s)"
begin

lemma run_inv: "inv s \<Longrightarrow> inv (fold step es s)"
  by (induction es arbitrary: s) (simp_all add: step_inv)

lemma run_pays:
  "inv s \<Longrightarrow> scale * (level (fold step es s) + sent (fold step es s)) + rate * stamp s \<le>
    scale * (level s + sent s) + rate * stamp (fold step es s)"
proof (induction es arbitrary: s)
  case (Cons e es)
  show ?case
    using step_pays [OF Cons.prems, of e] Cons.IH [OF step_inv [OF Cons.prems, of e]] by simp
qed simp

text \<open>What a run sends after its first steps \<open>es\<close>: the level reached by then and the credit since.\<close>

lemma window_bound:
  fixes es fs :: "'e list"
  assumes "inv s"
  defines "s1 \<equiv> fold step es s" and "s2 \<equiv> fold step (es @ fs) s"
  shows "scale * (sent s2 - sent s1) \<le> scale * level s1 + rate * (stamp s2 - stamp s1)"
proof -
  have s1: "inv s1" using run_inv [OF assms(1)] by (simp add: s1_def)
  have s2: "s2 = fold step fs s1" by (simp add: s1_def s2_def)
  have "0 \<le> scale * level s2"
    using scale_pos level_nonneg run_inv [OF s1, of fs] by (simp add: s2)
  then show ?thesis using run_pays [OF s1, of fs] by (simp add: s2 algebra_simps)
qed

end

end
