(* ===== verification/VirtualQueue.thy ===== *)
theory VirtualQueue
  imports RateLimiter Interfaces
begin

text \<open>
  The virtual queues of \<open>src/vq.h\<close> and \<open>src/vq.c\<close> and the receive context of \<open>src/rx.h\<close> they hang
  on. A virtual queue counts what a class receives on each CPU and computes the rate it
  advertises to the senders.

  \<open>vqs\<close> maps the addresses of live virtual queues to their contents. A receive context is
  identified by its device; its list and its hash buckets hold addresses, which may dangle.
  \<open>percpu_stats\<close> is None when the per-CPU counters could not be allocated.
\<close>

section \<open>State\<close>

record iso_vq_stats =
  bytes_queued :: u64
  network_marked :: u64
  vs_rx_packets :: u64
  vs_rx_bytes :: u64
  last_feedback_gen_time :: ktime
  rx_since_last_feedback :: u32
  rx_marked_since_last_feedback :: u32

record iso_vq =
  vq_enabled :: u8
  vq_is_static :: u8
  vq_rate :: u64
  total_bytes_queued :: u64
  feedback_rate :: u64
  vq_rx_rate :: u64
  last_rx_bytes :: u64
  vq_weight :: u64
  vq_alpha :: u32
  vq_last_update_time :: ktime
  last_borrow_time :: ktime
  percpu_stats :: "(cpu \<Rightarrow> iso_vq_stats) option"
  vq_klass :: iso_class_t
  vq_refcnt :: int
  vq_rxctx :: dev

record iso_rx_stats =
  rs_bytes :: u64
  rs_packets :: u64

record iso_rx_context =
  rxctx_vq_last_update_time :: ktime
  vq_list :: "nat list"
  vq_bucket :: "nat \<Rightarrow> nat list"
  vq_active_rate :: int
  rx_stats :: "(cpu \<Rightarrow> iso_rx_stats) option"
  global_stats :: iso_rx_stats
  global_stats_last :: iso_rx_stats
  last_stats_update_time :: ktime
  last_rcp_time :: ktime
  rcp_rate :: u32
  rxctx_rx_rate :: u32

record vq_mem = rl_mem +
  vqs :: "nat \<rightharpoonup> iso_vq"
  rxctxs :: "dev \<rightharpoonup> iso_rx_context"
  rxctx_list :: "dev list"

definition vq_stats_zero :: iso_vq_stats where
  "vq_stats_zero = \<lparr>bytes_queued = 0, network_marked = 0, vs_rx_packets = 0, vs_rx_bytes = 0,
     last_feedback_gen_time = 0, rx_since_last_feedback = 0, rx_marked_since_last_feedback = 0\<rparr>"

abbreviation put_vq :: "nat \<Rightarrow> iso_vq \<Rightarrow> 'z vq_mem_scheme \<Rightarrow> 'z vq_mem_scheme" where
  "put_vq v vq s \<equiv> s\<lparr>vqs := (vqs s)(v \<mapsto> vq)\<rparr>"

abbreviation put_rxctx :: "dev \<Rightarrow> iso_rx_context \<Rightarrow> 'z vq_mem_scheme \<Rightarrow> 'z vq_mem_scheme" where
  "put_rxctx d ctx s \<equiv> s\<lparr>rxctxs := (rxctxs s)(d \<mapsto> ctx)\<rparr>"

section \<open>Set-up, lookup and tear-down\<close>

definition iso_vqs_init :: "dev \<Rightarrow> 'z vq_mem_scheme \<Rightarrow> 'z vq_mem_scheme option" where
  "iso_vqs_init d s = do {
     ctx \<leftarrow> rxctxs s d;
     let (now, s) = ktime_get s;
     Some (put_rxctx d (ctx\<lparr>vq_list := [], rxctx_vq_last_update_time := now, vq_active_rate := 0,
       vq_bucket := (\<lambda>i. if i < ISO_MAX_VQ_BUCKETS then [] else vq_bucket ctx i)\<rparr>) s) }"

text \<open>
  \<open>iso_vq_find\<close>: a walk along the hash bucket of the class.
\<close>

definition vq_index :: "kapi \<Rightarrow> iso_class_t \<Rightarrow> nat" where
  "vq_index K klass = bucket_index (iso_class_hash K klass) ISO_MAX_VQ_BUCKETS"

definition vq_has_class :: "iso_class_t \<Rightarrow> 'z vq_mem_scheme \<Rightarrow> nat \<Rightarrow> bool option" where
  "vq_has_class klass s v = map_option (\<lambda>vq. iso_class_cmp (vq_klass vq) klass = 0) (vqs s v)"

definition iso_vq_find :: "kapi \<Rightarrow> iso_class_t \<Rightarrow> dev \<Rightarrow> 'z vq_mem_scheme \<Rightarrow> nat option option" where
  "iso_vq_find K klass d s = do {
     ctx \<leftarrow> rxctxs s d;
     hlist_find (vq_has_class klass s) (vq_bucket ctx (vq_index K klass)) }"

definition iso_vq_over_limits :: "iso_vq \<Rightarrow> int" where
  "iso_vq_over_limits vq = s32 (uint (feedback_rate vq))"

text \<open>
  \<open>iso_vq_calculate_rates\<close>: every virtual queue of the context that has no static rate gets its
  share of the drain rate.
\<close>

definition add_weight :: "'z vq_mem_scheme \<Rightarrow> nat \<Rightarrow> u32 \<Rightarrow> u32 option" where
  "add_weight s v w = do { vq \<leftarrow> vqs s v; Some (w + ucast (vq_weight vq)) }"

definition set_share :: "u32 \<Rightarrow> nat \<Rightarrow> 'z vq_mem_scheme \<Rightarrow> 'z vq_mem_scheme option" where
  "set_share w v s = do {
     vq \<leftarrow> vqs s v;
     if vq_is_static vq \<noteq> 0 then Some s
     else Some (put_vq v (vq\<lparr>vq_rate :=
            of_int (ISO_VQ_DRAIN_RATE_MBPS (tun s)) * vq_weight vq div ucast w\<rparr>) s) }"

definition iso_vq_calculate_rates :: "dev \<Rightarrow> 'z vq_mem_scheme \<Rightarrow> 'z vq_mem_scheme option" where
  "iso_vq_calculate_rates d s = do {
     ctx \<leftarrow> rxctxs s d;
     w \<leftarrow> foldM (add_weight s) (vq_list ctx) 0;
     if 0 < w then foldM (set_share w) (vq_list ctx) s else Some s }"

definition ENOMEM :: int where "ENOMEM = 12"

text \<open>
  \<open>iso_vq_init\<close>. When the per-CPU counters cannot be allocated it returns before the
  reference count is set.
\<close>

definition iso_vq_init :: "iso_vq \<Rightarrow> 'z kenv_scheme \<Rightarrow> int \<times> iso_vq \<times> 'z kenv_scheme" where
  "iso_vq_init vq s =
     (let P = tun s;
          (now, s) = ktime_get s;
          vq = vq\<lparr>vq_enabled := 1, vq_is_static := 0, vq_rate := of_int (ISO_MIN_RFAIR P),
                  total_bytes_queued := 0, feedback_rate := of_int (ISO_MIN_RFAIR P),
                  last_rx_bytes := 0, vq_rx_rate := 0, vq_weight := 1, vq_alpha := 0,
                  vq_last_update_time := now, last_borrow_time := now\<rparr>;
          (ok, s) = alloc_percpu s
      in if \<not> ok then (- ENOMEM, vq\<lparr>percpu_stats := None\<rparr>, s)
         else (0, vq\<lparr>percpu_stats := Some (\<lambda>_. vq_stats_zero), vq_refcnt := 0\<rparr>, s))"

text \<open>The contents of the memory \<open>kmalloc\<close> returned; only \<open>refcnt\<close> can be read before it is set.\<close>

definition vq_raw :: "dev \<Rightarrow> int \<Rightarrow> iso_vq" where
  "vq_raw d junk = \<lparr>vq_enabled = 0, vq_is_static = 0, vq_rate = 0, total_bytes_queued = 0,
     feedback_rate = 0, vq_rx_rate = 0, last_rx_bytes = 0, vq_weight = 0, vq_alpha = 0,
     vq_last_update_time = 0, last_borrow_time = 0, percpu_stats = None, vq_klass = 0,
     vq_refcnt = junk, vq_rxctx = d\<rparr>"

definition iso_vq_alloc :: "kapi \<Rightarrow> iso_class_t \<Rightarrow> dev \<Rightarrow> 'z vq_mem_scheme \<Rightarrow>
    (nat option \<times> 'z vq_mem_scheme) option" where
  "iso_vq_alloc K klass d s =
     (case kmalloc s of
        (None, s) \<Rightarrow> Some (None, s)
      | (Some v, s) \<Rightarrow> do {
          let (_, vq, s) = iso_vq_init (vq_raw d (garbage s (nallocs s))) s;
          ctx \<leftarrow> rxctxs s d;
          let s = put_vq v (vq\<lparr>vq_klass := klass\<rparr>) s;
          let i = vq_index K klass;
          let s = put_rxctx d (ctx\<lparr>vq_list := vq_list ctx @ [v],
                    vq_bucket := (vq_bucket ctx)(i := v # vq_bucket ctx i)\<rparr>) s;
          s \<leftarrow> iso_vq_calculate_rates d s;
          Some (Some v, s) })"

text \<open>
  \<open>iso_vq_free\<close> unlinks the virtual queue from the list of its context, but not from its hash
  bucket.
\<close>

definition iso_vq_free :: "nat \<Rightarrow> 'z vq_mem_scheme \<Rightarrow> 'z vq_mem_scheme option" where
  "iso_vq_free v s = do {
     vq \<leftarrow> vqs s v;
     if 0 < vq_refcnt vq then Some s
     else do {
       ctx \<leftarrow> rxctxs s (vq_rxctx vq);
       let s = put_rxctx (vq_rxctx vq) (ctx\<lparr>vq_list := remove1 v (vq_list ctx)\<rparr>) s;
       Some (s\<lparr>vqs := (vqs s)(v := None)\<rparr>) } }"

definition iso_vqs_exit :: "dev \<Rightarrow> 'z vq_mem_scheme \<Rightarrow> 'z vq_mem_scheme option" where
  "iso_vqs_exit d s = do {
     ctx \<leftarrow> rxctxs s d;
     foldM iso_vq_free (vq_list ctx) s }"

text \<open>\<open>iso_vq_install\<close> (\<open>src/rx.c\<close>), first for a parsed class.\<close>

definition vq_install_class :: "kapi \<Rightarrow> iso_class_t \<Rightarrow> dev \<Rightarrow> 'z vq_mem_scheme \<Rightarrow>
    (int \<times> 'z vq_mem_scheme) option" where
  "vq_install_class K klass d s = do {
     vq \<leftarrow> iso_vq_find K klass d s;
     if vq \<noteq> None then Some (- 1, s)
     else do {
       (vq, s) \<leftarrow> iso_vq_alloc K klass d s;
       Some (if vq = None then - 1 else 0, s) } }"

definition iso_vq_install :: "kapi \<Rightarrow> string \<Rightarrow> dev \<Rightarrow> 'z vq_mem_scheme \<Rightarrow>
    (int \<times> 'z vq_mem_scheme) option" where
  "iso_vq_install K klass d s = vq_install_class K (iso_class_parse klass) d s"

section \<open>Drain: the advertised rate\<close>

definition MUL15 :: "u32 \<Rightarrow> u32" where "MUL15 x = push_bit 4 x - x"
definition EWMA_G16 :: "u32 \<Rightarrow> u32 \<Rightarrow> u32" where "EWMA_G16 old new = drop_bit 4 (MUL15 old + new)"

text \<open>The capacity of the virtual queue, \<open>rate\<close> in \<open>iso_vq_drain\<close>.\<close>

definition drain_rate :: "iso_vq \<Rightarrow> u32 \<Rightarrow> u64" where
  "drain_rate vq rcp =
     (let rate = vq_weight vq * ucast rcp
      in if vq_is_static vq \<noteq> 0 then min rate (vq_rate vq) else rate)"

definition mark_frac :: "u32 \<Rightarrow> u32 \<Rightarrow> u32 option" where
  "mark_frac marked pkts = do { f \<leftarrow> udiv (push_bit 10 marked) pkts; Some (min 1024 f) }"

text \<open>The measured rate, raised by the marking threshold when packets were marked.\<close>

definition drain_rx_rate :: "tunables \<Rightarrow> u64 \<Rightarrow> u64 \<Rightarrow> u64 \<Rightarrow> u32 \<Rightarrow> int option" where
  "drain_rx_rate P rate diff dt frac = do {
     r \<leftarrow> udiv (push_bit 3 diff) dt;
     let rx_rate = s32 (uint r);
     if frac \<noteq> 0 then do {
       e \<leftarrow> udiv (ucast (of_int (s32 (ISO_ECN_MARK_THRESH_BYTES P * 8)) * (1024 + frac) div 1024 :: u32)) dt;
       let rx_rate = s32 (uint (of_int rx_rate + e :: u64));
       Some (min rx_rate (s32 (uint (3 * rate)))) }
     else Some rx_rate }"

definition drain_rate2 :: "u64 \<Rightarrow> u32" where
  "drain_rate2 rate = ucast (push_bit 1 rate)"

definition drain_feedback :: "tunables \<Rightarrow> u64 \<Rightarrow> int \<Rightarrow> u64 \<Rightarrow> u64 option" where
  "drain_feedback P rate rx_rate fb =
     (if ISO_VQ_DRAIN_RATE_MBPS P \<le> ISO_MAX_TX_RATE P then do {
        let rate2 = drain_rate2 rate;
        r \<leftarrow> udiv (fb * (ucast rate2 + rate - of_int rx_rate)) (ucast rate2);
        Some (max (of_int (ISO_MIN_RFAIR P)) (min rate r)) }
      else Some (of_int (ISO_MAX_TX_RATE P)))"

text \<open>The loop over the online CPUs resets three counters of each.\<close>

definition drain_reset :: "iso_vq_stats \<Rightarrow> iso_vq_stats" where
  "drain_reset st = st\<lparr>bytes_queued := 0, rx_since_last_feedback := 0, rx_marked_since_last_feedback := 0\<rparr>"

definition iso_vq_drain :: "nat \<Rightarrow> u64 \<Rightarrow> 'z vq_mem_scheme \<Rightarrow> 'z vq_mem_scheme option" where
  "iso_vq_drain v dt s = do {
     vq \<leftarrow> vqs s v;
     let (now, s) = ktime_get s;
     let P = tun s;
     let dt2 = (of_int (ktime_us_delta now (vq_last_update_time vq)) :: u64);
     if dt2 < of_int (ISO_VQ_UPDATE_INTERVAL_US P) then Some s
     else do {
       stats \<leftarrow> percpu_stats vq;
       let rx_bytes = sum_list (map (\<lambda>c. vs_rx_bytes (stats c)) (online s));
       let rx_pkts = sum_list (map (\<lambda>c. rx_since_last_feedback (stats c)) (online s));
       let rx_marked = sum_list (map (\<lambda>c. rx_marked_since_last_feedback (stats c)) (online s));
       let stats = (\<lambda>c. if c \<in> set (online s) then drain_reset (stats c) else stats c);
       let rx_pkts = (if rx_pkts = 0 then 1 else rx_pkts);
       ctx \<leftarrow> rxctxs s (vq_rxctx vq);
       let rate = drain_rate vq (rcp_rate ctx);
       frac \<leftarrow> mark_frac rx_marked rx_pkts;
       rx_rate \<leftarrow> drain_rx_rate P rate (rx_bytes - last_rx_bytes vq) dt frac;
       fb \<leftarrow> drain_feedback P rate rx_rate (feedback_rate vq);
       Some (put_vq v (vq\<lparr>vq_last_update_time := now, percpu_stats := Some stats,
               vq_alpha := EWMA_G16 (vq_alpha vq) frac, feedback_rate := fb,
               vq_rx_rate := of_int rx_rate, last_rx_bytes := rx_bytes\<rparr>) s) } }"

section \<open>Enqueue\<close>

definition vq_update_stats :: "nat \<Rightarrow> (iso_vq_stats \<Rightarrow> iso_vq_stats) \<Rightarrow> 'z vq_mem_scheme \<Rightarrow>
    'z vq_mem_scheme option" where
  "vq_update_stats v f s = do {
     vq \<leftarrow> vqs s v;
     stats \<leftarrow> percpu_stats vq;
     let c = this_cpu s;
     Some (put_vq v (vq\<lparr>percpu_stats := Some (stats(c := f (stats c)))\<rparr>) s) }"

definition count_packet :: "sk_buff \<Rightarrow> iso_vq_stats \<Rightarrow> iso_vq_stats" where
  "count_packet pkt st =
     (let st = st\<lparr>rx_since_last_feedback := rx_since_last_feedback st + 1,
                  vs_rx_packets := vs_rx_packets st + 1\<rparr>
      in if is_ip pkt \<and> tos (ip_hdr pkt) AND 3 = 3
         then st\<lparr>network_marked := network_marked st + 1,
                 rx_marked_since_last_feedback := rx_marked_since_last_feedback st + 1\<rparr>
         else st)"

definition count_bytes :: "sk_buff \<Rightarrow> iso_vq_stats \<Rightarrow> iso_vq_stats" where
  "count_bytes pkt st =
     st\<lparr>bytes_queued := bytes_queued st + ucast (skb_size32 pkt),
        vs_rx_bytes := vs_rx_bytes st + ucast (skb_size32 pkt)\<rparr>"

text \<open>The part of \<open>iso_vq_enqueue\<close> between the two counts: drain when it is due.\<close>

definition vq_poll :: "nat \<Rightarrow> 'z vq_mem_scheme \<Rightarrow> 'z vq_mem_scheme option" where
  "vq_poll v s = do {
     let (now, s) = ktime_get s;
     vq \<leftarrow> vqs s v;
     let dt = (of_int (ktime_us_delta now (vq_last_update_time vq)) :: u64);
     if of_int (ISO_VQ_UPDATE_INTERVAL_US (tun s)) < dt
     then let (locked, s) = spin_trylock s
          in if locked then iso_vq_drain v dt s else Some s
     else Some s }"

definition iso_vq_enqueue :: "nat \<Rightarrow> sk_buff \<Rightarrow> 'z vq_mem_scheme \<Rightarrow> 'z vq_mem_scheme option" where
  "iso_vq_enqueue v pkt s = do {
     s \<leftarrow> vq_update_stats v (count_packet pkt) s;
     s \<leftarrow> vq_poll v s;
     vq_update_stats v (count_bytes pkt) s }"

end
