(* ===== verification/RateControl.thy ===== *)
theory RateControl
  imports Kernel
begin

text \<open>
  The rate controller of \<open>src/rc.h\<close> and \<open>src/rc.c\<close>: fast recovery and additive increase on
  packets without feedback, a decrease in proportion to the feedback on packets with it.
  The per-CPU counters \<open>stats\<close> are a function of the CPU. A controller is initialised by
  \<open>iso_rc_init\<close>, which leaves the counters of CPUs that are not possible untouched.
  The lemmas bound the fair rate and its target on every branch, and show that five rounds
  of fast recovery bring the rate within 1/32 of the target.
\<close>

section \<open>State\<close>

record iso_rc_stats =
  num_marked :: u64
  num_rx :: u64

datatype iso_rc = RC_FAST_RECOVERY | RC_AI

record iso_rc_state =
  rfair :: u64
  rfair_target :: u64
  rc_phase :: iso_rc
  rc_alpha :: u64
  rc_count :: int
  rc_stats :: "cpu \<Rightarrow> iso_rc_stats"
  last_rfair_change_time :: ktime
  last_rfair_decrease_time :: ktime
  last_feedback_time :: ktime

definition iso_rc_state_str :: "iso_rc \<Rightarrow> string" where
  "iso_rc_state_str p = (case p of RC_FAST_RECOVERY \<Rightarrow> ''RC_FAST_RECOVERY'' | RC_AI \<Rightarrow> ''RC_AI'')"

section \<open>Operations\<close>

definition iso_rc_init :: "iso_rc_state \<Rightarrow> 'z kenv_scheme \<Rightarrow> iso_rc_state \<times> 'z kenv_scheme" where
  "iso_rc_init rc s =
     (let (t1, s) = ktime_get s; (t2, s) = ktime_get s; (t3, s) = ktime_get s in
      (rc\<lparr>rfair := of_int (ISO_RFAIR_INITIAL (tun s)),
          rfair_target := of_int (ISO_RFAIR_INITIAL (tun s)),
          rc_alpha := 0, rc_count := 0, rc_phase := RC_AI,
          last_rfair_change_time := t1, last_rfair_decrease_time := t2, last_feedback_time := t3,
          rc_stats := (\<lambda>c. if c \<in> set (possible s)
             then (rc_stats rc c)\<lparr>num_marked := 0, num_rx := 0\<rparr> else rc_stats rc c)\<rparr>, s))"

text \<open>The controller does nothing on transmission.\<close>

definition iso_rc_tx :: "iso_rc_state \<Rightarrow> sk_buff \<Rightarrow> int" where
  "iso_rc_tx rc skb = 0"

definition iso_rc_do_ai :: "tunables \<Rightarrow> iso_rc_state \<Rightarrow> iso_rc_state" where
  "iso_rc_do_ai P rc =
     rc\<lparr>rfair := min (of_int (ISO_MAX_TX_RATE P)) (rfair rc + of_int (ISO_RFAIR_INCREMENT P))\<rparr>"

definition iso_rc_do_md :: "tunables \<Rightarrow> iso_rc_state \<Rightarrow> iso_rc_state option" where
  "iso_rc_do_md P rc = do {
     let m = s32 (2048 * ISO_FALPHA P);
     r \<leftarrow> udiv (rfair rc * (of_int m - rc_alpha rc)) (of_int m);
     Some (rc\<lparr>rfair := max (of_int (ISO_MIN_RFAIR P)) r\<rparr>) }"

definition MUL31 :: "u64 \<Rightarrow> u64" where "MUL31 x = push_bit 5 x - x"
definition EWMA_G32 :: "u64 \<Rightarrow> u64 \<Rightarrow> u64" where "EWMA_G32 old new = drop_bit 5 (MUL31 old + new)"

definition iso_rc_do_alpha :: "iso_rc_state \<Rightarrow> 'z kenv_scheme \<Rightarrow> iso_rc_state" where
  "iso_rc_do_alpha rc s =
     (let marked = sum_list (map (\<lambda>c. num_marked (rc_stats rc c)) (online s));
          rx = sum_list (map (\<lambda>c. num_rx (rc_stats rc c)) (online s));
          frac = (if rx \<noteq> 0 then 1024 * marked div rx else 0)
      in rc\<lparr>rc_stats := (\<lambda>c. if c \<in> set (online s)
              then (rc_stats rc c)\<lparr>num_marked := 0, num_rx := 0\<rparr> else rc_stats rc c),
            rc_alpha := EWMA_G32 (rc_alpha rc) frac\<rparr>)"

text \<open>
  The critical sections of \<open>iso_rc_rx\<close>: the decrease by a marked packet and the increase by
  an unmarked one, each up to its label \<open>done_decrease\<close> or \<open>done_increase\<close>. Both first
  reset an idle controller.
\<close>

definition rc_idle :: "bool \<Rightarrow> iso_rc_state \<Rightarrow> iso_rc_state" where
  "rc_idle idle rc =
     (if idle \<and> of_int ISO_IDLE_RATE < rfair rc
      then rc\<lparr>rfair := of_int ISO_IDLE_RATE, rfair_target := of_int ISO_IDLE_RATE\<rparr> else rc)"

definition rc_decrease :: "tunables \<Rightarrow> ktime \<Rightarrow> int \<Rightarrow> iso_rc_state \<Rightarrow> iso_rc_state" where
  "rc_decrease P now marked rc =
     (if (of_int (ktime_us_delta now (last_rfair_decrease_time rc)) :: u64)
           < of_int (ISO_RFAIR_DECREASE_INTERVAL_US P) then rc
      else
        let rc = rc_idle (ISO_IDLE_TIMEOUT_US < ktime_us_delta now (last_rfair_change_time rc)) rc;
            target = rfair rc;
            r = rfair rc * of_int (s32 (512 - marked)) div 512
        in rc\<lparr>rc_count := 0, rc_alpha := of_int marked,
              rfair := max (of_int (ISO_MIN_RFAIR P)) r,
              last_rfair_decrease_time := now, rc_phase := RC_FAST_RECOVERY,
              rfair_target := target\<rparr>)"

definition rc_raise :: "tunables \<Rightarrow> iso_rc_state \<Rightarrow> iso_rc_state" where
  "rc_raise P rc =
     (if rc_phase rc = RC_FAST_RECOVERY \<and> rc_count rc < 5
      then rc\<lparr>rfair := (rfair rc + rfair_target rc) div 2, rc_count := s32 (rc_count rc + 1)\<rparr>
      else let rc = iso_rc_do_ai P (rc\<lparr>rc_phase := RC_AI, rc_count := 0\<rparr>)
           in rc\<lparr>rfair_target := rfair rc\<rparr>)"

definition rc_increase :: "tunables \<Rightarrow> ktime \<Rightarrow> iso_rc_state \<Rightarrow> iso_rc_state" where
  "rc_increase P now rc =
     (let dt = (of_int (ktime_us_delta now (last_rfair_change_time rc)) :: u64) in
      if dt < of_int (ISO_RFAIR_INCREASE_INTERVAL_US P) then rc
      else rc_raise P (rc_idle (of_int ISO_IDLE_TIMEOUT_US < dt) rc))"

definition iso_rc_rx :: "iso_rc_state \<Rightarrow> sk_buff \<Rightarrow> 'z kenv_scheme \<Rightarrow>
    int \<times> iso_rc_state \<times> 'z kenv_scheme" where
  "iso_rc_rx rc skb s =
     (let P = tun s;
          marked = skb_has_feedback P skb;
          (now, s) = ktime_get s;
          c = this_cpu s;
          st = rc_stats rc c;
          st = st\<lparr>num_rx := num_rx st + 1,
                  num_marked := (if marked \<noteq> 0 then num_marked st + 1 else num_marked st)\<rparr>;
          rc = rc\<lparr>rc_stats := (rc_stats rc)(c := st)\<rparr>;
          due = (if marked \<noteq> 0
             then (of_int (ISO_RFAIR_DECREASE_INTERVAL_US P) :: u64)
                    < of_int (ktime_us_delta now (last_rfair_decrease_time rc))
             else (of_int (ISO_RFAIR_INCREASE_INTERVAL_US P) :: u64)
                    < of_int (ktime_us_delta now (last_rfair_change_time rc)))
      in if \<not> due then (0, rc, s)
         else let (locked, s) = spin_trylock s in
           if \<not> locked then (0, rc, s)
           else let rc = (if marked \<noteq> 0 then rc_decrease P now marked rc else rc_increase P now rc)
                in (1, rc\<lparr>last_rfair_change_time := now\<rparr>, s))"

section \<open>The fair rate stays in its range\<close>

definition rc_range :: "tunables \<Rightarrow> u64 \<Rightarrow> bool" where
  "rc_range P r \<longleftrightarrow> ISO_MIN_RFAIR P \<le> uint r \<and> uint r \<le> ISO_MAX_TX_RATE P"

definition rc_inv :: "tunables \<Rightarrow> iso_rc_state \<Rightarrow> bool" where
  "rc_inv P rc \<longleftrightarrow> rc_range P (rfair rc) \<and> rc_range P (rfair_target rc)"

definition rc_tunables :: "tunables \<Rightarrow> bool" where
  "rc_tunables P \<longleftrightarrow>
     0 \<le> ISO_MIN_RFAIR P \<and> ISO_MIN_RFAIR P \<le> ISO_IDLE_RATE \<and> ISO_MIN_RFAIR P \<le> ISO_MAX_TX_RATE P \<and>
     ISO_MAX_TX_RATE P < 2 ^ 31 \<and> 0 \<le> ISO_RFAIR_INCREMENT P \<and> ISO_RFAIR_INCREMENT P < 2 ^ 31"

text \<open>The idle rate is only taken when it lowers the rate, so it need not be below the maximum itself.\<close>

lemma rc_range_idle:
  assumes "rc_tunables P" "rc_range P r" "of_int ISO_IDLE_RATE < r"
  shows "rc_range P (of_int ISO_IDLE_RATE)"
  using assms by (simp add: rc_range_def rc_tunables_def ISO_IDLE_RATE_def word_less_def)

lemma rc_range_average:
  assumes "rc_range P r" "rc_range P t" "rc_tunables P"
  shows "rc_range P ((r + t) div 2)" "uint ((r + t) div 2) = (uint r + uint t) div 2"
proof -
  have "uint (r + t) = uint r + uint t"
    using assms by (intro uint_add_bounded) (simp add: rc_range_def rc_tunables_def)
  then show "uint ((r + t) div 2) = (uint r + uint t) div 2" by (simp add: uint_div)
  with assms show "rc_range P ((r + t) div 2)" by (auto simp: rc_range_def)
qed

lemma rc_range_scaled:
  assumes "rc_range P r" "rc_tunables P" "0 \<le> m" "m \<le> 512"
  shows "rc_range P (max (of_int (ISO_MIN_RFAIR P)) (r * of_int (s32 (512 - m)) div 512))"
    and "uint (r * of_int (s32 (512 - m)) div 512) = uint r * (512 - m) div 512"
proof -
  have f: "uint (of_int (s32 (512 - m)) :: u64) = 512 - m"
    using assms(3,4) by (subst s32_id, simp, simp) (rule uint_of_int, simp_all)
  have le: "uint r * (512 - m) \<le> uint r * 512" using assms(3) by (intro mult_left_mono) auto
  have "uint r < 2 ^ 31" using assms(1,2) by (simp add: rc_range_def rc_tunables_def)
  then have "uint (r * of_int (s32 (512 - m))) = uint r * (512 - m)"
    using le by (subst uint_mult_bounded) (simp_all add: f)
  then show e: "uint (r * of_int (s32 (512 - m)) div 512) = uint r * (512 - m) div 512"
    by (simp add: uint_div)
  have "uint r * (512 - m) div 512 \<le> uint r" using le by linarith
  moreover have "uint (of_int (ISO_MIN_RFAIR P) :: u64) = ISO_MIN_RFAIR P"
    using assms(2) by (intro uint_of_int) (auto simp: rc_tunables_def ISO_IDLE_RATE_def)
  ultimately show "rc_range P (max (of_int (ISO_MIN_RFAIR P)) (r * of_int (s32 (512 - m)) div 512))"
    using assms(1) by (auto simp: rc_range_def uint_max e)
qed

lemma rc_inv_idle: "rc_inv P rc \<Longrightarrow> rc_tunables P \<Longrightarrow> rc_inv P (rc_idle idle rc)"
  using rc_range_idle [of P "rfair rc"] by (simp add: rc_idle_def rc_inv_def)

lemma rc_inv_decrease:
  assumes "rc_inv P rc" "rc_tunables P" "0 \<le> m" "m \<le> 512"
  shows "rc_inv P (rc_decrease P now m rc)"
  using assms rc_range_scaled(1) [OF _ assms(2-4)] rc_inv_idle [OF assms(1,2)]
  by (simp add: rc_decrease_def rc_inv_def Let_def)

lemma rc_inv_raise:
  assumes "rc_inv P rc" "rc_tunables P"
  shows "rc_inv P (rc_raise P rc)"
proof -
  have c: "uint (of_int (ISO_MAX_TX_RATE P) :: u64) = ISO_MAX_TX_RATE P"
    and i: "uint (of_int (ISO_RFAIR_INCREMENT P) :: u64) = ISO_RFAIR_INCREMENT P"
    using assms(2) by (auto intro!: uint_of_int simp: rc_tunables_def ISO_IDLE_RATE_def)
  have "uint (rfair rc + of_int (ISO_RFAIR_INCREMENT P)) = uint (rfair rc) + ISO_RFAIR_INCREMENT P"
    using assms by (subst uint_add_bounded) (auto simp: i rc_inv_def rc_range_def rc_tunables_def)
  then have "rc_range P (min (of_int (ISO_MAX_TX_RATE P)) (rfair rc + of_int (ISO_RFAIR_INCREMENT P)))"
    using assms by (auto simp: rc_inv_def rc_range_def uint_min c rc_tunables_def)
  then show ?thesis
    using assms rc_range_average(1) [OF _ _ assms(2)]
    by (simp add: rc_raise_def iso_rc_do_ai_def rc_inv_def Let_def)
qed

lemma rc_inv_increase:
  "rc_inv P rc \<Longrightarrow> rc_tunables P \<Longrightarrow> rc_inv P (rc_increase P now rc)"
  by (simp add: rc_increase_def Let_def rc_inv_raise rc_inv_idle)

lemma rc_inv_fields [simp]:
  "rc_inv P (rc\<lparr>last_rfair_change_time := t\<rparr>) = rc_inv P rc"
  "rc_inv P (rc\<lparr>rc_stats := st\<rparr>) = rc_inv P rc"
  by (simp_all add: rc_inv_def)

lemma rc_inv_rx:
  assumes "rc_inv (tun s) rc" "rc_tunables (tun s)" "skb_has_feedback (tun s) skb \<le> 512"
  shows "rc_inv (tun s) (fst (snd (iso_rc_rx rc skb s)))"
proof -
  have m: "0 \<le> skb_has_feedback (tun s) skb" by (simp add: skb_has_feedback_def)
  show ?thesis
    unfolding iso_rc_rx_def ktime_get_def spin_trylock_def Let_def split_beta
    using assms(1) rc_inv_decrease [OF _ assms(2) m assms(3)] rc_inv_increase [OF _ assms(2)]
    by simp
qed

section \<open>Fast recovery\<close>

text \<open>Each round of fast recovery halves the distance to the target.\<close>

lemma raise_gap:
  assumes "rc_inv P rc" "rc_tunables P" "uint (rfair rc) \<le> uint (rfair_target rc)"
    "rc_phase rc = RC_FAST_RECOVERY" "0 \<le> rc_count rc" "rc_count rc < 5"
  shows "uint (rfair (rc_raise P rc)) \<le> uint (rfair_target rc)"
    "uint (rfair_target rc) - uint (rfair (rc_raise P rc)) =
       (uint (rfair_target rc) - uint (rfair rc) + 1) div 2"
    "rfair_target (rc_raise P rc) = rfair_target rc" "rc_phase (rc_raise P rc) = RC_FAST_RECOVERY"
    "rc_count (rc_raise P rc) = rc_count rc + 1"
proof -
  have i: "rc_range P (rfair rc)" "rc_range P (rfair_target rc)" using assms(1) by (simp_all add: rc_inv_def)
  have r: "rc_raise P rc = rc\<lparr>rfair := (rfair rc + rfair_target rc) div 2, rc_count := rc_count rc + 1\<rparr>"
    using assms(4-6) by (simp add: rc_raise_def s32_id)
  have a: "uint ((rfair rc + rfair_target rc) div 2) = (uint (rfair rc) + uint (rfair_target rc)) div 2"
    by (rule rc_range_average(2) [OF i assms(2)])
  show "uint (rfair (rc_raise P rc)) \<le> uint (rfair_target rc)"
    and "uint (rfair_target rc) - uint (rfair (rc_raise P rc)) =
       (uint (rfair_target rc) - uint (rfair rc) + 1) div 2"
    using assms(3) by (simp_all add: r a)
  show "rfair_target (rc_raise P rc) = rfair_target rc" "rc_phase (rc_raise P rc) = RC_FAST_RECOVERY"
    "rc_count (rc_raise P rc) = rc_count rc + 1"
    using assms(4) by (simp_all add: r)
qed

lemma recovery_run:
  assumes "rc_inv P rc" "rc_tunables P" "uint (rfair rc) \<le> uint (rfair_target rc)"
    "rc_phase rc = RC_FAST_RECOVERY" "rc_count rc = 0" "n \<le> 5"
  shows "let rc' = (rc_raise P ^^ n) rc in rc_inv P rc' \<and> uint (rfair rc') \<le> uint (rfair_target rc) \<and>
    rfair_target rc' = rfair_target rc \<and> rc_phase rc' = RC_FAST_RECOVERY \<and> rc_count rc' = int n \<and>
    2 ^ n * (uint (rfair_target rc) - uint (rfair rc')) \<le>
      uint (rfair_target rc) - uint (rfair rc) + (2 ^ n - 1)"
  using assms(6)
proof (induction n)
  case 0
  then show ?case using assms by simp
next
  case (Suc n)
  define r where "r = (rc_raise P ^^ n) rc"
  have IH: "rc_inv P r" "uint (rfair r) \<le> uint (rfair_target r)" "rfair_target r = rfair_target rc"
    "rc_phase r = RC_FAST_RECOVERY" "rc_count r = int n"
    "2 ^ n * (uint (rfair_target r) - uint (rfair r)) \<le>
      uint (rfair_target rc) - uint (rfair rc) + (2 ^ n - 1)"
    using Suc by (simp_all add: r_def Let_def)
  note g = raise_gap [OF IH(1) assms(2) IH(2,4)]
  define d where "d = uint (rfair_target r) - uint (rfair r)"
  have "2 * ((d + 1) div 2) \<le> d + 1" by linarith
  then have "2 ^ n * (2 * ((d + 1) div 2)) \<le> 2 ^ n * (d + 1)" by (intro mult_left_mono) simp_all
  also have "\<dots> = 2 ^ n * d + 2 ^ n" by (simp add: distrib_left)
  finally have "2 ^ Suc n * ((d + 1) div 2) \<le> 2 ^ n * d + 2 ^ n" by (simp add: mult_ac)
  moreover have "rc_inv P (rc_raise P r)" using IH(1) assms(2) by (rule rc_inv_raise)
  ultimately show ?case using IH g Suc.prems by (simp add: r_def [symmetric] d_def Let_def)
qed

end
