(* ===== verification/TxPath.thy ===== *)
theory TxPath
  imports VirtualQueue RateControl
begin

text \<open>
  The transmit path (\<open>src/tx.h\<close>, \<open>src/tx.c\<close>): transmit contexts, transmit classes, the state a
  class keeps per destination, and \<open>iso_tx\<close>.

  A transmit context is identified by its device. \<open>txcs\<close> and \<open>states\<close> map the addresses of live
  classes and destination states to their contents; the limiter \<open>txc->rl\<close> of class \<open>t\<close> is
  \<open>rls (TxcRl t)\<close>. A pointer to a destination state is a \<open>st_ptr\<close>: \<open>StateHead t\<close> is the address
  that the cursor of a loop over the empty \<open>prealloc_state_list\<close> of class \<open>t\<close> ends with. It is not
  NULL and no state has it.
\<close>

section \<open>State\<close>

record iso_per_dest_state =
  ip_key :: u32
  st_rl :: "rl_ptr option"
  tx_rc :: iso_rc_state

datatype st_ptr = StatePtr nat | StateHead nat

record iso_tx_class =
  txc_klass :: iso_class_t
  rl_bucket :: "nat \<Rightarrow> rl_ptr list"
  state_bucket :: "nat \<Rightarrow> nat list"
  txc_vq :: "nat option"
  prealloc_state_list :: "nat list"
  prealloc_rl_list :: "rl_ptr list"
  freelist_count :: int
  txc_weight :: int
  txc_active :: int
  txc_tx_rate :: u32
  tx_rate_smooth :: u32
  min_rate :: u32
  max_rate :: u32
  txc_is_static :: u8
  allocator_pending :: bool
  txc_txctx :: dev

record iso_tx_context =
  prev_gso_max_size :: int
  iso_tx_bucket :: "nat \<Rightarrow> nat list"
  txc_list :: "nat list"
  txc_last_update_time :: ktime
  txc_total_weight :: int
  ctx_tx_bytes :: u64
  ctx_tx_rate :: u32
  ctx_rate :: u32

record tx_mem = vq_mem +
  txcs :: "nat \<rightharpoonup> iso_tx_class"
  states :: "nat \<rightharpoonup> iso_per_dest_state"
  txctxs :: "dev \<rightharpoonup> iso_tx_context"
  txctx_list :: "dev list"
  gso_max_size :: "dev \<Rightarrow> int"
  has_netdev_ops :: "dev \<Rightarrow> bool"

abbreviation put_txc :: "nat \<Rightarrow> iso_tx_class \<Rightarrow> 'z tx_mem_scheme \<Rightarrow> 'z tx_mem_scheme" where
  "put_txc t txc s \<equiv> s\<lparr>txcs := (txcs s)(t \<mapsto> txc)\<rparr>"

abbreviation put_state :: "nat \<Rightarrow> iso_per_dest_state \<Rightarrow> 'z tx_mem_scheme \<Rightarrow> 'z tx_mem_scheme" where
  "put_state i st s \<equiv> s\<lparr>states := (states s)(i \<mapsto> st)\<rparr>"

abbreviation put_txctx :: "dev \<Rightarrow> iso_tx_context \<Rightarrow> 'z tx_mem_scheme \<Rightarrow> 'z tx_mem_scheme" where
  "put_txctx d ctx s \<equiv> s\<lparr>txctxs := (txctxs s)(d \<mapsto> ctx)\<rparr>"

abbreviation put_rl :: "rl_ptr \<Rightarrow> iso_rl \<Rightarrow> 'z rl_mem_scheme \<Rightarrow> 'z rl_mem_scheme" where
  "put_rl p rl s \<equiv> s\<lparr>rls := (rls s)(p \<mapsto> rl)\<rparr>"

section \<open>Lookup and rates of the classes\<close>

definition txc_index :: "kapi \<Rightarrow> iso_class_t \<Rightarrow> nat" where
  "txc_index K klass = bucket_index (iso_class_hash K klass) ISO_MAX_TX_BUCKETS"

definition txc_has_class :: "iso_class_t \<Rightarrow> 'z tx_mem_scheme \<Rightarrow> nat \<Rightarrow> bool option" where
  "txc_has_class klass s t = map_option (\<lambda>txc. iso_class_cmp (txc_klass txc) klass = 0) (txcs s t)"

definition iso_txc_find :: "kapi \<Rightarrow> iso_class_t \<Rightarrow> dev \<Rightarrow> 'z tx_mem_scheme \<Rightarrow> nat option option" where
  "iso_txc_find K klass d s = do {
     ctx \<leftarrow> txctxs s d;
     hlist_find (txc_has_class klass s) (iso_tx_bucket ctx (txc_index K klass)) }"

text \<open>One round of the loop of \<open>iso_txc_recompute_rates\<close>.\<close>

definition static_cap :: "iso_tx_class \<Rightarrow> u32 \<Rightarrow> u32" where
  "static_cap txc rate =
     (if txc_is_static txc \<noteq> 0 then ucast (min (ucast (max_rate txc) :: u64) (ucast rate)) else rate)"

definition recompute_class :: "int \<Rightarrow> nat \<Rightarrow> 'z tx_mem_scheme \<Rightarrow> 'z tx_mem_scheme option" where
  "recompute_class tw t s = do {
     txc \<leftarrow> txcs s t;
     rl \<leftarrow> rls s (TxcRl t);
     r \<leftarrow> sdiv32 (s32 (txc_weight txc * ISO_MAX_TX_RATE (tun s))) tw;
     let s = put_txc t (txc\<lparr>min_rate := of_int r\<rparr>) s;
     Some (put_rl (TxcRl t) (rl\<lparr>rl_rate := static_cap txc (of_int r)\<rparr>) s) }"

definition iso_txc_recompute_rates :: "dev \<Rightarrow> 'z tx_mem_scheme \<Rightarrow> 'z tx_mem_scheme option" where
  "iso_txc_recompute_rates d s = do {
     ctx \<leftarrow> txctxs s d;
     if txc_total_weight ctx = 0 then Some s
     else foldM (recompute_class (txc_total_weight ctx)) (txc_list ctx) s }"

section \<open>The periodic update of the rates\<close>

definition iso_txctx_accum :: "dev \<Rightarrow> 'z tx_mem_scheme \<Rightarrow> 'z tx_mem_scheme option" where
  "iso_txctx_accum d s = do {
     ctx \<leftarrow> txctxs s d;
     cbs \<leftarrow> rlcbs s d;
     Some (put_txctx d (ctx\<lparr>ctx_tx_bytes := sum_list (map (\<lambda>c. cb_tx_bytes (cbs c)) (online s))\<rparr>) s) }"

text \<open>The weighted RCP step of \<open>iso_txc_tick\<close>, in 32-bit arithmetic.\<close>

definition clamp32 :: "int \<Rightarrow> int \<Rightarrow> u32 \<Rightarrow> u32" where
  "clamp32 lo hi r =
     (let r = (ucast (min (of_int hi :: u64) (ucast r)) :: u32)
      in ucast (max (of_int lo :: u64) (ucast r)))"

definition tick_rate :: "tunables \<Rightarrow> u32 \<Rightarrow> u32 \<Rightarrow> u32 option" where
  "tick_rate P rate tx_rate = do {
     r \<leftarrow> udiv (rate * (of_int (s32 (3 * ISO_MAX_TX_RATE P)) - tx_rate))
               (of_int (s32 (ISO_MAX_TX_RATE P * 2)));
     Some (clamp32 (ISO_MIN_RFAIR P) (ISO_MAX_TX_RATE P) r) }"

text \<open>The rate of a class from the rate of its context.\<close>

definition class_rate :: "tunables \<Rightarrow> u32 \<Rightarrow> iso_tx_class \<Rightarrow> u32" where
  "class_rate P rate txc =
     (let r = rate * of_int (txc_weight txc);
          r = (ucast (min (of_int (ISO_MAX_TX_RATE P) :: u64) (ucast r)) :: u32);
          r = (ucast (max (ucast (min_rate txc) :: u64) (ucast r)) :: u32)
      in static_cap txc r)"

definition tick_class :: "u64 \<Rightarrow> u32 \<Rightarrow> nat \<Rightarrow> 'z tx_mem_scheme \<Rightarrow> 'z tx_mem_scheme option" where
  "tick_class dt rate t s = do {
     txc \<leftarrow> txcs s t;
     rl \<leftarrow> rls s (TxcRl t);
     let last_xmit = accum_xmit rl;
     let rl = iso_rl_accum rl s;
     r \<leftarrow> udiv (push_bit 3 (accum_xmit rl - last_xmit)) dt;
     let txc = txc\<lparr>txc_tx_rate := ucast r, tx_rate_smooth := (tx_rate_smooth txc * 15 + ucast r) div 16\<rparr>;
     let s = put_txc t txc s;
     Some (put_rl (TxcRl t) (rl\<lparr>rl_rate := class_rate (tun s) rate txc\<rparr>) s) }"

text \<open>
  \<open>iso_txc_tick\<close>. The second test of \<open>dt\<close>, under the lock, reads the same two times as the
  first.
\<close>

definition iso_txc_tick :: "dev \<Rightarrow> 'z tx_mem_scheme \<Rightarrow> 'z tx_mem_scheme option" where
  "iso_txc_tick d s = do {
     let (now, s) = ktime_get s;
     ctx \<leftarrow> txctxs s d;
     let dt = (of_int (ktime_us_delta now (txc_last_update_time ctx)) :: u64);
     if dt < of_int (ISO_TXC_UPDATE_INTERVAL_US (tun s)) then Some s
     else do {
       let (locked, s) = spin_trylock s;
       if \<not> locked then Some s
       else if dt < of_int (ISO_TXC_UPDATE_INTERVAL_US (tun s)) then Some s
       else do {
         let last_xmit = ctx_tx_bytes ctx;
         s \<leftarrow> iso_txctx_accum d (put_txctx d (ctx\<lparr>txc_last_update_time := now\<rparr>) s);
         ctx \<leftarrow> txctxs s d;
         r \<leftarrow> udiv (push_bit 3 (ctx_tx_bytes ctx - last_xmit)) dt;
         rate \<leftarrow> tick_rate (tun s) (ctx_rate ctx) (ucast r);
         let s = put_txctx d (ctx\<lparr>ctx_tx_rate := ucast r, ctx_rate := rate\<rparr>) s;
         foldM (tick_class dt rate) (txc_list ctx) s } } }"

section \<open>Destination states\<close>

definition rl_has_ip :: "u32 \<Rightarrow> 'z rl_mem_scheme \<Rightarrow> rl_ptr \<Rightarrow> bool option" where
  "rl_has_ip ip s p = map_option (\<lambda>rl. rl_ip rl = ip) (rls s p)"

text \<open>
  \<open>iso_pick_rl\<close>: the limiter of the destination, or the first preallocated one. The cursor of
  the loop over an empty preallocation list is returned as if it were a limiter.
\<close>

definition iso_pick_rl :: "kapi \<Rightarrow> nat \<Rightarrow> u32 \<Rightarrow> 'z tx_mem_scheme \<Rightarrow>
    (rl_ptr option \<times> 'z tx_mem_scheme) option" where
  "iso_pick_rl K t ip s = do {
     txc \<leftarrow> txcs s t;
     let i = bucket_index (jhash_1word K ip 0xfaceface) ISO_MAX_RL_BUCKETS;
     found \<leftarrow> hlist_find (rl_has_ip ip s) (rl_bucket txc i);
     case found of
       Some p \<Rightarrow> Some (Some p, s)
     | None \<Rightarrow>
         (case prealloc_rl_list txc of
            [] \<Rightarrow> Some (Some (RlHead t), s)
          | p # rest \<Rightarrow> do {
              rl \<leftarrow> rls s p;
              let s = put_rl p (rl\<lparr>rl_ip := ip\<rparr>) s;
              Some (Some p, put_txc t (txc\<lparr>prealloc_rl_list := rest,
                rl_bucket := (rl_bucket txc)(i := p # rl_bucket txc i)\<rparr>) s) }) }"

definition state_has_ip :: "u32 \<Rightarrow> 'z tx_mem_scheme \<Rightarrow> nat \<Rightarrow> bool option" where
  "state_has_ip ip s i = map_option (\<lambda>st. ip_key st = ip) (states s i)"

definition state_index :: "kapi \<Rightarrow> u32 \<Rightarrow> nat" where
  "state_index K ip = bucket_index (jhash_1word K ip 0xfacedead) ISO_MAX_STATE_BUCKETS"

text \<open>The loop over \<open>prealloc_state_list\<close> in \<open>iso_state_get\<close>, which ends in its first round.\<close>

definition state_create :: "kapi \<Rightarrow> nat \<Rightarrow> u32 \<Rightarrow> 'z tx_mem_scheme \<Rightarrow>
    (st_ptr \<times> 'z tx_mem_scheme) option" where
  "state_create K t ip s = do {
     txc \<leftarrow> txcs s t;
     case prealloc_state_list txc of
       [] \<Rightarrow> Some (StateHead t, s)
     | i # rest \<Rightarrow> do {
         st \<leftarrow> states s i;
         (p, s) \<leftarrow> iso_pick_rl K t ip (put_state i (st\<lparr>ip_key := ip\<rparr>) s);
         let st = st\<lparr>ip_key := ip, st_rl := p\<rparr>;
         if p = None then Some (StatePtr i, put_state i st s)
         else do {
           let (rc, s) = iso_rc_init (tx_rc st) s;
           let s = put_state i (st\<lparr>tx_rc := rc\<rparr>) s;
           txc \<leftarrow> txcs s t;
           let h = state_index K ip;
           Some (StatePtr i, put_txc t (txc\<lparr>prealloc_state_list := rest,
             state_bucket := (state_bucket txc)(h := i # state_bucket txc h),
             freelist_count := s32 (freelist_count txc - 1)\<rparr>) s) } } }"

text \<open>
  \<open>iso_state_get\<close>. The cursor of the lookup is the result, and it is only NULL when the bucket
  is empty; on a bucket without the address it is the last entry of the bucket.
\<close>

definition dest_ip :: "sk_buff \<Rightarrow> bool \<Rightarrow> u32" where
  "dest_ip skb rx = (if rx then htonl (saddr (ip_hdr skb)) else htonl (daddr (ip_hdr skb)))"

definition iso_state_get :: "kapi \<Rightarrow> nat \<Rightarrow> sk_buff \<Rightarrow> bool \<Rightarrow> bool \<Rightarrow> 'z tx_mem_scheme \<Rightarrow>
    (st_ptr option \<times> 'z tx_mem_scheme) option" where
  "iso_state_get K t skb rx create s =
     (if \<not> is_ip skb then Some (None, s)
      else do {
        txc \<leftarrow> txcs s t;
        let ip = dest_ip skb rx;
        let head = state_bucket txc (state_index K ip);
        cur \<leftarrow> hlist_cursor (state_has_ip ip s) head None;
        case cur of
          Some i \<Rightarrow> Some (Some (StatePtr i), s)
        | None \<Rightarrow>
            if \<not> create then Some (None, s)
            else do {
              let (locked, s) = spin_trylock s;
              if \<not> locked then Some (None, s)
              else do {
                cur \<leftarrow> hlist_cursor (state_has_ip ip s) head None;
                case cur of
                  Some i \<Rightarrow> Some (Some (StatePtr i), s)
                | None \<Rightarrow> do {
                    (p, s) \<leftarrow> state_create K t ip s;
                    txc \<leftarrow> txcs s t;
                    let s = (if freelist_count txc \<le> 10
                             then put_txc t (txc\<lparr>allocator_pending := True\<rparr>) s else s);
                    Some (Some p, s) } } } })"

section \<open>Creation of a class\<close>

text \<open>
  The memory of a new destination state. \<open>alloc_percpu\<close> zeroed its counters, and
  \<open>iso_state_init\<close> sets the controller; the key is set when the state is used.
\<close>

definition rc_raw :: iso_rc_state where
  "rc_raw = \<lparr>rfair = 0, rfair_target = 0, rc_phase = RC_FAST_RECOVERY, rc_alpha = 0, rc_count = 0,
     rc_stats = (\<lambda>_. \<lparr>num_marked = 0, num_rx = 0\<rparr>), last_rfair_change_time = 0,
     last_rfair_decrease_time = 0, last_feedback_time = 0\<rparr>"

definition state_raw :: iso_per_dest_state where
  "state_raw = \<lparr>ip_key = 0, st_rl = None, tx_rc = rc_raw\<rparr>"

definition iso_state_init :: "iso_per_dest_state \<Rightarrow> 'z kenv_scheme \<Rightarrow> iso_per_dest_state \<times> 'z kenv_scheme" where
  "iso_state_init st s = (let (rc, s) = iso_rc_init (tx_rc st) s in (st\<lparr>st_rl := None, tx_rc := rc\<rparr>, s))"

text \<open>\<open>iso_txc_prealloc\<close>; a failed allocation ends the loop.\<close>

fun iso_txc_prealloc :: "nat \<Rightarrow> nat \<Rightarrow> 'z tx_mem_scheme \<Rightarrow> 'z tx_mem_scheme option" where
  "iso_txc_prealloc t 0 s = Some s"
| "iso_txc_prealloc t (Suc n) s =
     (case kmalloc s of
        (None, s) \<Rightarrow> Some s
      | (Some i, s) \<Rightarrow>
          (let (ok, s) = alloc_percpu s in
           if \<not> ok then Some s
           else (case kmalloc s of
               (None, s) \<Rightarrow> Some s
             | (Some a, s) \<Rightarrow> do {
                 let (st, s) = iso_state_init state_raw s;
                 txc \<leftarrow> txcs s t;
                 ctx \<leftarrow> txctxs s (txc_txctx txc);
                 (rl, s) \<leftarrow> iso_rl_init (txc_txctx txc) s;
                 let s = put_rl (DestRl a) (rl\<lparr>rl_txc := Some t\<rparr>) (put_state i st s);
                 let s = put_txc t (txc\<lparr>freelist_count := s32 (freelist_count txc + 1),
                           prealloc_state_list := prealloc_state_list txc @ [i],
                           prealloc_rl_list := prealloc_rl_list txc @ [DestRl a]\<rparr>) s;
                 iso_txc_prealloc t n s })))"

definition iso_txc_allocator :: "nat \<Rightarrow> 'z tx_mem_scheme \<Rightarrow> 'z tx_mem_scheme option" where
  "iso_txc_allocator t s = do {
     txc \<leftarrow> txcs s t;
     iso_txc_prealloc t 32 (put_txc t (txc\<lparr>allocator_pending := False\<rparr>) s) }"

definition txc_new :: "tunables \<Rightarrow> dev \<Rightarrow> iso_class_t \<Rightarrow> iso_tx_class" where
  "txc_new P d klass = \<lparr>txc_klass = klass, rl_bucket = (\<lambda>_. []), state_bucket = (\<lambda>_. []),
     txc_vq = None, prealloc_state_list = [], prealloc_rl_list = [], freelist_count = 0,
     txc_weight = 1, txc_active = 0, txc_tx_rate = 0, tx_rate_smooth = 0,
     min_rate = of_int (ISO_MAX_TX_RATE P), max_rate = of_int (ISO_MAX_TX_RATE P),
     txc_is_static = 0, allocator_pending = False, txc_txctx = d\<rparr>"

text \<open>\<open>iso_txc_init\<close>, with the class that \<open>iso_txc_alloc\<close> sets after it.\<close>

definition iso_txc_init :: "nat \<Rightarrow> dev \<Rightarrow> iso_class_t \<Rightarrow> 'z tx_mem_scheme \<Rightarrow> 'z tx_mem_scheme option" where
  "iso_txc_init t d klass s = do {
     ctx \<leftarrow> txctxs s d;
     (rl, s) \<leftarrow> iso_rl_init d s;
     Some (put_rl (TxcRl t) rl (put_txc t (txc_new (tun s) d klass) s)) }"

definition iso_txc_alloc :: "kapi \<Rightarrow> iso_class_t \<Rightarrow> dev \<Rightarrow> 'z tx_mem_scheme \<Rightarrow>
    (nat option \<times> 'z tx_mem_scheme) option" where
  "iso_txc_alloc K klass d s =
     (case kmalloc s of
        (None, s) \<Rightarrow> Some (None, s)
      | (Some t, s) \<Rightarrow> do {
          s \<leftarrow> iso_txc_init t d klass s;
          s \<leftarrow> iso_txc_prealloc t 32 s;
          ctx \<leftarrow> txctxs s d;
          txc \<leftarrow> txcs s t;
          let i = txc_index K klass;
          let s = put_txctx d (ctx\<lparr>iso_tx_bucket := (iso_tx_bucket ctx)(i := t # iso_tx_bucket ctx i),
                    txc_list := txc_list ctx @ [t],
                    txc_total_weight := s32 (txc_total_weight ctx + txc_weight txc)\<rparr>) s;
          s \<leftarrow> iso_txc_recompute_rates d s;
          Some (Some t, s) })"

text \<open>\<open>iso_txc_mark_install\<close>, which \<open>iso_txc_install\<close> calls, first for a parsed class.\<close>

definition txc_install_class :: "kapi \<Rightarrow> iso_class_t \<Rightarrow> dev \<Rightarrow> 'z tx_mem_scheme \<Rightarrow>
    (int \<times> 'z tx_mem_scheme) option" where
  "txc_install_class K klass d s = do {
     txc \<leftarrow> iso_txc_find K klass d s;
     if txc \<noteq> None then Some (- 1, s)
     else do {
       (txc, s) \<leftarrow> iso_txc_alloc K klass d s;
       Some (if txc = None then - 1 else 0, s) } }"

definition iso_txc_mark_install :: "kapi \<Rightarrow> string \<Rightarrow> dev \<Rightarrow> 'z tx_mem_scheme \<Rightarrow>
    (int \<times> 'z tx_mem_scheme) option" where
  "iso_txc_mark_install K m d s = txc_install_class K (iso_class_parse m) d s"

definition iso_txc_install :: "kapi \<Rightarrow> string \<Rightarrow> dev \<Rightarrow> 'z tx_mem_scheme \<Rightarrow>
    (int \<times> 'z tx_mem_scheme) option" where
  "iso_txc_install K klass d s = iso_txc_mark_install K klass d s"

section \<open>Destruction of a class\<close>

definition iso_state_free :: "nat \<Rightarrow> 'z tx_mem_scheme \<Rightarrow> 'z tx_mem_scheme option" where
  "iso_state_free i s = do { st \<leftarrow> states s i; Some (s\<lparr>states := (states s)(i := None)\<rparr>) }"

definition iso_txc_free :: "nat \<Rightarrow> 'z tx_mem_scheme \<Rightarrow> 'z tx_mem_scheme option" where
  "iso_txc_free t s = do {
     txc \<leftarrow> txcs s t;
     s \<leftarrow> foldM iso_rl_free (concat (map (rl_bucket txc) [0..<ISO_MAX_RL_BUCKETS])) s;
     s \<leftarrow> foldM iso_state_free (concat (map (state_bucket txc) [0..<ISO_MAX_STATE_BUCKETS])) s;
     s \<leftarrow> foldM iso_rl_free (prealloc_rl_list txc) s;
     s \<leftarrow> foldM iso_state_free (prealloc_state_list txc) s;
     s \<leftarrow> (case txc_vq txc of
             None \<Rightarrow> Some s
           | Some v \<Rightarrow> do {
               vq \<leftarrow> vqs s v;
               Some (put_vq v (vq\<lparr>vq_refcnt := s32 (vq_refcnt vq - 1)\<rparr>) s) });
     rl \<leftarrow> rls s (TxcRl t);
     Some (s\<lparr>rls := (rls s)(TxcRl t := None), txcs := (txcs s)(t := None)\<rparr>) }"

section \<open>Set-up and tear-down of a context\<close>

text \<open>\<open>iso_tx_hook_init\<close> (\<open>src/qdisc.c\<close>) takes the driver's transmit function.\<close>

definition iso_tx_hook_init :: "dev \<Rightarrow> 'z tx_mem_scheme \<Rightarrow> int \<times> 'z tx_mem_scheme" where
  "iso_tx_hook_init d s =
     (if \<not> has_netdev_ops s d then (1, s) else (0, s\<lparr>txctx_xmit := (txctx_xmit s)(d \<mapsto> True)\<rparr>))"

definition iso_tx_init :: "dev \<Rightarrow> 'z tx_mem_scheme \<Rightarrow> (int \<times> 'z tx_mem_scheme) option" where
  "iso_tx_init d s = do {
     ctx \<leftarrow> txctxs s d;
     let (now, s) = ktime_get s;
     let ctx = ctx\<lparr>txc_list := [], txc_last_update_time := now, ctx_rate := 2, ctx_tx_rate := 0,
                   ctx_tx_bytes := 0\<rparr>;
     let (e, s) = iso_rl_prep d (put_txctx d ctx s);
     if e \<noteq> 0 then Some (- 1, s)
     else do {
       let s = put_txctx d (ctx\<lparr>txc_total_weight := 0, prev_gso_max_size := gso_max_size s d\<rparr>) s;
       let s = s\<lparr>txctx_list := txctx_list s @ [d],
                 gso_max_size := (gso_max_size s)(d := ISO_GSO_MAX_SIZE)\<rparr>;
       Some (iso_tx_hook_init d s) } }"

text \<open>The loop of \<open>iso_tx_exit\<close> over one class of bucket \<open>i\<close>.\<close>

definition exit_class :: "dev \<Rightarrow> nat \<Rightarrow> nat \<Rightarrow> 'z tx_mem_scheme \<Rightarrow> 'z tx_mem_scheme option" where
  "exit_class d i t s = do {
     ctx \<leftarrow> txctxs s d;
     iso_txc_free t (put_txctx d (ctx\<lparr>iso_tx_bucket :=
       (iso_tx_bucket ctx)(i := remove1 t (iso_tx_bucket ctx i))\<rparr>) s) }"

text \<open>
  A context that was never put on the list of contexts has a zeroed list entry: \<open>list_del_init\<close> follows its
  NULL pointers.
\<close>

definition iso_tx_exit :: "dev \<Rightarrow> 'z tx_mem_scheme \<Rightarrow> 'z tx_mem_scheme option" where
  "iso_tx_exit d s = do {
     s \<leftarrow> iso_rl_exit d s;
     ctx \<leftarrow> txctxs s d;
     s \<leftarrow> (if d \<in> set (txctx_list s) then Some (s\<lparr>txctx_list := remove1 d (txctx_list s)\<rparr>) else None);
     s \<leftarrow> foldM (\<lambda>i. foldM (exit_class d i) (iso_tx_bucket ctx i)) [0..<ISO_MAX_TX_BUCKETS] s;
     Some (s\<lparr>gso_max_size := (gso_max_size s)(d := prev_gso_max_size ctx),
             rlcbs := (rlcbs s)(d := None)\<rparr>) }"

section \<open>Transmission\<close>

definition state_of :: "st_ptr \<Rightarrow> 'z tx_mem_scheme \<Rightarrow> iso_per_dest_state option" where
  "state_of p s = (case p of StatePtr i \<Rightarrow> states s i | StateHead t \<Rightarrow> None)"

definition iso_tx :: "kapi \<Rightarrow> sk_buff \<Rightarrow> dev \<Rightarrow> 'z tx_mem_scheme \<Rightarrow>
    (iso_verdict \<times> 'z tx_mem_scheme) option" where
  "iso_tx K skb d s = do {
     s \<leftarrow> iso_txc_tick d s;
     txc \<leftarrow> iso_txc_find K (iso_txc_classify skb) d s;
     case txc of
       None \<Rightarrow> Some (ISO_VERDICT_PASS, s)
     | Some t \<Rightarrow> do {
         (p, s) \<leftarrow> iso_state_get K t skb False False s;
         case p of
           None \<Rightarrow> Some (ISO_VERDICT_PASS, s)
         | Some p \<Rightarrow> do {
             st \<leftarrow> state_of p s;
             rl \<leftarrow> st_rl st;
             let c = this_cpu s;
             (v, s) \<leftarrow> iso_rl_enqueue K rl (iso_enable_ecn K skb) c s;
             (_, s) \<leftarrow> iso_rl_dequeue 2 K rl c s;
             Some (v, s) } } }"

end
