(* ===== verification/RxPath.thy ===== *)
theory RxPath
  imports TxPath
begin

text \<open>
  The receive path (\<open>src/rx.h\<close>, \<open>src/rx.c\<close>): the statistics and the hierarchical RCP rate of a
  receive context, the feedback packets, and \<open>iso_rx\<close>. \<open>iso_rx\<close> also returns the packet, whose
  IP header it may change.
\<close>

section \<open>Set-up and tear-down of a context\<close>

definition rx_stats_zero :: iso_rx_stats where
  "rx_stats_zero = \<lparr>rs_bytes = 0, rs_packets = 0\<rparr>"

record rx_mem = tx_mem +
  rx_handlers :: "dev \<Rightarrow> bool"

text \<open>
  \<open>iso_rx_hook_init\<close> and \<open>iso_rx_hook_exit\<close> (\<open>src/qdisc.c\<close>). \<open>netdev_rx_handler_register\<close> refuses a
  device that already has a handler.
\<close>

definition EBUSY :: int where "EBUSY = 16"

definition iso_rx_hook_init :: "dev \<Rightarrow> 'z rx_mem_scheme \<Rightarrow> int \<times> 'z rx_mem_scheme" where
  "iso_rx_hook_init d s =
     (if rx_handlers s d then (- EBUSY, s) else (0, s\<lparr>rx_handlers := (rx_handlers s)(d := True)\<rparr>))"

definition iso_rx_hook_exit :: "dev \<Rightarrow> 'z rx_mem_scheme \<Rightarrow> 'z rx_mem_scheme" where
  "iso_rx_hook_exit d s = s\<lparr>rx_handlers := (rx_handlers s)(d := False)\<rparr>"

definition iso_rx_init :: "dev \<Rightarrow> 'z rx_mem_scheme \<Rightarrow> (int \<times> 'z rx_mem_scheme) option" where
  "iso_rx_init d s = do {
     ctx \<leftarrow> rxctxs s d;
     let (ok, s) = alloc_percpu s;
     if \<not> ok then Some (- 1, put_rxctx d (ctx\<lparr>rx_stats := None\<rparr>) s)
     else do {
       let (t1, s) = ktime_get s;
       let (t2, s) = ktime_get s;
       let ctx = ctx\<lparr>rx_stats := Some (\<lambda>_. rx_stats_zero), last_stats_update_time := t1,
                     last_rcp_time := t2, rcp_rate := of_int (ISO_VQ_DRAIN_RATE_MBPS (tun s)),
                     rxctx_rx_rate := 0, global_stats := rx_stats_zero,
                     global_stats_last := rx_stats_zero\<rparr>;
       s \<leftarrow> iso_vqs_init d (put_rxctx d ctx s);
       Some (iso_rx_hook_init d (s\<lparr>rxctx_list := rxctx_list s @ [d]\<rparr>)) } }"

text \<open>As in \<open>iso_tx_exit\<close>, the entry of a context that is not on the list holds NULL pointers.\<close>

definition iso_rx_exit :: "dev \<Rightarrow> 'z rx_mem_scheme \<Rightarrow> 'z rx_mem_scheme option" where
  "iso_rx_exit d s = do {
     ctx \<leftarrow> rxctxs s d;
     s \<leftarrow> (if d \<in> set (rxctx_list s) then Some (s\<lparr>rxctx_list := remove1 d (rxctx_list s)\<rparr>) else None);
     s \<leftarrow> iso_vqs_exit d s;
     ctx \<leftarrow> rxctxs s d;
     Some (put_rxctx d (ctx\<lparr>rx_stats := None\<rparr>) (iso_rx_hook_exit d s)) }"

section \<open>Statistics and the RCP rate\<close>

text \<open>
  The loop of \<open>iso_rx_stats_update\<close> over the online CPUs: the bytes are summed, the number of
  packets is overwritten by that of each CPU.
\<close>

fun sum_stats :: "cpu list \<Rightarrow> (cpu \<Rightarrow> iso_rx_stats) \<Rightarrow> iso_rx_stats \<Rightarrow> iso_rx_stats" where
  "sum_stats [] st g = g"
| "sum_stats (c # cs) st g =
     sum_stats cs st (g\<lparr>rs_bytes := rs_bytes g + rs_bytes (st c), rs_packets := rs_packets (st c)\<rparr>)"

definition iso_rx_stats_update :: "dev \<Rightarrow> sk_buff \<Rightarrow> 'z vq_mem_scheme \<Rightarrow> 'z vq_mem_scheme option" where
  "iso_rx_stats_update d skb s = do {
     ctx \<leftarrow> rxctxs s d;
     st \<leftarrow> rx_stats ctx;
     let c = this_cpu s;
     let st = st(c := (st c)\<lparr>rs_bytes := rs_bytes (st c) + skb_bytes skb,
                             rs_packets := rs_packets (st c) + 1\<rparr>);
     let ctx = ctx\<lparr>rx_stats := Some st\<rparr>;
     let s = put_rxctx d ctx s;
     let (now, s) = ktime_get s;
     let dt = (of_int (ktime_us_delta now (last_stats_update_time ctx)) :: u64);
     if dt < of_int (ISO_VQ_UPDATE_INTERVAL_US (tun s)) then Some s
     else do {
       let (locked, s) = spin_trylock s;
       if \<not> locked then Some s
       else if dt < of_int (ISO_VQ_UPDATE_INTERVAL_US (tun s)) then Some s
       else do {
         let last = global_stats ctx;
         let g = sum_stats (online s) st rx_stats_zero;
         r \<leftarrow> udiv (push_bit 3 (rs_bytes g - rs_bytes last)) dt;
         Some (put_rxctx d (ctx\<lparr>last_stats_update_time := now, global_stats_last := last,
                 global_stats := g, rxctx_rx_rate := ucast r\<rparr>) s) } } }"

text \<open>The RCP step of \<open>iso_rx_rcp_update\<close>: the factor is computed in 32 bits, the product in 64.\<close>

definition rx_rcp_rate :: "tunables \<Rightarrow> u32 \<Rightarrow> u32 \<Rightarrow> u32 option" where
  "rx_rcp_rate P rate rx_rate = do {
     let cap = (of_int (ISO_VQ_DRAIN_RATE_MBPS P) :: u32);
     let cap2 = (of_int (s32 (ISO_VQ_DRAIN_RATE_MBPS P * 2)) :: u32);
     r \<leftarrow> udiv ((ucast rate :: u64) * ucast (cap2 + cap - rx_rate)) (ucast cap2);
     let r = max (of_int (ISO_MIN_RFAIR P)) r;
     let r = min (of_int (ISO_VQ_DRAIN_RATE_MBPS P)) r;
     Some (ucast r) }"

definition iso_rx_rcp_update :: "dev \<Rightarrow> 'z vq_mem_scheme \<Rightarrow> 'z vq_mem_scheme option" where
  "iso_rx_rcp_update d s = do {
     let (now, s) = ktime_get s;
     ctx \<leftarrow> rxctxs s d;
     let dt = (of_int (ktime_us_delta now (last_rcp_time ctx)) :: u64);
     if dt < of_int (ISO_VQ_HRCP_US (tun s)) then Some s
     else do {
       let (locked, s) = spin_trylock s;
       if \<not> locked then Some s
       else if dt < of_int (ISO_VQ_HRCP_US (tun s)) then Some s
       else do {
         r \<leftarrow> rx_rcp_rate (tun s) (rcp_rate ctx) (rxctx_rx_rate ctx);
         Some (put_rxctx d (ctx\<lparr>rcp_rate := r, last_rcp_time := now\<rparr>) s) } } }"

section \<open>Feedback\<close>

text \<open>\<open>iso_generate_feedback\<close>; \<open>netdev_alloc_skb\<close> may fail.\<close>

definition iso_generate_feedback :: "int \<Rightarrow> sk_buff \<Rightarrow> 'z rl_mem_scheme \<Rightarrow>
    (int \<times> 'z rl_mem_scheme) option" where
  "iso_generate_feedback fb pkt s =
     (if \<not> is_ip pkt then Some (0, s)
      else let (ok, s) = netdev_alloc_skb s in
        if \<not> ok then Some (0, s)
        else do { s \<leftarrow> skb_xmit (feedback_packet (tun s) fb pkt) s; Some (1, s) })"

text \<open>The rate that a feedback packet carries is given to the limiter of its sender.\<close>

definition rx_apply_feedback :: "st_ptr \<Rightarrow> sk_buff \<Rightarrow> 'z tx_mem_scheme \<Rightarrow> 'z tx_mem_scheme option" where
  "rx_apply_feedback p skb s = do {
     let P = tun s;
     let rate = skb_has_feedback P skb;
     let (now, s) = ktime_get s;
     if ISO_VQ_DRAIN_RATE_MBPS P \<le> ISO_MAX_TX_RATE P \<and> rate \<noteq> 0 then do {
       st \<leftarrow> state_of p s;
       let dt = (of_int (ktime_us_delta now (last_rfair_change_time (tx_rc st))) :: u64);
       if of_int (ISO_RFAIR_DECREASE_INTERVAL_US P) \<le> dt then do {
         let (locked, s) = spin_trylock s;
         if locked \<and> of_int (ISO_RFAIR_DECREASE_INTERVAL_US P) \<le> dt then do {
           r \<leftarrow> st_rl st;
           rl \<leftarrow> rls s r;
           let s = put_rl r (rl\<lparr>rl_rate := of_int rate, last_rate_update_time := now\<rparr>) s;
           case p of
             StatePtr i \<Rightarrow> Some (put_state i (st\<lparr>tx_rc := (tx_rc st)\<lparr>last_rfair_change_time := now\<rparr>\<rparr>) s)
           | StateHead t \<Rightarrow> None }
         else Some s }
       else Some s }
     else Some s }"

text \<open>The end of \<open>iso_rx\<close>: a feedback packet when enough time has passed or enough was received.\<close>

definition rx_send_feedback :: "nat \<Rightarrow> sk_buff \<Rightarrow> 'z vq_mem_scheme \<Rightarrow> 'z vq_mem_scheme option" where
  "rx_send_feedback v skb s = do {
     let (now, s) = ktime_get s;
     let (now2, s) = ktime_get s;
     vq \<leftarrow> vqs s v;
     st \<leftarrow> percpu_stats vq;
     let c = this_cpu s;
     let dt = (of_int (ktime_us_delta now2 (last_feedback_gen_time (st c))) :: u64);
     let n = rx_since_last_feedback (st c) + skb_size32 skb;
     s \<leftarrow> vq_update_stats v (\<lambda>st. st\<lparr>rx_since_last_feedback := n\<rparr>) s;
     if of_int (ISO_FEEDBACK_INTERVAL_US (tun s)) < dt \<or> of_int (ISO_FEEDBACK_INTERVAL_BYTES (tun s)) \<le> n
     then do {
       (_, s) \<leftarrow> iso_generate_feedback (iso_vq_over_limits vq) skb s;
       vq_update_stats v (\<lambda>st. st\<lparr>last_feedback_gen_time := now, rx_since_last_feedback := 0,
         network_marked := 0\<rparr>) s }
     else Some s }"

section \<open>Reception\<close>

definition rx_classified :: "kapi \<Rightarrow> nat \<Rightarrow> nat \<Rightarrow> sk_buff \<Rightarrow> 'z tx_mem_scheme \<Rightarrow>
    (iso_verdict \<times> sk_buff \<times> 'z tx_mem_scheme) option" where
  "rx_classified K t v skb s = do {
     (p, s) \<leftarrow> iso_state_get K t skb True (iso_is_feedback_marked (tun s) skb \<noteq> 0) s;
     (verdict, skb, s) \<leftarrow> (case p of
         None \<Rightarrow> Some (ISO_VERDICT_SUCCESS, skb, s)
       | Some p \<Rightarrow> do {
           s \<leftarrow> rx_apply_feedback p skb s;
           Some (if iso_is_generated_feedback (tun s) skb then ISO_VERDICT_DROP else ISO_VERDICT_SUCCESS,
                 iso_clear_ecn K skb, s) });
     s \<leftarrow> (if IsoAutoGenerateFeedback (tun s) \<noteq> 0 \<and> verdict \<noteq> ISO_VERDICT_DROP
           then rx_send_feedback v skb s else Some s);
     Some (verdict, skb, s) }"

definition iso_rx :: "kapi \<Rightarrow> sk_buff \<Rightarrow> dev \<Rightarrow> 'z tx_mem_scheme \<Rightarrow>
    (iso_verdict \<times> sk_buff \<times> 'z tx_mem_scheme) option" where
  "iso_rx K skb d s = do {
     s \<leftarrow> iso_rx_stats_update d skb s;
     s \<leftarrow> iso_rx_rcp_update d s;
     let klass = iso_rx_classify skb;
     vq \<leftarrow> iso_vq_find K klass d s;
     case vq of
       None \<Rightarrow> Some (ISO_VERDICT_SUCCESS, skb, s)
     | Some v \<Rightarrow> do {
         s \<leftarrow> iso_vq_enqueue v skb s;
         txc \<leftarrow> iso_txc_find K klass d s;
         case txc of
           None \<Rightarrow> Some (ISO_VERDICT_SUCCESS, skb, s)
         | Some t \<Rightarrow> rx_classified K t v skb s } }"

end
