(* ===== verification/Config.thy ===== *)
theory Config
  imports RxPath
begin

text \<open>
  The run-time configuration of \<open>src/params.c\<close>: the handlers behind the module parameters
  \<open>create_txc\<close>, \<open>create_vq\<close>, \<open>assoc_txc_vq\<close>, \<open>set_txc_weight\<close>, \<open>set_txc_rate\<close>, \<open>set_vq_weight\<close>,
  \<open>set_vq_rate\<close>, \<open>delete_txc\<close>, \<open>delete_vq\<close> and \<open>recompute_dev\<close>. Each takes the string written by the
  user and returns an error code. The string is taken apart by the kernel's \<open>sscanf\<close>, whose
  behaviour on the formats used here is \<open>scanf\<close>.

  The value None stands for undefined behaviour here too: a token that overflows its buffer of
  128 bytes, and the use of a buffer that \<open>sscanf\<close> has not filled.
\<close>

section \<open>State\<close>

record sys_mem = rx_mem +
  netdevs :: "(string \<times> dev) list"
  eyeq_root :: "dev \<Rightarrow> bool"
  config_mutex :: bool

definition EINVAL :: int where "EINVAL = 22"

text \<open>
  \<open>down_interruptible\<close>. When the semaphore is taken, the call blocks until the semaphore is released or a
  signal arrives. One command runs at a time here, so nobody releases it in the meantime: the result
  False is the return after a signal.
\<close>

definition down_interruptible :: "'z sys_mem_scheme \<Rightarrow> bool \<times> 'z sys_mem_scheme" where
  "down_interruptible s = (if config_mutex s then (True, s\<lparr>config_mutex := False\<rparr>) else (False, s))"

definition up_config :: "'z sys_mem_scheme \<Rightarrow> 'z sys_mem_scheme" where
  "up_config s = s\<lparr>config_mutex := True\<rparr>"

definition IFNAMSIZ :: nat where "IFNAMSIZ = 16"

definition iso_search_netdev :: "string \<Rightarrow> 'z sys_mem_scheme \<Rightarrow> dev option" where
  "iso_search_netdev name s =
     map_option snd (find (\<lambda>(n, d). take IFNAMSIZ n = take IFNAMSIZ name) (netdevs s))"

definition iso_enabled :: "dev \<Rightarrow> 'z sys_mem_scheme \<Rightarrow> bool" where
  "iso_enabled d s = eyeq_root s d"

text \<open>The device of the given name, if EyeQ is attached to it.\<close>

definition enabled_dev :: "string \<Rightarrow> 'z sys_mem_scheme \<Rightarrow> dev option" where
  "enabled_dev name s = do { d \<leftarrow> iso_search_netdev name s; if iso_enabled d s then Some d else None }"

section \<open>Scanning\<close>

datatype conv = Sp | Lit char | ConvS | ConvD

datatype arg = ArgS string | ArgD int

definition skip_spaces :: "string \<Rightarrow> string" where
  "skip_spaces str = dropWhile is_space str"

text \<open>The conversion \<open>%d\<close>: a minus sign is accepted, the value is truncated to an \<open>int\<close>.\<close>

definition scan_d :: "string \<Rightarrow> (int \<times> string) option" where
  "scan_d str =
     (case skip_spaces str of
        [] \<Rightarrow> None
      | c # cs \<Rightarrow>
          if c = CHR ''-''
          then (case cs of
                  [] \<Rightarrow> None
                | d # ds \<Rightarrow> if is_digit d then (case scan_digits 0 cs of (n, r) \<Rightarrow> Some (s32 (- int n), r)) else None)
          else if is_digit c then (case scan_digits 0 (c # cs) of (n, r) \<Rightarrow> Some (s32 (int n), r))
          else None)"

text \<open>
  The loop of the kernel's \<open>vsscanf\<close>: it runs while format and input are both left; white space
  in the format skips white space and is followed by the next item in the same round. A conversion
  is not started when the input has ended.
\<close>

fun scanf :: "conv list \<Rightarrow> string \<Rightarrow> arg list" and scanf_item :: "conv list \<Rightarrow> string \<Rightarrow> arg list" where
  "scanf [] str = []"
| "scanf (Sp # fs) str = (if str = [] then [] else scanf_item fs (skip_spaces str))"
| "scanf fs str = (if str = [] then [] else scanf_item fs str)"
| "scanf_item [] str = []"
| "scanf_item (Sp # fs) str = scanf_item fs (skip_spaces str)"
| "scanf_item (Lit c # fs) str =
     (case str of [] \<Rightarrow> [] | x # xs \<Rightarrow> if x = c then scanf fs xs else [])"
| "scanf_item (ConvS # fs) str =
     (if str = [] then []
      else let str = skip_spaces str; tok = takeWhile (\<lambda>c. \<not> is_space c) str
        in ArgS tok # scanf fs (drop (length tok) str))"
| "scanf_item (ConvD # fs) str =
     (case scan_d str of None \<Rightarrow> [] | Some (n, r) \<Rightarrow> ArgD n # scanf fs r)"

definition lits :: "string \<Rightarrow> conv list" where
  "lits str = map (\<lambda>c. if c = CHR '' '' then Sp else Lit c) str"

definition arg_fits :: "arg \<Rightarrow> bool" where
  "arg_fits a = (case a of ArgS str \<Rightarrow> length str < 128 | ArgD n \<Rightarrow> True)"

text \<open>\<open>sscanf\<close> into buffers of 128 bytes.\<close>

definition sscanf :: "conv list \<Rightarrow> string \<Rightarrow> arg list option" where
  "sscanf fs str = (let as = scanf fs str in if list_all arg_fits as then Some as else None)"

text \<open>The buffer filled by conversion \<open>i\<close>.\<close>

definition str_arg :: "arg list \<Rightarrow> nat \<Rightarrow> string option" where
  "str_arg as i = (if i < length as then (case as ! i of ArgS str \<Rightarrow> Some str | ArgD n \<Rightarrow> None) else None)"

definition int_arg :: "arg list \<Rightarrow> nat \<Rightarrow> int option" where
  "int_arg as i = (if i < length as then (case as ! i of ArgD n \<Rightarrow> Some n | ArgS str \<Rightarrow> None) else None)"

section \<open>Creation\<close>

text \<open>
  \<open>iso_sys_create_txc\<close> and \<open>iso_sys_create_vq\<close>: the result of \<open>sscanf\<close> is not looked at.
\<close>

definition iso_sys_create_txc :: "kapi \<Rightarrow> string \<Rightarrow> 'z sys_mem_scheme \<Rightarrow> (int \<times> 'z sys_mem_scheme) option" where
  "iso_sys_create_txc K val s =
     (let (got, s) = down_interruptible s in
      if \<not> got then Some (- EINVAL, s)
      else do {
        as \<leftarrow> sscanf (lits ''dev '' @ [ConvS, Sp, ConvS]) (take 127 val);
        devname \<leftarrow> str_arg as 0;
        (ret, s) \<leftarrow> (case enabled_dev devname s of
             Some d \<Rightarrow> do { klass \<leftarrow> str_arg as 1; iso_txc_install K klass d s }
           | None \<Rightarrow> Some (- EINVAL, s));
        Some (if ret \<noteq> 0 then - EINVAL else 0, up_config s) })"

definition iso_sys_create_vq :: "kapi \<Rightarrow> string \<Rightarrow> 'z sys_mem_scheme \<Rightarrow> (int \<times> 'z sys_mem_scheme) option" where
  "iso_sys_create_vq K val s =
     (let (got, s) = down_interruptible s in
      if \<not> got then Some (- EINVAL, s)
      else do {
        as \<leftarrow> sscanf (lits ''dev '' @ [ConvS, Sp, ConvS]) (take 127 val);
        devname \<leftarrow> str_arg as 0;
        (ret, s) \<leftarrow> (case enabled_dev devname s of
             Some d \<Rightarrow> do { klass \<leftarrow> str_arg as 1; iso_vq_install K klass d s }
           | None \<Rightarrow> Some (- EINVAL, s));
        Some (if ret \<noteq> 0 then - EINVAL else 0, up_config s) })"

definition iso_sys_noget :: "string \<Rightarrow> int" where
  "iso_sys_noget val = 0"

section \<open>Association\<close>

text \<open>
  The body of \<open>iso_sys_assoc_txc_vq\<close> once class and virtual queue are found.
\<close>

definition vq_refcnt_add :: "int \<Rightarrow> nat \<Rightarrow> 'z vq_mem_scheme \<Rightarrow> 'z vq_mem_scheme option" where
  "vq_refcnt_add n v s = do { vq \<leftarrow> vqs s v; Some (put_vq v (vq\<lparr>vq_refcnt := s32 (vq_refcnt vq + n)\<rparr>) s) }"

definition associate :: "nat \<Rightarrow> nat \<Rightarrow> 'z tx_mem_scheme \<Rightarrow> 'z tx_mem_scheme option" where
  "associate t v s = do {
     txc \<leftarrow> txcs s t;
     s \<leftarrow> (case txc_vq txc of None \<Rightarrow> Some s | Some v' \<Rightarrow> vq_refcnt_add (- 1) v' s);
     vq_refcnt_add 1 v (put_txc t (txc\<lparr>txc_vq := Some v\<rparr>) s) }"

definition iso_sys_assoc_txc_vq :: "kapi \<Rightarrow> string \<Rightarrow> 'z sys_mem_scheme \<Rightarrow> (int \<times> 'z sys_mem_scheme) option" where
  "iso_sys_assoc_txc_vq K val s = do {
     as \<leftarrow> sscanf (lits ''dev '' @ [ConvS] @ lits '' associate txc '' @ [ConvS] @ lits '' vq '' @ [ConvS]) val;
     let (got, s) = down_interruptible s;
     if \<not> got then Some (- EINVAL, s)
     else if length as \<noteq> 3 then Some (- EINVAL, up_config s)
     else do {
       devname \<leftarrow> str_arg as 0;
       case enabled_dev devname s of
         None \<Rightarrow> Some (0, up_config s)
       | Some d \<Rightarrow> do {
           txname \<leftarrow> str_arg as 1;
           vqname \<leftarrow> str_arg as 2;
           txc \<leftarrow> iso_txc_find K (iso_class_parse txname) d s;
           case txc of
             None \<Rightarrow> Some (- EINVAL, up_config s)
           | Some t \<Rightarrow> do {
               vq \<leftarrow> iso_vq_find K (iso_class_parse vqname) d s;
               case vq of
                 None \<Rightarrow> Some (- EINVAL, up_config s)
               | Some v \<Rightarrow> do { s \<leftarrow> associate t v s; Some (0, up_config s) } } } } }"

section \<open>Weights and rates\<close>

text \<open>
  The common beginning of the four \<open>set\<close> handlers: scan device, class and value, find the
  device. The continuation gets the device, the class and the value.
\<close>

definition set_handler :: "string \<Rightarrow> string \<Rightarrow> (dev \<Rightarrow> iso_class_t \<Rightarrow> int \<Rightarrow> 'z sys_mem_scheme \<Rightarrow>
    (int \<times> 'z sys_mem_scheme) option) \<Rightarrow> 'z sys_mem_scheme \<Rightarrow> (int \<times> 'z sys_mem_scheme) option" where
  "set_handler kw val body s =
     (let (got, s) = down_interruptible s in
      if \<not> got then Some (- EINVAL, s)
      else do {
        as \<leftarrow> sscanf (lits ''dev '' @ [ConvS, Sp, ConvS, Sp] @ lits kw @ [Sp, ConvD]) val;
        (ret, s) \<leftarrow>
          (if length as \<noteq> 3 then Some (- EINVAL, s)
           else do {
             devname \<leftarrow> str_arg as 0;
             case enabled_dev devname s of
               None \<Rightarrow> Some (- EINVAL, s)
             | Some d \<Rightarrow> do {
                 klass \<leftarrow> str_arg as 1;
                 n \<leftarrow> int_arg as 2;
                 body d (iso_class_parse klass) n s } });
        Some (ret, up_config s) })"

definition set_txc_weight :: "kapi \<Rightarrow> dev \<Rightarrow> iso_class_t \<Rightarrow> int \<Rightarrow> 'z tx_mem_scheme \<Rightarrow>
    (int \<times> 'z tx_mem_scheme) option" where
  "set_txc_weight K d klass weight s = do {
     f \<leftarrow> iso_txc_find K klass d s;
     case f of
       None \<Rightarrow> Some (- EINVAL, s)
     | Some t \<Rightarrow>
         if weight < 0 \<or> 1024 < weight then Some (- EINVAL, s)
         else do {
           txc \<leftarrow> txcs s t;
           ctx \<leftarrow> txctxs s d;
           let w = s32 (txc_total_weight ctx - txc_weight txc);
           let s = put_txc t (txc\<lparr>txc_weight := weight\<rparr>) s;
           s \<leftarrow> iso_txc_recompute_rates d (put_txctx d (ctx\<lparr>txc_total_weight := s32 (w + weight)\<rparr>) s);
           Some (0, s) } }"

definition iso_sys_set_txc_weight :: "kapi \<Rightarrow> string \<Rightarrow> 'z sys_mem_scheme \<Rightarrow> (int \<times> 'z sys_mem_scheme) option" where
  "iso_sys_set_txc_weight K val s = set_handler ''weight'' val (set_txc_weight K) s"

definition set_txc_rate :: "kapi \<Rightarrow> dev \<Rightarrow> iso_class_t \<Rightarrow> int \<Rightarrow> 'z tx_mem_scheme \<Rightarrow>
    (int \<times> 'z tx_mem_scheme) option" where
  "set_txc_rate K d klass rate s = do {
     f \<leftarrow> iso_txc_find K klass d s;
     case f of
       None \<Rightarrow> Some (- EINVAL, s)
     | Some t \<Rightarrow>
         if rate < 0 \<or> 1024 < rate then Some (- EINVAL, s)
         else do {
           txc \<leftarrow> txcs s t;
           let txc = (if rate = 0
                      then txc\<lparr>txc_is_static := 0, max_rate := of_int (ISO_MAX_TX_RATE (tun s))\<rparr>
                      else txc\<lparr>txc_is_static := 1, max_rate := of_int rate\<rparr>);
           s \<leftarrow> iso_txc_recompute_rates d (put_txc t txc s);
           Some (0, s) } }"

definition iso_sys_set_txc_rate :: "kapi \<Rightarrow> string \<Rightarrow> 'z sys_mem_scheme \<Rightarrow> (int \<times> 'z sys_mem_scheme) option" where
  "iso_sys_set_txc_rate K val s = set_handler ''rate'' val (set_txc_rate K) s"

definition set_vq_weight :: "kapi \<Rightarrow> dev \<Rightarrow> iso_class_t \<Rightarrow> int \<Rightarrow> 'z vq_mem_scheme \<Rightarrow>
    (int \<times> 'z vq_mem_scheme) option" where
  "set_vq_weight K d klass weight s = do {
     f \<leftarrow> iso_vq_find K klass d s;
     case f of
       None \<Rightarrow> Some (- EINVAL, s)
     | Some v \<Rightarrow>
         if weight < 0 \<or> 1024 < weight then Some (- EINVAL, s)
         else do {
           vq \<leftarrow> vqs s v;
           s \<leftarrow> iso_vq_calculate_rates d (put_vq v (vq\<lparr>vq_weight := of_int weight\<rparr>) s);
           Some (0, s) } }"

definition iso_sys_set_vq_weight :: "kapi \<Rightarrow> string \<Rightarrow> 'z sys_mem_scheme \<Rightarrow> (int \<times> 'z sys_mem_scheme) option" where
  "iso_sys_set_vq_weight K val s = set_handler ''weight'' val (set_vq_weight K) s"

definition set_vq_rate :: "kapi \<Rightarrow> dev \<Rightarrow> iso_class_t \<Rightarrow> int \<Rightarrow> 'z vq_mem_scheme \<Rightarrow>
    (int \<times> 'z vq_mem_scheme) option" where
  "set_vq_rate K d klass rate s = do {
     f \<leftarrow> iso_vq_find K klass d s;
     case f of
       None \<Rightarrow> Some (- EINVAL, s)
     | Some v \<Rightarrow>
         if rate < 0 \<or> ISO_VQ_DRAIN_RATE_MBPS (tun s) < rate then Some (- EINVAL, s)
         else do {
           vq \<leftarrow> vqs s v;
           if 0 < rate
           then Some (0, put_vq v (vq\<lparr>vq_rate := of_int rate, vq_is_static := 1\<rparr>) s)
           else do {
             s \<leftarrow> iso_vq_calculate_rates d (put_vq v (vq\<lparr>vq_is_static := 0\<rparr>) s);
             Some (0, s) } } }"

definition iso_sys_set_vq_rate :: "kapi \<Rightarrow> string \<Rightarrow> 'z sys_mem_scheme \<Rightarrow> (int \<times> 'z sys_mem_scheme) option" where
  "iso_sys_set_vq_rate K val s = set_handler ''rate'' val (set_vq_rate K) s"

section \<open>Deletion\<close>

text \<open>The common part of the two \<open>delete\<close> handlers.\<close>

definition delete_handler :: "string \<Rightarrow> string \<Rightarrow> (dev \<Rightarrow> iso_class_t \<Rightarrow> 'z sys_mem_scheme \<Rightarrow>
    (int \<times> 'z sys_mem_scheme) option) \<Rightarrow> 'z sys_mem_scheme \<Rightarrow> (int \<times> 'z sys_mem_scheme) option" where
  "delete_handler kw val body s =
     (let (got, s) = down_interruptible s in
      if \<not> got then Some (- EINVAL, s)
      else do {
        as \<leftarrow> sscanf (lits ''dev '' @ [ConvS, Sp] @ lits kw @ [Sp, ConvS]) val;
        (ret, s) \<leftarrow>
          (if length as \<noteq> 2 then Some (- EINVAL, s)
           else do {
             devname \<leftarrow> str_arg as 0;
             case enabled_dev devname s of
               None \<Rightarrow> Some (- EINVAL, s)
             | Some d \<Rightarrow> do { klass \<leftarrow> str_arg as 1; body d (iso_class_parse klass) s } });
        Some (ret, up_config s) })"

text \<open>The class leaves the hash table and is freed; it stays on the list of its context.\<close>

definition delete_txc :: "kapi \<Rightarrow> dev \<Rightarrow> iso_class_t \<Rightarrow> 'z tx_mem_scheme \<Rightarrow> (int \<times> 'z tx_mem_scheme) option" where
  "delete_txc K d klass s = do {
     f \<leftarrow> iso_txc_find K klass d s;
     case f of
       None \<Rightarrow> Some (- EINVAL, s)
     | Some t \<Rightarrow> do {
         txc \<leftarrow> txcs s t;
         ctx \<leftarrow> txctxs s d;
         let i = txc_index K (txc_klass txc);
         let s = put_txctx d (ctx\<lparr>iso_tx_bucket := (iso_tx_bucket ctx)(i := remove1 t (iso_tx_bucket ctx i)),
                   txc_total_weight := s32 (txc_total_weight ctx - txc_weight txc)\<rparr>) s;
         s \<leftarrow> iso_txc_recompute_rates d s;
         s \<leftarrow> iso_txc_free t s;
         Some (0, s) } }"

definition iso_sys_delete_txc :: "kapi \<Rightarrow> string \<Rightarrow> 'z sys_mem_scheme \<Rightarrow> (int \<times> 'z sys_mem_scheme) option" where
  "iso_sys_delete_txc K val s = delete_handler ''txc'' val (delete_txc K) s"

definition delete_vq :: "kapi \<Rightarrow> dev \<Rightarrow> iso_class_t \<Rightarrow> 'z vq_mem_scheme \<Rightarrow> (int \<times> 'z vq_mem_scheme) option" where
  "delete_vq K d klass s = do {
     f \<leftarrow> iso_vq_find K klass d s;
     case f of
       None \<Rightarrow> Some (- EINVAL, s)
     | Some v \<Rightarrow> do {
         vq \<leftarrow> vqs s v;
         if 0 < vq_refcnt vq then Some (- EINVAL, s)
         else do { s \<leftarrow> iso_vq_free v s; Some (0, s) } } }"

definition iso_sys_delete_vq :: "kapi \<Rightarrow> string \<Rightarrow> 'z sys_mem_scheme \<Rightarrow> (int \<times> 'z sys_mem_scheme) option" where
  "iso_sys_delete_vq K val s = delete_handler ''vq'' val (delete_vq K) s"

section \<open>Recomputation\<close>

text \<open>\<open>iso_sys_recompute_dev\<close>: the jump to \<open>out\<close> after a failed scan skips \<open>up(&config_mutex)\<close>.\<close>

definition iso_sys_recompute_dev :: "string \<Rightarrow> 'z sys_mem_scheme \<Rightarrow> (int \<times> 'z sys_mem_scheme) option" where
  "iso_sys_recompute_dev val s =
     (let (got, s) = down_interruptible s in
      if \<not> got then Some (- EINVAL, s)
      else do {
        as \<leftarrow> sscanf (lits ''dev '' @ [ConvS]) (take 127 val);
        if length as \<noteq> 1 then Some (- EINVAL, s)
        else do {
          devname \<leftarrow> str_arg as 0;
          case enabled_dev devname s of
            Some d \<Rightarrow> do {
              s \<leftarrow> iso_txc_recompute_rates d s;
              s \<leftarrow> iso_vq_calculate_rates d s;
              Some (0, up_config s) }
          | None \<Rightarrow> Some (- EINVAL, up_config s) } })"

end
