(* ===== verification/Qdisc.thy ===== *)
theory Qdisc
  imports Config
begin

text \<open>
  The attachment of EyeQ to a device: the queueing discipline of \<open>src/qdisc.c\<close> (set-up and
  tear-down of the contexts, the class operations of the multiqueue root, \<open>iso_enqueue\<close> and
  \<open>iso_rx_handler\<close>), and the module's \<open>iso_init\<close> and \<open>iso_exit\<close> (\<open>src/main.c\<close>).

  The private data of the root of a device is \<open>mq_sched\<close>; its pointers \<open>txc\<close> and \<open>rxc\<close> are NULL or
  point to the contexts of the device. A leaf of the root is its address.
\<close>

section \<open>State\<close>

record mq_sched =
  mq_qdiscs :: "nat option list option"
  mq_txc :: bool
  mq_rxc :: bool

record gnet_stats =
  gs_qlen :: u32
  gs_bytes :: u64
  gs_packets :: u32
  gs_qstats_qlen :: u32
  gs_backlog :: u32
  gs_drops :: u32
  gs_requeues :: u32
  gs_overlimits :: u32

record qd_mem = sys_mem +
  num_tx_queues :: "dev \<Rightarrow> nat"
  mq_privs :: "dev \<rightharpoonup> mq_sched"
  leaves :: "nat \<rightharpoonup> gnet_stats"
  txq_qdisc :: "dev \<Rightarrow> nat \<Rightarrow> nat option"

definition EOPNOTSUPP :: int where "EOPNOTSUPP = 95"

definition gnet_zero :: gnet_stats where
  "gnet_zero = \<lparr>gs_qlen = 0, gs_bytes = 0, gs_packets = 0, gs_qstats_qlen = 0, gs_backlog = 0,
     gs_drops = 0, gs_requeues = 0, gs_overlimits = 0\<rparr>"

text \<open>The contents of a context that \<open>kzalloc\<close> returned.\<close>

definition txctx_zero :: iso_tx_context where
  "txctx_zero = \<lparr>prev_gso_max_size = 0, iso_tx_bucket = (\<lambda>_. []), txc_list = [],
     txc_last_update_time = 0, txc_total_weight = 0, ctx_tx_bytes = 0, ctx_tx_rate = 0, ctx_rate = 0\<rparr>"

definition rxctx_zero :: iso_rx_context where
  "rxctx_zero = \<lparr>rxctx_vq_last_update_time = 0, vq_list = [], vq_bucket = (\<lambda>_. []), vq_active_rate = 0,
     rx_stats = None, global_stats = rx_stats_zero, global_stats_last = rx_stats_zero,
     last_stats_update_time = 0, last_rcp_time = 0, rcp_rate = 0, rxctx_rx_rate = 0\<rparr>"

section \<open>Set-up and tear-down\<close>

definition qdisc_destroy :: "nat \<Rightarrow> 'z qd_mem_scheme \<Rightarrow> 'z qd_mem_scheme" where
  "qdisc_destroy q s = s\<lparr>leaves := (leaves s)(q := None)\<rparr>"

text \<open>The loop of \<open>mq_destroy\<close> over the leaves ends at the first NULL.\<close>

fun destroy_leaves :: "nat option list \<Rightarrow> 'z qd_mem_scheme \<Rightarrow> 'z qd_mem_scheme" where
  "destroy_leaves (Some q # qs) s = destroy_leaves qs (qdisc_destroy q s)"
| "destroy_leaves _ s = s"

definition mq_destroy :: "dev \<Rightarrow> 'z qd_mem_scheme \<Rightarrow> 'z qd_mem_scheme option" where
  "mq_destroy d s = do {
     priv \<leftarrow> mq_privs s d;
     s \<leftarrow> (if mq_txc priv then iso_tx_exit d s else Some s);
     s \<leftarrow> (if mq_rxc priv then iso_rx_exit d s else Some s);
     let s = (if mq_txc priv
              then s\<lparr>txctxs := (txctxs s)(d := None), txctx_xmit := (txctx_xmit s)(d := None)\<rparr> else s);
     let s = (if mq_rxc priv then s\<lparr>rxctxs := (rxctxs s)(d := None)\<rparr> else s);
     case mq_qdiscs priv of
       None \<Rightarrow> Some s
     | Some qs \<Rightarrow> Some (destroy_leaves qs s) }"

text \<open>The creation of the leaves; the result tells whether all could be created.\<close>

fun create_leaves :: "nat \<Rightarrow> nat option list \<Rightarrow> 'z qd_mem_scheme \<Rightarrow>
    bool \<times> nat option list \<times> 'z qd_mem_scheme" where
  "create_leaves 0 qs s = (True, qs, s)"
| "create_leaves (Suc n) qs s =
     (case kmalloc s of
        (None, s) \<Rightarrow> (False, qs @ replicate (Suc n) None, s)
      | (Some q, s) \<Rightarrow> create_leaves n (qs @ [Some q]) (s\<lparr>leaves := (leaves s)(q \<mapsto> gnet_zero)\<rparr>))"

abbreviation put_priv :: "dev \<Rightarrow> mq_sched \<Rightarrow> 'z qd_mem_scheme \<Rightarrow> 'z qd_mem_scheme" where
  "put_priv d priv s \<equiv> s\<lparr>mq_privs := (mq_privs s)(d \<mapsto> priv)\<rparr>"

definition mq_fail :: "dev \<Rightarrow> 'z qd_mem_scheme \<Rightarrow> (int \<times> 'z qd_mem_scheme) option" where
  "mq_fail d s = do { s \<leftarrow> mq_destroy d s; Some (- ENOMEM, s) }"

text \<open>
  \<open>mq_init\<close>. The kernel makes the new qdisc the root of the device after \<open>mq_init\<close> has succeeded; here the
  device is marked as such at the end of \<open>mq_init\<close>.
\<close>

definition mq_init :: "dev \<Rightarrow> bool \<Rightarrow> 'z qd_mem_scheme \<Rightarrow> (int \<times> 'z qd_mem_scheme) option" where
  "mq_init d at_root s =
     (if \<not> at_root then Some (- EOPNOTSUPP, s)
      else let n = num_tx_queues s d; (q, s) = kmalloc s in
        if q = None
        then Some (- ENOMEM, put_priv d \<lparr>mq_qdiscs = None, mq_txc = False, mq_rxc = False\<rparr> s)
        else
          let priv = \<lparr>mq_qdiscs = Some (replicate n None), mq_txc = False, mq_rxc = False\<rparr>;
              (tx, s) = kmalloc s in
          if tx = None then mq_fail d (put_priv d priv s)
          else
            let priv = priv\<lparr>mq_txc := True\<rparr>;
                s = put_txctx d txctx_zero (s\<lparr>txctx_xmit := (txctx_xmit s)(d \<mapsto> False)\<rparr>);
                (rx, s) = kmalloc s in
            if rx = None then mq_fail d (put_priv d priv s)
            else do {
              let priv = priv\<lparr>mq_rxc := True\<rparr>;
              let s = put_priv d priv (put_rxctx d rxctx_zero s);
              (e, s) \<leftarrow> iso_tx_init d s;
              if e \<noteq> 0 then mq_fail d s
              else do {
                (e, s) \<leftarrow> iso_rx_init d s;
                if e \<noteq> 0 then mq_fail d s
                else
                  let (ok, qs, s) = create_leaves n [] s;
                      s = put_priv d (priv\<lparr>mq_qdiscs := Some qs\<rparr>) s in
                  if \<not> ok then mq_fail d s
                  else Some (0, s\<lparr>eyeq_root := (eyeq_root s)(d := True)\<rparr>) } })"

text \<open>\<open>iso_tx_hook_exit\<close> frees the context. In this build nothing calls it; \<open>mq_destroy\<close> frees the contexts itself.\<close>

definition iso_tx_hook_exit :: "dev \<Rightarrow> 'z tx_mem_scheme \<Rightarrow> 'z tx_mem_scheme" where
  "iso_tx_hook_exit d s = s\<lparr>txctxs := (txctxs s)(d := None)\<rparr>"

text \<open>\<open>mq_attach\<close>: each leaf is grafted on its queue and the leaf it replaces is destroyed.\<close>

definition attach_leaf :: "dev \<Rightarrow> nat \<Rightarrow> nat option \<Rightarrow> 'z qd_mem_scheme \<Rightarrow> 'z qd_mem_scheme option" where
  "attach_leaf d ntx q s = do {
     q \<leftarrow> q;
     let old = txq_qdisc s d ntx;
     let s = s\<lparr>txq_qdisc := (txq_qdisc s)(d := (txq_qdisc s d)(ntx := Some q))\<rparr>;
     Some (case old of None \<Rightarrow> s | Some q' \<Rightarrow> qdisc_destroy q' s) }"

definition mq_attach :: "dev \<Rightarrow> 'z qd_mem_scheme \<Rightarrow> 'z qd_mem_scheme option" where
  "mq_attach d s = do {
     priv \<leftarrow> mq_privs s d;
     qs \<leftarrow> mq_qdiscs priv;
     s \<leftarrow> foldM (\<lambda>ntx. attach_leaf d ntx (qs ! ntx)) [0..<num_tx_queues s d] s;
     Some (put_priv d (priv\<lparr>mq_qdiscs := None\<rparr>) s) }"

section \<open>Class operations of the root\<close>

text \<open>A queue is addressed by its index plus one; \<open>cl - 1\<close> wraps for 0.\<close>

definition mq_queue_get :: "dev \<Rightarrow> u64 \<Rightarrow> 'z qd_mem_scheme \<Rightarrow> nat option" where
  "mq_queue_get d cl s =
     (let ntx = unat (cl - 1) in if num_tx_queues s d \<le> ntx then None else Some ntx)"

definition TC_H_MIN :: "u32 \<Rightarrow> u32" where "TC_H_MIN h = h AND 0xffff"

definition mq_select_queue :: "dev \<Rightarrow> u32 \<Rightarrow> 'z qd_mem_scheme \<Rightarrow> nat" where
  "mq_select_queue d tcm_parent s =
     (case mq_queue_get d (ucast (TC_H_MIN tcm_parent)) s of None \<Rightarrow> 0 | Some ntx \<Rightarrow> ntx)"

definition mq_graft :: "dev \<Rightarrow> u64 \<Rightarrow> nat option \<Rightarrow> 'z qd_mem_scheme \<Rightarrow>
    (nat option \<times> 'z qd_mem_scheme) option" where
  "mq_graft d cl new s = do {
     ntx \<leftarrow> mq_queue_get d cl s;
     Some (txq_qdisc s d ntx, s\<lparr>txq_qdisc := (txq_qdisc s)(d := (txq_qdisc s d)(ntx := new))\<rparr>) }"

definition mq_leaf :: "dev \<Rightarrow> u64 \<Rightarrow> 'z qd_mem_scheme \<Rightarrow> nat option option" where
  "mq_leaf d cl s = do { ntx \<leftarrow> mq_queue_get d cl s; Some (txq_qdisc s d ntx) }"

definition mq_get :: "dev \<Rightarrow> u32 \<Rightarrow> 'z qd_mem_scheme \<Rightarrow> u64" where
  "mq_get d classid s =
     (let ntx = TC_H_MIN classid in if mq_queue_get d (ucast ntx) s = None then 0 else ucast ntx)"

definition add_stats :: "gnet_stats \<Rightarrow> gnet_stats \<Rightarrow> gnet_stats" where
  "add_stats a b = \<lparr>gs_qlen = gs_qlen a + gs_qlen b, gs_bytes = gs_bytes a + gs_bytes b,
     gs_packets = gs_packets a + gs_packets b, gs_qstats_qlen = gs_qstats_qlen a + gs_qstats_qlen b,
     gs_backlog = gs_backlog a + gs_backlog b, gs_drops = gs_drops a + gs_drops b,
     gs_requeues = gs_requeues a + gs_requeues b, gs_overlimits = gs_overlimits a + gs_overlimits b\<rparr>"

definition mq_dump :: "dev \<Rightarrow> 'z qd_mem_scheme \<Rightarrow> gnet_stats option" where
  "mq_dump d s =
     foldM (\<lambda>ntx g. do { q \<leftarrow> txq_qdisc s d ntx; st \<leftarrow> leaves s q; Some (add_stats g st) })
       [0..<num_tx_queues s d] gnet_zero"

text \<open>
  \<open>mq_dump_class\<close>: parent, handle and information of the message; \<open>qhandle\<close> are the handles of the leaves.
  \<open>mq_dump_class_stats\<close> copies the queue length of the leaf into its statistics and hands both to the
  kernel; the two boolean arguments tell whether the kernel could copy them.
\<close>

definition TC_H_ROOT :: u32 where "TC_H_ROOT = 0xFFFFFFFF"

definition mq_dump_class :: "dev \<Rightarrow> u64 \<Rightarrow> (nat \<Rightarrow> u32) \<Rightarrow> u32 \<Rightarrow> 'z qd_mem_scheme \<Rightarrow> (u32 \<times> u32 \<times> u32) option" where
  "mq_dump_class d cl qhandle tcm_handle s = do {
     ntx \<leftarrow> mq_queue_get d cl s;
     q \<leftarrow> txq_qdisc s d ntx;
     Some (TC_H_ROOT, tcm_handle OR TC_H_MIN (ucast cl), qhandle q) }"

definition mq_dump_class_stats :: "dev \<Rightarrow> u64 \<Rightarrow> bool \<Rightarrow> bool \<Rightarrow> 'z qd_mem_scheme \<Rightarrow> (int \<times> 'z qd_mem_scheme) option" where
  "mq_dump_class_stats d cl basic queue s = do {
     ntx \<leftarrow> mq_queue_get d cl s;
     q \<leftarrow> txq_qdisc s d ntx;
     st \<leftarrow> leaves s q;
     Some (if basic \<and> queue then 0 else - 1,
           s\<lparr>leaves := (leaves s)(q \<mapsto> st\<lparr>gs_qstats_qlen := gs_qlen st\<rparr>)\<rparr>) }"

text \<open>
  \<open>mq_walk\<close> calls \<open>fn\<close> for each queue from \<open>skip\<close> on until a call is negative; the result is the
  final \<open>count\<close>, the final \<open>stop\<close> and the state of \<open>fn\<close>.
\<close>

fun walk_queues :: "(nat \<Rightarrow> 'w \<Rightarrow> int \<times> 'w) \<Rightarrow> nat list \<Rightarrow> nat \<Rightarrow> 'w \<Rightarrow> nat \<times> bool \<times> 'w" where
  "walk_queues fn [] count w = (count, False, w)"
| "walk_queues fn (ntx # ns) count w =
     (case fn (ntx + 1) w of (r, w) \<Rightarrow>
        if r < 0 then (count, True, w) else walk_queues fn ns (count + 1) w)"

definition mq_walk :: "(nat \<Rightarrow> 'w \<Rightarrow> int \<times> 'w) \<Rightarrow> dev \<Rightarrow> nat \<Rightarrow> bool \<Rightarrow> nat \<Rightarrow> 'w \<Rightarrow> 'z qd_mem_scheme \<Rightarrow>
    nat \<times> bool \<times> 'w" where
  "mq_walk fn d skip stop count w s =
     (if stop then (count, stop, w)
      else walk_queues fn [skip..<num_tx_queues s d] skip w)"

section \<open>Packets\<close>

definition NET_XMIT_SUCCESS :: int where "NET_XMIT_SUCCESS = 0"
definition NET_XMIT_DROP :: int where "NET_XMIT_DROP = 1"

definition kfree_skb :: "sk_buff \<Rightarrow> 'z rl_mem_scheme \<Rightarrow> 'z rl_mem_scheme" where
  "kfree_skb skb s = s\<lparr>freed_skbs := freed_skbs s @ [skb]\<rparr>"

definition iso_enqueue :: "kapi \<Rightarrow> sk_buff \<Rightarrow> dev \<Rightarrow> 'z tx_mem_scheme \<Rightarrow> (int \<times> 'z tx_mem_scheme) option" where
  "iso_enqueue K skb d s = do {
     (verdict, s) \<leftarrow> (if IsoGlobalEnabled (tun s) = 0 then Some (ISO_VERDICT_PASS, s) else iso_tx K skb d s);
     case verdict of
       ISO_VERDICT_DROP \<Rightarrow> Some (NET_XMIT_DROP, kfree_skb skb s)
     | ISO_VERDICT_PASS \<Rightarrow> do { s \<leftarrow> skb_xmit skb s; Some (NET_XMIT_SUCCESS, s) }
     | ISO_VERDICT_SUCCESS \<Rightarrow> Some (NET_XMIT_SUCCESS, s)
     | ISO_VERDICT_ERROR \<Rightarrow> Some (NET_XMIT_SUCCESS, s) }"

text \<open>A leaf never has a packet to dequeue: packets leave through the rate limiters.\<close>

definition iso_dequeue :: "nat \<Rightarrow> sk_buff option" where
  "iso_dequeue q = None"

datatype rx_handler_result = RX_HANDLER_CONSUMED | RX_HANDLER_PASS

definition iso_rx_handler :: "kapi \<Rightarrow> sk_buff \<Rightarrow> 'z sys_mem_scheme \<Rightarrow>
    (rx_handler_result \<times> sk_buff \<times> 'z sys_mem_scheme) option" where
  "iso_rx_handler K skb s =
     (if skb_pkt_type skb = PACKET_LOOPBACK then Some (RX_HANDLER_PASS, skb, s)
      else let d = skb_dev skb in
        if \<not> iso_enabled d s \<or> IsoGlobalEnabled (tun s) = 0 then Some (RX_HANDLER_PASS, skb, s)
        else do {
          (verdict, skb, s) \<leftarrow> iso_rx K skb d s;
          case verdict of
            ISO_VERDICT_DROP \<Rightarrow> Some (RX_HANDLER_CONSUMED, skb, kfree_skb skb s)
          | _ \<Rightarrow> Some (RX_HANDLER_PASS, skb, s) })"

section \<open>The module\<close>

text \<open>
  \<open>iso_init\<close> and \<open>iso_exit\<close> of the build with the queueing discipline. \<open>regs\<close> are the tables the module
  has registered with the kernel. The four boolean arguments tell which registrations succeed.
\<close>

datatype registration = RegParams | RegStats | RegCsvStats | RegQdisc

record mod_mem = qd_mem +
  regs :: "registration list"

definition register :: "registration \<Rightarrow> 'z mod_mem_scheme \<Rightarrow> 'z mod_mem_scheme" where
  "register r s = s\<lparr>regs := r # regs s\<rparr>"

definition unregister :: "registration \<Rightarrow> 'z mod_mem_scheme \<Rightarrow> 'z mod_mem_scheme" where
  "unregister r s = s\<lparr>regs := remove1 r (regs s)\<rparr>"

definition iso_stats_init :: "bool \<Rightarrow> bool \<Rightarrow> 'z mod_mem_scheme \<Rightarrow> int \<times> 'z mod_mem_scheme" where
  "iso_stats_init stats csv s =
     (if \<not> stats then (1, s)
      else let s = register RegStats s in
        if \<not> csv then (1, unregister RegStats s) else (0, register RegCsvStats s))"

definition iso_stats_exit :: "'z mod_mem_scheme \<Rightarrow> 'z mod_mem_scheme" where
  "iso_stats_exit s = unregister RegCsvStats (unregister RegStats s)"

definition iso_params_exit :: "'z mod_mem_scheme \<Rightarrow> 'z mod_mem_scheme" where
  "iso_params_exit s = unregister RegParams s"

definition iso_init :: "bool \<Rightarrow> bool \<Rightarrow> bool \<Rightarrow> bool \<Rightarrow> 'z mod_mem_scheme \<Rightarrow> int \<times> 'z mod_mem_scheme" where
  "iso_init params stats csv qdisc s =
     (let s = s\<lparr>iso_exiting := False, rxctx_list := [], txctx_list := []\<rparr> in
      if fst (iso_params_init params) \<noteq> 0 then (- 1, s)
      else let (e, s) = iso_stats_init stats csv (register RegParams s) in
        if e \<noteq> 0 then (- 1, iso_params_exit s)
        else if \<not> qdisc then (- 1, iso_params_exit (iso_stats_exit s))
        else (0, register RegQdisc s))"

definition iso_exit :: "'z mod_mem_scheme \<Rightarrow> 'z mod_mem_scheme" where
  "iso_exit s = unregister RegQdisc (iso_params_exit (iso_stats_exit (s\<lparr>iso_exiting := True\<rparr>)))"

text \<open>A failed initialisation leaves nothing registered, and \<open>iso_exit\<close> undoes a successful one.\<close>

lemma iso_init_regs:
  "regs (snd (iso_init p st c q s)) =
     (if fst (iso_init p st c q s) = 0 then RegQdisc # RegCsvStats # RegStats # RegParams # regs s else regs s)"
  "fst (iso_init p st c q s) = (if p \<and> st \<and> c \<and> q then 0 else - 1)"
  by (simp_all add: iso_init_def iso_stats_init_def iso_stats_exit_def iso_params_exit_def
      iso_params_init_def register_def unregister_def Let_def)

text \<open>The trimming of the module parameter \<open>iso_param_dev\<close>: cut at a newline among the first 32.\<close>

definition trim_dev :: "string option \<Rightarrow> string" where
  "trim_dev p =
     (let name = (case p of None \<Rightarrow> ''peth2'' | Some n \<Rightarrow> n);
          k = length (takeWhile (\<lambda>c. c \<noteq> CHR 0x0A) (take 32 name))
      in if k < min 32 (length name) then take k name else name)"

end
