(* ===== verification/Stats.thy ===== *)
theory Stats
  imports Qdisc
begin

text \<open>
  The statistics files of \<open>src/stats.c\<close> with the printing functions they call: \<open>iso_rl_show\<close>
  (\<open>src/rl.c\<close>), \<open>iso_txc_show\<close> (\<open>src/tx.c\<close>) and \<open>iso_vq_show\<close> (\<open>src/vq.c\<close>). The file for people is
  modelled by the list of its lines, the CSV file by its text. None is a read of a freed class,
  virtual queue, limiter or device. What \<open>%p\<close> prints for a limiter is a parameter.
\<close>

section \<open>Formats\<close>

definition hex_digit :: "nat \<Rightarrow> char" where
  "hex_digit n = (if n < 10 then digit n else char_of (87 + n))"

text \<open>\<open>%x\<close>.\<close>

fun hex :: "nat \<Rightarrow> string" where
  "hex n = (if n < 16 then [hex_digit n] else hex (n div 16) @ [hex_digit (n mod 16)])"

declare hex.simps [simp del]

text \<open>\<open>%d\<close>.\<close>

definition dec_int :: "int \<Rightarrow> string" where
  "dec_int n = (if n < 0 then ''-'' @ dec (nat (- n)) else dec (nat n))"

text \<open>A minimal width, as in \<open>%3d\<close>.\<close>

definition pad :: "nat \<Rightarrow> string \<Rightarrow> string" where
  "pad w str = replicate (w - length str) (CHR '' '') @ str"

definition flag :: "bool \<Rightarrow> string" where
  "flag b = (if b then ''1'' else ''0'')"

abbreviation "tab \<equiv> [CHR 0x09]"

section \<open>The file for people\<close>

text \<open>\<open>iso_rl_show\<close>: the queue of a CPU is printed when it has tokens or packets.\<close>

definition rl_cpu_line :: "rl_ptr \<Rightarrow> iso_rl \<Rightarrow> (cpu \<Rightarrow> iso_rl_cb) \<Rightarrow> cpu \<Rightarrow> string list" where
  "rl_cpu_line p rl cbs c =
     (let q = rl_queue rl c in
      if 0 < q_tokens q \<or> 0 < length (q_list q)
      then [tab @ pad 3 (dec c) @ ''   '' @ pad 3 (dec (length (q_list q))) @ ''   '' @
            pad 3 (dec_int (first_pkt_size q)) @ ''   '' @ pad 10 (dec (unat (bytes_enqueued q))) @ ''   '' @
            pad 6 (dec (unat (feedback_backlog q))) @ ''   '' @ pad 10 (dec (unat (q_tokens q))) @ ''   '' @
            flag ((p, c) \<in> set (cb_active (cbs c))) @ '','' @ flag (cb_timer (cbs c))]
      else [])"

definition rl_line :: "(rl_ptr \<Rightarrow> string) \<Rightarrow> rl_ptr \<Rightarrow> iso_rl \<Rightarrow> string" where
  "rl_line pp p rl =
     ''ip '' @ hex (unat (rl_ip rl)) @ ''   rate '' @ dec (unat (rl_rate rl)) @
     ''   total_tokens '' @ dec (unat (total_tokens rl)) @
     ''   last '' @ hex (unat (of_int (last_update_time rl) :: u64)) @ ''   '' @ pp p"

definition iso_rl_show :: "(rl_ptr \<Rightarrow> string) \<Rightarrow> rl_ptr \<Rightarrow> 'z rl_mem_scheme \<Rightarrow> string list option" where
  "iso_rl_show pp p s = do {
     rl \<leftarrow> rls s p;
     cbs \<leftarrow> rlcbs s (rl_rlcb rl);
     Some (rl_line pp p rl #
           (if online s = [] then []
            else [tab @ ''cpu   len   first_len   queued   fbacklog   tokens  active?'']) @
           concat (map (rl_cpu_line p rl cbs) (online s))) }"

text \<open>A loop that prints the entries of a list.\<close>

fun show_all :: "('x \<Rightarrow> 'l list option) \<Rightarrow> 'x list \<Rightarrow> 'l list option" where
  "show_all f [] = Some []"
| "show_all f (x # xs) = do { l \<leftarrow> f x; ls \<leftarrow> show_all f xs; Some (l @ ls) }"

text \<open>A bucket of limiters: only the first line carries the number of the bucket.\<close>

definition show_bucket :: "(rl_ptr \<Rightarrow> string) \<Rightarrow> iso_tx_class \<Rightarrow> 'z rl_mem_scheme \<Rightarrow> nat \<Rightarrow> string list option" where
  "show_bucket pp txc s i = do {
     ls \<leftarrow> show_all (\<lambda>p. iso_rl_show pp p s) (rl_bucket txc i);
     Some (case ls of [] \<Rightarrow> [] | l # ls \<Rightarrow> (''hash '' @ dec i @ '' '' @ l) # ls) }"

definition vq_name :: "'z tx_mem_scheme \<Rightarrow> iso_tx_class \<Rightarrow> string option" where
  "vq_name s txc =
     (case txc_vq txc of
        None \<Rightarrow> Some ''(none)''
      | Some v \<Rightarrow> map_option (\<lambda>vq. iso_class_show (vq_klass vq)) (vqs s v))"

definition txc_line :: "string \<Rightarrow> iso_tx_class \<Rightarrow> string" where
  "txc_line vqc txc =
     ''txc class '' @ iso_class_show (txc_klass txc) @ ''   weight '' @ dec_int (txc_weight txc) @
     ''   assoc vq '' @ vqc @ ''   freelist '' @ dec_int (freelist_count txc)"

definition txc_rl_line :: "iso_tx_class \<Rightarrow> iso_rl \<Rightarrow> string" where
  "txc_rl_line txc rl =
     ''txc rl tx_rate '' @ dec (unat (txc_tx_rate txc)) @ '','' @ dec (unat (tx_rate_smooth txc)) @
     ''   rate '' @ dec (unat (rl_rate rl)) @ ''   min_rate '' @ dec (unat (min_rate txc)) @
     ''   xmit '' @ dec (unat (accum_xmit rl)) @ ''   queued '' @ dec (unat (accum_enqueued rl))"

definition iso_txc_show :: "(rl_ptr \<Rightarrow> string) \<Rightarrow> 'z tx_mem_scheme \<Rightarrow> nat \<Rightarrow> string list option" where
  "iso_txc_show pp s t = do {
     txc \<leftarrow> txcs s t;
     vqc \<leftarrow> vq_name s txc;
     rl \<leftarrow> rls s (TxcRl t);
     own \<leftarrow> iso_rl_show pp (TxcRl t) s;
     dests \<leftarrow> show_all (show_bucket pp txc s) [0..<ISO_MAX_RL_BUCKETS];
     Some ([txc_line vqc txc, txc_rl_line txc rl] @ own @ [[], ''rate limiters:''] @ dests @ [[]]) }"

text \<open>\<open>iso_vq_show\<close>: the line of a CPU is printed when it queued bytes or saw marks.\<close>

definition vq_cpu_line :: "cpu \<Rightarrow> iso_vq_stats \<Rightarrow> string list" where
  "vq_cpu_line c st =
     (if 0 < bytes_queued st \<or> 0 < network_marked st
      then [tab @ '' '' @ pad 3 (dec c) @ ''   '' @ pad 8 (dec (unat (bytes_queued st))) @ ''  '' @
            pad 12 (dec (unat (network_marked st))) @ ''   '' @ dec (unat (vs_rx_bytes st))]
      else [])"

definition vq_line :: "iso_vq \<Rightarrow> string" where
  "vq_line vq =
     ''vq class '' @ iso_class_show (vq_klass vq) @ ''   flags '' @ dec (unat (vq_enabled vq)) @ '','' @
     dec (unat (vq_is_static vq)) @ ''   rate '' @ dec (unat (vq_rate vq)) @ ''  rx_rate '' @ dec (unat (vq_rx_rate vq)) @
     ''  fb_rate '' @ dec (unat (feedback_rate vq)) @ ''  alpha '' @ dec (unat (vq_alpha vq)) @ ''/1024'' @
     ''   backlog -   weight '' @ dec (unat (vq_weight vq)) @ ''   refcnt '' @ dec_int (vq_refcnt vq)"

definition iso_vq_show :: "'z vq_mem_scheme \<Rightarrow> nat \<Rightarrow> string list option" where
  "iso_vq_show s v = do {
     vq \<leftarrow> vqs s v;
     stats \<leftarrow> percpu_stats vq;
     Some (vq_line vq #
           (if online s = [] then [] else [tab @ '' cpu   enqueued   network-mark   rx'']) @
           concat (map (\<lambda>c. vq_cpu_line c (stats c)) (online s))) }"

text \<open>\<open>netdev->name\<close>.\<close>

definition netdev_name :: "'z sys_mem_scheme \<Rightarrow> dev \<Rightarrow> string option" where
  "netdev_name s d = map_option fst (find (\<lambda>(n, d'). d' = d) (netdevs s))"

definition show_txctx :: "(rl_ptr \<Rightarrow> string) \<Rightarrow> 'z sys_mem_scheme \<Rightarrow> dev \<Rightarrow> string list option" where
  "show_txctx pp s d = do {
     name \<leftarrow> netdev_name s d;
     ctx \<leftarrow> txctxs s d;
     ls \<leftarrow> show_all (iso_txc_show pp s) (concat (map (iso_tx_bucket ctx) [0..<ISO_MAX_TX_BUCKETS]));
     Some ((''tx->dev '' @ name @ '', tx_rate '' @ dec (unat (ctx_tx_rate ctx)) @ '', rate '' @
            dec (unat (ctx_rate ctx))) # ls) }"

definition show_rxctx :: "'z sys_mem_scheme \<Rightarrow> dev \<Rightarrow> string list option" where
  "show_rxctx s d = do {
     name \<leftarrow> netdev_name s d;
     ctx \<leftarrow> rxctxs s d;
     ls \<leftarrow> show_all (iso_vq_show s) (vq_list ctx);
     Some ([[], ''vqs->dev '' @ name @
              ''   last_update '' @ hex (unat (of_int (rxctx_vq_last_update_time ctx) :: u64)) @
              ''   active_rate '' @ dec_int (vq_active_rate ctx) @ ''   rx_rate '' @ dec_int (sint (rxctx_rx_rate ctx)) @
              ''   rcp_rate '' @ dec_int (sint (rcp_rate ctx))] @ ls) }"

definition iso_stats_proc_seq_show :: "(rl_ptr \<Rightarrow> string) \<Rightarrow> 'z sys_mem_scheme \<Rightarrow> string list option" where
  "iso_stats_proc_seq_show pp s = do {
     tx \<leftarrow> show_all (show_txctx pp s) (txctx_list s);
     rx \<leftarrow> show_all (show_rxctx s) (rxctx_list s);
     Some (tx @ rx) }"

text \<open>The text of the file.\<close>

definition file_text :: "string list \<Rightarrow> string" where
  "file_text ls = concat (map (\<lambda>l. l @ [CHR 0x0A]) ls)"

section \<open>The CSV file\<close>

definition csv_line :: "string \<Rightarrow> iso_class_t \<Rightarrow> u64 \<Rightarrow> string" where
  "csv_line dir klass n = dir @ '','' @ iso_class_show klass @ '','' @ dec (unat n) @ [CHR 0x0A]"

definition csv_txc :: "'z tx_mem_scheme \<Rightarrow> nat \<Rightarrow> string option" where
  "csv_txc s t = do {
     txc \<leftarrow> txcs s t;
     rl \<leftarrow> rls s (TxcRl t);
     Some (csv_line ''tx'' (txc_klass txc) (accum_xmit rl)) }"

definition csv_vq :: "'z vq_mem_scheme \<Rightarrow> nat \<Rightarrow> string option" where
  "csv_vq s v = do {
     vq \<leftarrow> vqs s v;
     st \<leftarrow> percpu_stats vq;
     Some (csv_line ''rx'' (vq_klass vq) (sum_list (map (\<lambda>c. vs_rx_bytes (st c)) (online s)))) }"

definition iso_csvstats_proc_seq_show :: "'z tx_mem_scheme \<Rightarrow> string option" where
  "iso_csvstats_proc_seq_show s = do {
     tx \<leftarrow> show_all (\<lambda>d. do { ctx \<leftarrow> txctxs s d; show_all (csv_txc s) (txc_list ctx) }) (txctx_list s);
     rx \<leftarrow> show_all (\<lambda>d. do { ctx \<leftarrow> rxctxs s d; show_all (csv_vq s) (vq_list ctx) }) (rxctx_list s);
     Some (tx @ rx) }"

section \<open>The iterator\<close>

text \<open>\<open>iso_stats_proc_seq_start\<close> and \<open>iso_stats_proc_seq_next\<close>: the file has one record.\<close>

definition iso_stats_proc_seq_start :: "nat \<Rightarrow> bool \<times> nat" where
  "iso_stats_proc_seq_start pos = (if pos = 0 then (True, pos) else (False, 0))"

definition iso_stats_proc_seq_next :: "u64 \<Rightarrow> bool \<times> u64" where
  "iso_stats_proc_seq_next counter = (False, counter + 1)"

end
