(* ===== verification/TokenBucket.thy ===== *)
theory TokenBucket
  imports RateLimiter
begin

text \<open>
  Lemmas of the rate limiters of \<open>src/rl.c\<close>. First the queues: the byte counter of a queue is the
  size of its packets and stays below its limit, and enqueue drops exactly the packets that
  do not fit. Then the heap: enqueue and dequeue never oops in a state whose limiters, control
  blocks and parents are live, they keep the shape of the heap (\<open>rl_frame\<close>), and a dequeue
  takes a prefix of the queue and pays for each of its bytes with a token (\<open>dequeued\<close>).
\<close>

section \<open>Queues\<close>

definition queue_len :: "iso_rl_queue \<Rightarrow> int" where
  "queue_len q = sum_list (map skb_size (q_list q))"

definition queue_ok :: "iso_rl_queue \<Rightarrow> bool" where
  "queue_ok q \<longleftrightarrow>
     (\<forall>p \<in> set (q_list q). wf_skb p) \<and> queue_len q < 2 ^ 30 + 2 ^ 21 \<and>
     uint (bytes_enqueued q) = queue_len q"

lemma sum_sizes_nonneg: "(\<forall>p \<in> set ps. wf_skb p) \<Longrightarrow> 0 \<le> sum_list (map skb_size ps)"
  by (induction ps) (auto dest!: skb_size_wf(2))

lemma queue_len_nonneg: "queue_ok q \<Longrightarrow> 0 \<le> queue_len q"
  by (simp add: queue_ok_def queue_len_def sum_sizes_nonneg)

lemma queue_ok_init [simp]: "queue_ok queue_init"
  by (simp add: queue_ok_def queue_len_def queue_init_def)

lemma queue_ok_cong:
  "q_list q' = q_list q \<Longrightarrow> bytes_enqueued q' = bytes_enqueued q \<Longrightarrow> queue_ok q' = queue_ok q"
  by (simp add: queue_ok_def queue_len_def)

text \<open>The 64-bit sum of the occupancy and a packet does not wrap.\<close>

lemma uint_bytes_plus:
  assumes "queue_ok q" "wf_skb pkt"
  shows "uint (bytes_enqueued q + skb_bytes pkt) = queue_len q + skb_size pkt"
  using assms skb_size_wf(2,3) [OF assms(2)]
  by (subst uint_add_bounded) (simp_all add: queue_ok_def uint_skb_bytes)

lemma queue_len_snoc:
  "q_list q' = q_list q @ [pkt] \<Longrightarrow> queue_len q' = queue_len q + skb_size pkt"
  by (simp add: queue_len_def)

lemma queue_ok_snoc:
  assumes "queue_ok q" "wf_skb pkt" "queue_len q + skb_size pkt < 2 ^ 30 + 2 ^ 21"
    and "q_list q' = q_list q @ [pkt]" "bytes_enqueued q' = bytes_enqueued q + skb_bytes pkt"
  shows "queue_ok q'"
  using assms uint_bytes_plus [OF assms(1,2)]
  by (auto simp: queue_ok_def queue_len_snoc)

lemma enqueue_tail_list:
  "\<exists>pkt'. q_list (enqueue_tail K P txc q pkt) = q_list q @ [pkt'] \<and>
     (pkt' = pkt \<or> txc = None \<and> is_ip pkt \<and> pkt' = ipv4_change_dsfield K 0 3 pkt)"
  by (auto simp: enqueue_tail_def Let_def)

lemma enqueue_tail_simps [simp]:
  "bytes_enqueued (enqueue_tail K P txc q pkt) = bytes_enqueued q + skb_bytes pkt"
  "q_tokens (enqueue_tail K P txc q pkt) = q_tokens q"
  "bytes_xmit (enqueue_tail K P txc q pkt) = bytes_xmit q"
  "first_pkt_size (enqueue_tail K P txc q pkt) = first_pkt_size q"
  "queue_len (enqueue_tail K P txc q pkt) = queue_len q + skb_size pkt"
  by (simp_all add: enqueue_tail_def Let_def queue_len_def)

lemma enqueue_tail_ok:
  assumes "queue_ok q" "wf_skb pkt" "queue_len q + skb_size pkt < 2 ^ 30 + 2 ^ 21"
  shows "queue_ok (enqueue_tail K P txc q pkt)"
proof -
  obtain pkt' where l: "q_list (enqueue_tail K P txc q pkt) = q_list q @ [pkt']"
    and p: "pkt' = pkt \<or> pkt' = ipv4_change_dsfield K 0 3 pkt"
    using enqueue_tail_list [of K P txc q pkt] by blast
  from p have same: "wf_skb pkt' = wf_skb pkt" "skb_size pkt' = skb_size pkt"
    "skb_bytes pkt' = skb_bytes pkt"
    by (elim disjE; simp)+
  show ?thesis
    by (rule queue_ok_snoc [of q pkt', OF assms(1) _ _ l]) (use assms(2,3) same in simp_all)
qed

section \<open>Enqueue: a packet that does not fit is dropped whole\<close>

text \<open>
  The source computes how much of the packet fits and means to trim it, but the test before
  is always true: the trimmed branch is unreachable.
\<close>

lemma enqueue_whole_eq:
  assumes "queue_ok q" "wf_skb pkt" "0 < ISO_MAX_QUEUE_LEN_BYTES P"
    "ISO_MAX_QUEUE_LEN_BYTES P \<le> 2 ^ 30"
  shows "enqueue_whole K P txc q pkt =
     (if queue_len q + skb_size pkt \<le> ISO_MAX_QUEUE_LEN_BYTES P
      then (ISO_VERDICT_SUCCESS, enqueue_tail K P txc q pkt)
      else (ISO_VERDICT_DROP, q))"
proof -
  let ?B = "queue_len q" and ?L = "skb_size pkt" and ?M = "ISO_MAX_QUEUE_LEN_BYTES P"
  note L = skb_size_wf(2,3) [OF assms(2)]
  have B: "0 \<le> ?B" "?B < 2 ^ 30 + 2 ^ 21" "uint (bytes_enqueued q) = ?B"
    using assms(1) queue_len_nonneg by (auto simp: queue_ok_def)
  have over: "of_int ?M < bytes_enqueued q + of_int ?L \<longleftrightarrow> ?M < ?B + ?L"
    using assms uint_bytes_plus [OF assms(1,2)]
    by (simp add: word_less_def uint_of_int flip: skb_bytes_def)
  have "sint (ucast (bytes_enqueued q) :: u32) = ?B"
    using B by (simp add: sint_uint uint_ucast_bounded signed_take_bit_int_eq_self)
  moreover have "s32 (?B + ?L - ?M) = ?B + ?L - ?M"
    by (rule s32_id) (use B L assms in auto)
  moreover have "s32 (?B + ?L - ?M - ?L) = ?B - ?M"
    using s32_id [of "?B - ?M"] B assms by simp
  ultimately show ?thesis
    using over L by (auto simp: enqueue_whole_def Let_def MIN_PKT_SIZE_def)
qed

lemma enqueue_whole_ok:
  assumes "queue_ok q" "wf_skb pkt" "0 < ISO_MAX_QUEUE_LEN_BYTES P"
    "ISO_MAX_QUEUE_LEN_BYTES P \<le> 2 ^ 30"
  shows "queue_ok (snd (enqueue_whole K P txc q pkt))"
  using assms by (auto simp: enqueue_whole_eq intro!: enqueue_tail_ok)

lemma enqueue_segs_ok:
  assumes "queue_ok q" "\<forall>p \<in> set segs. wf_skb p" "0 < ISO_MAX_QUEUE_LEN_BYTES P"
    "ISO_MAX_QUEUE_LEN_BYTES P \<le> 2 ^ 30"
  shows "queue_ok (fst (enqueue_segs P segs q))"
  using assms
proof (induction segs arbitrary: q)
  case (Cons x xs)
  let ?q = "q\<lparr>q_list := q_list q @ [x], bytes_enqueued := bytes_enqueued q + skb_bytes x\<rparr>"
  have lt: "bytes_enqueued q < of_int (ISO_MAX_QUEUE_LEN_BYTES P) \<longleftrightarrow>
      queue_len q < ISO_MAX_QUEUE_LEN_BYTES P"
    using Cons.prems by (simp add: word_less_def uint_of_int queue_ok_def)
  have x: "wf_skb x" using Cons.prems by simp
  show ?case
  proof (cases "queue_len q < ISO_MAX_QUEUE_LEN_BYTES P")
    case True
    have "queue_ok ?q"
      by (rule queue_ok_snoc [of q x]) (use True Cons.prems skb_size_wf(3) [OF x] in auto)
    then have "queue_ok (fst (enqueue_segs P xs ?q))"
      by (rule Cons.IH) (use Cons.prems in auto)
    with True lt show ?thesis by simp
  next
    case False
    have "queue_ok (fst (enqueue_segs P xs q))"
      by (rule Cons.IH) (use Cons.prems in auto)
    with False lt show ?thesis by (simp add: split_beta)
  qed
qed simp

section \<open>What the operations leave alone\<close>

text \<open>The parent and the control blocks of every live limiter.\<close>

definition shape :: "'z rl_mem_scheme \<Rightarrow> rl_ptr \<Rightarrow> (nat option \<times> dev) option" where
  "shape s p = map_option (\<lambda>rl. (rl_txc rl, rl_rlcb rl)) (rls s p)"

definition rl_frame :: "'z rl_mem_scheme \<Rightarrow> 'z rl_mem_scheme \<Rightarrow> bool" where
  "rl_frame s s' \<longleftrightarrow>
     tun s' = tun s \<and> online s' = online s \<and> possible s' = possible s \<and>
     this_cpu s' = this_cpu s \<and> iso_exiting s' = iso_exiting s \<and> fresh s' = fresh s \<and>
     txctx_xmit s' = txctx_xmit s \<and> txq_stopped s' = txq_stopped s \<and>
     (\<forall>d. rlcbs s' d = None \<longleftrightarrow> rlcbs s d = None) \<and> shape s' = shape s \<and> rl_mem.more s' = rl_mem.more s"

lemma rl_frame_refl [simp, intro]: "rl_frame s s"
  by (simp add: rl_frame_def)

lemma rl_frame_trans [trans]: "rl_frame s t \<Longrightarrow> rl_frame t u \<Longrightarrow> rl_frame s u"
  by (simp add: rl_frame_def)

lemma rl_frameD:
  assumes "rl_frame s s'"
  shows "tun s' = tun s" "iso_exiting s' = iso_exiting s" "txctx_xmit s' = txctx_xmit s"
    "txq_stopped s' = txq_stopped s" "rl_mem.more s' = rl_mem.more s"
    "shape s' p = shape s p" "rlcbs s' d = None \<longleftrightarrow> rlcbs s d = None" "online s' = online s"
    "this_cpu s' = this_cpu s" "fresh s' = fresh s" "possible s' = possible s"
  using assms unfolding rl_frame_def by simp_all

lemma shape_SomeI: "rls s p = Some rl \<Longrightarrow> shape s p = Some (rl_txc rl, rl_rlcb rl)"
  by (simp add: shape_def)

lemma shape_None [simp]: "shape s p = None \<longleftrightarrow> rls s p = None"
  by (simp add: shape_def)

lemma shape_SomeD:
  "shape s p = Some (t, d) \<Longrightarrow> \<exists>rl. rls s p = Some rl \<and> rl_txc rl = t \<and> rl_rlcb rl = d"
  by (auto simp: shape_def)

lemma frame_live: "rl_frame s s' \<Longrightarrow> rls s' p = None \<longleftrightarrow> rls s p = None"
  using rl_frameD(6) [of s s' p] by (metis shape_None)

text \<open>The two single updates: a limiter in place, and a control block in place.\<close>

lemma rl_frame_put [simp]:
  "rls s p = Some rl \<Longrightarrow> rl_txc rl' = rl_txc rl \<Longrightarrow> rl_rlcb rl' = rl_rlcb rl \<Longrightarrow>
   rl_frame s (s\<lparr>rls := (rls s)(p \<mapsto> rl')\<rparr>)"
  by (auto simp: rl_frame_def shape_def fun_eq_iff)

lemma rl_frame_put_log [simp]:
  assumes "rls s p = Some rl" "rl_txc rl' = rl_txc rl" "rl_rlcb rl' = rl_rlcb rl"
  shows "rl_frame s (s\<lparr>ticks := n, rls := (rls s)(p \<mapsto> rl')\<rparr>)"
    and "rl_frame s (s\<lparr>ticks := n, rls := (rls s)(p \<mapsto> rl'), freed_skbs := fr\<rparr>)"
    and "rl_frame s (s\<lparr>nlocks := m, rls := (rls s)(p \<mapsto> rl')\<rparr>)"
  using assms by (auto simp: rl_frame_def shape_def fun_eq_iff)

lemma rl_frame_cb [simp]:
  "rlcbs s d \<noteq> None \<Longrightarrow> rl_frame s (s\<lparr>rlcbs := (rlcbs s)(d \<mapsto> cbs')\<rparr>)"
  by (auto simp: rl_frame_def shape_def fun_eq_iff)

lemma rl_frame_logs [simp]:
  "rl_frame s (s\<lparr>wire := w\<rparr>)" "rl_frame s (s\<lparr>freed_skbs := f\<rparr>)"
  "rl_frame s (s\<lparr>ticks := n\<rparr>)" "rl_frame s (s\<lparr>nlocks := m\<rparr>)"
  by (auto simp: rl_frame_def shape_def fun_eq_iff)

section \<open>The clock\<close>

lemma rl_decay_simps [simp]:
  "total_tokens (rl_decay P now rl) = total_tokens rl"
  "rl_queue (rl_decay P now rl) = rl_queue rl"
  "rl_txc (rl_decay P now rl) = rl_txc rl"
  "rl_rlcb (rl_decay P now rl) = rl_rlcb rl"
  "rl_ip (rl_decay P now rl) = rl_ip rl"
  "last_update_time (rl_decay P now rl) = last_update_time rl"
  by (simp_all add: rl_decay_def Let_def)

lemma rl_refill_simps [simp]:
  "rl_queue (rl_refill P now rl) = rl_queue rl"
  "rl_txc (rl_refill P now rl) = rl_txc rl"
  "rl_rlcb (rl_refill P now rl) = rl_rlcb rl"
  "rl_ip (rl_refill P now rl) = rl_ip rl"
  "last_update_time (rl_refill P now rl) = now"
  "rl_rate (rl_refill P now rl) = rl_rate (rl_decay P now rl)"
  by (simp_all add: rl_refill_def Let_def)

lemma iso_rl_clock_fst [simp]:
  "rl_queue (fst (iso_rl_clock rl s)) = rl_queue rl"
  "rl_txc (fst (iso_rl_clock rl s)) = rl_txc rl"
  "rl_rlcb (fst (iso_rl_clock rl s)) = rl_rlcb rl"
  "rl_ip (fst (iso_rl_clock rl s)) = rl_ip rl"
  by (simp_all add: iso_rl_clock_def iso_rl_should_refill_def ktime_get_def Let_def split_beta)

lemma iso_rl_clock_snd: "\<exists>n. snd (iso_rl_clock rl s) = s\<lparr>ticks := n\<rparr>"
  by (auto simp: iso_rl_clock_def iso_rl_should_refill_def ktime_get_def Let_def split_beta)

section \<open>Enqueue on the heap\<close>

text \<open>
  What \<open>skb_gso_segment\<close> promises: an error, or a non-empty chain of segments that are no
  larger than any packet and leave through the same device.
\<close>

definition gso_documented :: "kapi \<Rightarrow> bool" where
  "gso_documented K \<longleftrightarrow>
     (\<forall>pkt. wf_skb pkt \<longrightarrow>
        (case skb_gso_segment K pkt of
           GsoErr \<Rightarrow> True
         | GsoNull \<Rightarrow> False
         | GsoSegs x xs \<Rightarrow> \<forall>y \<in> set (x # xs). wf_skb y \<and> skb_dev y = skb_dev pkt))"

text \<open>A packet the transmit path can hold: a sane size and a device with a transmit context.\<close>

definition skb_ok :: "'z rl_mem_scheme \<Rightarrow> sk_buff \<Rightarrow> bool" where
  "skb_ok s skb \<longleftrightarrow> wf_skb skb \<and> txctx_xmit s (skb_dev skb) \<noteq> None"

definition queue_inv :: "'z rl_mem_scheme \<Rightarrow> iso_rl_queue \<Rightarrow> bool" where
  "queue_inv s q \<longleftrightarrow> queue_ok q \<and> (\<forall>k \<in> set (q_list q). skb_ok s k)"

definition queues_inv :: "'z rl_mem_scheme \<Rightarrow> bool" where
  "queues_inv s \<longleftrightarrow> (\<forall>p rl c. rls s p = Some rl \<longrightarrow> queue_inv s (rl_queue rl c))"

lemma skb_ok_frame: "rl_frame s s' \<Longrightarrow> skb_ok s' = skb_ok s"
  by (simp add: skb_ok_def fun_eq_iff rl_frameD)

lemma queue_inv_frame: "rl_frame s s' \<Longrightarrow> queue_inv s' = queue_inv s"
  by (simp add: queue_inv_def fun_eq_iff skb_ok_frame)

lemma queues_invD: "queues_inv s \<Longrightarrow> rls s p = Some rl \<Longrightarrow> queue_inv s (rl_queue rl c)"
  by (simp add: queues_inv_def)

lemma queues_inv_same:
  "rl_frame s s' \<Longrightarrow> rls s' = rls s \<Longrightarrow> queues_inv s' = queues_inv s"
  by (simp add: queues_inv_def queue_inv_frame)

lemma queues_inv_put:
  assumes "queues_inv s" "rl_frame s s'" "rls s' = (rls s)(p \<mapsto> rl')"
    and "\<And>c. queue_inv s (rl_queue rl' c)"
  shows "queues_inv s'"
  using assms by (auto simp: queues_inv_def queue_inv_frame)

lemma queue_inv_enqueue_tail:
  assumes "queue_inv s q" "skb_ok s pkt" "queue_len q + skb_size pkt < 2 ^ 30 + 2 ^ 21"
  shows "queue_inv s (enqueue_tail K P txc q pkt)"
proof -
  have "queue_ok (enqueue_tail K P txc q pkt)"
    using assms by (intro enqueue_tail_ok) (simp_all add: queue_inv_def skb_ok_def)
  then show ?thesis
    using assms enqueue_tail_list [of K P txc q pkt] by (auto simp: queue_inv_def skb_ok_def)
qed

lemma enqueue_segs_set:
  "set (q_list (fst (enqueue_segs P segs q))) \<subseteq> set (q_list q) \<union> set segs"
proof (induction segs arbitrary: q)
  case (Cons x xs)
  show ?case using Cons [of q]
    Cons [of "q\<lparr>q_list := q_list q @ [x], bytes_enqueued := bytes_enqueued q + skb_bytes x\<rparr>"]
    by (auto simp: split_beta)
qed simp

lemma enqueue_segs_simps [simp]:
  "q_tokens (fst (enqueue_segs P segs q)) = q_tokens q"
  "bytes_xmit (fst (enqueue_segs P segs q)) = bytes_xmit q"
  "first_pkt_size (fst (enqueue_segs P segs q)) = first_pkt_size q"
  by (induction segs arbitrary: q) (simp_all add: split_beta)

lemma enqueue_whole_simps [simp]:
  "q_tokens (snd (enqueue_whole K P txc q pkt)) = q_tokens q"
  "bytes_xmit (snd (enqueue_whole K P txc q pkt)) = bytes_xmit q"
  "first_pkt_size (snd (enqueue_whole K P txc q pkt)) = first_pkt_size q"
  by (simp_all add: enqueue_whole_def Let_def)

definition sane_queue_limit :: "'z kenv_scheme \<Rightarrow> bool" where
  "sane_queue_limit s \<longleftrightarrow>
     0 < ISO_MAX_QUEUE_LEN_BYTES (tun s) \<and> ISO_MAX_QUEUE_LEN_BYTES (tun s) \<le> 2 ^ 30"

lemma queue_inv_enqueue_whole:
  assumes "queue_inv s q" "skb_ok s pkt" "sane_queue_limit s"
  shows "queue_inv s (snd (enqueue_whole K (tun s) txc q pkt))"
proof -
  have "queue_ok q" "wf_skb pkt" using assms by (simp_all add: queue_inv_def skb_ok_def)
  with assms queue_inv_enqueue_tail [OF assms(1,2)] show ?thesis
    by (simp add: enqueue_whole_eq sane_queue_limit_def)
qed

lemma queue_inv_enqueue_segs:
  assumes "queue_inv s q" "\<forall>y \<in> set segs. skb_ok s y" "sane_queue_limit s"
  shows "queue_inv s (fst (enqueue_segs (tun s) segs q))"
  using assms enqueue_segs_ok [of q segs "tun s"] enqueue_segs_set [of "tun s" segs q]
  by (auto simp: queue_inv_def skb_ok_def sane_queue_limit_def)

text \<open>
  The effect of an enqueue on the heap: the limiter's clock runs, the queue of the CPU grows,
  tokens and counters of transmitted bytes stay.
\<close>

lemma iso_rl_enqueue_spec:
  assumes "rls s p = Some rl" "queues_inv s" "skb_ok s pkt" "gso_documented K" "sane_queue_limit s"
  obtains v s' q' where "iso_rl_enqueue K p pkt c s = Some (v, s')"
    and "rl_frame s s'"
    and "rls s' = (rls s)(p \<mapsto> (fst (iso_rl_clock rl s))\<lparr>rl_queue := (rl_queue rl)(c := q')\<rparr>)"
    and "rlcbs s' = rlcbs s" "wire s' = wire s"
    and "queue_inv s q'" "q_tokens q' = q_tokens (rl_queue rl c)"
    and "bytes_xmit q' = bytes_xmit (rl_queue rl c)"
    and "first_pkt_size q' = first_pkt_size (rl_queue rl c)"
proof -
  obtain n where n: "snd (iso_rl_clock rl s) = s\<lparr>ticks := n\<rparr>" using iso_rl_clock_snd by blast
  obtain rl1 where rl1: "iso_rl_clock rl s = (rl1, s\<lparr>ticks := n\<rparr>)"
    using n by (metis prod.collapse)
  have rl1s: "rl_queue rl1 = rl_queue rl" "rl_txc rl1 = rl_txc rl" "rl_rlcb rl1 = rl_rlcb rl"
    using iso_rl_clock_fst [of rl s] by (simp_all add: rl1)
  let ?q = "rl_queue rl c" and ?P = "tun s"
  have q: "queue_inv s ?q" by (rule queues_invD [OF assms(2,1)])
  let ?put = "\<lambda>q. rl1\<lparr>rl_queue := (rl_queue rl)(c := q)\<rparr>"
  show thesis
  proof (cases "of_int (ISO_GSO_THRESH_RATE ?P) < rl_rate rl1 \<or> skb_size pkt \<le> ISO_GSO_MIN_SPLIT_BYTES ?P")
    case True
    let ?w = "enqueue_whole K ?P (rl_txc rl) ?q pkt"
    show thesis
      by (rule that [of "fst ?w" "s\<lparr>ticks := n, rls := (rls s)(p \<mapsto> ?put (snd ?w))\<rparr>" "snd ?w"])
        (use assms True q rl1s queue_inv_enqueue_whole [OF q assms(3,5)] in
          \<open>auto simp: iso_rl_enqueue_def rl1 split_beta Let_def\<close>)
  next
    case False
    show thesis
    proof (cases "skb_gso_segment K pkt")
      case GsoErr
      show thesis
        by (rule that [of ISO_VERDICT_ERROR "s\<lparr>ticks := n, rls := (rls s)(p \<mapsto> rl1)\<rparr>" ?q])
          (use assms False q rl1s GsoErr in
            \<open>auto simp: iso_rl_enqueue_def rl1 Let_def intro!: iso_rl.equality\<close>)
    next
      case GsoNull
      then show thesis using assms(3,4) by (auto simp: gso_documented_def skb_ok_def)
    next
      case (GsoSegs x xs)
      have segs: "\<forall>y \<in> set (x # xs). skb_ok s y"
        using assms(3,4) GsoSegs by (fastforce simp: gso_documented_def skb_ok_def)
      let ?e = "enqueue_segs ?P (x # xs) ?q"
      show thesis
        by (rule that [of ISO_VERDICT_SUCCESS
              "s\<lparr>ticks := n, rls := (rls s)(p \<mapsto> ?put (fst ?e)),
                 freed_skbs := freed_skbs s @ pkt # snd ?e\<rparr>" "fst ?e"])
          (use assms False q rl1s GsoSegs queue_inv_enqueue_segs [OF q segs assms(5)] in
            \<open>simp_all del: enqueue_segs.simps
              add: iso_rl_enqueue_def rl1 split_beta Let_def\<close>)
    qed
  qed
qed

section \<open>Taking packets off a queue\<close>

text \<open>The queue after its first \<open>k\<close> packets have left: their bytes are paid with tokens.\<close>

definition q_take :: "nat \<Rightarrow> iso_rl_queue \<Rightarrow> iso_rl_queue" where
  "q_take k q =
     (let b = sum_list (map skb_bytes (take k (q_list q)))
      in q\<lparr>q_list := drop k (q_list q), q_tokens := q_tokens q - b,
           bytes_enqueued := bytes_enqueued q - b, bytes_xmit := bytes_xmit q + b\<rparr>)"

lemma q_take_0 [simp]: "q_take 0 q = q"
  by (simp add: q_take_def)

lemma q_take_Suc:
  assumes "q_list q = pkt # rest" "wf_skb pkt"
  shows "q_take k (take_head (q\<lparr>first_pkt_size := f\<rparr>) rest (skb_size32 pkt)) =
         (q_take (Suc k) q)\<lparr>first_pkt_size := f\<rparr>"
  using assms by (simp add: q_take_def take_head_def Let_def ucast_skb_size32 algebra_simps)

lemma uint_sum_bytes:
  assumes "\<forall>p \<in> set ps. wf_skb p" "sum_list (map skb_size ps) < 2 ^ 64"
  shows "uint (sum_list (map skb_bytes ps)) = sum_list (map skb_size ps)"
  using assms
proof (induction ps)
  case (Cons p ps)
  have p: "wf_skb p" using Cons.prems by simp
  have "0 \<le> sum_list (map skb_size ps)" using Cons.prems by (intro sum_sizes_nonneg) simp
  then show ?case
    using Cons skb_size_wf(2) [OF p] by (simp add: uint_add_bounded uint_skb_bytes)
qed simp

lemma sum_sizes_take_drop:
  "sum_list (map skb_size ps) =
     sum_list (map skb_size (take k ps)) + sum_list (map skb_size (drop k ps))"
  by (metis append_take_drop_id map_append sum_list_append)

lemma queue_ok_q_take:
  assumes "queue_ok q"
  shows "queue_ok ((q_take k q)\<lparr>first_pkt_size := f\<rparr>)"
proof -
  let ?a = "sum_list (map skb_size (take k (q_list q)))"
    and ?b = "sum_list (map skb_size (drop k (q_list q)))"
  have wf: "\<forall>p \<in> set (take k (q_list q)). wf_skb p" "\<forall>p \<in> set (drop k (q_list q)). wf_skb p"
    using assms by (auto simp: queue_ok_def dest: in_set_takeD in_set_dropD)
  have ab: "0 \<le> ?a" "0 \<le> ?b" "queue_len q = ?a + ?b"
    using wf sum_sizes_nonneg sum_sizes_take_drop by (auto simp: queue_len_def)
  have q: "queue_len q < 2 ^ 30 + 2 ^ 21" "uint (bytes_enqueued q) = queue_len q"
    using assms by (auto simp: queue_ok_def)
  have "uint (sum_list (map skb_bytes (take k (q_list q)))) = ?a"
    by (rule uint_sum_bytes) (use wf ab q in auto)
  with ab q wf show ?thesis
    by (simp add: queue_ok_def queue_len_def q_take_def Let_def uint_sub_bounded)
qed

lemma queue_inv_q_take:
  "queue_inv s q \<Longrightarrow> queue_inv s ((q_take k q)\<lparr>first_pkt_size := f\<rparr>)"
  by (auto simp: queue_inv_def queue_ok_q_take)
    (auto simp: q_take_def Let_def dest: in_set_dropD)

section \<open>The loop of dequeue\<close>

text \<open>The packets the driver takes, and the scheduling state of the control blocks.\<close>

definition driver_takes :: "'z rl_mem_scheme \<Rightarrow> sk_buff \<Rightarrow> bool" where
  "driver_takes s skb \<longleftrightarrow>
     txctx_xmit s (skb_dev skb) = Some True \<and> \<not> txq_stopped s (skb_dev skb) (queue_mapping skb)"

definition cb_sched :: "'z rl_mem_scheme \<Rightarrow> dev \<Rightarrow> cpu \<Rightarrow> (q_ptr list \<times> bool \<times> bool) option" where
  "cb_sched s d c =
     map_option (\<lambda>cbs. (cb_active (cbs c), cb_timer (cbs c), cb_tasklet (cbs c))) (rlcbs s d)"

definition queue_at :: "'z rl_mem_scheme \<Rightarrow> rl_ptr \<Rightarrow> cpu \<Rightarrow> iso_rl_queue option" where
  "queue_at s p c = map_option (\<lambda>rl. rl_queue rl c) (rls s p)"

text \<open>A step of CPU \<open>c\<close> that neither schedules anything nor touches a queue of another CPU.\<close>

definition cpu_local :: "cpu \<Rightarrow> 'z rl_mem_scheme \<Rightarrow> 'z rl_mem_scheme \<Rightarrow> bool" where
  "cpu_local c s s' \<longleftrightarrow>
     cb_sched s' = cb_sched s \<and> (\<forall>p c'. c' \<noteq> c \<longrightarrow> queue_at s' p c' = queue_at s p c')"

lemma cpu_local_refl [simp]: "cpu_local c s s"
  by (simp add: cpu_local_def)

lemma cpu_local_trans [trans]: "cpu_local c s t \<Longrightarrow> cpu_local c t u \<Longrightarrow> cpu_local c s u"
  by (simp add: cpu_local_def)

lemma cpu_local_same: "cb_sched s' = cb_sched s \<Longrightarrow> rls s' = rls s \<Longrightarrow> cpu_local c s s'"
  by (simp add: cpu_local_def queue_at_def)

lemma cb_sched_same: "rlcbs s' = rlcbs s \<Longrightarrow> cb_sched s' = cb_sched s"
  by (intro ext) (simp add: cb_sched_def)

lemma cpu_local_put:
  assumes "rls s p = Some rl" "rls s' = (rls s)(p \<mapsto> rl')" "rlcbs s' = rlcbs s"
    "\<And>c'. c' \<noteq> c \<Longrightarrow> rl_queue rl' c' = rl_queue rl c'"
  shows "cpu_local c s s'"
  using assms by (auto simp: cpu_local_def queue_at_def cb_sched_same [OF assms(3)])

lemma driver_takes_frame: "rl_frame s s' \<Longrightarrow> driver_takes s' = driver_takes s"
  by (simp add: driver_takes_def fun_eq_iff rl_frameD)

lemma skb_xmit_spec:
  assumes "skb_ok s pkt"
  shows "\<exists>s'. skb_xmit pkt s = Some s' \<and> rl_frame s s' \<and> rls s' = rls s \<and> rlcbs s' = rlcbs s \<and>
     wire s' = wire s @ filter (driver_takes s) [pkt]"
  using assms by (auto simp: skb_xmit_def skb_ok_def driver_takes_def)

lemma add_tx_bytes_spec:
  assumes "rlcbs s d \<noteq> None"
  shows "\<exists>s'. add_tx_bytes d c sz s = Some s' \<and> rl_frame s s' \<and> rls s' = rls s \<and>
     cb_sched s' = cb_sched s \<and> wire s' = wire s"
  using assms by (auto simp: add_tx_bytes_def cb_sched_def fun_eq_iff)

lemma has_space_spec:
  "rls s p \<noteq> None \<Longrightarrow> \<exists>b. iso_rl_has_space_for p pkt c s = Some b"
  by (auto simp: iso_rl_has_space_for_def)

lemma sane_queue_limit_frame: "rl_frame s s' \<Longrightarrow> sane_queue_limit s' = sane_queue_limit s"
  by (simp add: sane_queue_limit_def rl_frameD)

text \<open>One round of the loop: it stops in place, or the head packet leaves.\<close>

lemma dequeue_round:
  fixes q :: iso_rl_queue and s :: "'z rl_mem_scheme" and pkt :: sk_buff and tot :: u64
  defines "q1 \<equiv> q\<lparr>first_pkt_size := sint (skb_size32 pkt)\<rparr>"
    and "tot1 \<equiv> tot + ucast (skb_size32 pkt)"
  assumes "skb_ok s pkt" "queues_inv s" "gso_documented K"
    "sane_queue_limit s" "rlcbs s d \<noteq> None" "\<forall>t. txc = Some t \<longrightarrow> rls s (TxcRl t) \<noteq> None"
  shows "dequeue_loop K c txc d (pkt # rest) q tot s = Some (q1, tot1, True, s) \<or>
    (\<exists>s1. dequeue_loop K c txc d (pkt # rest) q tot s =
            dequeue_loop K c txc d rest (take_head q1 rest (skb_size32 pkt)) tot1 s1 \<and>
          ucast (skb_size32 pkt) \<le> q_tokens q \<and>
          rl_frame s s1 \<and> queues_inv s1 \<and> cpu_local c s s1 \<and>
          (\<forall>p. (\<forall>t. txc = Some t \<longrightarrow> p \<noteq> TxcRl t) \<longrightarrow> rls s1 p = rls s p) \<and>
          (txc = None \<longrightarrow> wire s1 = wire s @ filter (driver_takes s) [pkt]))"
    (is "?stop \<or> ?go")
proof (cases "ucast (skb_size32 pkt) \<le> q_tokens q \<and>
    tot1 \<le> of_int (s32 (ISO_MIN_BURST_BYTES (tun s) * 2))")
  case False
  then show ?thesis by (intro disjI1) (auto simp: Let_def q1_def tot1_def)
next
  case True
  show ?thesis
  proof (cases txc)
    case None
    obtain s1 where s1: "skb_xmit pkt s = Some s1" "rl_frame s s1" "rls s1 = rls s"
      "rlcbs s1 = rlcbs s" "wire s1 = wire s @ filter (driver_takes s) [pkt]"
      using skb_xmit_spec [OF assms(3)] by blast
    have "rlcbs s1 d \<noteq> None" using s1 assms(7) by simp
    then obtain s2 where s2: "add_tx_bytes d c (skb_size32 pkt) s1 = Some s2" "rl_frame s1 s2"
      "rls s2 = rls s1" "cb_sched s2 = cb_sched s1" "wire s2 = wire s1"
      using add_tx_bytes_spec by blast
    have fr: "rl_frame s s2" using s1(2) s2(2) by (rule rl_frame_trans)
    have "cpu_local c s s2"
      using s1(3) s2(3,4) cb_sched_same [OF s1(4)] by (intro cpu_local_same) simp_all
    then have ?go
      by (intro exI [of _ s2]) (use True None s1 s2 fr assms(4) in
          \<open>auto simp: Let_def q1_def tot1_def queues_inv_same [OF fr]\<close>)
    then show ?thesis ..
  next
    case (Some t)
    obtain prl where prl: "rls s (TxcRl t) = Some prl" using assms(8) Some by auto
    then obtain b where b: "iso_rl_has_space_for (TxcRl t) pkt c s = Some b"
      using has_space_spec by blast
    obtain v s' q' where e: "iso_rl_enqueue K (TxcRl t) pkt c s = Some (v, s')" "rl_frame s s'"
      "rls s' = (rls s)(TxcRl t \<mapsto>
         (fst (iso_rl_clock prl s))\<lparr>rl_queue := (rl_queue prl)(c := q')\<rparr>)"
      "rlcbs s' = rlcbs s" "queue_inv s q'"
      using iso_rl_enqueue_spec [OF prl assms(4,3,5,6), of c] by metis
    have "queues_inv s'"
      using queues_inv_put [OF assms(4) e(2,3)] e(5) queues_invD [OF assms(4) prl] by simp
    moreover have "cpu_local c s s'" by (rule cpu_local_put [OF prl e(3,4)]) simp
    ultimately show ?thesis
      using True Some b e by (cases b) (auto simp: Let_def q1_def tot1_def)
  qed
qed

text \<open>
  The loop never oopses, takes a prefix of the queue, pays for every byte with a token,
  and touches no limiter but the parent. Without a parent the prefix goes to the driver
  in order.
\<close>

lemma dequeue_loop_spec:
  assumes "q_list q = pkts" "queue_inv s q" "queues_inv s" "gso_documented K"
    "sane_queue_limit s" "rlcbs s d \<noteq> None" "\<forall>t. txc = Some t \<longrightarrow> rls s (TxcRl t) \<noteq> None"
  shows "\<exists>k f tot' s'.
     dequeue_loop K c txc d pkts q tot s =
       Some ((q_take k q)\<lparr>first_pkt_size := f\<rparr>, tot', k < length pkts, s') \<and>
     k \<le> length pkts \<and> sum_list (map skb_size (take k pkts)) \<le> uint (q_tokens q) \<and>
     rl_frame s s' \<and> queues_inv s' \<and> cpu_local c s s' \<and>
     (\<forall>p. (\<forall>t. txc = Some t \<longrightarrow> p \<noteq> TxcRl t) \<longrightarrow> rls s' p = rls s p) \<and>
     (txc = None \<longrightarrow> wire s' = wire s @ filter (driver_takes s) (take k pkts))"
  using assms
proof (induction pkts arbitrary: q tot s)
  case Nil
  show ?case
    by (rule exI [of _ 0], rule exI [of _ "first_pkt_size q"], rule exI [of _ tot],
        rule exI [of _ s]) (use Nil.prems in auto)
next
  case (Cons pkt rest)
  let ?sz = "skb_size32 pkt"
  let ?f = "sint ?sz" and ?tot = "tot + ucast ?sz"
  let ?q2 = "take_head (q\<lparr>first_pkt_size := ?f\<rparr>) rest ?sz"
  have pkt: "skb_ok s pkt" "wf_skb pkt"
    using Cons.prems(1,2) by (auto simp: queue_inv_def skb_ok_def)
  consider (stop) "dequeue_loop K c txc d (pkt # rest) q tot s =
        Some (q\<lparr>first_pkt_size := ?f\<rparr>, ?tot, True, s)"
    | (go) s1 where "dequeue_loop K c txc d (pkt # rest) q tot s =
          dequeue_loop K c txc d rest ?q2 ?tot s1" "ucast ?sz \<le> q_tokens q"
        "rl_frame s s1" "queues_inv s1" "cpu_local c s s1"
        "\<forall>p. (\<forall>t. txc = Some t \<longrightarrow> p \<noteq> TxcRl t) \<longrightarrow> rls s1 p = rls s p"
        "txc = None \<longrightarrow> wire s1 = wire s @ filter (driver_takes s) [pkt]"
    using dequeue_round [OF pkt(1) Cons.prems(3-7), of c rest q tot] by blast
  then show ?case
  proof cases
    case stop
    show ?thesis
      by (rule exI [of _ 0], rule exI [of _ ?f], rule exI [of _ ?tot], rule exI [of _ s])
        (use stop Cons.prems in auto)
  next
    case go
    have qt: "q_take j ?q2 = (q_take (Suc j) q)\<lparr>first_pkt_size := ?f\<rparr>" for j
      using q_take_Suc [OF Cons.prems(1) pkt(2)] .
    have "queue_inv s1 ?q2"
      using qt [of 0] Cons.prems(2) by (simp add: queue_inv_frame [OF go(3)] queue_inv_q_take)
    moreover have "q_list ?q2 = rest" by (simp add: take_head_def)
    moreover have "rlcbs s1 d \<noteq> None" "\<forall>t. txc = Some t \<longrightarrow> rls s1 (TxcRl t) \<noteq> None"
      "sane_queue_limit s1"
      using Cons.prems(5-7) rl_frameD(7) [OF go(3)] frame_live [OF go(3)]
      by (simp_all add: sane_queue_limit_frame [OF go(3)])
    ultimately obtain k f tot' s' where IH:
      "dequeue_loop K c txc d rest ?q2 ?tot s1 =
         Some ((q_take k ?q2)\<lparr>first_pkt_size := f\<rparr>, tot', k < length rest, s')"
      "k \<le> length rest" "sum_list (map skb_size (take k rest)) \<le> uint (q_tokens ?q2)"
      "rl_frame s1 s'" "queues_inv s'" "cpu_local c s1 s'"
      "\<forall>p. (\<forall>t. txc = Some t \<longrightarrow> p \<noteq> TxcRl t) \<longrightarrow> rls s' p = rls s1 p"
      "txc = None \<longrightarrow> wire s' = wire s1 @ filter (driver_takes s1) (take k rest)"
      using Cons.IH [of ?q2 s1 ?tot] Cons.prems(4) go(4) by blast
    have "uint (q_tokens ?q2) = uint (q_tokens q) - skb_size pkt"
      using go(2) pkt(2) by (simp add: take_head_def ucast_skb_size32 uint_sub_bounded
          word_le_def uint_skb_bytes)
    then show ?thesis
      using go IH qt [of k] driver_takes_frame [OF go(3)] rl_frame_trans [OF go(3) IH(4)]
        cpu_local_trans [OF go(5) IH(6)]
      by (intro exI [of _ "Suc k"] exI [of _ f] exI [of _ tot'] exI [of _ s']) auto
  qed
qed

section \<open>Dequeue\<close>

text \<open>
  Every live limiter has control blocks, the class of a limiter with a parent is live and has no
  parent itself, and the limiter of a class has no parent.
\<close>

definition links_inv :: "'z rl_mem_scheme \<Rightarrow> bool" where
  "links_inv s \<longleftrightarrow>
     (\<forall>p t d. shape s p = Some (t, d) \<longrightarrow>
        rlcbs s d \<noteq> None \<and> (\<forall>t'. t = Some t' \<longrightarrow> (\<exists>d'. shape s (TxcRl t') = Some (None, d'))) \<and>
        (\<forall>x. p = TxcRl x \<longrightarrow> t = None))"

lemma links_inv_frame: "rl_frame s s' \<Longrightarrow> links_inv s' = links_inv s"
  by (simp add: links_inv_def rl_frameD)

lemma links_invD:
  assumes "links_inv s" "rls s p = Some rl"
  shows "rlcbs s (rl_rlcb rl) \<noteq> None"
    and "rl_txc rl = Some t \<Longrightarrow> \<exists>prl. rls s (TxcRl t) = Some prl \<and> rl_txc prl = None"
    and "rl_txc rl = Some t \<Longrightarrow> p \<noteq> TxcRl t"
proof -
  have sh: "shape s p = Some (rl_txc rl, rl_rlcb rl)" using assms(2) by (rule shape_SomeI)
  with assms(1) show "rlcbs s (rl_rlcb rl) \<noteq> None" by (auto simp: links_inv_def)
  assume t: "rl_txc rl = Some t"
  from sh t assms(1) obtain d' where "shape s (TxcRl t) = Some (None, d')"
    by (fastforce simp: links_inv_def)
  then show "\<exists>prl. rls s (TxcRl t) = Some prl \<and> rl_txc prl = None" by (auto dest: shape_SomeD)
  with t assms(2) show "p \<noteq> TxcRl t" by auto
qed

lemma borrow_spec:
  assumes "rls s p = Some rl"
  shows "\<exists>blocked b s'. iso_rl_borrow_tokens p c s = Some (blocked, s') \<and> rl_frame s s' \<and>
     rls s' = (rls s)(p \<mapsto> rl\<lparr>total_tokens := total_tokens rl - b, rl_queue := (rl_queue rl)(c :=
        (rl_queue rl c)\<lparr>q_tokens := q_tokens (rl_queue rl c) + b\<rparr>)\<rparr>) \<and>
     rlcbs s' = rlcbs s \<and> wire s' = wire s \<and> (b = 0 \<or> b = total_tokens rl)"
proof -
  have same: "rls s = (rls s)(p \<mapsto> rl)" using assms by (auto simp: fun_eq_iff)
  show ?thesis
  proof (cases "trylocks s (nlocks s)")
    case True
    then show ?thesis using assms
      by (intro exI [of _ False] exI [of _ "total_tokens rl"])
        (auto simp: iso_rl_borrow_tokens_def spin_trylock_def Let_def)
  next
    case False
    then show ?thesis using assms same
      by (intro exI [of _ True] exI [of _ 0])
        (auto simp: iso_rl_borrow_tokens_def spin_trylock_def)
  qed
qed

text \<open>The contents of a limiter after it dequeued \<open>k\<close> packets with \<open>b\<close> tokens borrowed.\<close>

definition rl_sent :: "cpu \<Rightarrow> u64 \<Rightarrow> nat \<Rightarrow> int \<Rightarrow> iso_rl \<Rightarrow> iso_rl" where
  "rl_sent c b k f rl =
     rl\<lparr>total_tokens := total_tokens rl - b,
        rl_queue := (rl_queue rl)(c :=
          (q_take k ((rl_queue rl c)\<lparr>q_tokens := q_tokens (rl_queue rl c) + b\<rparr>))
            \<lparr>first_pkt_size := f\<rparr>)\<rparr>"

lemma rl_sent_simps [simp]:
  "rl_txc (rl_sent c b k f rl) = rl_txc rl" "rl_rlcb (rl_sent c b k f rl) = rl_rlcb rl"
  "rl_rate (rl_sent c b k f rl) = rl_rate rl"
  "c' \<noteq> c \<Longrightarrow> rl_queue (rl_sent c b k f rl) c' = rl_queue rl c'"
  "q_list (rl_queue (rl_sent c b k f rl) c) = drop k (q_list (rl_queue rl c))"
  by (simp_all add: rl_sent_def q_take_def Let_def)

lemma queue_inv_tokens [simp]: "queue_inv s (q\<lparr>q_tokens := x\<rparr>) = queue_inv s q"
  by (simp add: queue_inv_def queue_ok_def queue_len_def)

text \<open>
  What a dequeue of \<open>k\<close> packets does: the limiter pays for them, no other limiter but its
  parent changes, and without a parent the packets go to the driver in order.
\<close>

definition dequeued :: "'z rl_mem_scheme \<Rightarrow> rl_ptr \<Rightarrow> cpu \<Rightarrow> iso_rl \<Rightarrow> u64 \<Rightarrow> nat \<Rightarrow> int \<Rightarrow>
    'z rl_mem_scheme \<Rightarrow> bool" where
  "dequeued s p c rl b k f s' \<longleftrightarrow>
     rl_frame s s' \<and> queues_inv s' \<and> rls s' p = Some (rl_sent c b k f rl) \<and>
     (b = 0 \<or> b = total_tokens rl) \<and> k \<le> length (q_list (rl_queue rl c)) \<and>
     sum_list (map skb_size (take k (q_list (rl_queue rl c)))) \<le>
       uint (q_tokens (rl_queue rl c) + b) \<and>
     (\<forall>p'. p' \<noteq> p \<and> (\<forall>t. rl_txc rl = Some t \<longrightarrow> p' \<noteq> TxcRl t) \<longrightarrow> rls s' p' = rls s p') \<and>
     (rl_txc rl = None \<longrightarrow>
        wire s' = wire s @ filter (driver_takes s) (take k (q_list (rl_queue rl c))))"

lemma own_borrow:
  assumes "rls s p = Some rl" "queues_inv s"
  shows "\<exists>blocked b s'.
     (if q_tokens (rl_queue rl c) < of_int (first_pkt_size (rl_queue rl c))
      then iso_rl_borrow_tokens p c s else Some (False, s)) = Some (blocked, s') \<and>
     dequeued s p c rl b 0 (first_pkt_size (rl_queue rl c)) s' \<and>
     cpu_local c s s' \<and> (\<forall>p'. p' \<noteq> p \<longrightarrow> rls s' p' = rls s p')"
proof -
  let ?q = "rl_queue rl c"
  let ?own = "\<lambda>b. rl_sent c b 0 (first_pkt_size ?q) rl"
  have own: "?own b = rl\<lparr>total_tokens := total_tokens rl - b, rl_queue := (rl_queue rl)(c :=
        ?q\<lparr>q_tokens := q_tokens ?q + b\<rparr>)\<rparr>" for b
    by (simp add: rl_sent_def)
  have "rls s = (rls s)(p \<mapsto> ?own 0)" using assms(1) by (simp add: own fun_eq_iff)
  then obtain blocked b s1 where s1:
    "(if q_tokens ?q < of_int (first_pkt_size ?q) then iso_rl_borrow_tokens p c s
      else Some (False, s)) = Some (blocked, s1)"
    "rl_frame s s1" "rls s1 = (rls s)(p \<mapsto> ?own b)" "rlcbs s1 = rlcbs s" "wire s1 = wire s"
    "b = 0 \<or> b = total_tokens rl"
    using borrow_spec [OF assms(1), of c] unfolding own by (metis rl_frame_refl)
  have "queues_inv s1"
    by (rule queues_inv_put [OF assms(2) s1(2,3)])
      (use queues_invD [OF assms(2,1)] in \<open>simp add: own\<close>)
  moreover have "cpu_local c s s1"
    using assms(1) s1(3,4) by (rule cpu_local_put) simp
  ultimately show ?thesis
    using s1 by (intro exI [of _ blocked] exI [of _ b] exI [of _ s1]) (auto simp: dequeued_def)
qed

lemma own_loop:
  fixes c :: cpu
  assumes "rls s p = Some rl" "queues_inv s" "links_inv s" "gso_documented K" "sane_queue_limit s"
  shows "\<exists>k f tot s'.
     do { (q, tot, timeout, s) \<leftarrow>
            dequeue_loop K c (rl_txc rl) (rl_rlcb rl) (q_list (rl_queue rl c)) (rl_queue rl c) 0 s;
          s \<leftarrow> put_queue p c q s;
          Some (False, tot, timeout, s) } = Some (False, tot, k < length (q_list (rl_queue rl c)), s') \<and>
     dequeued s p c rl 0 k f s' \<and> cpu_local c s s'"
proof -
  let ?pkts = "q_list (rl_queue rl c)"
  have parent: "\<forall>t. rl_txc rl = Some t \<longrightarrow> rls s (TxcRl t) \<noteq> None"
    using links_invD(2) [OF assms(3,1)] by auto
  obtain k f tot s2 where l:
    "dequeue_loop K c (rl_txc rl) (rl_rlcb rl) ?pkts (rl_queue rl c) 0 s =
       Some ((q_take k (rl_queue rl c))\<lparr>first_pkt_size := f\<rparr>, tot, k < length ?pkts, s2)"
    "k \<le> length ?pkts" "sum_list (map skb_size (take k ?pkts)) \<le> uint (q_tokens (rl_queue rl c))"
    "rl_frame s s2" "queues_inv s2" "cpu_local c s s2"
    "\<forall>p. (\<forall>t. rl_txc rl = Some t \<longrightarrow> p \<noteq> TxcRl t) \<longrightarrow> rls s2 p = rls s p"
    "rl_txc rl = None \<longrightarrow> wire s2 = wire s @ filter (driver_takes s) (take k ?pkts)"
    using dequeue_loop_spec [OF refl queues_invD [OF assms(2,1), of c] assms(2,4,5)
        links_invD(1) [OF assms(3,1)] parent, of c 0] by (elim exE conjE) (rule that)
  have p2: "rls s2 p = Some rl" using l(7) links_invD(3) [OF assms(3,1)] assms(1) by auto
  let ?s3 = "s2\<lparr>rls := (rls s2)(p \<mapsto> rl_sent c 0 k f rl)\<rparr>"
  have put: "put_queue p c ((q_take k (rl_queue rl c))\<lparr>first_pkt_size := f\<rparr>) s2 = Some ?s3"
    using p2 by (simp add: put_queue_def rl_sent_def)
  have fr3: "rl_frame s2 ?s3" by (rule rl_frame_put [OF p2]) simp_all
  have "queue_inv s2 (rl_queue (rl_sent c 0 k f rl) c')" for c'
    using queues_invD [OF l(5) p2, of c'] queue_inv_q_take [of s2 "rl_queue rl c" f k]
    by (cases "c' = c") (auto simp: rl_sent_def)
  then have "queues_inv ?s3" using queues_inv_put [OF l(5) fr3] by simp
  moreover have "rl_frame s ?s3" using l(4) fr3 by (rule rl_frame_trans)
  moreover have "cpu_local c s2 ?s3"
    by (rule cpu_local_put [OF p2, where rl' = "rl_sent c 0 k f rl"]) simp_all
  with l(6) have "cpu_local c s ?s3" by (rule cpu_local_trans)
  ultimately show ?thesis
    using l put
    by (intro exI [of _ k] exI [of _ f] exI [of _ tot] exI [of _ ?s3])
      (auto simp: dequeued_def)
qed

lemma rl_sent_twice:
  "rl_sent c 0 k f (rl_sent c b 0 f0 rl) = rl_sent c b k f rl"
  by (simp add: rl_sent_def q_take_def Let_def)

lemma dequeued_twice:
  assumes "dequeued s p c rl b 0 f0 s1" "dequeued s1 p c (rl_sent c b 0 f0 rl) 0 k f s2"
  shows "dequeued s p c rl b k f s2"
proof -
  have fr: "rl_frame s s1" "rl_frame s1 s2" using assms by (simp_all add: dequeued_def)
  have "rl_frame s s2" using fr by (rule rl_frame_trans)
  moreover have "q_tokens (rl_queue (rl_sent c b 0 f0 rl) c) = q_tokens (rl_queue rl c) + b"
    by (simp add: rl_sent_def)
  ultimately show ?thesis
    using assms driver_takes_frame [OF fr(1)] by (auto simp: dequeued_def rl_sent_twice)
qed

lemma dequeue_own_spec:
  fixes c :: cpu
  assumes "rls s p = Some rl" "queues_inv s" "links_inv s" "gso_documented K" "sane_queue_limit s"
  shows "\<exists>blocked b k f tot timeout s'.
     dequeue_own K p c s = Some (blocked, tot, timeout, s') \<and>
     dequeued s p c rl b k f s' \<and> cpu_local c s s' \<and>
     (blocked \<longrightarrow> timeout \<and> (\<forall>p'. p' \<noteq> p \<longrightarrow> rls s' p' = rls s p')) \<and>
     (\<not> timeout \<longrightarrow> k = length (q_list (rl_queue rl c)))"
proof -
  let ?pkts = "q_list (rl_queue rl c)" and ?f0 = "first_pkt_size (rl_queue rl c)"
  obtain blocked b s1 where s1:
    "(if q_tokens (rl_queue rl c) < of_int ?f0
      then iso_rl_borrow_tokens p c s else Some (False, s)) = Some (blocked, s1)"
    "dequeued s p c rl b 0 ?f0 s1"
    "cpu_local c s s1" "\<forall>p'. p' \<noteq> p \<longrightarrow> rls s1 p' = rls s p'"
    using own_borrow [OF assms(1,2), of c] by blast
  let ?rl = "rl_sent c b 0 ?f0 rl"
  have d: "rl_frame s s1" "queues_inv s1" "rls s1 p = Some ?rl"
    using s1(2) by (simp_all add: dequeued_def)
  have pk: "q_list (rl_queue ?rl c) = ?pkts" by simp
  show ?thesis
  proof (cases "blocked \<or> ?pkts = []")
    case True
    have "dequeue_own K p c s = Some (blocked, 0, blocked, s1)"
      using True assms(1) s1(1) d(3) by (auto simp: dequeue_own_def Let_def)
    then show ?thesis using True s1
      by (intro exI [of _ blocked] exI [of _ b] exI [of _ 0] exI [of _ ?f0]
          exI [of _ 0] exI [of _ blocked] exI [of _ s1]) auto
  next
    case False
    obtain k f tot s2 where l:
      "do { (q, tot, timeout, s) \<leftarrow>
              dequeue_loop K c (rl_txc ?rl) (rl_rlcb ?rl) (q_list (rl_queue ?rl c)) (rl_queue ?rl c) 0 s1;
            s \<leftarrow> put_queue p c q s;
            Some (False, tot, timeout, s) } = Some (False, tot, k < length ?pkts, s2)"
      "dequeued s1 p c ?rl 0 k f s2" "cpu_local c s1 s2"
      using own_loop [OF d(3,2) _ assms(4), of c] assms(3,5) unfolding pk
      by (auto simp: links_inv_frame [OF d(1)] sane_queue_limit_frame [OF d(1)])
    have "dequeue_own K p c s = Some (False, tot, k < length ?pkts, s2)"
      using False assms(1) s1(1) d(3) l(1) by (auto simp: dequeue_own_def Let_def)
    moreover have "dequeued s p c rl b k f s2" using s1(2) l(2) by (rule dequeued_twice)
    moreover have "cpu_local c s s2" using s1(3) l(3) by (rule cpu_local_trans)
    ultimately show ?thesis
      by (intro exI [of _ False] exI [of _ b] exI [of _ k] exI [of _ f]
          exI [of _ tot] exI [of _ "k < length ?pkts"] exI [of _ s2]) (auto simp: dequeued_def)
  qed
qed

end
