(* ===== verification/Pacing.thy ===== *)
theory Pacing
  imports TokenBucket
begin

text \<open>
  Scheduling of the rate limiters of \<open>src/rl.c\<close>: the list of active queues, the pinned timer and
  the tasklet of each CPU. The invariant \<open>sched_inv\<close> says that no queue with packets is forgotten.
  It is kept by the three things that touch a rate limiter while traffic flows: a packet that is
  enqueued and followed by a dequeue, an expired timer, and a run of the tasklet.
\<close>

section \<open>What is scheduled\<close>

definition active_at :: "'z rl_mem_scheme \<Rightarrow> rl_ptr \<Rightarrow> cpu \<Rightarrow> bool" where
  "active_at s p c \<longleftrightarrow> (\<exists>t d a tm tk. shape s p = Some (t, d) \<and>
     cb_sched s d c = Some (a, tm, tk) \<and> (p, c) \<in> set a)"

definition backlogged :: "'z rl_mem_scheme \<Rightarrow> rl_ptr \<Rightarrow> cpu \<Rightarrow> bool" where
  "backlogged s p c \<longleftrightarrow> (\<exists>q. queue_at s p c = Some q \<and> q_list q \<noteq> [])"

text \<open>Every queue with packets, except those of \<open>X\<close>, is on the active list of its CPU.\<close>

definition backlog_inv :: "q_ptr set \<Rightarrow> 'z rl_mem_scheme \<Rightarrow> bool" where
  "backlog_inv X s \<longleftrightarrow> (\<forall>p c. backlogged s p c \<longrightarrow> (p, c) \<in> X \<or> active_at s p c)"

text \<open>A non-empty active list, except those of \<open>Y\<close>, has its timer armed or its tasklet scheduled.\<close>

definition timer_inv :: "(dev \<times> cpu) set \<Rightarrow> 'z rl_mem_scheme \<Rightarrow> bool" where
  "timer_inv Y s \<longleftrightarrow> (\<forall>d c a tm tk. cb_sched s d c = Some (a, tm, tk) \<longrightarrow>
     (d, c) \<in> Y \<or> a = [] \<or> tm \<or> tk)"

text \<open>The queues on the active list of a CPU are that CPU's queues of live limiters of the device.\<close>

definition active_inv :: "'z rl_mem_scheme \<Rightarrow> bool" where
  "active_inv s \<longleftrightarrow> (\<forall>d c a tm tk p c'. cb_sched s d c = Some (a, tm, tk) \<longrightarrow>
     (p, c') \<in> set a \<longrightarrow> c' = c \<and> (\<exists>t. shape s p = Some (t, d)))"

text \<open>A step that takes nothing off an active list and leaves no list without a timer.\<close>

definition resched :: "'z rl_mem_scheme \<Rightarrow> 'z rl_mem_scheme \<Rightarrow> bool" where
  "resched s s' \<longleftrightarrow>
     (\<forall>p c. active_at s p c \<longrightarrow> active_at s' p c) \<and>
     (\<forall>Y. timer_inv Y s \<longrightarrow> timer_inv Y s') \<and> (active_inv s \<longrightarrow> active_inv s')"

lemma resched_trans [trans]: "resched s t \<Longrightarrow> resched t u \<Longrightarrow> resched s u"
  by (simp add: resched_def)

lemma active_at_cong:
  "rl_frame s s' \<Longrightarrow> cb_sched s' = cb_sched s \<Longrightarrow> active_at s' = active_at s"
  by (intro ext) (simp add: active_at_def rl_frameD)

lemma resched_quiet: "rl_frame s s' \<Longrightarrow> cb_sched s' = cb_sched s \<Longrightarrow> resched s s'"
  by (simp add: resched_def active_at_cong timer_inv_def active_inv_def rl_frameD)

lemma shape_cbs [simp]: "shape (s\<lparr>rlcbs := x\<rparr>) = shape s"
  by (rule ext) (simp add: shape_def)

lemma queue_at_cbs [simp]: "queue_at (s\<lparr>rlcbs := x\<rparr>) = queue_at s"
  by (intro ext) (simp add: queue_at_def)

lemma cb_sched_Some: "rlcbs s d = Some cbs \<Longrightarrow>
    cb_sched s d c = Some (cb_active (cbs c), cb_timer (cbs c), cb_tasklet (cbs c))"
  by (simp add: cb_sched_def)

lemma timer_armed [simp]: "cb_timer cb \<Longrightarrow> cb\<lparr>cb_timer := True\<rparr> = cb"
  by (cases cb) simp

text \<open>Writing one control block.\<close>

abbreviation put_cb :: "dev \<Rightarrow> cpu \<Rightarrow> (cpu \<Rightarrow> iso_rl_cb) \<Rightarrow> iso_rl_cb \<Rightarrow> 'z rl_mem_scheme \<Rightarrow> 'z rl_mem_scheme"
  where "put_cb d c cbs cb s \<equiv> s\<lparr>rlcbs := (rlcbs s)(d \<mapsto> cbs(c := cb))\<rparr>"

lemma cb_sched_put:
  "rlcbs s d = Some cbs \<Longrightarrow> cb_sched (put_cb d c cbs cb s) d' c' =
     (if d' = d \<and> c' = c then Some (cb_active cb, cb_timer cb, cb_tasklet cb) else cb_sched s d' c')"
  by (simp add: cb_sched_def)

lemma active_at_iff:
  "shape s p = Some (t, d) \<Longrightarrow> rlcbs s d = Some cbs \<Longrightarrow>
     active_at s p c \<longleftrightarrow> (p, c) \<in> set (cb_active (cbs c))"
  by (simp add: active_at_def cb_sched_Some)

lemma active_at_put:
  assumes "rlcbs s d = Some cbs"
  shows "active_at (put_cb d c cbs cb s) p c' \<longleftrightarrow>
    (if c' = c \<and> (\<exists>t. shape s p = Some (t, d)) then (p, c) \<in> set (cb_active cb) else active_at s p c')"
proof (cases "shape s p")
  case (Some x)
  obtain t d' where "x = (t, d')" by (cases x)
  then show ?thesis
    using Some by (cases "c' = c \<and> d' = d") (auto simp: active_at_def cb_sched_put [OF assms])
qed (simp add: active_at_def del: shape_None)

lemma timer_inv_put:
  assumes "rlcbs s d = Some cbs" "timer_inv (insert (d, c) Y) s"
    "(d, c) \<in> Y \<or> cb_active cb = [] \<or> cb_timer cb \<or> cb_tasklet cb"
  shows "timer_inv Y (put_cb d c cbs cb s)"
  unfolding timer_inv_def
proof (intro allI impI)
  fix d' c' a tm tk
  assume h: "cb_sched (put_cb d c cbs cb s) d' c' = Some (a, tm, tk)"
  show "(d', c') \<in> Y \<or> a = [] \<or> tm \<or> tk"
  proof (cases "d' = d \<and> c' = c")
    case False
    with h have "cb_sched s d' c' = Some (a, tm, tk)" by (simp add: cb_sched_put [OF assms(1)])
    with assms(2) False show ?thesis unfolding timer_inv_def by blast
  qed (use h assms(3) in \<open>auto simp: cb_sched_put [OF assms(1)]\<close>)
qed

lemma active_inv_put:
  assumes "rlcbs s d = Some cbs" "active_inv s"
    "\<And>p c'. (p, c') \<in> set (cb_active cb) \<Longrightarrow> c' = c \<and> (\<exists>t. shape s p = Some (t, d))"
  shows "active_inv (put_cb d c cbs cb s)"
  using assms(2,3) by (auto simp: active_inv_def cb_sched_put [OF assms(1)] split: if_splits)

lemma timer_inv_mono: "timer_inv Y s \<Longrightarrow> Y \<subseteq> Y' \<Longrightarrow> timer_inv Y' s"
  unfolding timer_inv_def by blast

lemma active_invD:
  "active_inv s \<Longrightarrow> rlcbs s d = Some cbs \<Longrightarrow> (p, c') \<in> set (cb_active (cbs c)) \<Longrightarrow>
     c' = c \<and> (\<exists>t. shape s p = Some (t, d))"
  unfolding active_inv_def by (drule cb_sched_Some [where c = c]) blast

text \<open>The code after the label \<open>timeout\<close> puts the queue on the active list and arms the timer.\<close>

lemma activate_spec:
  assumes "rls s p = Some rl" "rlcbs s (rl_rlcb rl) \<noteq> None"
  shows "\<exists>s'. rl_activate p c (rl_rlcb rl) s = Some s' \<and> rl_frame s s' \<and> rls s' = rls s \<and>
    wire s' = wire s \<and> resched s s' \<and> active_at s' p c"
proof -
  let ?d = "rl_rlcb rl"
  obtain cbs where cbs: "rlcbs s ?d = Some cbs" using assms(2) by auto
  define act where "act = (if (p, c) \<in> set (cb_active (cbs c)) then cb_active (cbs c)
      else cb_active (cbs c) @ [(p, c)])"
  have act: "set act = insert (p, c) (set (cb_active (cbs c)))" by (auto simp: act_def)
  let ?cb = "(cbs c)\<lparr>cb_active := act, cb_timer := True\<rparr>"
  let ?s = "put_cb ?d c cbs ?cb s"
  have sh: "shape s p = Some (rl_txc rl, ?d)" using assms(1) by (rule shape_SomeI)
  have "rl_activate p c ?d s = Some ?s" by (simp add: rl_activate_def cbs Let_def act_def)
  moreover have "active_at ?s p c" by (simp add: active_at_put [OF cbs] sh act)
  moreover have "active_at ?s p' c'" if "active_at s p' c'" for p' c'
    using that active_at_iff [OF _ cbs] by (auto simp: active_at_put [OF cbs] act)
  moreover have "timer_inv Y ?s" if "timer_inv Y s" for Y
    by (rule timer_inv_put [OF cbs timer_inv_mono [OF that]]) auto
  moreover have "active_inv ?s" if "active_inv s"
    using cbs that by (rule active_inv_put) (use active_invD [OF that cbs] sh act in auto)
  ultimately show ?thesis using cbs
    by (intro exI [of _ ?s]) (auto simp: resched_def)
qed

lemma backlog_inv_drop:
  "backlog_inv (insert (p, c) X) s \<Longrightarrow> \<not> backlogged s p c \<or> active_at s p c \<Longrightarrow> backlog_inv X s"
  by (auto simp: backlog_inv_def)

lemma backlog_inv_step:
  assumes "backlog_inv X s" "\<And>p c. active_at s p c \<Longrightarrow> active_at s' p c"
    "\<And>p c. (p, c) \<notin> X' \<Longrightarrow> backlogged s' p c \<Longrightarrow> backlogged s p c" "X \<subseteq> X'"
  shows "backlog_inv X' s'"
  using assms unfolding backlog_inv_def by blast

lemma backlogged_same: "rls s' = rls s \<Longrightarrow> backlogged s' = backlogged s"
  by (intro ext) (simp add: backlogged_def queue_at_def)

section \<open>Dequeue\<close>

text \<open>The end of \<open>iso_rl_dequeue\<close>: a queue that keeps packets is put on the active list.\<close>

lemma dequeue_finish:
  assumes "rls s p = Some rl" "rlcbs s (rl_rlcb rl) \<noteq> None" "\<not> timeout \<longrightarrow> \<not> backlogged s p c"
  shows "\<exists>s'. (if timeout \<and> \<not> iso_exiting s then rl_activate p c (rl_rlcb rl) s else Some s) = Some s' \<and>
    rl_frame s s' \<and> rls s' = rls s \<and> wire s' = wire s \<and> resched s s' \<and>
    (\<not> iso_exiting s \<longrightarrow> (\<forall>X. backlog_inv (insert (p, c) X) s \<longrightarrow> backlog_inv X s'))"
proof (cases "timeout \<and> \<not> iso_exiting s")
  case True
  obtain s' where s': "rl_activate p c (rl_rlcb rl) s = Some s'" "rl_frame s s'" "rls s' = rls s"
    "wire s' = wire s" "resched s s'" "active_at s' p c"
    using activate_spec [OF assms(1,2), of c] by blast
  have "backlog_inv X s'" if "backlog_inv (insert (p, c) X) s" for X
  proof (rule backlog_inv_drop)
    show "backlog_inv (insert (p, c) X) s'"
      using that by (rule backlog_inv_step)
        (use s'(5) backlogged_same [OF s'(3)] in \<open>auto simp: resched_def\<close>)
  qed (use s'(6) in simp)
  then show ?thesis using True s' by auto
next
  case False
  then show ?thesis
    using assms(3) backlog_inv_drop by (intro exI [of _ s]) (auto simp: resched_quiet)
qed

lemma dequeued_frame:
  assumes "dequeued s p c rl b k f s1" "rl_frame s1 s2" "rls s2 = rls s1" "wire s2 = wire s1"
  shows "dequeued s p c rl b k f s2"
  using assms rl_frame_trans [of s s1 s2] queues_inv_same [OF assms(2,3)]
  by (simp add: dequeued_def)


definition heap_inv :: "'z rl_mem_scheme \<Rightarrow> bool" where
  "heap_inv s \<longleftrightarrow> queues_inv s \<and> links_inv s \<and> sane_queue_limit s"

lemma heap_inv_frame: "heap_inv s \<Longrightarrow> rl_frame s s' \<Longrightarrow> queues_inv s' \<Longrightarrow> heap_inv s'"
  by (simp add: heap_inv_def links_inv_frame sane_queue_limit_frame)

lemma local_backlog:
  assumes "cpu_local c s s'" "c' = c \<Longrightarrow> rls s' p' = rls s p'"
  shows "backlogged s' p' c' = backlogged s p' c'"
  using assms by (cases "c' = c") (auto simp: backlogged_def queue_at_def cpu_local_def)

lemma dequeued_backlog:
  assumes "dequeued s p c rl b k f s'" "rls s p = Some rl" "cpu_local c s s'"
    "backlogged s' p' c'" "(p', c') \<noteq> (p, c)" "\<forall>t. rl_txc rl = Some t \<longrightarrow> (p', c') \<noteq> (TxcRl t, c)"
  shows "backlogged s p' c'"
  using assms(1,5,6) local_backlog [OF assms(3), of c' p'] assms(4) by (auto simp: dequeued_def)

lemma dequeued_empty:
  "dequeued s p c rl b k f s' \<Longrightarrow> backlogged s' p c \<Longrightarrow> k < length (q_list (rl_queue rl c))"
  by (auto simp: dequeued_def backlogged_def queue_at_def)

lemma cpu_local_active: "rl_frame s s' \<Longrightarrow> cpu_local c s s' \<Longrightarrow> active_at s' = active_at s"
  by (simp add: active_at_cong cpu_local_def)

lemma dequeue_root_spec:
  assumes "rls s p = Some rl" "rl_txc rl = None" "heap_inv s" "gso_documented K"
  shows "\<exists>b k f tot s'. iso_rl_dequeue (Suc n) K p c s = Some (tot, s') \<and>
    dequeued s p c rl b k f s' \<and> resched s s' \<and>
    (\<not> iso_exiting s \<longrightarrow> (\<forall>X. backlog_inv (insert (p, c) X) s \<longrightarrow> backlog_inv X s'))"
proof -
  obtain blocked b k f tot timeout s1 where o:
    "dequeue_own K p c s = Some (blocked, tot, timeout, s1)"
    "dequeued s p c rl b k f s1" "cpu_local c s s1"
    "\<not> timeout \<longrightarrow> k = length (q_list (rl_queue rl c))"
    using dequeue_own_spec [OF assms(1) _ _ assms(4), of c] assms(3) unfolding heap_inv_def
    by blast
  let ?rl = "rl_sent c b k f rl"
  have s1: "rls s1 p = Some ?rl" "rl_frame s s1" using o(2) by (simp_all add: dequeued_def)
  have "links_inv s1" using assms(3) by (simp add: heap_inv_def links_inv_frame [OF s1(2)])
  then have cbs: "rlcbs s1 (rl_rlcb ?rl) \<noteq> None" by (rule links_invD(1) [OF _ s1(1)])
  have "\<not> timeout \<longrightarrow> \<not> backlogged s1 p c" using o(4) dequeued_empty [OF o(2)] by auto
  from dequeue_finish [OF s1(1) cbs this] obtain s2 where f:
    "(if timeout \<and> \<not> iso_exiting s1 then rl_activate p c (rl_rlcb rl) s1 else Some s1) = Some s2"
    "rl_frame s1 s2" "rls s2 = rls s1" "wire s2 = wire s1" "resched s1 s2"
    "\<not> iso_exiting s1 \<longrightarrow> (\<forall>X. backlog_inv (insert (p, c) X) s1 \<longrightarrow> backlog_inv X s2)"
    unfolding rl_sent_simps by blast
  have ex: "iso_exiting s1 = iso_exiting s" by (simp add: rl_frameD [OF s1(2)])
  have "resched s s1"
    using s1(2) o(3) by (intro resched_quiet) (simp_all add: cpu_local_def)
  then have "resched s s2" using f(5) by (rule resched_trans)
  moreover have "iso_rl_dequeue (Suc n) K p c s = Some (ucast tot, s2)"
    using assms(1,2) o(1) f(1) by simp
  moreover have "dequeued s p c rl b k f s2" using o(2) f(2-4) by (rule dequeued_frame)
  moreover have "backlog_inv (insert (p, c) X) s1" if "backlog_inv (insert (p, c) X) s" for X
    using that by (rule backlog_inv_step) (use dequeued_backlog [OF o(2) assms(1) o(3)] assms(2)
        cpu_local_active [OF s1(2) o(3)] in auto)
  ultimately show ?thesis using f(6) unfolding ex by blast
qed


text \<open>A limiter below a transmit class: it feeds the parent's queue, then the parent dequeues.\<close>

lemma dequeue_child_spec:
  assumes "rls s p = Some rl" "rl_txc rl = Some t" "heap_inv s" "gso_documented K"
  shows "\<exists>b k f blocked tot timeout s1 s2.
    dequeue_own K p c s = Some (blocked, tot, timeout, s1) \<and>
    (if blocked then Some s1
     else do { (_, s) \<leftarrow> iso_rl_dequeue (Suc n) K (TxcRl t) c s1; Some s }) = Some s2 \<and>
    dequeued s p c rl b k f s2 \<and> resched s s2 \<and> (\<not> timeout \<longrightarrow> \<not> backlogged s2 p c) \<and>
    (\<not> iso_exiting s \<longrightarrow>
      (\<forall>X. backlog_inv (insert (p, c) X) s \<longrightarrow> backlog_inv (insert (p, c) X) s2))"
proof -
  obtain blocked b k f tot timeout s1 where o:
    "dequeue_own K p c s = Some (blocked, tot, timeout, s1)"
    "dequeued s p c rl b k f s1" "cpu_local c s s1"
    "blocked \<longrightarrow> timeout \<and> (\<forall>p'. p' \<noteq> p \<longrightarrow> rls s1 p' = rls s p')"
    "\<not> timeout \<longrightarrow> k = length (q_list (rl_queue rl c))"
    using dequeue_own_spec [OF assms(1) _ _ assms(4), of c] assms(3) unfolding heap_inv_def
    by blast
  have s1: "rls s1 p = Some (rl_sent c b k f rl)" "rl_frame s s1" "queues_inv s1"
    using o(2) by (simp_all add: dequeued_def)
  have q: "resched s s1" using s1(2) o(3) by (intro resched_quiet) (simp_all add: cpu_local_def)
  have e: "\<not> timeout \<longrightarrow> \<not> backlogged s1 p c" using o(5) dequeued_empty [OF o(2)] by auto
  have act: "active_at s1 = active_at s" using s1(2) o(3) by (rule cpu_local_active)
  show ?thesis
  proof (cases blocked)
    case True
    have "backlog_inv (insert (p, c) X) s1" if "backlog_inv (insert (p, c) X) s" for X
      using that by (rule backlog_inv_step)
        (use True o(4) local_backlog [OF o(3)] in \<open>auto simp: act\<close>)
    then show ?thesis using True o e q
      by (intro exI [of _ b] exI [of _ k] exI [of _ f] exI [of _ True] exI [of _ tot]
          exI [of _ timeout] exI [of _ s1]) simp
  next
    case False
    have inv: "heap_inv s1" using assms(3) s1(2,3) by (rule heap_inv_frame)
    then have links: "links_inv s1" by (simp add: heap_inv_def)
    obtain prl where prl: "rls s1 (TxcRl t) = Some prl" "rl_txc prl = None" "p \<noteq> TxcRl t"
      using links_invD(2,3) [OF links s1(1)] assms(2) by auto
    obtain b' k' f' tot' s2 where d:
      "iso_rl_dequeue (Suc n) K (TxcRl t) c s1 = Some (tot', s2)"
      "dequeued s1 (TxcRl t) c prl b' k' f' s2" "resched s1 s2"
      "\<not> iso_exiting s1 \<longrightarrow> (\<forall>X. backlog_inv (insert (TxcRl t, c) X) s1 \<longrightarrow> backlog_inv X s2)"
      using dequeue_root_spec [OF prl(1,2) inv assms(4)] by blast
    have "rls s2 p' = rls s1 p'" if "p' \<noteq> TxcRl t" for p'
      using d(2) that prl(2) by (simp add: dequeued_def)
    moreover have "rl_frame s s2" using s1(2) d(2) by (auto simp: dequeued_def intro: rl_frame_trans)
    ultimately have "dequeued s p c rl b k f s2" and "\<not> timeout \<longrightarrow> \<not> backlogged s2 p c"
      using o(2) d(2) prl(3) e assms(2) by (simp_all add: dequeued_def backlogged_def queue_at_def)
    moreover have "backlog_inv (insert (TxcRl t, c) (insert (p, c) X)) s1"
      if "backlog_inv (insert (p, c) X) s" for X
      using that by (rule backlog_inv_step)
        (use dequeued_backlog [OF o(2) assms(1) o(3)] assms(2) in \<open>auto simp: act\<close>)
    ultimately show ?thesis
      using o(1) False d(1,4) resched_trans [OF q d(3)] rl_frameD [OF s1(2)]
      by (intro exI [of _ b] exI [of _ k] exI [of _ f] exI [of _ False] exI [of _ tot]
          exI [of _ timeout] exI [of _ s1] exI [of _ s2]) simp
  qed
qed

lemma dequeue_spec:
  assumes "rls s p = Some rl" "heap_inv s" "gso_documented K"
  shows "\<exists>b k f tot s'. iso_rl_dequeue (Suc (Suc n)) K p c s = Some (tot, s') \<and>
    dequeued s p c rl b k f s' \<and> resched s s' \<and>
    (\<not> iso_exiting s \<longrightarrow> (\<forall>X. backlog_inv (insert (p, c) X) s \<longrightarrow> backlog_inv X s'))"
proof (cases "rl_txc rl")
  case None
  then show ?thesis using dequeue_root_spec [OF assms(1) _ assms(2,3)] by blast
next
  case (Some t)
  obtain b k f blocked tot timeout s1 s2 where d:
    "dequeue_own K p c s = Some (blocked, tot, timeout, s1)"
    "(if blocked then Some s1
      else do { (_, s) \<leftarrow> iso_rl_dequeue (Suc n) K (TxcRl t) c s1; Some s }) = Some s2"
    "dequeued s p c rl b k f s2" "resched s s2" "\<not> timeout \<longrightarrow> \<not> backlogged s2 p c"
    "\<not> iso_exiting s \<longrightarrow>
      (\<forall>X. backlog_inv (insert (p, c) X) s \<longrightarrow> backlog_inv (insert (p, c) X) s2)"
    using dequeue_child_spec [OF assms(1) Some assms(2,3)] by blast
  have s2: "rls s2 p = Some (rl_sent c b k f rl)" "rl_frame s s2"
    using d(3) by (simp_all add: dequeued_def)
  have "links_inv s2" using assms(2) by (simp add: heap_inv_def links_inv_frame [OF s2(2)])
  from dequeue_finish [OF s2(1) links_invD(1) [OF this s2(1)] d(5)] obtain s3 where f:
    "(if timeout \<and> \<not> iso_exiting s2 then rl_activate p c (rl_rlcb rl) s2 else Some s2) = Some s3"
    "rl_frame s2 s3" "rls s3 = rls s2" "wire s3 = wire s2" "resched s2 s3"
    "\<not> iso_exiting s2 \<longrightarrow> (\<forall>X. backlog_inv (insert (p, c) X) s2 \<longrightarrow> backlog_inv X s3)"
    unfolding rl_sent_simps by blast
  have "iso_rl_dequeue (Suc (Suc n)) K p c s = Some (ucast tot, s3)"
    using assms(1) Some d(1,2) f(1)
    by (simp only: iso_rl_dequeue.simps) (simp only: Let_def option.simps bind.simps prod.simps)
  moreover have "dequeued s p c rl b k f s3" using d(3) f(2-4) by (rule dequeued_frame)
  moreover have "resched s s3" using d(4) f(5) by (rule resched_trans)
  ultimately show ?thesis using d(6) f(6) rl_frameD [OF s2(2)] by auto
qed


section \<open>Timer and tasklet\<close>

text \<open>
  No queue is forgotten: every queue with packets is on an active list, and every
  non-empty active list, except those of \<open>Y\<close>, will be served.
\<close>

definition sched_inv :: "(dev \<times> cpu) set \<Rightarrow> 'z rl_mem_scheme \<Rightarrow> bool" where
  "sched_inv Y s \<longleftrightarrow> heap_inv s \<and> active_inv s \<and> backlog_inv {} s \<and> timer_inv Y s"

lemma clock_step:
  assumes "rls s p = Some rl" "iso_rl_clock rl s = (rl', s1)" "queues_inv s"
  defines "s2 \<equiv> s1\<lparr>rls := (rls s1)(p \<mapsto> rl')\<rparr>"
  shows "rl_frame s s2" "queues_inv s2" "cb_sched s2 = cb_sched s" "queue_at s2 = queue_at s"
    "rls s2 = (rls s)(p \<mapsto> rl')" "wire s2 = wire s"
proof -
  obtain n where n: "s1 = s\<lparr>ticks := n\<rparr>" using iso_rl_clock_snd [of rl s] assms(2) by auto
  have c: "rl_queue rl' = rl_queue rl" "rl_txc rl' = rl_txc rl" "rl_rlcb rl' = rl_rlcb rl"
    using iso_rl_clock_fst [of rl s] by (simp_all add: assms(2))
  show r: "rls s2 = (rls s)(p \<mapsto> rl')" and "wire s2 = wire s" by (simp_all add: s2_def n)
  have "rl_frame s s1" by (simp add: n)
  moreover have "rl_frame s1 s2"
    unfolding s2_def by (rule rl_frame_put) (use assms(1) n c in simp_all)
  ultimately show fr: "rl_frame s s2" by (rule rl_frame_trans)
  show "queues_inv s2"
    by (rule queues_inv_put [OF assms(3) fr r]) (use queues_invD [OF assms(3,1)] c in simp)
  show "cb_sched s2 = cb_sched s" by (rule cb_sched_same) (simp add: s2_def n)
  show "queue_at s2 = queue_at s"
    by (intro ext) (use assms(1) c r in \<open>simp add: queue_at_def\<close>)
qed

lemma backlogged_cong: "queue_at s' = queue_at s \<Longrightarrow> backlogged s' = backlogged s"
  by (intro ext) (simp add: backlogged_def)

text \<open>Taking the head off an active list leaves at most that queue unscheduled.\<close>

lemma pop_active:
  assumes "sched_inv {(d, c)} s" "rlcbs s d = Some cbs" "cb_active (cbs c) = (p, c') # qs"
  defines "s' \<equiv> put_cb d c cbs ((cbs c)\<lparr>cb_active := qs\<rparr>) s"
  shows "c' = c" "rls s p \<noteq> None" "rl_frame s s'" "heap_inv s'" "active_inv s'"
    "backlog_inv {(p, c)} s'" "timer_inv {(d, c)} s'"
proof -
  have inv: "heap_inv s" "active_inv s" "backlog_inv {} s" "timer_inv {(d, c)} s"
    using assms(1) by (simp_all add: sched_inv_def)
  have act: "c'' = c \<and> (\<exists>t. shape s p' = Some (t, d))" if "(p', c'') \<in> set (cb_active (cbs c))" for p' c''
    using inv(2) assms(2) that by (rule active_invD)
  show c: "c' = c" and "rls s p \<noteq> None" using act [of p c'] assms(3) by (auto dest: shape_SomeD)
  show fr: "rl_frame s s'" by (simp add: s'_def assms(2))
  show "heap_inv s'"
    using inv(1) fr by (rule heap_inv_frame)
      (use inv(1) queues_inv_same [OF fr] in \<open>simp add: heap_inv_def s'_def\<close>)
  show "active_inv s'"
    unfolding s'_def using assms(2) inv(2) by (rule active_inv_put) (rule act, simp add: assms(3))
  show "timer_inv {(d, c)} s'"
    unfolding s'_def using assms(2) by (rule timer_inv_put) (use inv(4) in simp_all)
  have "active_at s' p' c''" if "active_at s p' c''" "(p', c'') \<noteq> (p, c)" for p' c''
    using that active_at_iff [OF _ assms(2), of p' _ c''] assms(3)
    by (auto simp: s'_def active_at_put [OF assms(2)] c)
  moreover have "backlogged s' = backlogged s" by (rule backlogged_cong) (simp add: s'_def)
  ultimately show "backlog_inv {(p, c)} s'"
    using inv(3) unfolding backlog_inv_def by (metis empty_iff insert_iff)
qed

lemma tasklet_round:
  assumes "sched_inv {(d, c)} s" "\<not> iso_exiting s" "gso_documented K"
    "rlcbs s d = Some cbs" "cb_active (cbs c) = (p, c') # qs"
  defines "s0 \<equiv> put_cb d c cbs ((cbs c)\<lparr>cb_active := qs\<rparr>) s"
  shows "\<exists>rl rl' s1 n s'. rls s0 p = Some rl \<and> iso_rl_clock rl s0 = (rl', s1) \<and>
    iso_rl_dequeue 2 K p c' (s1\<lparr>rls := (rls s1)(p \<mapsto> rl')\<rparr>) = Some (n, s') \<and>
    rl_frame s s' \<and> sched_inv {(d, c)} s'"
proof -
  note pop = pop_active [OF assms(1,4,5), folded s0_def]
  obtain rl where rl: "rls s0 p = Some rl" using pop(2) by (auto simp: s0_def)
  obtain rl' s1 where cl: "iso_rl_clock rl s0 = (rl', s1)" by (cases "iso_rl_clock rl s0")
  let ?s2 = "s1\<lparr>rls := (rls s1)(p \<mapsto> rl')\<rparr>"
  have "queues_inv s0" using pop(4) by (simp add: heap_inv_def)
  note s2 = clock_step [OF rl cl this]
  have p2: "rls ?s2 p = Some rl'" by simp
  have h2: "heap_inv ?s2" using pop(4) s2(1,2) by (rule heap_inv_frame)
  obtain b k f n s' where d: "iso_rl_dequeue 2 K p c ?s2 = Some (n, s')"
    "dequeued ?s2 p c rl' b k f s'" "resched ?s2 s'"
    "\<not> iso_exiting ?s2 \<longrightarrow> (\<forall>X. backlog_inv (insert (p, c) X) ?s2 \<longrightarrow> backlog_inv X s')"
    using dequeue_spec [OF p2 h2 assms(3), of 0 c] unfolding numeral_2_eq_2 [symmetric] by blast
  have fr: "rl_frame ?s2 s'" "queues_inv s'" using d(2) by (simp_all add: dequeued_def)
  have q: "resched s0 ?s2" using s2(1,3) by (rule resched_quiet)
  have "\<not> iso_exiting ?s2" using assms(2) by (simp add: rl_frameD [OF s2(1)] rl_frameD [OF pop(3)])
  moreover have "backlog_inv {(p, c)} ?s2"
    using pop(6) by (rule backlog_inv_step)
      (use q backlogged_cong [OF s2(4)] in \<open>auto simp: resched_def\<close>)
  ultimately have "backlog_inv {} s'" using d(4) by blast
  moreover have "active_inv s'" "timer_inv {(d, c)} s'"
    using resched_trans [OF q d(3)] pop(5,7) by (simp_all add: resched_def)
  moreover have "heap_inv s'" using h2 fr by (rule heap_inv_frame)
  ultimately have "sched_inv {(d, c)} s'" by (simp add: sched_inv_def)
  moreover have "rl_frame s s'" using pop(3) s2(1) fr(1) by (metis rl_frame_trans)
  ultimately show ?thesis using rl cl d(1) pop(1) by blast
qed


lemma tasklet_loop_stop:
  assumes "rlcbs s d = Some cbs"
    "cb_active (cbs c) = [] \<or> (tl (cb_active (cbs c)) \<noteq> [] \<and> hd (tl (cb_active (cbs c))) = first) \<or>
     budget < Suc count \<or> of_int (s32 (2 * ISO_MIN_BURST_BYTES (tun s))) < sent"
  shows "tasklet_loop K d c first count sent s = Some s"
  using assms by (subst tasklet_loop.simps) (auto split: list.split)

lemma tasklet_loop_go:
  assumes "rlcbs s d = Some cbs" "cb_active (cbs c) = (p, c') # qs"
    "\<not> (qs \<noteq> [] \<and> hd qs = first)" "\<not> budget < Suc count"
    "\<not> of_int (s32 (2 * ISO_MIN_BURST_BYTES (tun s))) < sent"
    "rls (put_cb d c cbs ((cbs c)\<lparr>cb_active := qs\<rparr>) s) p = Some rl"
    "iso_rl_clock rl (put_cb d c cbs ((cbs c)\<lparr>cb_active := qs\<rparr>) s) = (rl', s1)"
    "iso_rl_dequeue 2 K p c' (s1\<lparr>rls := (rls s1)(p \<mapsto> rl')\<rparr>) = Some (n, s2)"
  shows "tasklet_loop K d c first count sent s =
    (if qs = [] then Some s2 else tasklet_loop K d c first (count + 2) (sent + n) s2)"
  using assms by (subst tasklet_loop.simps) (auto simp: Let_def)

lemma tasklet_loop_spec:
  assumes "sched_inv {(d, c)} s" "\<not> iso_exiting s" "gso_documented K" "rlcbs s d \<noteq> None"
  shows "\<exists>s'. tasklet_loop K d c first count sent s = Some s' \<and> rl_frame s s' \<and>
    sched_inv {(d, c)} s'"
  using assms(1,2,4)
proof (induction "budget - count" arbitrary: count sent s rule: less_induct)
  case less
  obtain cbs where cbs: "rlcbs s d = Some cbs" using less.prems(3) by auto
  let ?act = "cb_active (cbs c)"
  show ?case
  proof (cases "?act = [] \<or> (tl ?act \<noteq> [] \<and> hd (tl ?act) = first) \<or>
     budget < Suc count \<or> of_int (s32 (2 * ISO_MIN_BURST_BYTES (tun s))) < sent")
    case True
    then show ?thesis using tasklet_loop_stop [OF cbs True, of K] less.prems(1) by auto
  next
    case False
    then obtain p c' qs where act: "?act = (p, c') # qs" by (cases ?act) auto
    obtain rl rl' s1 n s2 where r:
      "rls (put_cb d c cbs ((cbs c)\<lparr>cb_active := qs\<rparr>) s) p = Some rl"
      "iso_rl_clock rl (put_cb d c cbs ((cbs c)\<lparr>cb_active := qs\<rparr>) s) = (rl', s1)"
      "iso_rl_dequeue 2 K p c' (s1\<lparr>rls := (rls s1)(p \<mapsto> rl')\<rparr>) = Some (n, s2)"
      "rl_frame s s2" "sched_inv {(d, c)} s2"
      using tasklet_round [OF less.prems(1,2) assms(3) cbs act] by blast
    have step: "tasklet_loop K d c first count sent s =
        (if qs = [] then Some s2 else tasklet_loop K d c first (count + 2) (sent + n) s2)"
      by (rule tasklet_loop_go [OF cbs act _ _ _ r(1-3)]) (use False act in auto)
    have "budget - (count + 2) < budget - count" using False by auto
    then have "\<exists>s'. tasklet_loop K d c first (count + 2) (sent + n) s2 = Some s' \<and>
        rl_frame s2 s' \<and> sched_inv {(d, c)} s'"
      by (rule less.hyps) (use r(5) less.prems rl_frameD [OF r(4)] in auto)
    then show ?thesis using step r(4,5) rl_frame_trans by auto
  qed
qed

text \<open>Writing a control block without changing its list.\<close>

lemma sched_inv_put:
  assumes "sched_inv Y s" "rlcbs s d = Some cbs" "cb_active cb = cb_active (cbs c)"
    "Y \<subseteq> insert (d, c) Y'" "(d, c) \<in> Y' \<or> cb_active cb = [] \<or> cb_timer cb \<or> cb_tasklet cb"
  shows "sched_inv Y' (put_cb d c cbs cb s)"
proof -
  let ?s = "put_cb d c cbs cb s"
  have inv: "heap_inv s" "active_inv s" "backlog_inv {} s" "timer_inv Y s"
    using assms(1) by (simp_all add: sched_inv_def)
  have fr: "rl_frame s ?s" using assms(2) by simp
  have "heap_inv ?s"
    using inv(1) fr by (rule heap_inv_frame)
      (use inv(1) queues_inv_same [OF fr] in \<open>simp add: heap_inv_def\<close>)
  moreover have "active_inv ?s"
    using assms(2) inv(2) by (rule active_inv_put)
      (rule active_invD [OF inv(2) assms(2)], simp add: assms(3))
  moreover have "timer_inv Y' ?s"
    using assms(2) timer_inv_mono [OF inv(4) assms(4)] assms(5) by (rule timer_inv_put)
  moreover have "backlog_inv {} ?s"
    using inv(3) by (rule backlog_inv_step)
      (use active_at_iff [OF _ assms(2)] in
        \<open>auto simp: active_at_put [OF assms(2)] backlogged_def assms(3)\<close>)
  ultimately show ?thesis by (simp add: sched_inv_def)
qed

lemma sched_inv_ticks: "sched_inv Y s \<Longrightarrow> sched_inv Y (s\<lparr>ticks := n\<rparr>)"
proof -
  let ?s = "s\<lparr>ticks := n\<rparr>"
  assume inv: "sched_inv Y s"
  have fr: "rl_frame s ?s" by simp
  have sch: "cb_sched ?s = cb_sched s" by (rule cb_sched_same) simp
  have "queues_inv ?s" using inv queues_inv_same [OF fr] by (simp add: sched_inv_def heap_inv_def)
  moreover have "backlogged ?s = backlogged s" by (rule backlogged_same) simp
  ultimately show "sched_inv Y ?s"
    using inv resched_quiet [OF fr sch] heap_inv_frame [OF _ fr] active_at_cong [OF fr sch]
    by (simp add: sched_inv_def resched_def backlog_inv_def)
qed

text \<open>The expired timer hands its list to the tasklet.\<close>

lemma timeout_spec:
  assumes "sched_inv Y s" "rlcbs s d \<noteq> None"
  shows "\<exists>s'. iso_rl_timeout d c s = Some s' \<and> rl_frame s s' \<and> rls s' = rls s \<and> sched_inv Y s'"
proof -
  obtain cbs where cbs: "rlcbs s d = Some cbs" using assms(2) by auto
  then show ?thesis
    using sched_inv_put [OF assms(1) cbs, of "(cbs c)\<lparr>cb_tasklet := True, cb_timer := False\<rparr>" c Y]
    by (auto simp: iso_rl_timeout_def)
qed

text \<open>The tasklet serves its list and arms the timer again for what is left.\<close>

lemma serve_spec:
  assumes "sched_inv {(d, c)} s" "rlcbs s d \<noteq> None" "\<not> iso_exiting s" "gso_documented K"
  shows "\<exists>s'. tasklet_serve K d c s = Some s' \<and> rl_frame s s' \<and> sched_inv {} s'"
proof -
  obtain cbs where cbs: "rlcbs s d = Some cbs" using assms(2) by auto
  have "\<exists>s1. (case cb_active (cbs c) of [] \<Rightarrow> Some s
      | first # _ \<Rightarrow> tasklet_loop K d c first 0 0 s) = Some s1 \<and>
      rl_frame s s1 \<and> sched_inv {(d, c)} s1"
    using tasklet_loop_spec [OF assms(1,3,4,2)] assms(1) by (simp split: list.split)
  then obtain s1 where s1: "(case cb_active (cbs c) of [] \<Rightarrow> Some s
      | first # _ \<Rightarrow> tasklet_loop K d c first 0 0 s) = Some s1"
    "rl_frame s s1" "sched_inv {(d, c)} s1" by blast
  obtain cbs1 where cbs1: "rlcbs s1 d = Some cbs1"
    using assms(2) rl_frameD(7) [OF s1(2)] by (cases "rlcbs s1 d") auto
  have ex: "\<not> iso_exiting s1" using assms(3) by (simp add: rl_frameD [OF s1(2)])
  show ?thesis
  proof (cases "cb_active (cbs1 c) = []")
    case True
    have "sched_inv {} (put_cb d c cbs1 (cbs1 c) s1)"
      by (rule sched_inv_put [OF s1(3) cbs1]) (simp_all add: True)
    then have "sched_inv {} s1" using cbs1 by (simp add: map_upd_triv)
    then show ?thesis using True s1 cbs cbs1 by (simp add: tasklet_serve_def)
  next
    case False
    have "sched_inv {} (put_cb d c cbs1 ((cbs1 c)\<lparr>cb_timer := True\<rparr>) s1)"
      by (rule sched_inv_put [OF s1(3) cbs1]) simp_all
    then show ?thesis
      using False s1(1) cbs cbs1 ex rl_frame_trans [OF s1(2)] by (simp add: tasklet_serve_def)
  qed
qed

lemma tasklet_spec:
  assumes "sched_inv Y s" "Y \<subseteq> {(d, c)}" "rlcbs s d \<noteq> None" "\<not> iso_exiting s" "gso_documented K"
  shows "\<exists>s'. iso_rl_xmit_tasklet K d c s = Some s' \<and> rl_frame s s' \<and> sched_inv {} s'"
proof -
  obtain cbs where cbs: "rlcbs s d = Some cbs" using assms(3) by auto
  define s1 where "s1 = s\<lparr>ticks := Suc (ticks s)\<rparr>"
  define cb where "cb = (cbs c)\<lparr>cb_tasklet := False, cb_last := clock s (ticks s),
      cb_avg_us := of_int (ktime_us_delta (clock s (ticks s)) (cb_last (cbs c)))\<rparr>"
  have cbs1: "rlcbs s1 d = Some cbs" using cbs by (simp add: s1_def)
  have "sched_inv Y s1" unfolding s1_def using assms(1) by (rule sched_inv_ticks)
  then have "sched_inv {(d, c)} (put_cb d c cbs cb s1)"
    by (rule sched_inv_put [OF _ cbs1]) (use assms(2) in \<open>auto simp: cb_def\<close>)
  moreover have "rl_frame s (put_cb d c cbs cb s1)"
  proof (rule rl_frame_trans)
    show "rl_frame s s1" by (simp add: s1_def)
    show "rl_frame s1 (put_cb d c cbs cb s1)" using cbs1 by simp
  qed
  moreover have "iso_rl_xmit_tasklet K d c s = tasklet_serve K d c (put_cb d c cbs cb s1)"
    using assms(4) by (simp add: iso_rl_xmit_tasklet_def cbs ktime_get_def Let_def cb_def s1_def)
  ultimately show ?thesis
    using serve_spec [of d c "put_cb d c cbs cb s1" K] assms(4,5) rl_frame_trans
    by (auto simp: s1_def)
qed


text \<open>A packet sent: its enqueue and the dequeue that follows it.\<close>

lemma send_spec:
  assumes "sched_inv Y s" "rls s p = Some rl" "skb_ok s pkt" "\<not> iso_exiting s" "gso_documented K"
  shows "\<exists>v s1 n s2. iso_rl_enqueue K p pkt c s = Some (v, s1) \<and>
    iso_rl_dequeue 2 K p c s1 = Some (n, s2) \<and> rl_frame s s2 \<and> sched_inv Y s2"
proof -
  have inv: "heap_inv s" "active_inv s" "backlog_inv {} s" "timer_inv Y s"
    using assms(1) by (simp_all add: sched_inv_def)
  then have h: "queues_inv s" "sane_queue_limit s" by (simp_all add: heap_inv_def)
  obtain v s1 q' where e: "iso_rl_enqueue K p pkt c s = Some (v, s1)" "rl_frame s s1"
    "rls s1 = (rls s)(p \<mapsto> (fst (iso_rl_clock rl s))\<lparr>rl_queue := (rl_queue rl)(c := q')\<rparr>)"
    "rlcbs s1 = rlcbs s" "queue_inv s q'"
    using iso_rl_enqueue_spec [OF assms(2) h(1) assms(3,5) h(2), of c] by metis
  have "queues_inv s1"
    using queues_inv_put [OF h(1) e(2,3)] e(5) queues_invD [OF h(1) assms(2)] by simp
  with inv(1) e(2) have h1: "heap_inv s1" by (rule heap_inv_frame)
  have loc: "cpu_local c s s1" by (rule cpu_local_put [OF assms(2) e(3,4)]) simp
  have q: "resched s s1" using e(2) cb_sched_same [OF e(4)] by (rule resched_quiet)
  have b: "backlog_inv {(p, c)} s1"
    using inv(3) by (rule backlog_inv_step)
      (use q e(3) local_backlog [OF loc] in \<open>auto simp: resched_def split: if_splits\<close>)
  obtain rl1 where rl1: "rls s1 p = Some rl1" using e(3) by simp
  obtain b k f n s2 where d: "iso_rl_dequeue 2 K p c s1 = Some (n, s2)"
    "dequeued s1 p c rl1 b k f s2" "resched s1 s2"
    "\<not> iso_exiting s1 \<longrightarrow> (\<forall>X. backlog_inv (insert (p, c) X) s1 \<longrightarrow> backlog_inv X s2)"
    using dequeue_spec [OF rl1 h1 assms(5), of 0 c] unfolding numeral_2_eq_2 [symmetric] by blast
  have s2: "rl_frame s1 s2" "queues_inv s2" using d(2) by (simp_all add: dequeued_def)
  have "heap_inv s2" using h1 s2 by (rule heap_inv_frame)
  moreover have "backlog_inv {} s2" using d(4) b assms(4) by (simp add: rl_frameD [OF e(2)])
  ultimately have "sched_inv Y s2"
    using inv resched_trans [OF q d(3)] by (simp add: sched_inv_def resched_def)
  then show ?thesis using e(1,2) d(1) s2(1) rl_frame_trans by blast
qed

end
