(* ===== verification/RcpLaws.thy ===== *)
theory RcpLaws
  imports RxPath
begin

text \<open>
  The RCP steps of the transmit context (\<open>iso_txc_tick\<close>, \<open>src/tx.c\<close>) and of the receive context
  (\<open>iso_rx_rcp_update\<close>, \<open>src/rx.c\<close>) follow the law \<open>rcp_law\<close> within stated ranges, and stay in their
  range on every input.
\<close>

section \<open>Clamping\<close>

lemma uint_clamp32:
  assumes "0 \<le> lo" "lo \<le> hi" "hi < 2 ^ 31"
  shows "uint (clamp32 lo hi r) = max lo (min hi (uint r))"
proof -
  have c: "uint (ucast x :: u64) = uint x" for x :: u32
    using uint_lt2p [of x] by (intro uint_ucast_bounded) simp
  have h: "uint (of_int hi :: u64) = hi" "uint (of_int lo :: u64) = lo"
    using assms by (auto intro!: uint_of_int)
  have "uint (ucast (min (of_int hi :: u64) (ucast r)) :: u32) = min hi (uint r)"
    using assms by (subst uint_ucast_bounded) (auto simp: uint_min h c)
  then show ?thesis
    using assms unfolding clamp32_def Let_def
    by (subst uint_ucast_bounded) (auto simp: uint_max h c)
qed

section \<open>The RCP step of the transmit context\<close>

text \<open>Below 37838 Mb/s the 32-bit product cannot wrap.\<close>

definition tick_tunables :: "tunables \<Rightarrow> bool" where
  "tick_tunables P \<longleftrightarrow> 0 < ISO_MIN_RFAIR P \<and> ISO_MIN_RFAIR P \<le> ISO_MAX_TX_RATE P \<and>
     ISO_MAX_TX_RATE P \<le> 37837"

lemma tick_rate_law:
  assumes "tick_tunables P" "uint r \<le> ISO_MAX_TX_RATE P" "uint y \<le> 3 * ISO_MAX_TX_RATE P"
  shows "\<exists>w. tick_rate P r y = Some w \<and> uint w = max (ISO_MIN_RFAIR P) (min (ISO_MAX_TX_RATE P)
    (uint r * (3 * ISO_MAX_TX_RATE P - uint y) div (2 * ISO_MAX_TX_RATE P)))"
proof -
  let ?M = "ISO_MAX_TX_RATE P"
  have M: "0 < ?M" "?M \<le> 37837" using assms(1) by (auto simp: tick_tunables_def)
  have a: "uint (of_int (s32 (3 * ?M)) :: u32) = 3 * ?M" "uint (of_int (s32 (?M * 2)) :: u32) = 2 * ?M"
    using M uint_s32 [of "3 * ?M"] uint_s32 [of "?M * 2"] by simp_all
  have f: "uint (of_int (s32 (3 * ?M)) - y) = 3 * ?M - uint y"
    using assms(3) a(1) by (subst uint_sub_bounded) simp_all
  have "uint r * (3 * ?M - uint y) \<le> ?M * (3 * ?M)" using assms(2,3) M by (intro mult_mono) auto
  also have "\<dots> \<le> 37837 * (3 * 37837)" using M by (intro mult_mono) auto
  finally have "uint (r * (of_int (s32 (3 * ?M)) - y)) = uint r * (3 * ?M - uint y)"
    by (subst uint_mult_bounded) (simp_all add: f)
  moreover have "(of_int (s32 (?M * 2)) :: u32) \<noteq> 0" using a(2) M(1) by auto
  ultimately show ?thesis
    using a(2) assms(1) by (simp add: tick_rate_def udiv_def uint_clamp32 tick_tunables_def uint_div)
qed

text \<open>Whatever is measured, the rate stays between the minimum and the capacity.\<close>

lemma tick_rate_bounds:
  assumes "tick_tunables P"
  shows "\<exists>w. tick_rate P r y = Some w \<and> ISO_MIN_RFAIR P \<le> uint w \<and> uint w \<le> ISO_MAX_TX_RATE P"
proof -
  have "uint (of_int (s32 (ISO_MAX_TX_RATE P * 2)) :: u32) \<noteq> 0"
    using assms uint_s32 [of "ISO_MAX_TX_RATE P * 2"] by (simp add: tick_tunables_def)
  then have "(of_int (s32 (ISO_MAX_TX_RATE P * 2)) :: u32) \<noteq> 0" by auto
  then show ?thesis using assms by (auto simp: tick_rate_def udiv_def uint_clamp32 tick_tunables_def)
qed

interpretation tx_rcp: rcp_law tick_tunables ISO_MAX_TX_RATE ISO_MIN_RFAIR ISO_MAX_TX_RATE
  "\<lambda>P r y. uint (the (tick_rate P (of_int r) (of_int y)))"
proof (unfold_locales, goal_cases)
  case (1 P)
  then show ?case by (auto simp: tick_tunables_def)
next
  case (2 P r y)
  then have "uint (of_int r :: u32) = r" "uint (of_int y :: u32) = y"
    by (auto intro!: uint_of_int simp: tick_tunables_def)
  then show ?case using tick_rate_law [of P "of_int r" "of_int y"] 2 by auto
qed

section \<open>The RCP step of the receive context\<close>

definition rcp_tunables :: "tunables \<Rightarrow> bool" where
  "rcp_tunables P \<longleftrightarrow> 0 < ISO_MIN_RFAIR P \<and> ISO_MIN_RFAIR P \<le> ISO_VQ_DRAIN_RATE_MBPS P \<and>
     ISO_VQ_DRAIN_RATE_MBPS P < 2 ^ 30"

lemma rx_rcp_words:
  assumes "rcp_tunables P"
  shows "uint (of_int (s32 (ISO_VQ_DRAIN_RATE_MBPS P * 2)) :: u32) = 2 * ISO_VQ_DRAIN_RATE_MBPS P"
    "uint (ucast (of_int (s32 (ISO_VQ_DRAIN_RATE_MBPS P * 2)) :: u32) :: u64) = 2 * ISO_VQ_DRAIN_RATE_MBPS P"
    "uint ((of_int (s32 (ISO_VQ_DRAIN_RATE_MBPS P * 2)) + of_int (ISO_VQ_DRAIN_RATE_MBPS P)) :: u32) =
       3 * ISO_VQ_DRAIN_RATE_MBPS P"
proof -
  let ?D = "ISO_VQ_DRAIN_RATE_MBPS P"
  have D: "0 < ?D" "?D < 2 ^ 30" using assms by (auto simp: rcp_tunables_def)
  show c2: "uint (of_int (s32 (?D * 2)) :: u32) = 2 * ?D" using D uint_s32 [of "?D * 2"] by simp
  then show "uint (ucast (of_int (s32 (?D * 2)) :: u32) :: u64) = 2 * ?D"
    using D by (subst uint_ucast_bounded) simp_all
  have "uint (of_int ?D :: u32) = ?D" using D by (intro uint_of_int) simp_all
  then show "uint ((of_int (s32 (?D * 2)) + of_int ?D) :: u32) = 3 * ?D"
    using D c2 by (subst uint_add_bounded) simp_all
qed

lemma rx_rcp_eq:
  assumes "rcp_tunables P"
  shows "\<exists>w. rx_rcp_rate P r y = Some w \<and> uint w = min (ISO_VQ_DRAIN_RATE_MBPS P) (max (ISO_MIN_RFAIR P)
    (uint r * uint ((of_int (s32 (ISO_VQ_DRAIN_RATE_MBPS P * 2)) + of_int (ISO_VQ_DRAIN_RATE_MBPS P)) - y)
       div (2 * ISO_VQ_DRAIN_RATE_MBPS P)))"
proof -
  let ?D = "ISO_VQ_DRAIN_RATE_MBPS P"
  let ?c2 = "of_int (s32 (?D * 2)) :: u32" and ?f = "(of_int (s32 (?D * 2)) + of_int ?D) - y :: u32"
  have D: "0 < ?D" "?D < 2 ^ 30" using assms by (auto simp: rcp_tunables_def)
  have c: "uint (ucast x :: u64) = uint x" for x :: u32
    using uint_lt2p [of x] by (intro uint_ucast_bounded) simp
  have "uint r * uint ?f < 2 ^ 32 * 2 ^ 32"
    using uint_lt2p [of r] uint_lt2p [of ?f] by (intro mult_strict_mono') simp_all
  then have p: "uint ((ucast r :: u64) * ucast ?f) = uint r * uint ?f"
    by (subst uint_mult_bounded) (simp_all add: c)
  have h: "uint (of_int ?D :: u64) = ?D" "uint (of_int (ISO_MIN_RFAIR P) :: u64) = ISO_MIN_RFAIR P"
    using assms by (auto intro!: uint_of_int simp: rcp_tunables_def)
  have ne: "(ucast ?c2 :: u64) \<noteq> 0" using rx_rcp_words(2) [OF assms] D(1) by auto
  let ?m = "min (of_int ?D) (max (of_int (ISO_MIN_RFAIR P)) ((ucast r :: u64) * ucast ?f div ucast ?c2))"
  have m: "uint ?m = min ?D (max (ISO_MIN_RFAIR P) (uint r * uint ?f div (2 * ?D)))"
    by (simp only: uint_min uint_max h uint_div p rx_rcp_words(2) [OF assms])
  then have "uint (ucast ?m :: u32) = uint ?m" using D(2) by (intro uint_ucast_bounded) simp
  moreover have "rx_rcp_rate P r y = Some (ucast ?m)"
    using ne by (simp only: rx_rcp_rate_def udiv_def Let_def if_False bind.simps)
  ultimately show ?thesis using m by simp
qed

lemma rx_rcp_law:
  assumes "rcp_tunables P" "uint y \<le> 3 * ISO_VQ_DRAIN_RATE_MBPS P"
  shows "\<exists>w. rx_rcp_rate P r y = Some w \<and> uint w = max (ISO_MIN_RFAIR P) (min (ISO_VQ_DRAIN_RATE_MBPS P)
    (uint r * (3 * ISO_VQ_DRAIN_RATE_MBPS P - uint y) div (2 * ISO_VQ_DRAIN_RATE_MBPS P)))"
proof -
  have "uint ((of_int (s32 (ISO_VQ_DRAIN_RATE_MBPS P * 2)) + of_int (ISO_VQ_DRAIN_RATE_MBPS P)) - y :: u32) =
      3 * ISO_VQ_DRAIN_RATE_MBPS P - uint y"
    using assms(2) rx_rcp_words(3) [OF assms(1)] by (subst uint_sub_bounded) simp_all
  then show ?thesis
    using rx_rcp_eq [OF assms(1), of r y] assms(1) by (auto simp: rcp_tunables_def)
qed

lemma rx_rcp_bounds:
  assumes "rcp_tunables P"
  shows "\<exists>w. rx_rcp_rate P r y = Some w \<and> ISO_MIN_RFAIR P \<le> uint w \<and> uint w \<le> ISO_VQ_DRAIN_RATE_MBPS P"
  using rx_rcp_eq [OF assms, of r y] assms by (auto simp: rcp_tunables_def)

text \<open>
  When the device receives more than three times the drain rate, the 32-bit factor wraps
  around and the advertised rate grows by at least a half, up to the drain rate.
\<close>

lemma rx_rcp_overload:
  assumes "rcp_tunables P" "3 * ISO_VQ_DRAIN_RATE_MBPS P < uint y"
  shows "\<exists>w. rx_rcp_rate P r y = Some w \<and>
    min (ISO_VQ_DRAIN_RATE_MBPS P) (uint r * 3 div 2) \<le> uint w"
proof -
  let ?D = "ISO_VQ_DRAIN_RATE_MBPS P"
  let ?f = "uint ((of_int (s32 (?D * 2)) + of_int ?D) - y :: u32)"
  have D: "0 < ?D" using assms(1) by (auto simp: rcp_tunables_def)
  have "?f = 2 ^ 32 + 3 * ?D - uint y"
    using rx_rcp_words(3) [OF assms(1)] assms(2) by (simp add: uint_sub_if')
  then have "3 * ?D \<le> ?f" using uint_lt2p [of y] by simp
  then have "uint r * (3 * ?D) \<le> uint r * ?f" by (intro mult_left_mono) simp_all
  then have "uint r * (3 * ?D) div (2 * ?D) \<le> uint r * ?f div (2 * ?D)" using D by (intro zdiv_mono1) simp_all
  moreover have "uint r * (3 * ?D) div (2 * ?D) = uint r * 3 div 2"
    using D zdiv_zmult2_eq [of ?D 2 "uint r * (3 * ?D)"] by (simp add: mult.commute mult.left_commute)
  ultimately show ?thesis using rx_rcp_eq [OF assms(1), of r y] by auto
qed

interpretation rx_rcp: rcp_law rcp_tunables ISO_VQ_DRAIN_RATE_MBPS ISO_MIN_RFAIR ISO_VQ_DRAIN_RATE_MBPS
  "\<lambda>P r y. uint (the (rx_rcp_rate P (of_int r) (of_int y)))"
proof (unfold_locales, goal_cases)
  case (1 P)
  then show ?case by (auto simp: rcp_tunables_def)
next
  case (2 P r y)
  then have "uint (of_int r :: u32) = r" "uint (of_int y :: u32) = y"
    by (auto intro!: uint_of_int simp: rcp_tunables_def)
  then show ?case using rx_rcp_law [of P "of_int y" "of_int r"] 2 by auto
qed

end
