(* ===== verification/TxLaws.thy ===== *)
theory TxLaws
  imports Pacing RcpLaws
begin

text \<open>
  The transmit path does not oops: the invariant \<open>tx_ok\<close> of a context, the periodic update
  \<open>iso_txc_tick\<close> and \<open>iso_tx\<close> under it, together with the scheduling invariant of the rate
  limiters, and what the lookup of a destination state returns.
\<close>

section \<open>The invariant of the transmit path\<close>

text \<open>The addresses a class holds are live.\<close>

definition txc_ok :: "'z tx_mem_scheme \<Rightarrow> iso_tx_class \<Rightarrow> bool" where
  "txc_ok s txc \<longleftrightarrow>
     (\<forall>i. \<forall>x \<in> set (state_bucket txc i). \<exists>st p. states s x = Some st \<and> st_rl st = Some p \<and> rls s p \<noteq> None) \<and>
     (\<forall>x \<in> set (prealloc_state_list txc). states s x \<noteq> None) \<and>
     (\<forall>i. \<forall>p \<in> set (rl_bucket txc i). rls s p \<noteq> None) \<and>
     (\<forall>p \<in> set (prealloc_rl_list txc). rls s p \<noteq> None)"

lemma txc_okD:
  assumes "txc_ok s txc"
  shows "x \<in> set (state_bucket txc i) \<Longrightarrow>
      \<exists>st p. states s x = Some st \<and> st_rl st = Some p \<and> rls s p \<noteq> None"
    and "x \<in> set (prealloc_state_list txc) \<Longrightarrow> states s x \<noteq> None"
    and "p \<in> set (rl_bucket txc i) \<Longrightarrow> rls s p \<noteq> None"
    and "p \<in> set (prealloc_rl_list txc) \<Longrightarrow> rls s p \<noteq> None"
  using assms unfolding txc_ok_def by simp_all

definition tx_ok :: "dev \<Rightarrow> 'z tx_mem_scheme \<Rightarrow> bool" where
  "tx_ok d s \<longleftrightarrow> (\<exists>ctx. txctxs s d = Some ctx \<and> rlcbs s d \<noteq> None \<and>
     (\<forall>i. set (iso_tx_bucket ctx i) \<subseteq> set (txc_list ctx)) \<and>
     (\<forall>t \<in> set (txc_list ctx). t < fresh s \<and> rls s (TxcRl t) \<noteq> None \<and>
        (\<exists>txc. txcs s t = Some txc \<and> txc_ok s txc \<and> txc_txctx txc = d)))"

lemma tx_okD:
  assumes "tx_ok d s" "txctxs s d = Some ctx"
  shows "rlcbs s d \<noteq> None" "set (iso_tx_bucket ctx i) \<subseteq> set (txc_list ctx)"
    "t \<in> set (txc_list ctx) \<Longrightarrow> rls s (TxcRl t) \<noteq> None"
    "t \<in> set (txc_list ctx) \<Longrightarrow> t < fresh s"
    "t \<in> set (txc_list ctx) \<Longrightarrow> \<exists>txc. txcs s t = Some txc \<and> txc_ok s txc \<and> txc_txctx txc = d"
  using assms by (auto simp: tx_ok_def)

text \<open>A step that keeps what the invariant reads.\<close>

definition same_links :: "iso_tx_class \<Rightarrow> iso_tx_class \<Rightarrow> bool" where
  "same_links a b \<longleftrightarrow> state_bucket b = state_bucket a \<and> rl_bucket b = rl_bucket a \<and>
     prealloc_state_list b = prealloc_state_list a \<and> prealloc_rl_list b = prealloc_rl_list a \<and>
     txc_txctx b = txc_txctx a \<and> txc_klass b = txc_klass a"

definition tx_keeps :: "dev \<Rightarrow> 'z tx_mem_scheme \<Rightarrow> 'z tx_mem_scheme \<Rightarrow> bool" where
  "tx_keeps d s s' \<longleftrightarrow>
     (\<forall>ctx. txctxs s d = Some ctx \<longrightarrow> (\<exists>ctx'. txctxs s' d = Some ctx' \<and>
        iso_tx_bucket ctx' = iso_tx_bucket ctx \<and> txc_list ctx' = txc_list ctx)) \<and>
     (rlcbs s d \<noteq> None \<longrightarrow> rlcbs s' d \<noteq> None) \<and> fresh s \<le> fresh s' \<and>
     (\<forall>p. rls s p \<noteq> None \<longrightarrow> rls s' p \<noteq> None) \<and>
     (\<forall>x st. states s x = Some st \<longrightarrow> (\<exists>st'. states s' x = Some st' \<and> st_rl st' = st_rl st)) \<and>
     (\<forall>t txc. txcs s t = Some txc \<longrightarrow> (\<exists>txc'. txcs s' t = Some txc' \<and> same_links txc txc'))"

lemma tx_keeps_refl [simp]: "tx_keeps d s s"
  by (simp add: tx_keeps_def same_links_def)

lemma tx_keepsD:
  assumes "tx_keeps d s s'"
  shows "txctxs s d = Some ctx \<Longrightarrow> \<exists>ctx'. txctxs s' d = Some ctx' \<and>
      iso_tx_bucket ctx' = iso_tx_bucket ctx \<and> txc_list ctx' = txc_list ctx"
    and "rlcbs s d \<noteq> None \<Longrightarrow> rlcbs s' d \<noteq> None" and "fresh s \<le> fresh s'"
    and "rls s p \<noteq> None \<Longrightarrow> rls s' p \<noteq> None"
    and "states s x = Some st \<Longrightarrow> \<exists>st'. states s' x = Some st' \<and> st_rl st' = st_rl st"
    and "txcs s t = Some txc \<Longrightarrow> \<exists>txc'. txcs s' t = Some txc' \<and> same_links txc txc'"
  using assms by (simp_all add: tx_keeps_def)

lemma tx_keeps_trans [trans]:
  assumes "tx_keeps d s t" "tx_keeps d t u"
  shows "tx_keeps d s u"
  unfolding tx_keeps_def
proof (intro conjI allI impI)
  fix ctx assume "txctxs s d = Some ctx"
  from tx_keepsD(1) [OF assms(1) this] obtain c where c: "txctxs t d = Some c"
    "iso_tx_bucket c = iso_tx_bucket ctx" "txc_list c = txc_list ctx" by blast
  show "\<exists>ctx'. txctxs u d = Some ctx' \<and> iso_tx_bucket ctx' = iso_tx_bucket ctx \<and>
      txc_list ctx' = txc_list ctx"
    using tx_keepsD(1) [OF assms(2) c(1)] c(2,3) by simp
next
  fix x st assume "states s x = Some st"
  from tx_keepsD(5) [OF assms(1) this] obtain st' where st: "states t x = Some st'" "st_rl st' = st_rl st"
    by blast
  show "\<exists>st'. states u x = Some st' \<and> st_rl st' = st_rl st"
    using tx_keepsD(5) [OF assms(2) st(1)] st(2) by simp
next
  fix i txc assume "txcs s i = Some txc"
  from tx_keepsD(6) [OF assms(1) this] obtain t' where t': "txcs t i = Some t'" "same_links txc t'" by blast
  show "\<exists>txc'. txcs u i = Some txc' \<and> same_links txc txc'"
    using tx_keepsD(6) [OF assms(2) t'(1)] t'(2) by (auto simp: same_links_def)
next
  show "fresh s \<le> fresh u" using tx_keepsD(3) [OF assms(1)] tx_keepsD(3) [OF assms(2)] by simp
  show "rls u p \<noteq> None" if "rls s p \<noteq> None" for p
    using tx_keepsD(4) [OF assms(1) that] by (rule tx_keepsD(4) [OF assms(2)])
  show "rlcbs u d \<noteq> None" if "rlcbs s d \<noteq> None"
    using tx_keepsD(2) [OF assms(1) that] by (rule tx_keepsD(2) [OF assms(2)])
qed

lemma txc_ok_keeps:
  assumes "txc_ok s txc" "tx_keeps d s s'" "same_links txc txc'"
  shows "txc_ok s' txc'"
proof -
  note r = tx_keepsD(4) [OF assms(2)] and st = tx_keepsD(5) [OF assms(2)]
  note ok = txc_okD [OF assms(1)]
  have 1: "\<exists>st p. states s' x = Some st \<and> st_rl st = Some p \<and> rls s' p \<noteq> None"
    if x: "x \<in> set (state_bucket txc i)" for x i
  proof -
    from ok(1) [OF x] obtain st p where p: "states s x = Some st" "st_rl st = Some p" "rls s p \<noteq> None"
      by (elim exE conjE)
    from st [OF p(1)] obtain st' where "states s' x = Some st'" "st_rl st' = st_rl st" by (elim exE conjE)
    then show ?thesis using p(2) r [OF p(3)] by simp
  qed
  have 2: "states s' x \<noteq> None" if x: "x \<in> set (prealloc_state_list txc)" for x
  proof -
    from ok(2) [OF x] obtain st0 where "states s x = Some st0" by (cases "states s x") simp_all
    from st [OF this] show ?thesis by (elim exE conjE) simp
  qed
  have 3: "rls s' p \<noteq> None" if "p \<in> set (rl_bucket txc i)" for p i by (rule r [OF ok(3) [OF that]])
  have 4: "rls s' p \<noteq> None" if "p \<in> set (prealloc_rl_list txc)" for p by (rule r [OF ok(4) [OF that]])
  have eq: "state_bucket txc' = state_bucket txc" "rl_bucket txc' = rl_bucket txc"
    "prealloc_state_list txc' = prealloc_state_list txc" "prealloc_rl_list txc' = prealloc_rl_list txc"
    using assms(3) by (simp_all add: same_links_def)
  show ?thesis unfolding txc_ok_def eq using 1 2 3 4 by (intro conjI ballI allI)
qed

lemma tx_ok_keeps:
  assumes "tx_ok d s" "tx_keeps d s s'"
  shows "tx_ok d s'"
proof -
  obtain ctx where ctx: "txctxs s d = Some ctx" using assms(1) by (auto simp: tx_ok_def)
  from tx_keepsD(1) [OF assms(2) this] obtain ctx' where ctx': "txctxs s' d = Some ctx'"
    "iso_tx_bucket ctx' = iso_tx_bucket ctx" "txc_list ctx' = txc_list ctx" by blast
  note ok = tx_okD [OF assms(1) ctx]
  have "\<exists>txc. txcs s' t = Some txc \<and> txc_ok s' txc \<and> txc_txctx txc = d" if t: "t \<in> set (txc_list ctx)" for t
  proof -
    from ok(5) [OF t] obtain txc where txc: "txcs s t = Some txc" "txc_ok s txc" "txc_txctx txc = d" by blast
    from tx_keepsD(6) [OF assms(2) txc(1)] obtain txc' where t': "txcs s' t = Some txc'" "same_links txc txc'"
      by blast
    then show ?thesis using txc_ok_keeps [OF txc(2) assms(2) t'(2)] txc(3) by (auto simp: same_links_def)
  qed
  moreover have "t < fresh s'" if "t \<in> set (txc_list ctx)" for t
    using ok(4) [OF that] tx_keepsD(3) [OF assms(2)] by simp
  moreover have "rls s' (TxcRl t) \<noteq> None" if "t \<in> set (txc_list ctx)" for t
    by (rule tx_keepsD(4) [OF assms(2) ok(3) [OF that]])
  moreover have "rlcbs s' d \<noteq> None" by (rule tx_keepsD(2) [OF assms(2) ok(1)])
  ultimately show ?thesis
    unfolding tx_ok_def using ctx' ok(2) by (intro exI [of _ ctx']) simp
qed

section \<open>What the scheduling invariant reads\<close>

lemma sched_inv_same:
  assumes "tun s' = tun s" "rls s' = rls s" "rlcbs s' = rlcbs s" "txctx_xmit s' = txctx_xmit s"
  shows "sched_inv Y s' = sched_inv Y s"
proof -
  have sh: "shape s' = shape s" by (rule ext) (simp add: shape_def assms)
  have cb: "cb_sched s' = cb_sched s" by (intro ext) (simp add: cb_sched_def assms)
  have qa: "queue_at s' = queue_at s" by (intro ext) (simp add: queue_at_def assms)
  have ok: "skb_ok s' = skb_ok s" by (rule ext) (simp add: skb_ok_def assms)
  have qi: "queue_inv s' = queue_inv s" by (rule ext) (simp add: queue_inv_def ok)
  show ?thesis
    by (simp add: sched_inv_def heap_inv_def queues_inv_def qi links_inv_def sh sane_queue_limit_def
        active_inv_def cb backlog_inv_def backlogged_def qa active_at_def timer_inv_def assms)
qed

text \<open>Nothing is created, and the receive side is left alone.\<close>

definition tx_quiet :: "'z tx_mem_scheme \<Rightarrow> 'z tx_mem_scheme \<Rightarrow> bool" where
  "tx_quiet s s' \<longleftrightarrow> fresh s' = fresh s \<and> rxctxs s' = rxctxs s \<and> vqs s' = vqs s \<and>
     (\<forall>p. rls s p = None \<longrightarrow> rls s' p = None) \<and> (\<forall>x. states s x = None \<longrightarrow> states s' x = None) \<and>
     (\<forall>x. txcs s x = None \<longrightarrow> txcs s' x = None)"

definition tx_step :: "dev \<Rightarrow> 'z tx_mem_scheme \<Rightarrow> 'z tx_mem_scheme \<Rightarrow> bool" where
  "tx_step d s s' \<longleftrightarrow> tx_keeps d s s' \<and> tun s' = tun s \<and> this_cpu s' = this_cpu s \<and>
     iso_exiting s' = iso_exiting s \<and> txctx_xmit s' = txctx_xmit s \<and>
     (\<forall>Y. sched_inv Y s \<longrightarrow> sched_inv Y s') \<and> tx_quiet s s'"

lemma tx_stepI:
  assumes "tx_keeps d s s'" "tun s' = tun s" "this_cpu s' = this_cpu s" "iso_exiting s' = iso_exiting s"
    "txctx_xmit s' = txctx_xmit s" "rls s' = rls s" "rlcbs s' = rlcbs s" "tx_quiet s s'"
  shows "tx_step d s s'"
  using assms sched_inv_same [OF assms(2,6,7,5)] by (simp add: tx_step_def)

lemma sched_inv_put_rl:
  assumes "sched_inv Y s" "rls s p = Some rl"
    "rl_queue rl' = rl_queue rl" "rl_txc rl' = rl_txc rl" "rl_rlcb rl' = rl_rlcb rl"
  shows "sched_inv Y (put_rl p rl' s)"
proof -
  let ?s = "put_rl p rl' s"
  have fr: "rl_frame s ?s" by (rule rl_frame_put [OF assms(2)]) (use assms in simp_all)
  have q: "queues_inv s" using assms(1) by (simp add: sched_inv_def heap_inv_def)
  have "queues_inv ?s"
    by (rule queues_inv_put [OF q fr, where p = p and rl' = rl'])
      (use queues_invD [OF q assms(2)] assms(3) in simp_all)
  then have h: "heap_inv ?s" using heap_inv_frame [OF _ fr] assms(1) by (simp add: sched_inv_def)
  have cb: "cb_sched ?s = cb_sched s" by (rule cb_sched_same) simp
  have "queue_at ?s = queue_at s"
    by (intro ext) (use assms(2,3) in \<open>simp add: queue_at_def\<close>)
  then have "backlogged ?s = backlogged s" by (rule backlogged_cong)
  then show ?thesis
    using assms(1) h resched_quiet [OF fr cb] active_at_cong [OF fr cb]
    by (simp add: sched_inv_def resched_def backlog_inv_def)
qed

section \<open>The periodic update\<close>

lemma tx_step_refl [simp]: "tx_step d s s"
  by (simp add: tx_step_def tx_quiet_def)

lemma tx_step_trans [trans]: "tx_step d s t \<Longrightarrow> tx_step d t u \<Longrightarrow> tx_step d s u"
  using tx_keeps_trans [of d s t u] by (simp add: tx_step_def tx_quiet_def)

lemma tx_step_ok: "tx_step d s s' \<Longrightarrow> tx_ok d s \<Longrightarrow> tx_ok d s'"
  by (simp add: tx_step_def tx_ok_keeps)

lemma tx_step_put_txc:
  assumes "txcs s t = Some txc" "same_links txc txc'"
  shows "tx_step d s (put_txc t txc' s)"
proof -
  have "tx_keeps d s (put_txc t txc' s)" using assms by (simp add: tx_keeps_def same_links_def)
  then show ?thesis by (rule tx_stepI) (use assms(1) in \<open>auto simp: tx_quiet_def\<close>)
qed

lemma tx_step_put_rl:
  assumes "rls s p = Some rl" "rl_queue rl' = rl_queue rl" "rl_txc rl' = rl_txc rl" "rl_rlcb rl' = rl_rlcb rl"
  shows "tx_step d s (put_rl p rl' s)"
proof -
  have "tx_keeps d s (put_rl p rl' s)" by (simp add: tx_keeps_def same_links_def)
  then show ?thesis using sched_inv_put_rl [OF _ assms] assms(1) by (auto simp: tx_step_def tx_quiet_def)
qed

lemma tx_step_put_txctx:
  assumes "txctxs s d = Some ctx" "iso_tx_bucket ctx' = iso_tx_bucket ctx" "txc_list ctx' = txc_list ctx"
  shows "tx_step d s (put_txctx d ctx' s)"
proof -
  have "tx_keeps d s (put_txctx d ctx' s)" using assms by (simp add: tx_keeps_def same_links_def)
  then show ?thesis by (rule tx_stepI) (simp_all add: tx_quiet_def)
qed

lemma tx_step_clocks [simp]: "tx_step d s (s\<lparr>ticks := n\<rparr>)" "tx_step d s (s\<lparr>nlocks := n\<rparr>)"
  by (rule tx_stepI; simp add: tx_keeps_def same_links_def tx_quiet_def)+

lemma tx_step_put_class:
  assumes "txcs s t = Some txc" "same_links txc txc'" "rls s p = Some rl"
    "rl_queue rl' = rl_queue rl" "rl_txc rl' = rl_txc rl" "rl_rlcb rl' = rl_rlcb rl"
  shows "tx_step d s ((put_txc t txc' s)\<lparr>rls := (rls s)(p \<mapsto> rl')\<rparr>)"
proof -
  have "rls (put_txc t txc' s) p = Some rl" using assms(3) by simp
  from tx_step_trans [OF tx_step_put_txc [OF assms(1,2)] tx_step_put_rl [OF this assms(4-6)]]
  show ?thesis by simp
qed

lemma tick_class_step:
  assumes "txcs s t \<noteq> None" "rls s (TxcRl t) \<noteq> None" "dt \<noteq> 0"
  shows "\<exists>s'. tick_class dt rate t s = Some s' \<and> tx_step d s s'"
proof -
  obtain txc rl where o: "txcs s t = Some txc" "rls s (TxcRl t) = Some rl" using assms by auto
  show ?thesis
    using assms(3) o
    by (auto simp: tick_class_def udiv_def Let_def iso_rl_accum_def same_links_def
        intro!: tx_step_put_class [OF o(1) _ o(2)])
qed

lemma foldM_tick_class:
  assumes "\<And>t. t \<in> set ts \<Longrightarrow> txcs s t \<noteq> None \<and> rls s (TxcRl t) \<noteq> None" "dt \<noteq> 0"
  shows "\<exists>s'. foldM (tick_class dt rate) ts s = Some s' \<and> tx_step d s s'"
  using assms(1)
proof (induction ts arbitrary: s)
  case (Cons t ts)
  then obtain s1 where s1: "tick_class dt rate t s = Some s1" "tx_step d s s1"
    using tick_class_step [OF _ _ assms(2)] by (meson list.set_intros(1))
  have k: "tx_keeps d s s1" using s1(2) by (simp add: tx_step_def)
  have "txcs s1 x \<noteq> None \<and> rls s1 (TxcRl x) \<noteq> None" if "x \<in> set ts" for x
  proof -
    have x: "txcs s x \<noteq> None" "rls s (TxcRl x) \<noteq> None" using Cons.prems that by simp_all
    then obtain txc where "txcs s x = Some txc" by auto
    from tx_keepsD(6) [OF k this] tx_keepsD(4) [OF k x(2)] show ?thesis by auto
  qed
  from Cons.IH [OF this] obtain s2 where "foldM (tick_class dt rate) ts s1 = Some s2" "tx_step d s1 s2" by auto
  then show ?case using s1 by (auto intro: tx_step_trans)
qed simp

lemma tick_sum_step:
  assumes "tx_ok d s" "tick_tunables (tun s)"
  shows "\<exists>s' ctx'. iso_txctx_accum d s = Some s' \<and> tx_step d s s' \<and> txctxs s' d = Some ctx'"
proof -
  obtain ctx where ctx: "txctxs s d = Some ctx" using assms(1) by (auto simp: tx_ok_def)
  then obtain cbs where "rlcbs s d = Some cbs" using tx_okD(1) [OF assms(1)] by auto
  with ctx show ?thesis by (auto simp: iso_txctx_accum_def intro!: tx_step_put_txctx [OF ctx])
qed

text \<open>With an interval of at least a microsecond the update neither divides by zero nor oopses.\<close>

definition tick_interval :: "tunables \<Rightarrow> bool" where
  "tick_interval P \<longleftrightarrow> 0 < ISO_TXC_UPDATE_INTERVAL_US P \<and> ISO_TXC_UPDATE_INTERVAL_US P < 2 ^ 31"

lemma tick_step:
  assumes ok: "tx_ok d s" and P: "tick_tunables (tun s)" "tick_interval (tun s)"
  shows "\<exists>s'. iso_txc_tick d s = Some s' \<and> tx_step d s s'"
proof -
  let ?s = "s\<lparr>ticks := Suc (ticks s)\<rparr>" and ?I = "of_int (ISO_TXC_UPDATE_INTERVAL_US (tun s)) :: u64"
  let ?l = "?s\<lparr>nlocks := Suc (nlocks s)\<rparr>"
  obtain ctx where ctx: "txctxs s d = Some ctx" using ok by (auto simp: tx_ok_def)
  define dt :: u64 where "dt = of_int (ktime_us_delta (clock s (ticks s)) (txc_last_update_time ctx))"
  have l: "tx_step d s ?l" by (rule tx_step_trans [OF tx_step_clocks(1) tx_step_clocks(2)])
  show ?thesis
  proof (cases "dt < ?I \<or> \<not> trylocks s (nlocks s)")
    case True
    then show ?thesis
      using ctx l by (auto simp: iso_txc_tick_def ktime_get_def spin_trylock_def dt_def Let_def)
  next
    case False
    have "uint ?I = ISO_TXC_UPDATE_INTERVAL_US (tun s)"
      using P(2) by (intro uint_of_int) (simp_all add: tick_interval_def)
    then have "?I \<noteq> 0" using P(2) by (auto simp: tick_interval_def)
    with False have dt: "dt \<noteq> 0" by (auto simp: word_gt_0)
    let ?s1 = "put_txctx d (ctx\<lparr>txc_last_update_time := clock s (ticks s)\<rparr>) ?l"
    have s1: "tx_step d s ?s1" using ctx by (intro tx_step_trans [OF l] tx_step_put_txctx) simp_all
    obtain s2 ctx2 where s2: "iso_txctx_accum d ?s1 = Some s2" "tx_step d ?s1 s2" "txctxs s2 d = Some ctx2"
      using tick_sum_step [OF tx_step_ok [OF s1 ok]] P(1) by auto
    note st2 = tx_step_trans [OF s1 s2(2)]
    have tun2: "tun s2 = tun s" using st2 by (simp add: tx_step_def)
    let ?r = "ucast (push_bit 3 (ctx_tx_bytes ctx2 - ctx_tx_bytes ctx) div dt) :: u32"
    obtain w where w: "tick_rate (tun s2) (ctx_rate ctx2) ?r = Some w"
      using tick_rate_bounds P(1) tun2 by metis
    let ?s3 = "put_txctx d (ctx2\<lparr>ctx_tx_rate := ?r, ctx_rate := w\<rparr>) s2"
    have st3: "tx_step d s ?s3" by (intro tx_step_trans [OF st2] tx_step_put_txctx [OF s2(3)]) simp_all
    have live: "txcs ?s3 t \<noteq> None \<and> rls ?s3 (TxcRl t) \<noteq> None" if "t \<in> set (txc_list ctx2)" for t
      using tx_okD(3,5) [OF tx_step_ok [OF st2 ok] s2(3) that] by auto
    obtain s4 where s4: "foldM (tick_class dt w) (txc_list ctx2) ?s3 = Some s4" "tx_step d ?s3 s4"
      using foldM_tick_class [OF live dt] by blast
    have "iso_txc_tick d s = Some s4"
      using False ctx s2 w s4(1) dt
      by (simp add: iso_txc_tick_def ktime_get_def spin_trylock_def dt_def [symmetric] Let_def udiv_def)
    then show ?thesis using tx_step_trans [OF st3 s4(2)] by blast
  qed
qed

section \<open>Lookup\<close>

lemma txc_find_total:
  assumes "tx_ok d s"
  shows "\<exists>r. iso_txc_find K klass d s = Some r \<and>
    (\<forall>t. r = Some t \<longrightarrow> (\<exists>ctx txc. txctxs s d = Some ctx \<and> t \<in> set (txc_list ctx) \<and>
       txcs s t = Some txc \<and> txc_klass txc = klass \<and> txc_ok s txc))"
proof -
  obtain ctx where ctx: "txctxs s d = Some ctx" using assms by (auto simp: tx_ok_def)
  let ?b = "iso_tx_bucket ctx (txc_index K klass)"
  have live: "txc_has_class klass s x \<noteq> None" if "x \<in> set ?b" for x
    using tx_okD(5) [OF assms ctx] tx_okD(2) [OF assms ctx] that by (fastforce simp: txc_has_class_def)
  obtain r where r: "hlist_find (txc_has_class klass s) ?b = Some r" 
    using hlist_find_no_oops [of ?b "txc_has_class klass s", OF live] by blast
  have "\<exists>txc. t \<in> set (txc_list ctx) \<and> txcs s t = Some txc \<and> txc_klass txc = klass \<and> txc_ok s txc"
    if "r = Some t" for t
  proof -
    have t: "t \<in> set (txc_list ctx)" "txc_has_class klass s t = Some True"
      using hlist_find_SomeD [of "txc_has_class klass s" ?b t] r that tx_okD(2) [OF assms ctx] by auto
    from tx_okD(5) [OF assms ctx t(1)] t show ?thesis by (auto simp: txc_has_class_def)
  qed
  then show ?thesis using ctx r by (simp add: iso_txc_find_def)
qed

lemma state_find_total:
  assumes "txcs s t = Some txc" "txc_ok s txc"
  shows "\<exists>r. iso_state_get K t skb rx False s = Some (r, s) \<and>
    (\<forall>p. r = Some p \<longrightarrow> (\<exists>st q. state_of p s = Some st \<and> st_rl st = Some q \<and> rls s q \<noteq> None))"
proof (cases "is_ip skb")
  case True
  let ?ip = "dest_ip skb rx"
  let ?b = "state_bucket txc (state_index K ?ip)"
  have live: "state_has_ip ?ip s x \<noteq> None" if "x \<in> set ?b" for x
    using txc_okD(1) [OF assms(2) that] by (auto simp: state_has_ip_def)
  obtain r where r: "hlist_cursor (state_has_ip ?ip s) ?b None = Some r"
    using hlist_cursor_no_oops [of ?b "state_has_ip ?ip s", OF live] by blast
  have "\<exists>st q. states s i = Some st \<and> st_rl st = Some q \<and> rls s q \<noteq> None" if "r = Some i" for i
    using hlist_cursor_mem [of "state_has_ip ?ip s" ?b None i] r that txc_okD(1) [OF assms(2)] by auto
  then show ?thesis
    using True assms(1) r by (cases r) (auto simp: iso_state_get_def state_of_def)
qed (simp add: iso_state_get_def)

text \<open>The lookup finds the state of the address if the bucket has one.\<close>

lemma state_get_hit:
  assumes "is_ip skb" "txcs s t = Some txc"
    "hlist_find (state_has_ip (dest_ip skb rx) s) (state_bucket txc (state_index K (dest_ip skb rx))) = Some (Some i)"
  shows "iso_state_get K t skb rx create s = Some (Some (StatePtr i), s)"
  using assms hlist_cursor_find [OF assms(3)] by (simp add: iso_state_get_def)

text \<open>
  In a bucket that holds other addresses only, the cursor ends on the last of them: the packet is
  given the state of another destination, and no state is ever created for its own.
\<close>

lemma state_get_collision:
  assumes "is_ip skb" "txcs s t = Some txc"
    "hlist_find (state_has_ip (dest_ip skb rx) s) (state_bucket txc (state_index K (dest_ip skb rx))) = Some None"
    "state_bucket txc (state_index K (dest_ip skb rx)) \<noteq> []"
  shows "iso_state_get K t skb rx create s =
    Some (Some (StatePtr (last (state_bucket txc (state_index K (dest_ip skb rx))))), s)"
  using assms hlist_cursor_miss [OF assms(3), of None] by (simp add: iso_state_get_def)

section \<open>Transmission\<close>

lemma skb_ok_ecn: "skb_ok s (iso_enable_ecn K skb) = skb_ok s skb"
  by (simp add: skb_ok_def wf_skb_def iso_enable_ecn_def ipv4_change_dsfield_def)

lemma tx_keeps_frame:
  assumes "rl_frame s s'"
  shows "tx_keeps d s s'"
proof -
  have live: "rls s' p \<noteq> None" if "rls s p \<noteq> None" for p
    using that rl_frameD(6) [OF assms, of p] by (metis shape_None)
  have more: "rl_mem.more s' = rl_mem.more s" using assms by (simp add: rl_frame_def)
  then have eq: "txctxs s' = txctxs s" "states s' = states s" "txcs s' = txcs s"
    by (cases s, cases s', simp)+
  show ?thesis
    unfolding tx_keeps_def eq using live assms by (auto simp: rl_frame_def same_links_def)
qed

lemma tx_quiet_frame:
  assumes "rl_frame s s'"
  shows "tx_quiet s s'"
proof -
  have "rl_mem.more s' = rl_mem.more s" using assms by (simp add: rl_frame_def)
  then have "rxctxs s' = rxctxs s" "vqs s' = vqs s" "states s' = states s" "txcs s' = txcs s" by (cases s, cases s', simp)+
  then show ?thesis using frame_live [OF assms] assms by (simp add: tx_quiet_def rl_frame_def)
qed

lemma tx_step_frame:
  assumes "rl_frame s s'" "\<And>Y. sched_inv Y s \<Longrightarrow> sched_inv Y s'"
  shows "tx_step d s s'"
  using assms tx_keeps_frame [OF assms(1)] tx_quiet_frame [OF assms(1)] by (simp add: tx_step_def rl_frame_def)

text \<open>
  \<open>iso_tx\<close> neither oopses nor divides by zero, and it leaves no queue with packets and tokens
  owed unscheduled.
\<close>

lemma iso_tx_spec:
  assumes ok: "tx_ok d s" and inv: "sched_inv Y s" and P: "tick_tunables (tun s)" "tick_interval (tun s)"
    and skb: "skb_ok s skb" and ex: "\<not> iso_exiting s" and K: "gso_documented K"
  shows "\<exists>v s'. iso_tx K skb d s = Some (v, s') \<and> tx_step d s s'"
proof -
  obtain s1 where s1: "iso_txc_tick d s = Some s1" "tx_step d s s1" using tick_step [OF ok P] by blast
  have ok1: "tx_ok d s1" using tx_step_ok [OF s1(2) ok] .
  have inv1: "sched_inv Y s1" "\<not> iso_exiting s1" "skb_ok s1 skb"
    using s1(2) inv ex skb by (simp_all add: tx_step_def skb_ok_def)
  obtain r where r: "iso_txc_find K (iso_txc_classify skb) d s1 = Some r"
    "\<And>t. r = Some t \<Longrightarrow> \<exists>txc. txcs s1 t = Some txc \<and> txc_ok s1 txc"
    using txc_find_total [OF ok1, of K "iso_txc_classify skb"] by blast
  show ?thesis
  proof (cases r)
    case None
    then show ?thesis using s1 r by (simp add: iso_tx_def)
  next
    case (Some t)
    with r(2) obtain txc where txc: "txcs s1 t = Some txc" "txc_ok s1 txc" by blast
    obtain u where u: "iso_state_get K t skb False False s1 = Some (u, s1)"
      "\<And>p. u = Some p \<Longrightarrow> \<exists>st q. state_of p s1 = Some st \<and> st_rl st = Some q \<and> rls s1 q \<noteq> None"
      using state_find_total [OF txc, of K skb False] by blast
    show ?thesis
    proof (cases u)
      case None
      then show ?thesis using Some s1 r u(1) by (simp add: iso_tx_def)
    next
      case u': (Some p)
      with u(2) obtain st q rl where q: "state_of p s1 = Some st" "st_rl st = Some q" "rls s1 q = Some rl"
        by blast
      obtain v s2 n s3 where e: "iso_rl_enqueue K q (iso_enable_ecn K skb) (this_cpu s1) s1 = Some (v, s2)"
        "iso_rl_dequeue 2 K q (this_cpu s1) s2 = Some (n, s3)" "rl_frame s1 s3"
        using send_spec [OF inv1(1) q(3) _ inv1(2) K] inv1(3) skb_ok_ecn by metis
      have "sched_inv Y' s3" if "sched_inv Y' s1" for Y'
        using send_spec [OF that q(3) _ inv1(2) K, of "iso_enable_ecn K skb" "this_cpu s1"] inv1(3) e(1,2)
        by (simp add: skb_ok_ecn)
      from tx_step_trans [OF s1(2) tx_step_frame [OF e(3) this]] have "tx_step d s s3" .
      moreover have "iso_tx K skb d s = Some (v, s3)"
        using Some u' s1(1) r(1) u(1) q e(1,2) by (simp add: iso_tx_def Let_def)
      ultimately show ?thesis by blast
    qed
  qed
qed

end
