(* ===== verification/TxShares.thy ===== *)
theory TxShares
  imports TxLaws
begin

text \<open>
  The rates of the transmit classes of a context: the guaranteed rates that
  \<open>iso_txc_recompute_rates\<close> (\<open>src/tx.h\<close>) hands out, and the rates that \<open>iso_txc_tick\<close>
  (\<open>src/tx.c\<close>) gives the limiters between them and the rate of the link.
\<close>

section \<open>Guaranteed rates\<close>

text \<open>The guaranteed rate of a class of weight \<open>w\<close> in a context of total weight \<open>W\<close>.\<close>

definition guarantee :: "tunables \<Rightarrow> int \<Rightarrow> iso_tx_class \<Rightarrow> u32" where
  "guarantee P W txc = of_int (txc_weight txc * ISO_MAX_TX_RATE P div W)"

definition weight_ok :: "tunables \<Rightarrow> iso_tx_class \<Rightarrow> bool" where
  "weight_ok P txc \<longleftrightarrow> 0 \<le> txc_weight txc \<and> txc_weight txc \<le> 1024 \<and>
     0 \<le> ISO_MAX_TX_RATE P \<and> ISO_MAX_TX_RATE P < 2 ^ 21"

lemma weight_ok_product:
  "weight_ok P txc \<Longrightarrow> 0 \<le> txc_weight txc * ISO_MAX_TX_RATE P \<and> txc_weight txc * ISO_MAX_TX_RATE P < 2 ^ 31"
proof -
  assume w: "weight_ok P txc"
  then have "txc_weight txc * ISO_MAX_TX_RATE P \<le> 1024 * (2 ^ 21 - 1)"
    by (intro mult_mono) (simp_all add: weight_ok_def)
  with w show ?thesis by (simp add: weight_ok_def)
qed

lemma uint_guarantee:
  assumes "weight_ok P txc" "0 < W"
  shows "uint (guarantee P W txc) = txc_weight txc * ISO_MAX_TX_RATE P div W"
proof -
  let ?x = "txc_weight txc * ISO_MAX_TX_RATE P"
  have x: "0 \<le> ?x" "?x < 2 ^ 31" using weight_ok_product [OF assms(1)] by auto
  have "?x div W \<le> ?x" using x(1) assms(2) zdiv_mono2 [of ?x 1 W] by simp
  moreover have "0 \<le> ?x div W" using x(1) assms(2) by (simp add: pos_imp_zdiv_nonneg_iff)
  ultimately show ?thesis using x(2) by (simp add: guarantee_def uint_of_int)
qed

text \<open>What one round does to the class and to its limiter.\<close>

definition guaranteed :: "int \<Rightarrow> nat set \<Rightarrow> 'z tx_mem_scheme \<Rightarrow> 'z tx_mem_scheme" where
  "guaranteed W ts s =
     s\<lparr>txcs := (\<lambda>t. if t \<in> ts then map_option (\<lambda>txc. txc\<lparr>min_rate := guarantee (tun s) W txc\<rparr>) (txcs s t)
                else txcs s t),
       rls := (\<lambda>p. case p of TxcRl t \<Rightarrow> if t \<in> ts then map_option (\<lambda>rl. rl\<lparr>rl_rate :=
                  static_cap (the (txcs s t)) (guarantee (tun s) W (the (txcs s t)))\<rparr>) (rls s p) else rls s p
                | _ \<Rightarrow> rls s p)\<rparr>"

lemma recompute_class_eq:
  assumes "txcs s t = Some txc" "rls s (TxcRl t) = Some rl" "weight_ok (tun s) txc" "0 < W"
  shows "recompute_class W t s = Some (guaranteed W {t} s)"
proof -
  have "s32 (txc_weight txc * ISO_MAX_TX_RATE (tun s)) = txc_weight txc * ISO_MAX_TX_RATE (tun s)"
    using weight_ok_product [OF assms(3)] by (intro s32_id) simp_all
  then have "sdiv32 (s32 (txc_weight txc * ISO_MAX_TX_RATE (tun s))) W =
      Some (txc_weight txc * ISO_MAX_TX_RATE (tun s) div W)"
    using weight_ok_product [OF assms(3)] assms(4) by (simp add: sdiv32_nonneg)
  moreover have "put_rl (TxcRl t) (rl\<lparr>rl_rate := static_cap txc (guarantee (tun s) W txc)\<rparr>)
      (put_txc t (txc\<lparr>min_rate := guarantee (tun s) W txc\<rparr>) s) = guaranteed W {t} s"
    using assms(1,2) by (auto simp: guaranteed_def fun_eq_iff split: rl_ptr.splits)
  ultimately show ?thesis using assms(1,2) by (simp add: recompute_class_def guarantee_def)
qed

definition classes_ok :: "nat set \<Rightarrow> 'z tx_mem_scheme \<Rightarrow> bool" where
  "classes_ok ts s \<longleftrightarrow> (\<forall>t \<in> ts. rls s (TxcRl t) \<noteq> None \<and>
     (\<exists>txc. txcs s t = Some txc \<and> weight_ok (tun s) txc))"

lemma guarantee_update [simp]: "guarantee P W (txc\<lparr>min_rate := x\<rparr>) = guarantee P W txc"
  "weight_ok P (txc\<lparr>min_rate := x\<rparr>) = weight_ok P txc" "static_cap (txc\<lparr>min_rate := x\<rparr>) r = static_cap txc r"
  by (simp_all add: guarantee_def weight_ok_def static_cap_def)

lemma fold_recompute:
  "classes_ok (set ts) s \<Longrightarrow> 0 < W \<Longrightarrow> foldM (recompute_class W) ts s = Some (guaranteed W (set ts) s)"
proof (induction ts arbitrary: s)
  case Nil
  have "s = guaranteed W {} s" by (simp add: guaranteed_def fun_eq_iff split: rl_ptr.split)
  then show ?case by simp
next
  case (Cons t ts)
  then obtain txc rl where t: "txcs s t = Some txc" "rls s (TxcRl t) = Some rl" "weight_ok (tun s) txc"
    by (auto simp: classes_ok_def)
  let ?s = "guaranteed W {t} s"
  have "classes_ok (set ts) ?s" using Cons.prems(1) by (auto simp: classes_ok_def guaranteed_def)
  then have "foldM (recompute_class W) ts ?s = Some (guaranteed W (set ts) ?s)" using Cons by simp
  moreover have "guaranteed W (set ts) ?s = guaranteed W (set (t # ts)) s"
    using t by (auto simp: guaranteed_def fun_eq_iff split: rl_ptr.splits)
  ultimately show ?case using recompute_class_eq [OF t] Cons.prems(2) by simp
qed

lemma recompute_rates_eq:
  assumes "txctxs s d = Some ctx" "classes_ok (set (txc_list ctx)) s" "0 < txc_total_weight ctx"
  shows "iso_txc_recompute_rates d s = Some (guaranteed (txc_total_weight ctx) (set (txc_list ctx)) s)"
  using assms by (simp add: iso_txc_recompute_rates_def fold_recompute)

lemma guaranteed_simps [simp]:
  "txctxs (guaranteed W ts s) = txctxs s" "tun (guaranteed W ts s) = tun s" "fresh (guaranteed W ts s) = fresh s"
  "states (guaranteed W ts s) = states s" "rlcbs (guaranteed W ts s) = rlcbs s"
  "rls (guaranteed W ts s) (DestRl a) = rls s (DestRl a)" "rls (guaranteed W ts s) (RlHead a) = rls s (RlHead a)"
  "(rls (guaranteed W ts s) p = None) = (rls s p = None)" "(txcs (guaranteed W ts s) t = None) = (txcs s t = None)"
  by (simp_all add: guaranteed_def split: rl_ptr.split)

text \<open>The guarantees fit into the link.\<close>

lemma guarantees_fit:
  assumes "txctxs s d = Some ctx" "classes_ok (set (txc_list ctx)) s"
    "txc_total_weight ctx = (\<Sum>t\<leftarrow>txc_list ctx. txc_weight (the (txcs s t)))" "0 < txc_total_weight ctx"
    "0 \<le> ISO_MAX_TX_RATE (tun s)"
  shows "\<exists>s'. iso_txc_recompute_rates d s = Some s' \<and>
    (\<forall>t \<in> set (txc_list ctx). uint (min_rate (the (txcs s' t))) =
       txc_weight (the (txcs s t)) * ISO_MAX_TX_RATE (tun s) div txc_total_weight ctx \<and>
       rl_rate (the (rls s' (TxcRl t))) = static_cap (the (txcs s t)) (min_rate (the (txcs s' t)))) \<and>
    (\<Sum>t\<leftarrow>txc_list ctx. uint (min_rate (the (txcs s' t)))) \<le> ISO_MAX_TX_RATE (tun s)"
proof -
  let ?ts = "txc_list ctx" and ?W = "txc_total_weight ctx" and ?M = "ISO_MAX_TX_RATE (tun s)"
  let ?w = "\<lambda>t. txc_weight (the (txcs s t))"
  let ?s = "guaranteed ?W (set ?ts) s"
  have t: "\<exists>txc rl. txcs s t = Some txc \<and> rls s (TxcRl t) = Some rl \<and> weight_ok (tun s) txc" if "t \<in> set ?ts" for t
    using assms(2) that by (auto simp: classes_ok_def)
  have rate: "uint (min_rate (the (txcs ?s t))) = ?w t * ?M div ?W \<and>
      rl_rate (the (rls ?s (TxcRl t))) = static_cap (the (txcs s t)) (min_rate (the (txcs ?s t)))"
    if "t \<in> set ?ts" for t
    using t [OF that] that uint_guarantee [OF _ assms(4)] by (auto simp: guaranteed_def)
  have "(\<Sum>t\<leftarrow>?ts. uint (min_rate (the (txcs ?s t)))) = (\<Sum>w\<leftarrow>map ?w ?ts. ?M * w div ?W)"
    using rate by (simp add: comp_def mult.commute cong: map_cong)
  also have "\<dots> \<le> ?M"
  proof (rule sum_shares)
    show "\<forall>w \<in> set (map ?w ?ts). 0 \<le> w" using t by (force simp: weight_ok_def)
  qed (use assms in simp_all)
  finally show ?thesis using recompute_rates_eq [OF assms(1,2,4)] rate by blast
qed

section \<open>Rates between updates\<close>

lemma uint_min_u64: "0 \<le> x \<Longrightarrow> x < 2 ^ 31 \<Longrightarrow>
    uint (ucast (min (of_int x :: u64) (ucast (r :: u32))) :: u32) = min x (uint r)"
proof -
  assume x: "0 \<le> x" "x < 2 ^ 31"
  have r: "uint (ucast r :: u64) = uint r"
    using uint_lt2p [of r] by (intro uint_ucast_bounded) simp
  have "uint (of_int x :: u64) = x" using x by (intro uint_of_int) simp_all
  then have m: "uint (min (of_int x :: u64) (ucast r)) = min x (uint r)" using r by (simp add: uint_min)
  have "min x (uint r) < 2 ^ 32" using x by simp
  then show ?thesis using m by (subst uint_ucast_bounded) simp_all
qed

lemma uint_minmax32:
  "uint (ucast (min (ucast a :: u64) (ucast (b :: u32))) :: u32) = min (uint (a :: u32)) (uint b)"
  "uint (ucast (max (ucast a :: u64) (ucast (b :: u32))) :: u32) = max (uint (a :: u32)) (uint b)"
proof -
  have u: "uint (ucast x :: u64) = uint x" "uint x < 2 ^ 32" for x :: u32
    using uint_lt2p [of x] by (simp_all add: uint_ucast_bounded)
  have m: "uint (min (ucast a :: u64) (ucast b)) = min (uint a) (uint b)"
    "uint (max (ucast a :: u64) (ucast b)) = max (uint a) (uint b)"
    by (simp_all only: uint_min uint_max u)
  show "uint (ucast (min (ucast a :: u64) (ucast b)) :: u32) = min (uint a) (uint b)"
    using m(1) u(2) [of a] by (subst uint_ucast_bounded) simp_all
  show "uint (ucast (max (ucast a :: u64) (ucast b)) :: u32) = max (uint a) (uint b)"
    using m(2) u(2) [of a] u(2) [of b] by (subst uint_ucast_bounded) simp_all
qed

lemma uint_static_cap:
  "uint (static_cap txc r) = (if txc_is_static txc \<noteq> 0 then min (uint (max_rate txc)) (uint r) else uint r)"
  by (simp add: static_cap_def uint_minmax32)

text \<open>The rate of a class: the weighted rate of the context, at least the guarantee, at most the
  link or the static rate.\<close>

lemma class_rate_eq:
  assumes "0 \<le> ISO_MAX_TX_RATE P" "ISO_MAX_TX_RATE P < 2 ^ 21" "0 \<le> txc_weight txc" "txc_weight txc \<le> 1024"
    "uint rate \<le> ISO_MAX_TX_RATE P"
  shows "uint (class_rate P rate txc) =
    (let r = max (uint (min_rate txc)) (min (ISO_MAX_TX_RATE P) (uint rate * txc_weight txc))
     in if txc_is_static txc \<noteq> 0 then min (uint (max_rate txc)) r else r)"
proof -
  have w: "uint (of_int (txc_weight txc) :: u32) = txc_weight txc" using assms by (intro uint_of_int) simp_all
  have "uint rate * txc_weight txc \<le> (2 ^ 21 - 1) * 1024" using assms by (intro mult_mono) simp_all
  then have p: "uint (rate * of_int (txc_weight txc)) = uint rate * txc_weight txc"
    using w by (subst uint_mult_bounded) simp_all
  have "ISO_MAX_TX_RATE P < 2 ^ 31" using assms(2) by simp
  then show ?thesis
    using assms(1) p by (simp add: class_rate_def Let_def uint_static_cap uint_minmax32 uint_min_u64)
qed

lemma tick_class_rates:
  assumes "tick_class dt rate t s = Some s'"
  shows "tun s' = tun s" "txctxs s' = txctxs s"
    "map_option (class_rate P r) (txcs s' x) = map_option (class_rate P r) (txcs s x)"
    "rl_rate (the (rls s' (TxcRl x))) =
       (if x = t then class_rate (tun s) rate (the (txcs s t)) else rl_rate (the (rls s (TxcRl x))))"
  using assms by (auto simp: tick_class_def Let_def class_rate_def static_cap_def split: Option.bind_splits)

lemma fold_tick_rates:
  assumes "foldM (tick_class dt rate) ts s = Some s'"
  shows "tun s' = tun s \<and> txctxs s' = txctxs s \<and>
    (\<forall>x. map_option (class_rate (tun s) rate) (txcs s' x) = map_option (class_rate (tun s) rate) (txcs s x)) \<and>
    (\<forall>x. rl_rate (the (rls s' (TxcRl x))) =
       (if x \<in> set ts \<and> txcs s x \<noteq> None then the (map_option (class_rate (tun s) rate) (txcs s x))
        else rl_rate (the (rls s (TxcRl x)))))"
  using assms
proof (induction ts arbitrary: s)
  case (Cons t ts)
  then obtain s1 where s1: "tick_class dt rate t s = Some s1" "foldM (tick_class dt rate) ts s1 = Some s'"
    by (auto split: Option.bind_splits)
  note r = tick_class_rates [OF s1(1)]
  have t: "txcs s t \<noteq> None" using s1(1) by (auto simp: tick_class_def split: Option.bind_splits)
  have same: "map_option (class_rate (tun s) rate) (txcs s1 x) = map_option (class_rate (tun s) rate) (txcs s x)" for x
    by (rule r(3))
  then have "(txcs s1 x = None) = (txcs s x = None)" for x by (metis map_option_is_None)
  then show ?case using Cons.IH [OF s1(2)] r(1,2,4) same t by auto
qed simp

text \<open>A due update under the lock.\<close>

definition tick_due :: "dev \<Rightarrow> 'z tx_mem_scheme \<Rightarrow> bool" where
  "tick_due d s \<longleftrightarrow> (\<exists>ctx. txctxs s d = Some ctx \<and> trylocks s (nlocks s) \<and>
     of_int (ISO_TXC_UPDATE_INTERVAL_US (tun s)) \<le>
       (of_int (ktime_us_delta (clock s (ticks s)) (txc_last_update_time ctx)) :: u64))"

lemma tick_sets_rates:
  assumes "iso_txc_tick d s = Some s'" "tick_due d s" "tick_tunables (tun s)"
  shows "\<exists>ctx ctx'. txctxs s d = Some ctx \<and> txctxs s' d = Some ctx' \<and> txc_list ctx' = txc_list ctx \<and>
    ISO_MIN_RFAIR (tun s) \<le> uint (ctx_rate ctx') \<and> uint (ctx_rate ctx') \<le> ISO_MAX_TX_RATE (tun s) \<and>
    (\<forall>t \<in> set (txc_list ctx). \<forall>txc. txcs s t = Some txc \<longrightarrow>
       rl_rate (the (rls s' (TxcRl t))) = class_rate (tun s) (ctx_rate ctx') txc)"
proof -
  obtain ctx where ctx: "txctxs s d = Some ctx" using assms(2) by (auto simp: tick_due_def)
  obtain s1 ctx1 dt w y where
    t: "foldM (tick_class dt w) (txc_list ctx) s1 = Some s'" "txctxs s1 d = Some ctx1" "ctx_rate ctx1 = w"
      "txc_list ctx1 = txc_list ctx" "tun s1 = tun s" "txcs s1 = txcs s" "tick_rate (tun s) (ctx_rate ctx) y = Some w"
    using assms(1,2) ctx
    by (auto simp: iso_txc_tick_def iso_txctx_accum_def tick_due_def ktime_get_def spin_trylock_def Let_def
        split: Option.bind_splits if_splits)
  note f = fold_tick_rates [OF t(1)]
  obtain w' where "tick_rate (tun s) (ctx_rate ctx) y = Some w'" "ISO_MIN_RFAIR (tun s) \<le> uint w'"
    "uint w' \<le> ISO_MAX_TX_RATE (tun s)"
    using tick_rate_bounds [OF assms(3), of "ctx_rate ctx" y] by blast
  then show ?thesis using ctx t f by auto
qed

end
