(* ===== verification/TxTable.thy ===== *)
theory TxTable
  imports TxShares
begin

text \<open>
  The table of transmit classes of a context (\<open>iso_txc_find\<close>, \<open>iso_txc_alloc\<close>,
  \<open>iso_txc_mark_install\<close>). A class can be installed while traffic flows: the construction of a class
  with its preallocated states and limiters keeps the invariants of the transmit path and of the
  scheduling. The classes implement the interface \<open>class_table\<close>.
\<close>

section \<open>The invariant\<close>

text \<open>Addresses that the allocator has not handed out are not in use.\<close>

definition unused :: "'z tx_mem_scheme \<Rightarrow> bool" where
  "unused s \<longleftrightarrow> (\<forall>x \<ge> fresh s. rls s (TxcRl x) = None \<and> rls s (DestRl x) = None \<and> states s x = None \<and>
     txcs s x = None)"

lemma unusedD:
  assumes "unused s" "fresh s \<le> x"
  shows "rls s (TxcRl x) = None" "rls s (DestRl x) = None" "states s x = None" "txcs s x = None"
  using assms by (simp_all add: unused_def)

definition tx_table :: "dev \<Rightarrow> 'z tx_mem_scheme \<Rightarrow> bool" where
  "tx_table d s \<longleftrightarrow> tx_ok d s \<and> sched_inv {} s \<and> unused s"

text \<open>A class stays well-formed while limiters and states are only added.\<close>

lemma txc_ok_mono:
  assumes "txc_ok s txc" "\<And>p. rls s p \<noteq> None \<Longrightarrow> rls s' p \<noteq> None"
    "\<And>x. states s x \<noteq> None \<Longrightarrow> states s' x = states s x"
  shows "txc_ok s' txc"
proof -
  note d = txc_okD [OF assms(1)]
  have 1: "\<exists>st p. states s' x = Some st \<and> st_rl st = Some p \<and> rls s' p \<noteq> None" if x: "x \<in> set (state_bucket txc j)" for x j
  proof -
    obtain st p where "states s x = Some st" "st_rl st = Some p" "rls s p \<noteq> None" using d(1) [OF x] by blast
    then show ?thesis using assms(2) [of p] assms(3) [of x] by simp
  qed
  have 2: "states s' x \<noteq> None" if "x \<in> set (prealloc_state_list txc)" for x using d(2) [OF that] assms(3) [of x] by simp
  show ?thesis unfolding txc_ok_def using 1 2 assms(2) [OF d(3)] assms(2) [OF d(4)] by (intro conjI allI ballI)
qed

text \<open>A new limiter has empty queues and is on no active list.\<close>

lemma sched_inv_new_rl:
  assumes inv: "sched_inv Y s" and p: "rls s p = None" and cb: "rlcbs s (rl_rlcb rl) \<noteq> None"
    and q: "rl_queue rl = (\<lambda>_. queue_init)"
    and parent: "\<And>t. rl_txc rl = Some t \<Longrightarrow> \<exists>prl. rls s (TxcRl t) = Some prl \<and> rl_txc prl = None"
    and root: "\<And>t. p = TxcRl t \<Longrightarrow> rl_txc rl = None"
  shows "sched_inv Y (put_rl p rl s)"
proof -
  let ?s = "put_rl p rl s"
  have cbs: "cb_sched ?s = cb_sched s" by (rule cb_sched_same) simp
  have sh: "shape ?s x = (if x = p then Some (rl_txc rl, rl_rlcb rl) else shape s x)" for x
    by (simp add: shape_def)
  have i: "queues_inv s" "links_inv s" "active_inv s" "backlog_inv {} s" "sane_queue_limit s"
    using inv by (simp_all add: sched_inv_def heap_inv_def)
  have ok: "queue_inv ?s = queue_inv s" by (simp add: queue_inv_def skb_ok_def fun_eq_iff)
  have q1: "queues_inv ?s"
    using i(1) by (auto simp: queues_inv_def ok q queue_inv_def [of s queue_init])
      (simp add: queue_init_def)
  have par: "\<exists>d'. shape ?s (TxcRl t) = Some (None, d')" if t: "rl_txc rl = Some t" for t
  proof -
    obtain prl where prl: "rls s (TxcRl t) = Some prl" "rl_txc prl = None" using parent [OF t] by blast
    with p have "TxcRl t \<noteq> p" by auto
    with prl show ?thesis by (simp add: shape_def)
  qed
  have old: "\<exists>d'. shape ?s (TxcRl t) = Some (None, d')" if "shape s (TxcRl t) = Some (None, d')" for t d'
    using that p by (auto simp: shape_def)
  have q2: "links_inv ?s" unfolding links_inv_def
  proof (intro allI impI)
    fix x t d assume x: "shape ?s x = Some (t, d)"
    show "rlcbs ?s d \<noteq> None \<and> (\<forall>t'. t = Some t' \<longrightarrow> (\<exists>d'. shape ?s (TxcRl t') = Some (None, d'))) \<and>
        (\<forall>y. x = TxcRl y \<longrightarrow> t = None)"
    proof (cases "x = p")
      case True
      then show ?thesis using x cb par root by (auto simp: sh)
    next
      case False
      then have "shape s x = Some (t, d)" using x by (simp add: sh)
      then have "rlcbs s d \<noteq> None \<and> (\<forall>t'. t = Some t' \<longrightarrow> (\<exists>d'. shape s (TxcRl t') = Some (None, d'))) \<and>
          (\<forall>y. x = TxcRl y \<longrightarrow> t = None)"
        using i(2) unfolding links_inv_def by blast
      then show ?thesis using old by auto
    qed
  qed
  have q3: "active_inv ?s"
    using i(3) p unfolding active_inv_def cbs by (metis sh option.distinct(1) shape_None)
  have bl: "backlogged ?s x c \<Longrightarrow> x \<noteq> p \<and> backlogged s x c" for x c
    by (auto simp: backlogged_def queue_at_def q queue_init_def split: if_splits)
  have at: "active_at ?s x c" if "active_at s x c" "x \<noteq> p" for x c
    using that by (simp add: active_at_def cbs sh)
  have q4: "backlog_inv {} ?s" using i(4) bl at unfolding backlog_inv_def by blast
  have "timer_inv Y ?s" using inv by (simp add: sched_inv_def timer_inv_def cbs)
  then show ?thesis using q1 q2 q3 q4 i(5) by (simp add: sched_inv_def heap_inv_def sane_queue_limit_def)
qed

section \<open>Construction of a class\<close>

text \<open>
  The state while states and limiters are added to class \<open>t\<close> of the context of \<open>d\<close>: the other classes,
  limiters and states are untouched, and the class is well-formed.
\<close>

definition building :: "dev \<Rightarrow> nat \<Rightarrow> iso_class_t \<Rightarrow> 'z tx_mem_scheme \<Rightarrow> 'z tx_mem_scheme \<Rightarrow> bool" where
  "building d t k s0 s \<longleftrightarrow>
     tun s = tun s0 \<and> iso_exiting s = iso_exiting s0 \<and> txctx_xmit s = txctx_xmit s0 \<and>
     this_cpu s = this_cpu s0 \<and> txctxs s = txctxs s0 \<and> rlcbs s = rlcbs s0 \<and> vqs s = vqs s0 \<and>
     rxctxs s = rxctxs s0 \<and> fresh s0 \<le> fresh s \<and>
     t < fresh s \<and> unused s \<and> sched_inv {} s \<and>
     (\<forall>x. x \<noteq> t \<longrightarrow> txcs s x = txcs s0 x) \<and> (\<forall>x. states s0 x \<noteq> None \<longrightarrow> states s x = states s0 x) \<and>
     (\<forall>p. rls s0 p \<noteq> None \<longrightarrow> rls s p = rls s0 p) \<and>
     (\<exists>rl. rls s (TxcRl t) = Some rl \<and> rl_txc rl = None) \<and>
     (\<exists>txc. txcs s t = Some txc \<and> txc_klass txc = k \<and> txc_txctx txc = d \<and> txc_ok s txc)"

lemma unused_put:
  "unused s \<Longrightarrow> x < fresh s \<Longrightarrow> unused (put_rl (TxcRl x) rl s)"
  "unused s \<Longrightarrow> x < fresh s \<Longrightarrow> unused (put_rl (DestRl x) rl s)"
  "unused s \<Longrightarrow> x < fresh s \<Longrightarrow> unused (put_state x st s)"
  "unused s \<Longrightarrow> x < fresh s \<Longrightarrow> unused (put_txc x txc s)"
  by (simp_all add: unused_def)

lemma kmalloc_keeps:
  assumes "sched_inv Y s" "unused s"
  shows "sched_inv Y (s\<lparr>nallocs := n\<rparr>)" "unused (s\<lparr>nallocs := n\<rparr>)"
    "sched_inv Y (s\<lparr>nallocs := n, fresh := Suc (fresh s)\<rparr>)" "unused (s\<lparr>nallocs := n, fresh := Suc (fresh s)\<rparr>)"
  using assms sched_inv_same [of "s\<lparr>nallocs := n\<rparr>" s Y]
    sched_inv_same [of "s\<lparr>nallocs := n, fresh := Suc (fresh s)\<rparr>" s Y]
  by (simp_all add: unused_def)

lemma rl_init_cases:
  "iso_rl_init d s = Some (rl, s') \<Longrightarrow> rl_queue rl = (\<lambda>_. queue_init) \<and> rl_txc rl = None \<and> rl_rlcb rl = d \<and>
     s' = s\<lparr>ticks := Suc (Suc (ticks s)), nallocs := Suc (nallocs s)\<rparr>"
  by (auto simp: iso_rl_init_def ktime_get_def alloc_percpu_def Let_def split: if_splits)

lemma state_init_cases:
  "\<exists>st'. iso_state_init st s = (st', s\<lparr>ticks := Suc (Suc (Suc (ticks s)))\<rparr>)"
  by (simp add: iso_state_init_def iso_rc_init_def ktime_get_def Let_def)

lemma unused_env [simp]: "unused (s\<lparr>ticks := n\<rparr>) = unused s" "unused (s\<lparr>nallocs := m\<rparr>) = unused s"
  by (simp_all add: unused_def)

lemma unused_fresh: "unused s \<Longrightarrow> unused (s\<lparr>fresh := Suc (fresh s)\<rparr>)"
  by (simp add: unused_def)

lemma sched_inv_env:
  "sched_inv Y (s\<lparr>ticks := n\<rparr>) = sched_inv Y s" "sched_inv Y (s\<lparr>nallocs := m\<rparr>) = sched_inv Y s"
  "sched_inv Y (s\<lparr>fresh := i\<rparr>) = sched_inv Y s" "sched_inv Y (s\<lparr>states := x\<rparr>) = sched_inv Y s"
  "sched_inv Y (s\<lparr>txcs := y\<rparr>) = sched_inv Y s" "sched_inv Y (s\<lparr>txctxs := z\<rparr>) = sched_inv Y s"
  by (rule sched_inv_same; simp)+

lemma building_cong:
  assumes "building d t k s0 s" "tun s' = tun s" "iso_exiting s' = iso_exiting s" "txctx_xmit s' = txctx_xmit s"
    "this_cpu s' = this_cpu s" "txctxs s' = txctxs s" "rlcbs s' = rlcbs s" "vqs s' = vqs s" "txcs s' = txcs s"
    "states s' = states s" "rls s' = rls s" "fresh s \<le> fresh s'" "rxctxs s' = rxctxs s"
  shows "building d t k s0 s'"
proof -
  have "sched_inv {} s'" using sched_inv_same [OF assms(2,11,7,4)] assms(1) by (simp add: building_def)
  then show ?thesis
    using assms unfolding building_def by (simp add: unused_def txc_ok_def)
qed

text \<open>One more state and limiter.\<close>

lemma building_more:
  assumes b: "building d t k s0 s" and d: "rlcbs s0 d \<noteq> None" and txc: "txcs s t = Some txc"
    and new: "states s i = None" "rls s (DestRl a) = None" "i < fresh s" "a < fresh s"
    and rl: "rl_queue rl = (\<lambda>_. queue_init)" "rl_rlcb rl = d"
  shows "building d t k s0 (put_txc t (txc\<lparr>freelist_count := n,
      prealloc_state_list := prealloc_state_list txc @ [i],
      prealloc_rl_list := prealloc_rl_list txc @ [DestRl a]\<rparr>)
    (put_rl (DestRl a) (rl\<lparr>rl_txc := Some t\<rparr>) (put_state i st s)))" (is "building _ _ _ _ (put_txc t ?txc ?s)")
proof -
  let ?u = "put_txc t ?txc ?s"
  have s1: "sched_inv {} ?s"
    by (rule sched_inv_new_rl) (use b new rl d in \<open>auto simp: building_def sched_inv_env\<close>)
  then have s2: "sched_inv {} ?u" by (simp only: sched_inv_env)
  have "unused ?s" using b new by (intro unused_put) (simp_all add: building_def)
  then have u: "unused ?u" using b by (intro unused_put(4)) (simp_all add: building_def)
  have "txc_ok s txc" using b txc by (simp add: building_def)
  then have "txc_ok ?u txc" by (rule txc_ok_mono) (use new(1) in \<open>auto split: if_splits\<close>)
  then have ok: "txc_ok ?u ?txc" by (auto simp: txc_ok_def)
  show ?thesis unfolding building_def
  proof (intro conjI)
    show "\<exists>txc. txcs ?u t = Some txc \<and> txc_klass txc = k \<and> txc_txctx txc = d \<and> txc_ok ?u txc"
      using b txc ok by (auto simp: building_def)
    have keep: "\<And>p. rls s0 p \<noteq> None \<Longrightarrow> rls s p = rls s0 p" using b by (simp add: building_def)
    then have "rls s0 (DestRl a) = None" using new(2) by metis
    with keep show "\<forall>p. rls s0 p \<noteq> None \<longrightarrow> rls ?u p = rls s0 p" by auto
    have st: "\<And>x. states s0 x \<noteq> None \<Longrightarrow> states s x = states s0 x" using b by (simp add: building_def)
    then have "states s0 i = None" using new(1) by metis
    with st show "\<forall>x. states s0 x \<noteq> None \<longrightarrow> states ?u x = states s0 x" by auto
  qed (use s2 u b new in \<open>simp_all add: building_def\<close>)
qed

lemma prealloc_building:
  "building d t k s0 s \<Longrightarrow> rlcbs s0 d \<noteq> None \<Longrightarrow> iso_txc_prealloc t n s = Some s' \<Longrightarrow> building d t k s0 s'"
proof (induction n arbitrary: s)
  case (Suc n)
  note b = Suc.prems(1)
  note cong = building_cong [OF b]
  show ?case
  proof (cases "allocs s (nallocs s) \<and> allocs s (Suc (nallocs s)) \<and> allocs s (Suc (Suc (nallocs s)))")
    case False
    then show ?thesis
      using Suc.prems(3) by (auto simp: kmalloc_def alloc_percpu_def Let_def split: if_splits intro!: cong)
  next
    case True
    let ?b = "s\<lparr>nallocs := Suc (Suc (Suc (nallocs s))), fresh := Suc (Suc (fresh s)),
      ticks := Suc (Suc (Suc (ticks s)))\<rparr>"
    obtain st where st: "iso_state_init state_raw (s\<lparr>nallocs := Suc (Suc (Suc (nallocs s))),
        fresh := Suc (Suc (fresh s))\<rparr>) = (st, ?b)"
      using state_init_cases [of state_raw "s\<lparr>nallocs := Suc (Suc (Suc (nallocs s))), fresh := Suc (Suc (fresh s))\<rparr>"]
      by auto
    obtain txc where txc: "txcs s t = Some txc" "txc_txctx txc = d" using b by (auto simp: building_def)
    then obtain rl s1 where rl: "iso_rl_init d ?b = Some (rl, s1)"
      using Suc.prems(3) True st
      by (auto simp: kmalloc_def alloc_percpu_def Let_def split: Option.bind_splits)
    note r = rl_init_cases [OF rl]
    let ?u = "put_txc t (txc\<lparr>freelist_count := s32 (freelist_count txc + 1),
        prealloc_state_list := prealloc_state_list txc @ [fresh s],
        prealloc_rl_list := prealloc_rl_list txc @ [DestRl (Suc (fresh s))]\<rparr>)
      (put_rl (DestRl (Suc (fresh s))) (rl\<lparr>rl_txc := Some t\<rparr>) (put_state (fresh s) st s1))"
    have b1: "building d t k s0 s1" by (rule cong) (use r in simp_all)
    have u: "unused s" "t < fresh s" using b by (simp_all add: building_def)
    have "building d t k s0 ?u"
      by (rule building_more [OF b1 Suc.prems(2)])
        (use txc r u unusedD(2,3) [OF u(1)] in simp_all)
    moreover have "iso_txc_prealloc t n ?u = Some s'"
      using Suc.prems(3) True st txc rl r
      by (auto simp: kmalloc_def alloc_percpu_def Let_def split: Option.bind_splits)
    ultimately show ?thesis using Suc.IH Suc.prems(2) by blast
  qed
qed simp

lemma txc_init_building:
  assumes "unused s" "sched_inv {} s" "rlcbs s d \<noteq> None" "t = fresh s" "s1 = s\<lparr>nallocs := n, fresh := Suc t\<rparr>"
    "iso_txc_init t d k s1 = Some s2"
  shows "building d t k s s2"
proof -
  obtain rl s3 where rl: "iso_rl_init d s1 = Some (rl, s3)"
    "s2 = put_rl (TxcRl t) rl (put_txc t (txc_new (tun s3) d k) s3)"
    using assms(6) by (auto simp: iso_txc_init_def split: Option.bind_splits)
  note r = rl_init_cases [OF rl(1)]
  have k: "sched_inv {} s3" "unused s3"
    using r assms(1,2,4,5) unused_fresh [of s] by (simp_all add: sched_inv_env)
  let ?s = "put_txc t (txc_new (tun s3) d k) s3"
  have none: "rls s (TxcRl t) = None" using unusedD(1) [OF assms(1)] assms(4) by simp
  have "sched_inv {} s2" unfolding rl(2)
    by (rule sched_inv_new_rl) (use k r none assms(3,5) in \<open>simp_all add: sched_inv_env\<close>)
  moreover have "unused s2" unfolding rl(2)
    by (intro unused_put) (use k r assms(5) in simp_all)
  ultimately show ?thesis
    unfolding building_def using rl(2) r none assms(4,5) by (auto simp: txc_ok_def txc_new_def)
qed

lemma recompute_inv:
  assumes "\<And>W t u u'. I u \<Longrightarrow> recompute_class W t u = Some u' \<Longrightarrow> I u'" "I s"
    "iso_txc_recompute_rates d s = Some s'"
  shows "I s'"
proof -
  obtain ctx where "txctxs s d = Some ctx" "s' = s \<or> foldM (recompute_class (txc_total_weight ctx)) (txc_list ctx) s = Some s'"
    using assms(3) by (auto simp: iso_txc_recompute_rates_def split: Option.bind_splits if_splits)
  then consider "s' = s" | "foldM (recompute_class (txc_total_weight ctx)) (txc_list ctx) s = Some s'" by blast
  then show ?thesis
  proof cases
    case 2
    show ?thesis by (rule foldM_inv [where I = I, OF _ assms(2) 2]) (rule assms(1))
  qed (use assms(2) in simp)
qed

lemma recompute_klass:
  assumes "iso_txc_recompute_rates d s = Some s'"
  shows "map_option txc_klass (txcs s' t) = map_option txc_klass (txcs s t)"
  by (rule recompute_inv [OF _ _ assms]) (auto simp: recompute_class_def Let_def split: Option.bind_splits)

lemma recompute_step:
  assumes "iso_txc_recompute_rates d s = Some s'"
  shows "tx_step d s s' \<and> txctxs s' = txctxs s \<and> fresh s' = fresh s \<and> states s' = states s \<and>
    (unused s \<longrightarrow> unused s') \<and> vqs s' = vqs s"
proof -
  let ?I = "\<lambda>u. tx_step d s u \<and> txctxs u = txctxs s \<and> fresh u = fresh s \<and> states u = states s \<and>
    (unused s \<longrightarrow> unused u) \<and> vqs u = vqs s"
  have step: "?I u'" if I: "?I u" and c: "recompute_class W t u = Some u'" for W t u u'
  proof -
    obtain txc rl r where o: "txcs u t = Some txc" "rls u (TxcRl t) = Some rl"
      "u' = (put_txc t (txc\<lparr>min_rate := of_int r\<rparr>) u)\<lparr>rls := (rls u)(TxcRl t \<mapsto> rl\<lparr>rl_rate := static_cap txc (of_int r)\<rparr>)\<rparr>"
      using c by (auto simp: recompute_class_def Let_def split: Option.bind_splits)
    have "tx_step d u u'" unfolding o(3)
      by (rule tx_step_put_class [OF o(1) _ o(2)]) (simp_all add: same_links_def)
    then have tr: "tx_step d s u'" using I tx_step_trans by blast
    have un: "unused u'" if "unused u"
    proof -
      have "t < fresh u" using o(1) unusedD(4) [OF that, of t] by (cases "fresh u \<le> t") auto
      then show ?thesis using that by (auto simp: o(3) unused_def)
    qed
    have "txctxs u' = txctxs u" "fresh u' = fresh u" "states u' = states u" "vqs u' = vqs u" by (simp_all add: o(3))
    then show ?thesis using I tr un by simp
  qed
  show ?thesis by (rule recompute_inv [where I = ?I, OF step _ assms]) (assumption | simp)+
qed

lemma linked_table:
  assumes ok: "tx_ok d s" and ctx: "txctxs s d = Some ctx" and b: "building d (fresh s) k s s3"
    and ctx': "iso_tx_bucket ctx' = (iso_tx_bucket ctx)(i := fresh s # iso_tx_bucket ctx i)"
      "txc_list ctx' = txc_list ctx @ [fresh s]"
  shows "tx_table d (put_txctx d ctx' s3)"
proof -
  let ?s = "put_txctx d ctx' s3"
  have rl: "rls ?s p \<noteq> None" if "rls s p \<noteq> None" for p using b that by (simp add: building_def)
  have st: "states ?s x = states s x" if "states s x \<noteq> None" for x using b that by (simp add: building_def)
  have txc: "txc_ok ?s txc" if "txc_ok s txc" for txc using that rl st by (rule txc_ok_mono)
  have lt: "fresh s < fresh ?s" using b by (simp add: building_def)
  have old: "t < fresh ?s \<and> rls ?s (TxcRl t) \<noteq> None \<and> (\<exists>txc. txcs ?s t = Some txc \<and> txc_ok ?s txc \<and> txc_txctx txc = d)"
    if t: "t \<in> set (txc_list ctx)" for t
  proof -
    have t': "t < fresh s" "rls s (TxcRl t) \<noteq> None" using tx_okD(3,4) [OF ok ctx t] by auto
    moreover have "txcs ?s t = txcs s t" using b t' by (simp add: building_def)
    ultimately show ?thesis using tx_okD(5) [OF ok ctx t] rl [of "TxcRl t"] txc lt by auto
  qed
  have new: "\<exists>txc. txcs ?s (fresh s) = Some txc \<and> txc_ok ?s txc \<and> txc_txctx txc = d" "rls ?s (TxcRl (fresh s)) \<noteq> None"
    using b by (auto simp: building_def txc_ok_def)
  have bucket: "set (iso_tx_bucket ctx' j) \<subseteq> set (txc_list ctx')" for j
    using tx_okD(2) [OF ok ctx, of j] by (auto simp: ctx')
  have "tx_ok d ?s"
    unfolding tx_ok_def
  proof (intro exI [of _ ctx'] conjI allI ballI bucket)
    show "rlcbs ?s d \<noteq> None" using tx_okD(1) [OF ok ctx] b by (simp add: building_def)
  qed (use old new lt in \<open>auto simp: ctx'(2) simp del: not_None_eq\<close>)
  moreover have "sched_inv {} ?s" "unused ?s" using b by (simp_all add: building_def sched_inv_env unused_def)
  ultimately show ?thesis by (simp add: tx_table_def)
qed

text \<open>The result of \<open>iso_txc_alloc\<close>.\<close>

lemma txc_alloc_cases:
  assumes inv: "tx_table d s" and a: "iso_txc_alloc K k d s = Some (r, s')"
  obtains (fail) n where "r = None" "s' = s\<lparr>nallocs := n\<rparr>"
  | (ok) ctx ctx' where "r = Some (fresh s)" "txctxs s d = Some ctx" "tx_table d s'" "txctxs s' d = Some ctx'"
      "iso_tx_bucket ctx' = (iso_tx_bucket ctx)(txc_index K k := fresh s # iso_tx_bucket ctx (txc_index K k))"
      "txc_list ctx' = txc_list ctx @ [fresh s]"
      "\<And>t. t \<noteq> fresh s \<Longrightarrow> map_option txc_klass (txcs s' t) = map_option txc_klass (txcs s t)"
      "map_option txc_klass (txcs s' (fresh s)) = Some k" "tun s' = tun s" "iso_exiting s' = iso_exiting s"
      "txctx_xmit s' = txctx_xmit s" "this_cpu s' = this_cpu s" "vqs s' = vqs s" "rxctxs s' = rxctxs s"
      "fresh s \<le> fresh s'"
proof (cases "allocs s (nallocs s)")
  case False
  then show thesis using a fail [of "Suc (nallocs s)"] by (simp add: iso_txc_alloc_def kmalloc_def)
next
  case True
  let ?t = "fresh s" and ?i = "txc_index K k"
  let ?s1 = "s\<lparr>nallocs := Suc (nallocs s), fresh := Suc (fresh s)\<rparr>"
  have i: "tx_ok d s" "sched_inv {} s" "unused s" using inv by (simp_all add: tx_table_def)
  obtain ctx where ctx: "txctxs s d = Some ctx" using i(1) by (auto simp: tx_ok_def)
  note d = tx_okD(1) [OF i(1) ctx]
  obtain s2 s3 txc where s3: "iso_txc_init ?t d k ?s1 = Some s2" "iso_txc_prealloc ?t 32 s2 = Some s3"
    "txcs s3 ?t = Some txc"
    using a True by (auto simp: iso_txc_alloc_def kmalloc_def split: Option.bind_splits)
  have b: "building d ?t k s s3"
    using txc_init_building [OF i(3,2) d refl refl s3(1)] d s3(2) by (rule prealloc_building)
  let ?ctx = "ctx\<lparr>iso_tx_bucket := (iso_tx_bucket ctx)(?i := ?t # iso_tx_bucket ctx ?i),
      txc_list := txc_list ctx @ [?t], txc_total_weight := s32 (txc_total_weight ctx + txc_weight txc)\<rparr>"
  let ?s4 = "put_txctx d ?ctx s3"
  have c3: "txctxs s3 = txctxs s" using b by (simp add: building_def)
  have r: "r = Some ?t" "iso_txc_recompute_rates d ?s4 = Some s'"
    using a True s3 ctx c3 by (auto simp: iso_txc_alloc_def kmalloc_def Let_def split: Option.bind_splits)
  note st = recompute_step [OF r(2)]
  have t4: "tx_table d ?s4"
    by (rule linked_table [OF i(1) ctx b]) simp_all
  have "tx_table d s'"
    using t4 st by (auto simp: tx_table_def tx_step_def tx_ok_keeps)
  moreover have "map_option txc_klass (txcs s' t) = map_option txc_klass (txcs s3 t)" for t
    using st recompute_klass [OF r(2), of t] by simp
  ultimately show thesis
    using st b ctx c3 by (intro ok [OF r(1) ctx]) (auto simp: building_def tx_step_def tx_quiet_def)
qed

section \<open>The table\<close>

lemma tx_find_total: "tx_table d s \<Longrightarrow> iso_txc_find K k d s \<noteq> None"
  using txc_find_total [of d s K k] by (auto simp: tx_table_def)

lemma tx_table_nallocs: "tx_table d s \<Longrightarrow> tx_table d (s\<lparr>nallocs := n\<rparr>)"
proof -
  have "tx_keeps d s (s\<lparr>nallocs := n\<rparr>)" by (simp add: tx_keeps_def same_links_def)
  then show "tx_table d s \<Longrightarrow> tx_table d (s\<lparr>nallocs := n\<rparr>)"
    by (auto simp: tx_table_def sched_inv_env tx_ok_keeps)
qed

lemma tx_table_alloc:
  assumes "tx_table d s" "iso_txc_alloc K k d s = Some (r, s')"
  shows "tx_table d s'"
  using assms by (cases rule: txc_alloc_cases) (use tx_table_nallocs [OF assms(1)] in auto)

lemma txc_has_class_cong:
  "map_option txc_klass (txcs s' t) = map_option txc_klass (txcs s t) \<Longrightarrow>
     txc_has_class k s' t = txc_has_class k s t"
  by (cases "txcs s t"; cases "txcs s' t") (simp_all add: txc_has_class_def)

lemma tx_alloc_find:
  assumes "tx_table d s" "iso_txc_alloc K k d s = Some (r, s')"
  shows "iso_txc_find K k' d s' = (if k' = k \<and> r \<noteq> None then Some r else iso_txc_find K k' d s)"
  using assms
proof (cases rule: txc_alloc_cases)
  case (fail n)
  then show ?thesis by (simp add: iso_txc_find_def txc_has_class_def cong: hlist_find_cong)
next
  case (ok ctx ctx')
  have lt: "t < fresh s" if "t \<in> set (iso_tx_bucket ctx i)" for t i
    using that assms(1) tx_okD(2,4) [of d s ctx] ok(2) by (auto simp: tx_table_def)
  have "txc_has_class k' s' t = txc_has_class k' s t" if "t \<in> set (iso_tx_bucket ctx i)" for t i
    using lt [OF that] by (intro txc_has_class_cong ok(7)) simp
  then have find_old: "hlist_find (txc_has_class k' s') (iso_tx_bucket ctx i) =
      hlist_find (txc_has_class k' s) (iso_tx_bucket ctx i)" for i
    by (intro hlist_find_cong)
  obtain txc where "txcs s' (fresh s) = Some txc" "txc_klass txc = k" using ok(8) by auto
  then have new: "txc_has_class k' s' (fresh s) = Some (k' = k)" by (auto simp: txc_has_class_def)
  show ?thesis
    using ok(1,2,4,5) find_old new by (cases "k' = k") (simp_all add: iso_txc_find_def)
qed

interpretation tx_classes: class_table "tx_table d" "\<lambda>k. iso_txc_find K k d"
  "\<lambda>k. iso_txc_alloc K k d" "\<lambda>k. txc_install_class K k d" for K d
proof (unfold_locales, goal_cases)
  case (4 s k)
  then show ?case
    using tx_find_total [OF 4, of K k]
    by (auto simp: txc_install_class_def split: option.splits Option.bind_splits)
qed (simp_all add: tx_find_total tx_table_alloc tx_alloc_find)

section \<open>With memory at hand an installation succeeds\<close>

lemma prealloc_total:
  assumes "txcs s t = Some txc" "txctxs s (txc_txctx txc) \<noteq> None" "allocs s = (\<lambda>_. True)"
  shows "\<exists>s' txc'. iso_txc_prealloc t n s = Some s' \<and> txcs s' t = Some txc' \<and> txctxs s' = txctxs s \<and>
    allocs s' = allocs s"
  using assms
proof (induction n arbitrary: s txc)
  case (Suc n)
  let ?b = "s\<lparr>nallocs := Suc (Suc (Suc (nallocs s))), fresh := Suc (Suc (fresh s))\<rparr>"
  obtain st where st: "iso_state_init state_raw ?b = (st, ?b\<lparr>ticks := Suc (Suc (Suc (ticks ?b)))\<rparr>)"
    using state_init_cases by blast
  let ?c = "?b\<lparr>ticks := Suc (Suc (Suc (ticks ?b)))\<rparr>"
  obtain rl c where rl: "iso_rl_init (txc_txctx txc) ?c = Some (rl, c)"
    using Suc.prems(3) by (simp add: iso_rl_init_def ktime_get_def alloc_percpu_def Let_def)
  note r = rl_init_cases [OF rl]
  define u where "u = put_txc t (txc\<lparr>freelist_count := s32 (freelist_count txc + 1),
        prealloc_state_list := prealloc_state_list txc @ [fresh s],
        prealloc_rl_list := prealloc_rl_list txc @ [DestRl (Suc (fresh s))]\<rparr>)
      (put_rl (DestRl (Suc (fresh s))) (rl\<lparr>rl_txc := Some t\<rparr>) (put_state (fresh s) st c))"
  have e: "iso_txc_prealloc t (Suc n) s = iso_txc_prealloc t n u"
    using Suc.prems st rl r by (auto simp: kmalloc_def alloc_percpu_def Let_def u_def)
  have "\<exists>txcu. txcs u t = Some txcu \<and> txc_txctx txcu = txc_txctx txc" by (simp add: u_def)
  then obtain txcu where txcu: "txcs u t = Some txcu" "txc_txctx txcu = txc_txctx txc" by blast
  have "\<exists>s' txc'. iso_txc_prealloc t n u = Some s' \<and> txcs s' t = Some txc' \<and> txctxs s' = txctxs u \<and> allocs s' = allocs u"
    by (rule Suc.IH [OF txcu(1)]) (use Suc.prems r txcu(2) in \<open>simp_all add: u_def\<close>)
  then show ?case using r unfolding e by (simp add: u_def)
qed auto

lemma recompute_total:
  assumes "tx_ok d s"
  shows "iso_txc_recompute_rates d s \<noteq> None"
proof -
  obtain ctx where ctx: "txctxs s d = Some ctx" using assms by (auto simp: tx_ok_def)
  let ?I = "\<lambda>u. \<forall>t \<in> set (txc_list ctx). txcs u t \<noteq> None \<and> rls u (TxcRl t) \<noteq> None"
  have "\<exists>u'. recompute_class W t u = Some u' \<and> ?I u'" if h: "t \<in> set (txc_list ctx)" "?I u" "W \<noteq> 0" for W t u
  proof -
    obtain txc rl where "txcs u t = Some txc" "rls u (TxcRl t) = Some rl" using h(1,2) by blast
    then show ?thesis using h by (simp add: recompute_class_def sdiv32_def Let_def)
  qed
  note step = this
  have I: "?I s" using tx_okD(3,5) [OF assms ctx] by blast
  have "\<exists>u. foldM (recompute_class W) (txc_list ctx) s = Some u \<and> ?I u" if "W \<noteq> 0" for W
    by (rule foldM_total [where I = ?I, OF _ I]) (rule step [OF _ _ that])
  then show ?thesis using ctx by (auto simp: iso_txc_recompute_rates_def)
qed

lemma tx_install_succeeds:
  assumes "tx_table d s" "iso_txc_find K k d s = Some None" "allocs s = (\<lambda>_. True)"
  shows "\<exists>s'. txc_install_class K k d s = Some (0, s')"
proof -
  let ?t = "fresh s" and ?s1 = "s\<lparr>nallocs := Suc (nallocs s), fresh := Suc (fresh s)\<rparr>"
  have i: "tx_ok d s" "sched_inv {} s" "unused s" using assms(1) by (simp_all add: tx_table_def)
  obtain ctx where ctx: "txctxs s d = Some ctx" using i(1) by (auto simp: tx_ok_def)
  note d = tx_okD(1) [OF i(1) ctx]
  obtain s2 where s2: "iso_txc_init ?t d k ?s1 = Some s2" "allocs s2 = allocs s" "txctxs s2 = txctxs s"
      "txcs s2 ?t = Some (txc_new (tun s) d k)"
    using ctx assms(3) by (simp add: iso_txc_init_def iso_rl_init_def ktime_get_def alloc_percpu_def Let_def)
  obtain s3 txc where s3: "iso_txc_prealloc ?t 32 s2 = Some s3" "txcs s3 ?t = Some txc" "txctxs s3 = txctxs s2"
    using prealloc_total [OF s2(4), of 32] ctx s2(2,3) assms(3) by (auto simp: txc_new_def)
  have b: "building d ?t k s s3"
    using txc_init_building [OF i(3,2) d refl refl s2(1)] d s3(1) by (rule prealloc_building)
  let ?i = "txc_index K k"
  let ?s4 = "put_txctx d (ctx\<lparr>iso_tx_bucket := (iso_tx_bucket ctx)(?i := ?t # iso_tx_bucket ctx ?i),
      txc_list := txc_list ctx @ [?t], txc_total_weight := s32 (txc_total_weight ctx + txc_weight txc)\<rparr>) s3"
  have "tx_table d ?s4" by (rule linked_table [OF i(1) ctx b]) simp_all
  then obtain s5 where "iso_txc_recompute_rates d ?s4 = Some s5"
    using recompute_total [of d ?s4] by (auto simp: tx_table_def)
  then show ?thesis
    using s2 s3 ctx assms(2,3) by (simp add: txc_install_class_def iso_txc_alloc_def kmalloc_def Let_def)
qed

end
