(* ===== verification/VQLaws.thy ===== *)
theory VQLaws
  imports VirtualQueue
begin

text \<open>
  Lemmas of the virtual queues of \<open>src/vq.c\<close>: the advertised rate follows the RCP law as long as
  its arithmetic does not wrap, and always stays in its range; the shares of the drain rate
  fit into it; the hash table of virtual queues is a table of classes; an enqueue never oopses
  on a virtual queue in service and counts every byte.
\<close>

section \<open>The marked fraction\<close>

lemma EWMA_G16_bound:
  assumes "uint a \<le> 1024" "uint f \<le> 1024"
  shows "uint (EWMA_G16 a f) = (15 * uint a + uint f) div 16" "uint (EWMA_G16 a f) \<le> 1024"
proof -
  have "uint (push_bit 4 a) = 16 * uint a"
    using assms(1) by (simp add: push_bit_eq_mult uint_mult_bounded)
  then have "uint (MUL15 a) = 15 * uint a"
    unfolding MUL15_def by (subst uint_sub_bounded) simp_all
  moreover from this have "uint (MUL15 a + f) = 15 * uint a + uint f"
    using assms by (subst uint_add_bounded) simp_all
  ultimately show "uint (EWMA_G16 a f) = (15 * uint a + uint f) div 16"
    by (simp add: EWMA_G16_def drop_bit_eq_div uint_div)
  with assms show "uint (EWMA_G16 a f) \<le> 1024" by simp
qed

lemma mark_frac_spec:
  assumes "n \<noteq> 0"
  shows "\<exists>f. mark_frac m n = Some f \<and> uint f \<le> 1024"
  using assms by (simp add: mark_frac_def udiv_def uint_min)

section \<open>The advertised rate\<close>

text \<open>The ranges in which the computation of \<open>iso_vq_drain\<close> does not wrap.\<close>

definition drain_tunables :: "tunables \<Rightarrow> bool" where
  "drain_tunables P \<longleftrightarrow> 0 < ISO_MIN_RFAIR P \<and> ISO_MIN_RFAIR P < 2 ^ 31 \<and>
     ISO_VQ_DRAIN_RATE_MBPS P \<le> ISO_MAX_TX_RATE P"

lemma uint_drain_rate2:
  fixes rate :: u64
  assumes "uint rate \<le> 2 ^ 25"
  shows "uint (ucast (drain_rate2 rate) :: u64) = 2 * uint rate"
proof -
  have "uint (push_bit 1 rate) = 2 * uint rate"
    using assms by (simp add: push_bit_eq_mult uint_mult_bounded)
  then show ?thesis using assms unfolding drain_rate2_def
    by (simp add: uint_ucast_bounded)
qed

lemma drain_feedback_eq:
  assumes "drain_tunables P" "0 < uint rate" "uint rate \<le> 2 ^ 25"
  shows "drain_feedback P rate y fb = Some (max (of_int (ISO_MIN_RFAIR P)) (min rate
    (fb * (ucast (drain_rate2 rate) + rate - of_int y) div ucast (drain_rate2 rate))))"
proof -
  have "uint (ucast (drain_rate2 rate) :: u64) \<noteq> 0"
    using assms(2,3) by (simp add: uint_drain_rate2)
  then have "(ucast (drain_rate2 rate) :: u64) \<noteq> 0" by auto
  then show ?thesis using assms(1) by (simp add: drain_feedback_def drain_tunables_def udiv_def Let_def)
qed

lemma uint_min_rfair: "drain_tunables P \<Longrightarrow> uint (of_int (ISO_MIN_RFAIR P) :: u64) = ISO_MIN_RFAIR P"
  by (rule uint_of_int) (auto simp: drain_tunables_def)

text \<open>Whatever is measured, the advertised rate stays between the minimum and the capacity.\<close>

lemma drain_feedback_bounds:
  assumes "drain_tunables P" "0 < uint rate" "uint rate \<le> 2 ^ 25"
  shows "\<exists>w. drain_feedback P rate y fb = Some w \<and> ISO_MIN_RFAIR P \<le> uint w \<and>
    uint w \<le> max (ISO_MIN_RFAIR P) (uint rate)"
  using drain_feedback_eq [OF assms] uint_min_rfair [OF assms(1)]
  by (auto simp: uint_max uint_min)

lemma drain_feedback_law:
  assumes "drain_tunables P" "0 < uint rate" "uint rate \<le> 2 ^ 25"
    "uint fb \<le> 2 ^ 30" "0 \<le> y" "y \<le> 3 * uint rate"
  shows "uint (the (drain_feedback P rate y fb)) =
    max (ISO_MIN_RFAIR P) (min (uint rate) (uint fb * (3 * uint rate - y) div (2 * uint rate)))"
proof -
  let ?rate2 = "ucast (drain_rate2 rate) :: u64"
  have r2: "uint ?rate2 = 2 * uint rate" using assms(3) by (rule uint_drain_rate2)
  have y: "uint (of_int y :: u64) = y" using assms by (intro uint_of_int) simp_all
  have "uint (?rate2 + rate) = 3 * uint rate" using assms(3) r2 by (subst uint_add_bounded) simp_all
  then have f: "uint (?rate2 + rate - of_int y) = 3 * uint rate - y"
    using assms(6) y by (subst uint_sub_bounded) simp_all
  have "uint fb * (3 * uint rate - y) \<le> 2 ^ 30 * (3 * 2 ^ 25)"
    using assms by (intro mult_mono) auto
  then have "uint (fb * (?rate2 + rate - of_int y)) = uint fb * (3 * uint rate - y)"
    using f by (subst uint_mult_bounded) simp_all
  then show ?thesis
    using drain_feedback_eq [OF assms(1-3), of y fb] uint_min_rfair [OF assms(1)] r2
    by (simp add: uint_max uint_min uint_div)
qed

text \<open>
  Above three times the capacity the factor wraps around and the computed rate is far above
  the capacity: the virtual queue then advertises its full capacity.
\<close>

lemma drain_feedback_overload:
  assumes "drain_tunables P" "0 < uint rate" "uint rate \<le> 2 ^ 25"
    "0 < uint fb" "uint fb \<le> 2 ^ 30" "3 * uint rate < y" "y < 2 ^ 31"
  shows "uint (the (drain_feedback P rate y fb)) = max (ISO_MIN_RFAIR P) (uint rate)"
proof -
  let ?rate2 = "ucast (drain_rate2 rate) :: u64" and ?d = "y - 3 * uint rate"
  have r2: "uint ?rate2 = 2 * uint rate" using assms(3) by (rule uint_drain_rate2)
  have "?rate2 = of_int (2 * uint rate)" using r2 word_of_int_uint [of ?rate2] by metis
  then have sum3: "?rate2 + rate = 3 * rate" by simp
  have "fb * (?rate2 + rate - of_int y) = of_int (uint fb) * of_int (3 * uint rate - y)"
    unfolding sum3 by simp
  also have "\<dots> = of_int (- (uint fb * ?d))" by (simp only: of_int_mult [symmetric]) (simp add: algebra_simps)
  finally have e: "fb * (?rate2 + rate - of_int y) = of_int (- (uint fb * ?d))" .
  have "?d \<le> 2 ^ 31" "0 < ?d" using assms(2,6,7) by linarith+
  then have d: "uint fb * ?d \<le> 2 ^ 30 * 2 ^ 31" "0 < uint fb * ?d"
    using assms(4,5) by (intro mult_mono mult_pos_pos; simp)+
  then have "uint (fb * (?rate2 + rate - of_int y)) = 2 ^ 64 - uint fb * ?d"
    unfolding e uint_word_of_int zmod_zminus1_eq_if by (auto simp: mod_pos_pos_trivial)
  moreover have "uint rate * (2 * uint rate) \<le> 2 ^ 25 * (2 * 2 ^ 25)"
    using assms(2,3) by (intro mult_mono) auto
  then have "uint rate * (2 * uint rate) \<le> 2 ^ 64 - uint fb * ?d" using d(1) by simp
  then have "uint rate \<le> (2 ^ 64 - uint fb * ?d) div (2 * uint rate)"
    using assms(2) zdiv_mono1 [of "uint rate * (2 * uint rate)" _ "2 * uint rate"] by simp
  ultimately show ?thesis
    using drain_feedback_eq [OF assms(1-3), of y fb] uint_min_rfair [OF assms(1)] r2
    by (simp add: uint_max uint_min uint_div)
qed

text \<open>A virtual queue of weight 0 divides by zero.\<close>

lemma drain_feedback_weight0:
  "ISO_VQ_DRAIN_RATE_MBPS P \<le> ISO_MAX_TX_RATE P \<Longrightarrow> drain_feedback P 0 y fb = None"
  by (simp add: drain_feedback_def drain_rate2_def udiv_def)

interpretation vq_rcp: rcp_law
  "\<lambda>(P, rate :: u64). drain_tunables P \<and> ISO_MIN_RFAIR P \<le> uint rate \<and> uint rate \<le> 2 ^ 25"
  "\<lambda>(P, rate). uint rate" "\<lambda>(P, rate). ISO_MIN_RFAIR P" "\<lambda>_. 2 ^ 30"
  "\<lambda>(P, rate) r y. uint (the (drain_feedback P rate y (of_int r)))"
proof (unfold_locales, goal_cases)
  case (1 p)
  then show ?case by (auto simp: drain_tunables_def)
next
  case (2 p r y)
  then show ?case
    by (cases p) (auto simp: drain_feedback_law drain_tunables_def uint_of_int)
qed


section \<open>Shares of the drain rate\<close>

definition share :: "tunables \<Rightarrow> u32 \<Rightarrow> iso_vq \<Rightarrow> iso_vq" where
  "share P w vq =
     (if vq_is_static vq \<noteq> 0 then vq
      else vq\<lparr>vq_rate := of_int (ISO_VQ_DRAIN_RATE_MBPS P) * vq_weight vq div ucast w\<rparr>)"

lemma share_simps [simp]:
  "vq_klass (share P w vq) = vq_klass vq" "vq_weight (share P w vq) = vq_weight vq"
  "vq_is_static (share P w vq) = vq_is_static vq" "percpu_stats (share P w vq) = percpu_stats vq"
  "vq_rxctx (share P w vq) = vq_rxctx vq" "vq_refcnt (share P w vq) = vq_refcnt vq"
  "share P w (share P w vq) = share P w vq"
  by (simp_all add: share_def)

definition share_all :: "u32 \<Rightarrow> nat list \<Rightarrow> 'z vq_mem_scheme \<Rightarrow> 'z vq_mem_scheme" where
  "share_all w vs s =
     s\<lparr>vqs := (\<lambda>v. if v \<in> set vs then map_option (share (tun s) w) (vqs s v) else vqs s v)\<rparr>"

lemma set_share_eq:
  "vqs s v = Some vq \<Longrightarrow> set_share w v s = Some (put_vq v (share (tun s) w vq) s)"
  by (simp add: set_share_def share_def map_upd_triv)

lemma fold_set_share:
  "\<forall>v \<in> set vs. vqs s v \<noteq> None \<Longrightarrow> foldM (set_share w) vs s = Some (share_all w vs s)"
proof (induction vs arbitrary: s)
  case (Cons v vs)
  then obtain vq where vq: "vqs s v = Some vq" by auto
  let ?s = "put_vq v (share (tun s) w vq) s"
  have "foldM (set_share w) vs ?s = Some (share_all w vs ?s)" using Cons by (intro Cons.IH) auto
  moreover have "share_all w vs ?s = share_all w (v # vs) s"
    using vq by (auto simp: share_all_def fun_eq_iff)
  ultimately show ?case using set_share_eq [OF vq] by simp
qed (simp add: share_all_def)

lemma fold_add_weight:
  "\<forall>v \<in> set vs. vqs s v \<noteq> None \<Longrightarrow>
     foldM (add_weight s) vs w = Some (w + (\<Sum>v\<leftarrow>vs. ucast (vq_weight (the (vqs s v)))))"
  by (induction vs arbitrary: w) (auto simp: add_weight_def add.assoc)

definition total_weight :: "dev \<Rightarrow> 'z vq_mem_scheme \<Rightarrow> u32" where
  "total_weight d s =
     (\<Sum>v\<leftarrow>vq_list (the (rxctxs s d)). ucast (vq_weight (the (vqs s v))))"

lemma calculate_rates_eq:
  assumes "rxctxs s d = Some ctx" "\<forall>v \<in> set (vq_list ctx). vqs s v \<noteq> None"
  shows "iso_vq_calculate_rates d s =
    Some (if 0 < total_weight d s then share_all (total_weight d s) (vq_list ctx) s else s)"
  using assms fold_add_weight [OF assms(2), of 0]
  by (simp add: iso_vq_calculate_rates_def total_weight_def fold_set_share)

lemma uint_sum_list:
  fixes ws :: "'a::len word list"
  assumes "(\<Sum>w\<leftarrow>ws. uint w) < 2 ^ LENGTH('a)"
  shows "uint (sum_list ws) = (\<Sum>w\<leftarrow>ws. uint w)"
  using assms
proof (induction ws)
  case (Cons w ws)
  have "0 \<le> (\<Sum>w\<leftarrow>ws. uint w)" by (induction ws) auto
  then have "(\<Sum>w\<leftarrow>ws. uint w) < 2 ^ LENGTH('a)"
    using Cons.prems order_le_less_trans [of "(\<Sum>w\<leftarrow>ws. uint w)" "uint w + (\<Sum>w\<leftarrow>ws. uint w)"]
    by simp
  then have "uint (sum_list ws) = (\<Sum>w\<leftarrow>ws. uint w)" by (rule Cons.IH)
  then show ?case using Cons.prems by (simp add: uint_add_bounded)
qed simp

lemma uint_share:
  assumes "0 \<le> ISO_VQ_DRAIN_RATE_MBPS P" "ISO_VQ_DRAIN_RATE_MBPS P < 2 ^ 31"
    "uint (vq_weight vq) < 2 ^ 32" "vq_is_static vq = 0"
  shows "uint (vq_rate (share P w vq)) =
    ISO_VQ_DRAIN_RATE_MBPS P * uint (vq_weight vq) div uint w"
proof -
  have d: "uint (of_int (ISO_VQ_DRAIN_RATE_MBPS P) :: u64) = ISO_VQ_DRAIN_RATE_MBPS P"
    using assms(1,2) by (intro uint_of_int) simp_all
  have "ISO_VQ_DRAIN_RATE_MBPS P * uint (vq_weight vq) \<le> 2 ^ 31 * 2 ^ 32"
    using assms by (intro mult_mono) simp_all
  then have "uint (of_int (ISO_VQ_DRAIN_RATE_MBPS P) * vq_weight vq) =
      ISO_VQ_DRAIN_RATE_MBPS P * uint (vq_weight vq)"
    by (subst uint_mult_bounded) (simp_all add: d)
  moreover have "uint (ucast w :: u64) = uint w"
  proof -
    have "uint w < 2 ^ 32" using uint_lt2p [of w] by simp
    then show ?thesis by (intro uint_ucast_bounded) simp
  qed
  ultimately show ?thesis using assms(4) by (simp add: share_def uint_div)
qed

lemma sum_filter_le:
  fixes w :: "'a \<Rightarrow> int"
  assumes "\<And>x. x \<in> set xs \<Longrightarrow> 0 \<le> w x"
  shows "(\<Sum>x\<leftarrow>filter Q xs. w x) \<le> (\<Sum>x\<leftarrow>xs. w x)"
  using assms by (induction xs) force+

lemma vq_shares_spec:
  fixes s :: "'z vq_mem_scheme"
  assumes "rxctxs s d = Some ctx" "distinct (vq_list ctx)"
    "\<forall>v \<in> set (vq_list ctx). \<exists>vq. vqs s v = Some vq \<and> uint (vq_weight vq) \<le> 1024"
    "length (vq_list ctx) < 2 ^ 20" "0 \<le> ISO_VQ_DRAIN_RATE_MBPS (tun s)" "ISO_VQ_DRAIN_RATE_MBPS (tun s) < 2 ^ 31"
    "0 < total_weight d s"
  shows "\<exists>s'. iso_vq_calculate_rates d s = Some s' \<and>
    (\<forall>v \<in> set (vq_list ctx). if vq_is_static (the (vqs s v)) \<noteq> 0 then vqs s' v = vqs s v
       else uint (vq_rate (the (vqs s' v))) =
         ISO_VQ_DRAIN_RATE_MBPS (tun s) * uint (vq_weight (the (vqs s v))) div uint (total_weight d s)) \<and>
    (\<Sum>v\<leftarrow>filter (\<lambda>v. vq_is_static (the (vqs s v)) = 0) (vq_list ctx). uint (vq_rate (the (vqs s' v)))) \<le>
      ISO_VQ_DRAIN_RATE_MBPS (tun s)"
proof -
  let ?vs = "vq_list ctx" and ?D = "ISO_VQ_DRAIN_RATE_MBPS (tun s)" and ?W = "total_weight d s"
  let ?w = "\<lambda>v. uint (vq_weight (the (vqs s v)))"
  let ?s = "share_all ?W ?vs s"
  have live: "\<forall>v \<in> set ?vs. vqs s v \<noteq> None" using assms(3) by auto
  have calc: "iso_vq_calculate_rates d s = Some ?s" using calculate_rates_eq [OF assms(1) live] assms(7) by simp
  have w: "0 \<le> ?w v \<and> ?w v \<le> 1024" if "v \<in> set ?vs" for v using assms(3) that by auto
  let ?free = "\<lambda>v. vq_is_static (the (vqs s v)) = 0"
  have rate: "uint (vq_rate (the (vqs ?s v))) = ?D * ?w v div uint ?W" if v: "v \<in> set ?vs" "?free v" for v
  proof -
    obtain vq where vq: "vqs s v = Some vq" "uint (vq_weight vq) \<le> 1024" "vq_is_static vq = 0"
      using assms(3) v by force
    then show ?thesis using v(1) uint_share [OF assms(5,6) _ vq(3), of ?W] by (simp add: share_all_def)
  qed
  have static: "vqs ?s v = vqs s v" if "v \<in> set ?vs" "\<not> ?free v" for v
    using that live by (auto simp: share_all_def share_def)
  have sum_le: "(\<Sum>v\<leftarrow>vs. ?w v) \<le> 1024 * int (length vs)" if "set vs \<subseteq> set ?vs" for vs
    using that w by (induction vs) (auto simp: algebra_simps add_mono)
  have c: "uint (ucast (vq_weight (the (vqs s v))) :: u32) = ?w v" if "v \<in> set ?vs" for v
    using w [OF that] by (intro uint_ucast_bounded) simp
  have eq: "(\<Sum>x\<leftarrow>map (\<lambda>v. ucast (vq_weight (the (vqs s v))) :: u32) ?vs. uint x) = (\<Sum>v\<leftarrow>?vs. ?w v)"
    using c by (simp add: comp_def cong: map_cong)
  have "(\<Sum>v\<leftarrow>?vs. ?w v) < 2 ^ 32" using sum_le [of ?vs] assms(4) by simp
  then have W: "uint ?W = (\<Sum>v\<leftarrow>?vs. ?w v)"
    using uint_sum_list [of "map (\<lambda>v. ucast (vq_weight (the (vqs s v))) :: u32) ?vs"] assms(1)
    unfolding eq by (simp add: total_weight_def)
  have "(\<Sum>v\<leftarrow>filter ?free ?vs. uint (vq_rate (the (vqs ?s v)))) = (\<Sum>w\<leftarrow>map ?w (filter ?free ?vs). ?D * w div uint ?W)"
    unfolding map_map comp_def by (rule arg_cong [where f = sum_list], rule map_cong) (use rate in simp_all)
  also have "\<dots> \<le> ?D"
  proof (rule sum_shares)
    show "sum_list (map ?w (filter ?free ?vs)) \<le> uint ?W" unfolding W by (rule sum_filter_le) (use w in blast)
  qed (use assms(5,7) w in \<open>auto simp: word_less_def\<close>)
  finally show ?thesis using calc rate static by (intro exI [of _ ?s]) simp
qed

section \<open>The table of virtual queues\<close>

definition vq_table :: "dev \<Rightarrow> 'z vq_mem_scheme \<Rightarrow> bool" where
  "vq_table d s \<longleftrightarrow> (case rxctxs s d of None \<Rightarrow> False | Some ctx \<Rightarrow>
     (\<forall>v \<in> set (vq_list ctx). vqs s v \<noteq> None \<and> v < fresh s) \<and>
     (\<forall>i. set (vq_bucket ctx i) \<subseteq> set (vq_list ctx)))"

lemma vq_find_total: "vq_table d s \<Longrightarrow> iso_vq_find K k d s \<noteq> None"
proof -
  assume t: "vq_table d s"
  then obtain ctx where ctx: "rxctxs s d = Some ctx" by (auto simp: vq_table_def split: option.splits)
  have "vq_has_class k s v \<noteq> None" if "v \<in> set (vq_bucket ctx i)" for v i
    using t that ctx by (auto simp: vq_table_def vq_has_class_def)
  then have "hlist_find (vq_has_class k s) (vq_bucket ctx i) \<noteq> None" for i
    by (intro hlist_find_no_oops)
  then show ?thesis using ctx by (simp add: iso_vq_find_def)
qed

lemma vq_init_spec:
  "\<exists>e vq'. iso_vq_init vq s = (e, vq', s\<lparr>ticks := Suc (ticks s), nallocs := Suc (nallocs s)\<rparr>)"
  by (cases "allocs s (nallocs s)")
    (simp_all add: iso_vq_init_def ktime_get_def alloc_percpu_def Let_def)

lemma vq_alloc_cases:
  assumes "vq_table d s" "iso_vq_alloc K k d s = Some (r, s')"
  obtains (fail) n where "r = None" "s' = s\<lparr>nallocs := n\<rparr>"
  | (ok) ctx where "r = Some (fresh s)" "rxctxs s d = Some ctx" "fresh s' = Suc (fresh s)"
      "rxctxs s' = (rxctxs s)(d \<mapsto> ctx\<lparr>vq_list := vq_list ctx @ [fresh s],
         vq_bucket := (vq_bucket ctx)(vq_index K k := fresh s # vq_bucket ctx (vq_index K k))\<rparr>)"
      "\<And>v. v \<noteq> fresh s \<Longrightarrow> map_option vq_klass (vqs s' v) = map_option vq_klass (vqs s v)"
      "map_option vq_klass (vqs s' (fresh s)) = Some k"
proof (cases "allocs s (nallocs s)")
  case False
  then show thesis using assms(2) fail [of "Suc (nallocs s)"] by (simp add: iso_vq_alloc_def kmalloc_def)
next
  case True
  let ?i = "vq_index K k"
  obtain ctx where ctx: "rxctxs s d = Some ctx"
    using assms(1) by (auto simp: vq_table_def split: option.splits)
  let ?ctx = "ctx\<lparr>vq_list := vq_list ctx @ [fresh s],
      vq_bucket := (vq_bucket ctx)(?i := fresh s # vq_bucket ctx ?i)\<rparr>"
  let ?s = "s\<lparr>nallocs := Suc (nallocs s), fresh := Suc (fresh s)\<rparr>"
  obtain e vq where init: "iso_vq_init (vq_raw d (garbage s (Suc (nallocs s)))) ?s =
      (e, vq, ?s\<lparr>ticks := Suc (ticks ?s), nallocs := Suc (nallocs ?s)\<rparr>)"
    using vq_init_spec by blast
  define s1 where "s1 = put_rxctx d ?ctx (put_vq (fresh s) (vq\<lparr>vq_klass := k\<rparr>)
      (?s\<lparr>ticks := Suc (ticks ?s), nallocs := Suc (nallocs ?s)\<rparr>))"
  have live: "\<forall>v \<in> set (vq_list ?ctx). vqs s1 v \<noteq> None"
    using assms(1) ctx by (auto simp: vq_table_def s1_def)
  have c1: "rxctxs s1 d = Some ?ctx" by (simp add: s1_def)
  have "iso_vq_alloc K k d s =
      map_option (\<lambda>s. (Some (fresh s1 - 1), s)) (iso_vq_calculate_rates d s1)"
    using True init ctx by (simp add: iso_vq_alloc_def kmalloc_def s1_def Let_def)
      (cases "iso_vq_calculate_rates d s1"; simp add: s1_def)
  then have r: "r = Some (fresh s)"
    "s' = (if 0 < total_weight d s1 then share_all (total_weight d s1) (vq_list ?ctx) s1 else s1)"
    using assms(2) calculate_rates_eq [OF c1 live] by (auto simp: s1_def)
  have "map_option vq_klass (vqs s' v) = map_option vq_klass (vqs s1 v)" for v
    by (simp add: r(2) share_all_def option.map_comp comp_def)
  then show thesis
    by (intro ok [OF r(1) ctx]) (auto simp: r(2) share_all_def s1_def)
qed


lemma vq_has_class_cong:
  "map_option vq_klass (vqs s' v) = map_option vq_klass (vqs s v) \<Longrightarrow>
     vq_has_class k s' v = vq_has_class k s v"
  by (cases "vqs s v"; cases "vqs s' v") (simp_all add: vq_has_class_def)

lemma vq_table_alloc:
  assumes "vq_table d s" "iso_vq_alloc K k d s = Some (r, s')"
  shows "vq_table d s'"
  using assms
proof (cases rule: vq_alloc_cases)
  case (ok ctx)
  have live: "vqs s' v \<noteq> None" if "v \<in> insert (fresh s) (set (vq_list ctx))" for v
    using that ok(5) [of v] ok(6) assms(1) ok(2)
    by (cases "v = fresh s"; cases "vqs s' v") (auto simp: vq_table_def)
  show ?thesis
    using assms(1) ok(2-4) live by (auto simp: vq_table_def less_Suc_eq split: if_splits)
qed (use assms(1) in \<open>auto simp: vq_table_def split: option.splits\<close>)

lemma vq_alloc_find:
  assumes "vq_table d s" "iso_vq_alloc K k d s = Some (r, s')"
  shows "iso_vq_find K k' d s' = (if k' = k \<and> r \<noteq> None then Some r else iso_vq_find K k' d s)"
  using assms
proof (cases rule: vq_alloc_cases)
  case (fail n)
  then show ?thesis
    by (simp add: iso_vq_find_def vq_has_class_def cong: hlist_find_cong)
next
  case (ok ctx)
  have old: "vq_has_class k' s' v = vq_has_class k' s v" if "v \<in> set (vq_bucket ctx i)" for v i
    using that assms(1) ok(2) by (intro vq_has_class_cong ok(5)) (auto simp: vq_table_def)
  have find_old: "hlist_find (vq_has_class k' s') (vq_bucket ctx i) =
      hlist_find (vq_has_class k' s) (vq_bucket ctx i)" for i
    using old by (intro hlist_find_cong)
  obtain vq where "vqs s' (fresh s) = Some vq" "vq_klass vq = k" using ok(6) by auto
  then have new: "vq_has_class k' s' (fresh s) = Some (k' = k)"
    by (auto simp: vq_has_class_def iso_class_cmp_eq_0)
  show ?thesis
    using ok(1,2,4) find_old new by (cases "k' = k") (simp_all add: iso_vq_find_def)
qed

interpretation vq_classes: class_table "vq_table d" "\<lambda>k. iso_vq_find K k d"
  "\<lambda>k. iso_vq_alloc K k d" "\<lambda>k. vq_install_class K k d" for K d
proof (unfold_locales, goal_cases)
  case (4 s k)
  then show ?case
    using vq_find_total [OF 4, of K k]
    by (auto simp: vq_install_class_def split: option.splits Option.bind_splits)
qed (simp_all add: vq_find_total vq_table_alloc vq_alloc_find)

text \<open>An installation never oopses, also when memory runs out.\<close>

lemma vq_alloc_total:
  assumes "vq_table d s"
  shows "iso_vq_alloc K k d s \<noteq> None"
proof (cases "allocs s (nallocs s)")
  case True
  let ?i = "vq_index K k" and ?s = "s\<lparr>nallocs := Suc (nallocs s), fresh := Suc (fresh s)\<rparr>"
  obtain ctx where ctx: "rxctxs s d = Some ctx" "\<forall>v \<in> set (vq_list ctx). vqs s v \<noteq> None"
    using assms by (auto simp: vq_table_def split: option.splits)
  let ?ctx = "ctx\<lparr>vq_list := vq_list ctx @ [fresh s], vq_bucket := (vq_bucket ctx)(?i := fresh s # vq_bucket ctx ?i)\<rparr>"
  obtain e vq where init: "iso_vq_init (vq_raw d (garbage s (Suc (nallocs s)))) ?s =
      (e, vq, ?s\<lparr>ticks := Suc (ticks ?s), nallocs := Suc (nallocs ?s)\<rparr>)"
    using vq_init_spec by blast
  let ?s1 = "put_rxctx d ?ctx (put_vq (fresh s) (vq\<lparr>vq_klass := k\<rparr>)
      (?s\<lparr>ticks := Suc (ticks ?s), nallocs := Suc (nallocs ?s)\<rparr>))"
  have "rxctxs ?s1 d = Some ?ctx" "\<forall>v \<in> set (vq_list ?ctx). vqs ?s1 v \<noteq> None" using ctx by auto
  from calculate_rates_eq [OF this] show ?thesis
    using True init ctx by (simp add: iso_vq_alloc_def kmalloc_def Let_def)
qed (simp add: iso_vq_alloc_def kmalloc_def)

lemma vq_install_total:
  assumes "vq_table d s"
  shows "\<exists>r s'. vq_install_class K k d s = Some (r, s')"
  using vq_find_total [OF assms, of K k] vq_alloc_total [OF assms, of K k]
  by (auto simp: vq_install_class_def split: option.splits)

text \<open>With memory at hand the installation of a class in a table without it succeeds.\<close>

lemma vq_install_fresh:
  assumes "rxctxs s d = Some ctx" "vq_list ctx = []" "vq_bucket ctx = (\<lambda>_. [])" "allocs s = (\<lambda>_. True)"
  shows "\<exists>s'. vq_install_class K k d s = Some (0, s')"
  using assms
  by (simp add: vq_install_class_def iso_vq_find_def iso_vq_alloc_def kmalloc_def iso_vq_init_def ktime_get_def
      alloc_percpu_def iso_vq_calculate_rates_def add_weight_def set_share_def Let_def)

text \<open>The free of a virtual queue leaves its address in the hash bucket: the next lookup of the
  class reads freed memory.\<close>

lemma vq_find_after_free:
  assumes "rxctxs s d = Some ctx" "vqs s v = Some vq" "vq_refcnt vq \<le> 0" "vq_rxctx vq = d"
    "vq_bucket ctx (vq_index K (vq_klass vq)) = v # vs" "iso_vq_free v s = Some s'"
  shows "iso_vq_find K (vq_klass vq) d s' = None"
  using assms by (auto simp: iso_vq_free_def iso_vq_find_def vq_has_class_def)


section \<open>Enqueue never oopses and counts every byte\<close>

text \<open>A virtual queue in service: counters allocated, context live, capacity positive.\<close>

definition vq_serves :: "'z vq_mem_scheme \<Rightarrow> iso_vq \<Rightarrow> bool" where
  "vq_serves s vq \<longleftrightarrow> percpu_stats vq \<noteq> None \<and> uint (vq_alpha vq) \<le> 1024 \<and>
     (case rxctxs s (vq_rxctx vq) of None \<Rightarrow> False
      | Some ctx \<Rightarrow> 0 < uint (drain_rate vq (rcp_rate ctx)) \<and> uint (drain_rate vq (rcp_rate ctx)) \<le> 2 ^ 25)"

text \<open>What an update of a virtual queue never touches.\<close>

definition vq_same :: "iso_vq \<Rightarrow> iso_vq \<Rightarrow> bool" where
  "vq_same vq vq' \<longleftrightarrow> vq_klass vq' = vq_klass vq \<and> vq_weight vq' = vq_weight vq \<and>
     vq_rate vq' = vq_rate vq \<and> vq_is_static vq' = vq_is_static vq \<and> vq_rxctx vq' = vq_rxctx vq \<and>
     vq_refcnt vq' = vq_refcnt vq \<and> vq_enabled vq' = vq_enabled vq"

lemma vq_same_trans: "vq_same a b \<Longrightarrow> vq_same b c \<Longrightarrow> vq_same a c"
  by (simp add: vq_same_def)

lemma drain_rate_same: "vq_same vq vq' \<Longrightarrow> drain_rate vq' r = drain_rate vq r"
  by (simp add: vq_same_def drain_rate_def Let_def)

definition rx_bytes_of :: "iso_vq \<Rightarrow> cpu \<Rightarrow> u64" where
  "rx_bytes_of vq c = (case percpu_stats vq of None \<Rightarrow> 0 | Some st \<Rightarrow> vs_rx_bytes (st c))"

definition fb_range :: "tunables \<Rightarrow> u64 \<Rightarrow> u64 \<Rightarrow> bool" where
  "fb_range P rate fb \<longleftrightarrow> ISO_MIN_RFAIR P \<le> uint fb \<and> uint fb \<le> max (ISO_MIN_RFAIR P) (uint rate)"

lemma vq_drain_spec:
  assumes "vqs s v = Some vq" "vq_serves s vq" "drain_tunables (tun s)" "dt \<noteq> 0"
  shows "\<exists>s' vq'. iso_vq_drain v dt s = Some s' \<and> s' = put_vq v vq' (s\<lparr>ticks := Suc (ticks s)\<rparr>) \<and>
    vq_serves s' vq' \<and> vq_same vq vq' \<and> rx_bytes_of vq' = rx_bytes_of vq \<and>
    (feedback_rate vq' = feedback_rate vq \<or>
     fb_range (tun s) (drain_rate vq (rcp_rate (the (rxctxs s (vq_rxctx vq))))) (feedback_rate vq'))"
proof -
  obtain st ctx where st: "percpu_stats vq = Some st" and ctx: "rxctxs s (vq_rxctx vq) = Some ctx"
    and r: "0 < uint (drain_rate vq (rcp_rate ctx))" "uint (drain_rate vq (rcp_rate ctx)) \<le> 2 ^ 25"
    and al: "uint (vq_alpha vq) \<le> 1024"
    using assms(2) by (auto simp: vq_serves_def split: option.splits)
  let ?now = "clock s (ticks s)" and ?P = "tun s" and ?rate = "drain_rate vq (rcp_rate ctx)"
  let ?pk = "sum_list (map (\<lambda>c. rx_since_last_feedback (st c)) (online s))"
  let ?pkts = "if ?pk = 0 then 1 else ?pk"
  let ?mk = "sum_list (map (\<lambda>c. rx_marked_since_last_feedback (st c)) (online s))"
  let ?by = "sum_list (map (\<lambda>c. vs_rx_bytes (st c)) (online s))"
  let ?st = "\<lambda>c. if c \<in> set (online s) then drain_reset (st c) else st c"
  show ?thesis
  proof (cases "(of_int (ktime_us_delta ?now (vq_last_update_time vq)) :: u64) < of_int (ISO_VQ_UPDATE_INTERVAL_US ?P)")
    case True
    then show ?thesis using assms(1,2)
      by (intro exI [of _ "s\<lparr>ticks := Suc (ticks s)\<rparr>"] exI [of _ vq])
        (simp add: iso_vq_drain_def ktime_get_def Let_def vq_same_def map_upd_triv vq_serves_def
          cong: option.case_cong)
  next
    case False
    have "?pkts \<noteq> 0" by simp
    then obtain frac where frac: "mark_frac ?mk ?pkts = Some frac" "uint frac \<le> 1024"
      using mark_frac_spec [of ?pkts ?mk] by blast
    obtain y where y: "drain_rx_rate ?P ?rate (?by - last_rx_bytes vq) dt frac = Some y"
      using assms(4) by (cases "frac = 0") (auto simp: drain_rx_rate_def udiv_def Let_def)
    obtain fb where fb: "drain_feedback ?P ?rate y (feedback_rate vq) = Some fb" "fb_range ?P ?rate fb"
      using drain_feedback_bounds [OF assms(3) r] by (auto simp: fb_range_def)
    let ?vq = "vq\<lparr>vq_last_update_time := ?now, percpu_stats := Some ?st,
               vq_alpha := EWMA_G16 (vq_alpha vq) frac, feedback_rate := fb,
               vq_rx_rate := of_int y, last_rx_bytes := ?by\<rparr>"
    have run: "iso_vq_drain v dt s = Some (put_vq v ?vq (s\<lparr>ticks := Suc (ticks s)\<rparr>))"
      using False assms(1) st ctx frac(1) y fb(1)
      by (simp add: iso_vq_drain_def ktime_get_def Let_def)
    have same: "vq_same vq ?vq" by (simp add: vq_same_def)
    have "vq_serves (put_vq v ?vq (s\<lparr>ticks := Suc (ticks s)\<rparr>)) ?vq"
      using r ctx EWMA_G16_bound(2) [OF al frac(2)] drain_rate_same [OF same] by (simp add: vq_serves_def)
    moreover have "rx_bytes_of ?vq = rx_bytes_of vq"
      by (rule ext) (simp add: rx_bytes_of_def st drain_reset_def)
    ultimately show ?thesis using run same fb(2) ctx
      by (intro exI [of _ "put_vq v ?vq (s\<lparr>ticks := Suc (ticks s)\<rparr>)"] exI [of _ ?vq]) simp
  qed
qed


lemma update_stats_spec:
  assumes "vqs s v = Some vq" "vq_serves s vq" "\<And>st. vs_rx_bytes (f st) = vs_rx_bytes st + n"
  shows "\<exists>vq'. vq_update_stats v f s = Some (put_vq v vq' s) \<and> vq_serves s vq' \<and> vq_same vq vq' \<and>
    rx_bytes_of vq' = (rx_bytes_of vq)(this_cpu s := rx_bytes_of vq (this_cpu s) + n) \<and>
    feedback_rate vq' = feedback_rate vq \<and> vq_last_update_time vq' = vq_last_update_time vq"
proof -
  obtain st where st: "percpu_stats vq = Some st" using assms(2) by (auto simp: vq_serves_def)
  let ?vq = "vq\<lparr>percpu_stats := Some (st(this_cpu s := f (st (this_cpu s))))\<rparr>"
  have "drain_rate ?vq = drain_rate vq" by (rule ext) (simp add: drain_rate_def Let_def)
  then have "vq_serves s ?vq"
    using assms(2) by (simp add: vq_serves_def cong: option.case_cong)
  then show ?thesis using assms(1,3) st
    by (intro exI [of _ ?vq]) (auto simp: vq_update_stats_def vq_same_def rx_bytes_of_def Let_def)
qed

lemma count_bytes_rx:
  "vs_rx_bytes (count_packet pkt st) = vs_rx_bytes st + 0"
  "vs_rx_bytes (count_bytes pkt st) = vs_rx_bytes st + ucast (skb_size32 pkt)"
  by (simp_all add: count_packet_def count_bytes_def Let_def)

lemma vq_serves_env [simp]:
  "vq_serves (put_vq v vq' s) vq = vq_serves s vq" "vq_serves (s\<lparr>ticks := n\<rparr>) vq = vq_serves s vq"
  "vq_serves (s\<lparr>nlocks := m\<rparr>) vq = vq_serves s vq"
  by (simp_all add: vq_serves_def cong: option.case_cong)

text \<open>The state and the virtual queue after a part of an enqueue.\<close>

definition vq_moved :: "nat \<Rightarrow> u64 \<Rightarrow> iso_vq \<Rightarrow> 'z vq_mem_scheme \<Rightarrow> iso_vq \<Rightarrow> 'z vq_mem_scheme \<Rightarrow> bool" where
  "vq_moved v n vq s vq' s' \<longleftrightarrow>
     (\<exists>t l. s' = put_vq v vq' (s\<lparr>ticks := t, nlocks := l\<rparr>)) \<and> vq_serves s' vq' \<and> vq_same vq vq' \<and>
     rx_bytes_of vq' = (rx_bytes_of vq)(this_cpu s := rx_bytes_of vq (this_cpu s) + n) \<and>
     (feedback_rate vq' = feedback_rate vq \<or>
      fb_range (tun s) (drain_rate vq (rcp_rate (the (rxctxs s (vq_rxctx vq))))) (feedback_rate vq'))"

lemma vq_movedI:
  assumes "s' = put_vq v vq' (s\<lparr>ticks := t, nlocks := l\<rparr>)" "vq_serves s' vq'" "vq_same vq vq'"
    "rx_bytes_of vq' = (rx_bytes_of vq)(this_cpu s := rx_bytes_of vq (this_cpu s) + n)"
    "feedback_rate vq' = feedback_rate vq \<or>
      fb_range (tun s) (drain_rate vq (rcp_rate (the (rxctxs s (vq_rxctx vq))))) (feedback_rate vq')"
  shows "vq_moved v n vq s vq' s'"
  using assms by (auto simp: vq_moved_def)

lemma vq_moved_refl: "vqs s v = Some vq \<Longrightarrow> vq_serves s vq \<Longrightarrow>
    vq_moved v 0 vq s vq (s\<lparr>ticks := t, nlocks := l\<rparr>)"
  by (rule vq_movedI [where t = t and l = l]) (simp_all add: vq_same_def map_upd_triv)

lemma vq_moved_trans:
  assumes "vq_moved v n vq s vq1 s1" "vq_moved v m vq1 s1 vq2 s2"
  shows "vq_moved v (n + m) vq s vq2 s2"
proof -
  obtain t l where s1: "s1 = put_vq v vq1 (s\<lparr>ticks := t, nlocks := l\<rparr>)" "vq_same vq vq1"
    using assms(1) by (auto simp: vq_moved_def)
  have r: "drain_rate vq1 = drain_rate vq" "vq_rxctx vq1 = vq_rxctx vq"
    using drain_rate_same [OF s1(2)] s1(2) by (auto simp: vq_same_def)
  obtain t' l' where s2: "s2 = put_vq v vq2 (s1\<lparr>ticks := t', nlocks := l'\<rparr>)"
    using assms(2) by (auto simp: vq_moved_def)
  then have "s2 = put_vq v vq2 (s\<lparr>ticks := t', nlocks := l'\<rparr>)" by (simp add: s1(1))
  then show ?thesis
    using assms r vq_same_trans by (auto simp: vq_moved_def s1(1) add.assoc)
qed

lemma update_stats_moved:
  assumes "vqs s v = Some vq" "vq_serves s vq" "\<And>st. vs_rx_bytes (f st) = vs_rx_bytes st + n"
  shows "\<exists>vq' s'. vq_update_stats v f s = Some s' \<and> vqs s' v = Some vq' \<and> vq_moved v n vq s vq' s'"
proof -
  obtain vq' where u: "vq_update_stats v f s = Some (put_vq v vq' s)" "vq_serves s vq'" "vq_same vq vq'"
    "rx_bytes_of vq' = (rx_bytes_of vq)(this_cpu s := rx_bytes_of vq (this_cpu s) + n)"
    "feedback_rate vq' = feedback_rate vq"
    using update_stats_spec [OF assms] by blast
  then have "vq_moved v n vq s vq' (put_vq v vq' s)"
    by (intro vq_movedI [where t = "ticks s" and l = "nlocks s"]) simp_all
  then show ?thesis using u(1) by auto
qed

lemma vq_poll_moved:
  assumes "vqs s v = Some vq" "vq_serves s vq" "drain_tunables (tun s)"
  shows "\<exists>vq' s'. vq_poll v s = Some s' \<and> vqs s' v = Some vq' \<and> vq_moved v 0 vq s vq' s'"
proof -
  let ?dt = "of_int (ktime_us_delta (clock s (ticks s)) (vq_last_update_time vq)) :: u64"
  let ?go = "of_int (ISO_VQ_UPDATE_INTERVAL_US (tun s)) < ?dt"
  let ?l = "if ?go then Suc (nlocks s) else nlocks s"
  define s1 where "s1 = s\<lparr>ticks := Suc (ticks s), nlocks := ?l\<rparr>"
  have s1: "vqs s1 v = Some vq" "vq_serves s1 vq" "drain_tunables (tun s1)"
    using assms by (simp_all add: s1_def)
  have m1: "vq_moved v 0 vq s vq s1" unfolding s1_def using assms(1,2) by (rule vq_moved_refl)
  have run: "vq_poll v s =
      (if ?go \<and> trylocks s (nlocks s) then iso_vq_drain v ?dt s1 else Some s1)"
    using assms(1) by (simp add: vq_poll_def ktime_get_def spin_trylock_def Let_def s1_def)
  show ?thesis
  proof (cases "?go \<and> trylocks s (nlocks s)")
    case True
    then have "?dt \<noteq> 0" by (metis word_not_simps(1))
    then obtain s2 vq2 where d: "iso_vq_drain v ?dt s1 = Some s2"
      "s2 = put_vq v vq2 (s1\<lparr>ticks := Suc (ticks s1)\<rparr>)" "vq_serves s2 vq2" "vq_same vq vq2"
      "rx_bytes_of vq2 = rx_bytes_of vq" "feedback_rate vq2 = feedback_rate vq \<or>
        fb_range (tun s1) (drain_rate vq (rcp_rate (the (rxctxs s1 (vq_rxctx vq))))) (feedback_rate vq2)"
      using vq_drain_spec [OF s1] by blast
    then have "vq_moved v 0 vq s1 vq2 s2"
      by (intro vq_movedI [where t = "Suc (ticks s1)" and l = "nlocks s1"]) simp_all
    with m1 have "vq_moved v (0 + 0) vq s vq2 s2" by (rule vq_moved_trans)
    then show ?thesis using run True d(1,2) by auto
  next
    case False
    then show ?thesis using run s1(1) m1 by (metis (no_types, lifting))
  qed
qed

lemma vq_enqueue_moved:
  assumes "vqs s v = Some vq" "vq_serves s vq" "drain_tunables (tun s)"
  shows "\<exists>vq' s'. iso_vq_enqueue v pkt s = Some s' \<and> vqs s' v = Some vq' \<and>
    vq_moved v (ucast (skb_size32 pkt)) vq s vq' s'"
proof -
  obtain vq1 s1 where u1: "vq_update_stats v (count_packet pkt) s = Some s1" "vqs s1 v = Some vq1"
    "vq_moved v 0 vq s vq1 s1"
    using update_stats_moved [where f = "count_packet pkt", OF assms(1,2) count_bytes_rx(1)] by blast
  have "vq_serves s1 vq1" "tun s1 = tun s" using u1(3) by (auto simp: vq_moved_def)
  then obtain vq2 s2 where u2: "vq_poll v s1 = Some s2" "vqs s2 v = Some vq2" "vq_moved v 0 vq1 s1 vq2 s2"
    using vq_poll_moved [OF u1(2)] assms(3) by metis
  have "vq_serves s2 vq2" using u2(3) by (simp add: vq_moved_def)
  then obtain vq3 s3 where u3: "vq_update_stats v (count_bytes pkt) s2 = Some s3" "vqs s3 v = Some vq3"
    "vq_moved v (ucast (skb_size32 pkt)) vq2 s2 vq3 s3"
    using update_stats_moved [where f = "count_bytes pkt", OF u2(2) _ count_bytes_rx(2)] by blast
  have "vq_moved v (0 + 0 + ucast (skb_size32 pkt)) vq s vq3 s3"
    using vq_moved_trans [OF vq_moved_trans [OF u1(3) u2(3)] u3(3)] .
  then show ?thesis using u1(1) u2(1) u3 by (simp add: iso_vq_enqueue_def)
qed

end
