(* ===== verification/RxLaws.thy ===== *)
theory RxLaws
  imports TxTable VQLaws
begin

text \<open>
  The receive path does not oops: the invariant \<open>rx_ok\<close> of a receive context, the statistics, the
  RCP rate and the virtual queues under it, the creation of a destination state by a feedback packet,
  and \<open>iso_rx\<close> as a whole, which also keeps the invariants of the transmit side.
\<close>

section \<open>The invariant of the receive context\<close>

definition vq_ready :: "iso_vq \<Rightarrow> bool" where
  "vq_ready vq \<longleftrightarrow> percpu_stats vq \<noteq> None \<and> uint (vq_alpha vq) \<le> 1024 \<and>
     0 < uint (vq_weight vq) \<and> uint (vq_weight vq) \<le> 1024 \<and> (vq_is_static vq \<noteq> 0 \<longrightarrow> 0 < uint (vq_rate vq))"

definition rx_ok :: "dev \<Rightarrow> 'z vq_mem_scheme \<Rightarrow> bool" where
  "rx_ok d s \<longleftrightarrow> (\<exists>ctx. rxctxs s d = Some ctx \<and> rx_stats ctx \<noteq> None \<and>
     ISO_MIN_RFAIR (tun s) \<le> uint (rcp_rate ctx) \<and> uint (rcp_rate ctx) \<le> ISO_VQ_DRAIN_RATE_MBPS (tun s) \<and>
     (\<forall>i. set (vq_bucket ctx i) \<subseteq> set (vq_list ctx)) \<and>
     (\<forall>v \<in> set (vq_list ctx). v < fresh s \<and> (\<exists>vq. vqs s v = Some vq \<and> vq_ready vq \<and> vq_rxctx vq = d)))"

text \<open>The tunables of the receive path.\<close>

definition rx_tunables :: "tunables \<Rightarrow> bool" where
  "rx_tunables P \<longleftrightarrow> drain_tunables P \<and> rcp_tunables P \<and> ISO_VQ_DRAIN_RATE_MBPS P \<le> 2 ^ 15 \<and>
     0 < ISO_VQ_UPDATE_INTERVAL_US P \<and> ISO_VQ_UPDATE_INTERVAL_US P < 2 ^ 31"

lemma rx_okD:
  assumes "rx_ok d s" "rxctxs s d = Some ctx"
  shows "rx_stats ctx \<noteq> None" "ISO_MIN_RFAIR (tun s) \<le> uint (rcp_rate ctx)"
    "uint (rcp_rate ctx) \<le> ISO_VQ_DRAIN_RATE_MBPS (tun s)" "set (vq_bucket ctx i) \<subseteq> set (vq_list ctx)"
    "v \<in> set (vq_list ctx) \<Longrightarrow> v < fresh s"
    "v \<in> set (vq_list ctx) \<Longrightarrow> \<exists>vq. vqs s v = Some vq \<and> vq_ready vq \<and> vq_rxctx vq = d"
  using assms by (auto simp: rx_ok_def)

lemma rx_ok_table: "rx_ok d s \<Longrightarrow> vq_table d s"
  by (fastforce simp: rx_ok_def vq_table_def)

lemma ready_drain_rate:
  assumes "vq_ready vq" "rx_tunables P" "ISO_MIN_RFAIR P \<le> uint r" "uint r \<le> ISO_VQ_DRAIN_RATE_MBPS P"
  shows "0 < uint (drain_rate vq r)" "uint (drain_rate vq r) \<le> 2 ^ 25"
proof -
  have w: "0 < uint (vq_weight vq)" "uint (vq_weight vq) \<le> 1024" using assms(1) by (auto simp: vq_ready_def)
  have r: "0 < uint r" "uint r \<le> 2 ^ 15" using assms(2-4) by (auto simp: rx_tunables_def rcp_tunables_def)
  have c: "uint (ucast r :: u64) = uint r" using r by (intro uint_ucast_bounded) simp
  have le: "uint (vq_weight vq) * uint r \<le> 1024 * 2 ^ 15" using w r by (intro mult_mono) simp_all
  then have p: "uint (vq_weight vq * ucast r) = uint (vq_weight vq) * uint r"
    using c by (subst uint_mult_bounded) simp_all
  have pos: "0 < uint (vq_weight vq) * uint r" using w(1) r(1) by simp
  show "0 < uint (drain_rate vq r)" "uint (drain_rate vq r) \<le> 2 ^ 25"
    using assms(1) p pos le by (auto simp: drain_rate_def Let_def uint_min vq_ready_def)
qed

lemma ready_serves:
  assumes "rx_ok d s" "rx_tunables (tun s)" "vqs s v = Some vq" "vq_ready vq" "vq_rxctx vq = d"
  shows "vq_serves s vq"
proof -
  obtain ctx where ctx: "rxctxs s d = Some ctx" using assms(1) by (auto simp: rx_ok_def)
  from ready_drain_rate [OF assms(4,2) rx_okD(2,3) [OF assms(1) ctx]] show ?thesis
    using assms(4,5) ctx by (simp add: vq_serves_def vq_ready_def)
qed

text \<open>A step of the receive path touches the clock, the locks, the virtual queues and the context.\<close>

definition rx_step :: "dev \<Rightarrow> 'z vq_mem_scheme \<Rightarrow> 'z vq_mem_scheme \<Rightarrow> bool" where
  "rx_step d s s' \<longleftrightarrow> rx_ok d s' \<and>
     (\<exists>t l vs rs. s' = s\<lparr>ticks := t, nlocks := l, vqs := vs, rxctxs := rs\<rparr>)"

lemma rx_stepI: "rx_ok d s' \<Longrightarrow> s' = s\<lparr>ticks := t, nlocks := l, vqs := vs, rxctxs := rs\<rparr> \<Longrightarrow> rx_step d s s'"
  by (auto simp: rx_step_def)

lemma rx_step_refl: "rx_ok d s \<Longrightarrow> rx_step d s s"
  by (rule rx_stepI [where t = "ticks s" and l = "nlocks s" and vs = "vqs s" and rs = "rxctxs s"]) simp_all

lemma rx_step_trans [trans]: "rx_step d s t \<Longrightarrow> rx_step d t u \<Longrightarrow> rx_step d s u"
  by (fastforce simp: rx_step_def)

lemma rx_step_same:
  assumes "rx_step d s s'"
  shows "rx_ok d s'" "tun s' = tun s" "this_cpu s' = this_cpu s" "iso_exiting s' = iso_exiting s" "fresh s' = fresh s"
    "rls s' = rls s" "rlcbs s' = rlcbs s" "txctx_xmit s' = txctx_xmit s" "wire s' = wire s" "allocs s' = allocs s"
    "freed_skbs s' = freed_skbs s" "vq_mem.more s' = vq_mem.more s" "online s' = online s" "possible s' = possible s"
  using assms by (auto simp: rx_step_def)

lemma rx_ok_cong:
  "rx_ok d s \<Longrightarrow> tun s' = tun s \<Longrightarrow> fresh s \<le> fresh s' \<Longrightarrow> vqs s' = vqs s \<Longrightarrow> rxctxs s' = rxctxs s \<Longrightarrow> rx_ok d s'"
  by (fastforce simp: rx_ok_def)

lemma rx_ok_env [simp]:
  "rx_ok d (s\<lparr>ticks := a\<rparr>) = rx_ok d s" "rx_ok d (s\<lparr>nlocks := b\<rparr>) = rx_ok d s" "rx_ok d (s\<lparr>nallocs := b\<rparr>) = rx_ok d s"
  "rx_ok d (s\<lparr>this_cpu := c\<rparr>) = rx_ok d s" "rx_ok d (s\<lparr>rls := e\<rparr>) = rx_ok d s" "rx_ok d (s\<lparr>rlcbs := f\<rparr>) = rx_ok d s"
  "rx_ok d (s\<lparr>wire := g\<rparr>) = rx_ok d s" "rx_ok d (s\<lparr>freed_skbs := h\<rparr>) = rx_ok d s"
  by (simp_all add: rx_ok_def)

section \<open>Statistics and the RCP rate\<close>

lemma dt_nonzero:
  assumes "0 < I" "I < 2 ^ 31" "\<not> dt < (of_int I :: u64)"
  shows "dt \<noteq> 0"
proof -
  have "uint (of_int I :: u64) = I" using assms(1,2) by (intro uint_of_int) simp_all
  then show ?thesis using assms(1,3) by (auto simp: word_less_def)
qed

lemma rx_ok_put_ctx:
  assumes "rx_ok d s" "rxctxs s d = Some ctx" "vq_bucket ctx' = vq_bucket ctx" "vq_list ctx' = vq_list ctx"
    "rx_stats ctx' \<noteq> None" "ISO_MIN_RFAIR (tun s) \<le> uint (rcp_rate ctx')"
    "uint (rcp_rate ctx') \<le> ISO_VQ_DRAIN_RATE_MBPS (tun s)"
  shows "rx_ok d (s\<lparr>ticks := t, nlocks := l, rxctxs := (rxctxs s)(d \<mapsto> ctx')\<rparr>)"
    "rx_ok d (s\<lparr>rxctxs := (rxctxs s)(d \<mapsto> ctx')\<rparr>)"
    "rx_ok d (s\<lparr>ticks := t, rxctxs := (rxctxs s)(d \<mapsto> ctx')\<rparr>)"
  using assms by (auto simp: rx_ok_def)

lemma stats_update_step:
  assumes "rx_ok d s" "rx_tunables (tun s)"
  shows "\<exists>s'. iso_rx_stats_update d skb s = Some s' \<and> rx_step d s s'"
proof -
  obtain ctx st where ctx: "rxctxs s d = Some ctx" "rx_stats ctx = Some st" using assms(1) by (auto simp: rx_ok_def)
  note o = rx_okD [OF assms(1) ctx(1)]
  let ?c = "this_cpu s"
  let ?st = "st(?c := (st ?c)\<lparr>rs_bytes := rs_bytes (st ?c) + skb_bytes skb, rs_packets := rs_packets (st ?c) + 1\<rparr>)"
  let ?ctx = "ctx\<lparr>rx_stats := Some ?st\<rparr>"
  let ?dt = "of_int (ktime_us_delta (clock s (ticks s)) (last_stats_update_time ctx)) :: u64"
  let ?I = "of_int (ISO_VQ_UPDATE_INTERVAL_US (tun s)) :: u64"
  let ?g = "sum_stats (online s) ?st rx_stats_zero"
  have put: "rx_step d s (s\<lparr>ticks := t, nlocks := l, rxctxs := (rxctxs s)(d \<mapsto> ctx')\<rparr>)"
    if "vq_bucket ctx' = vq_bucket ctx" "vq_list ctx' = vq_list ctx" "rx_stats ctx' \<noteq> None" "rcp_rate ctx' = rcp_rate ctx"
    for t l ctx'
    by (rule rx_stepI [where vs = "vqs s"]) (use rx_ok_put_ctx(1) [OF assms(1) ctx(1)] that o in simp_all)
  let ?l = "if ?dt < ?I then nlocks s else Suc (nlocks s)"
  show ?thesis
  proof (cases "?dt < ?I \<or> \<not> trylocks s (nlocks s)")
    case True
    then have "iso_rx_stats_update d skb s = Some (s\<lparr>ticks := Suc (ticks s), nlocks := ?l, rxctxs := (rxctxs s)(d \<mapsto> ?ctx)\<rparr>)"
      using ctx by (auto simp: iso_rx_stats_update_def ktime_get_def spin_trylock_def Let_def)
    then show ?thesis using put [where ctx' = ?ctx] by simp
  next
    case False
    let ?ctx' = "?ctx\<lparr>last_stats_update_time := clock s (ticks s), global_stats_last := global_stats ctx,
        global_stats := ?g, rxctx_rx_rate := ucast (push_bit 3 (rs_bytes ?g - rs_bytes (global_stats ctx)) div ?dt)\<rparr>"
    have "?dt \<noteq> 0" using dt_nonzero [of "ISO_VQ_UPDATE_INTERVAL_US (tun s)" ?dt] False assms(2)
      by (auto simp: rx_tunables_def)
    then have "iso_rx_stats_update d skb s = Some (s\<lparr>ticks := Suc (ticks s), nlocks := ?l, rxctxs := (rxctxs s)(d \<mapsto> ?ctx')\<rparr>)"
      using ctx False by (simp add: iso_rx_stats_update_def ktime_get_def spin_trylock_def Let_def udiv_def)
    then show ?thesis using put [where ctx' = ?ctx'] by simp
  qed
qed

lemma rx_step_quiet:
  assumes "rx_ok d s"
  shows "rx_step d s (s\<lparr>ticks := t\<rparr>)" "rx_step d s (s\<lparr>ticks := t, nlocks := l\<rparr>)"
proof -
  show "rx_step d s (s\<lparr>ticks := t\<rparr>)"
    by (rule rx_stepI [where t = t and l = "nlocks s" and vs = "vqs s" and rs = "rxctxs s"]) (use assms in simp_all)
  show "rx_step d s (s\<lparr>ticks := t, nlocks := l\<rparr>)"
    by (rule rx_stepI [where t = t and l = l and vs = "vqs s" and rs = "rxctxs s"]) (use assms in simp_all)
qed

lemma rcp_update_step:
  assumes "rx_ok d s" "rx_tunables (tun s)"
  shows "\<exists>s'. iso_rx_rcp_update d s = Some s' \<and> rx_step d s s'"
proof -
  obtain ctx where ctx: "rxctxs s d = Some ctx" using assms(1) by (auto simp: rx_ok_def)
  note o = rx_okD [OF assms(1) ctx]
  obtain w where w: "rx_rcp_rate (tun s) (rcp_rate ctx) (rxctx_rx_rate ctx) = Some w" "ISO_MIN_RFAIR (tun s) \<le> uint w"
    "uint w \<le> ISO_VQ_DRAIN_RATE_MBPS (tun s)"
    using rx_rcp_bounds assms(2) by (meson rx_tunables_def)
  have put: "rx_step d s (s\<lparr>ticks := t, nlocks := l,
      rxctxs := (rxctxs s)(d \<mapsto> ctx\<lparr>rcp_rate := w, last_rcp_time := n\<rparr>)\<rparr>)" for t l n
    by (rule rx_stepI [where vs = "vqs s"]) (use rx_ok_put_ctx(1) [OF assms(1) ctx] w o in simp_all)
  show ?thesis
    using ctx w(1) put rx_step_quiet [OF assms(1)]
    by (auto simp: iso_rx_rcp_update_def ktime_get_def spin_trylock_def Let_def)
qed

section \<open>Virtual queues\<close>

lemma vq_moved_ready: "vq_moved v n vq s vq' s' \<Longrightarrow> vq_ready vq \<Longrightarrow> vq_ready vq'"
  by (auto simp: vq_moved_def vq_ready_def vq_serves_def vq_same_def)

lemma vq_moved_step:
  assumes "rx_ok d s" "vqs s v = Some vq" "vq_ready vq" "vq_rxctx vq = d" "vq_moved v n vq s vq' s'"
  shows "rx_step d s s'" "vqs s' v = Some vq'" "vq_ready vq'" "vq_rxctx vq' = d"
proof -
  obtain t l where s': "s' = put_vq v vq' (s\<lparr>ticks := t, nlocks := l\<rparr>)" using assms(5) by (auto simp: vq_moved_def)
  show r: "vq_ready vq'" using vq_moved_ready [OF assms(5,3)] .
  show x: "vq_rxctx vq' = d" using assms(4,5) by (simp add: vq_moved_def vq_same_def)
  show "vqs s' v = Some vq'" by (simp add: s')
  have "rx_ok d s'" using assms(1) r x unfolding rx_ok_def s' by fastforce
  then show "rx_step d s s'" using s' by (intro rx_stepI [where t = t and l = l and rs = "rxctxs s"]) simp_all
qed

lemma vq_enqueue_step:
  assumes "rx_ok d s" "rx_tunables (tun s)" "vqs s v = Some vq" "vq_ready vq" "vq_rxctx vq = d"
  shows "\<exists>vq' s'. iso_vq_enqueue v skb s = Some s' \<and> rx_step d s s' \<and> vqs s' v = Some vq' \<and> vq_ready vq' \<and> vq_rxctx vq' = d"
proof -
  have "drain_tunables (tun s)" using assms(2) by (simp add: rx_tunables_def)
  then obtain vq' s' where "iso_vq_enqueue v skb s = Some s'" "vq_moved v (ucast (skb_size32 skb)) vq s vq' s'"
    using vq_enqueue_moved [OF assms(3) ready_serves [OF assms(1-5)]] by blast
  then show ?thesis using vq_moved_step [OF assms(1,3-5)] by blast
qed

lemma update_stats_step:
  assumes "rx_ok d s" "rx_tunables (tun s)" "vqs s v = Some vq" "vq_ready vq" "vq_rxctx vq = d"
    "\<And>st. vs_rx_bytes (f st) = vs_rx_bytes st"
  shows "\<exists>vq' s'. vq_update_stats v f s = Some s' \<and> rx_step d s s' \<and> vqs s' v = Some vq' \<and> vq_ready vq' \<and> vq_rxctx vq' = d"
  using update_stats_moved [OF assms(3) ready_serves [OF assms(1-5)], of f 0] assms(6) vq_moved_step [OF assms(1,3-5)]
  by (metis add.right_neutral)

lemma vq_find_ready:
  assumes "rx_ok d s" "iso_vq_find K k d s = Some (Some v)"
  shows "\<exists>vq. vqs s v = Some vq \<and> vq_ready vq \<and> vq_rxctx vq = d \<and> vq_klass vq = k"
proof -
  obtain ctx where ctx: "rxctxs s d = Some ctx" using assms(1) by (auto simp: rx_ok_def)
  have f: "hlist_find (vq_has_class k s) (vq_bucket ctx (vq_index K k)) = Some (Some v)"
    using assms(2) ctx by (simp add: iso_vq_find_def)
  have "v \<in> set (vq_list ctx)" "vq_has_class k s v = Some True"
    using hlist_find_SomeD [OF f] rx_okD(4) [OF assms(1) ctx] by auto
  then show ?thesis using rx_okD(6) [OF assms(1) ctx] by (fastforce simp: vq_has_class_def)
qed

section \<open>Destination states\<close>

text \<open>What the receive path does to the transmit side: it may add a state and a limiter to a class and
  change the rate of a limiter.\<close>

definition tx_side :: "dev \<Rightarrow> 'z tx_mem_scheme \<Rightarrow> 'z tx_mem_scheme \<Rightarrow> bool" where
  "tx_side d s s' \<longleftrightarrow> tx_table d s' \<and>
     s'\<lparr>ticks := ticks s, nlocks := nlocks s, rls := rls s, txcs := txcs s, states := states s\<rparr> = s"

lemma tx_side_refl: "tx_table d s \<Longrightarrow> tx_side d s s"
  by (simp add: tx_side_def)

lemma tx_side_same:
  assumes "tx_side d s s'"
  shows "tx_table d s'" "tun s' = tun s" "this_cpu s' = this_cpu s" "iso_exiting s' = iso_exiting s" "fresh s' = fresh s"
    "txctx_xmit s' = txctx_xmit s" "allocs s' = allocs s" "rxctxs s' = rxctxs s" "vqs s' = vqs s" "txctxs s' = txctxs s"
    "trylocks s' = trylocks s" "clock s' = clock s" "wire s' = wire s" "rx_ok d' s' = rx_ok d' s"
proof -
  let ?s = "s'\<lparr>ticks := ticks s, nlocks := nlocks s, rls := rls s, txcs := txcs s, states := states s\<rparr>"
  have e: "?s = s" and t: "tx_table d s'" using assms by (simp_all add: tx_side_def)
  show "tx_table d s'" by (rule t)
  show "tun s' = tun s" "this_cpu s' = this_cpu s" "iso_exiting s' = iso_exiting s" "fresh s' = fresh s"
    "txctx_xmit s' = txctx_xmit s" "allocs s' = allocs s" "rxctxs s' = rxctxs s" "vqs s' = vqs s" "txctxs s' = txctxs s"
    "trylocks s' = trylocks s" "clock s' = clock s" "wire s' = wire s"
    using arg_cong [OF e, of tun] arg_cong [OF e, of this_cpu] arg_cong [OF e, of iso_exiting] arg_cong [OF e, of fresh]
      arg_cong [OF e, of txctx_xmit] arg_cong [OF e, of allocs] arg_cong [OF e, of rxctxs] arg_cong [OF e, of vqs]
      arg_cong [OF e, of txctxs] arg_cong [OF e, of trylocks] arg_cong [OF e, of clock] arg_cong [OF e, of wire]
    by simp_all
  then show "rx_ok d' s' = rx_ok d' s" by (simp add: rx_ok_def)
qed

lemma tx_side_trans [trans]:
  assumes "tx_side d s t" "tx_side d t u"
  shows "tx_side d s u"
proof -
  let ?f = "\<lambda>u. u\<lparr>ticks := ticks s, nlocks := nlocks s, rls := rls s, txcs := txcs s, states := states s\<rparr>"
  have "?f t = s" "u\<lparr>ticks := ticks t, nlocks := nlocks t, rls := rls t, txcs := txcs t, states := states t\<rparr> = t"
    using assms by (simp_all add: tx_side_def)
  moreover have "?f u = ?f (u\<lparr>ticks := ticks t, nlocks := nlocks t, rls := rls t, txcs := txcs t, states := states t\<rparr>)"
    by simp
  ultimately have "?f u = s" by simp
  then show ?thesis using assms(2) by (simp add: tx_side_def)
qed

lemma tx_ok_put_txc:
  assumes "tx_ok d s" "txcs s t = Some txc" "txc_txctx txc' = txc_txctx txc" "txc_ok s txc'"
  shows "tx_ok d (put_txc t txc' s)"
proof -
  obtain ctx where ctx: "txctxs s d = Some ctx" using assms(1) by (auto simp: tx_ok_def)
  note o = tx_okD [OF assms(1) ctx]
  have ok: "txc_ok (put_txc t txc' s) x = txc_ok s x" for x by (simp add: txc_ok_def)
  have "\<exists>x. txcs (put_txc t txc' s) y = Some x \<and> txc_ok s x \<and> txc_txctx x = d" if y: "y \<in> set (txc_list ctx)" for y
    using o(5) [OF y] assms(2-4) by auto
  then show ?thesis unfolding tx_ok_def
    by (intro exI [of _ ctx]) (use o ctx in \<open>auto simp: ok\<close>)
qed

lemma txc_ok_put_state:
  assumes "txc_ok s x" "st_rl st = Some p" "rls s p \<noteq> None"
  shows "txc_ok (put_state i st s) x"
proof -
  let ?s = "put_state i st s"
  note d = txc_okD [OF assms(1)]
  have 1: "\<exists>st p. states ?s y = Some st \<and> st_rl st = Some p \<and> rls ?s p \<noteq> None" if "y \<in> set (state_bucket x j)" for y j
    using d(1) [OF that] assms(2,3) by auto
  have 2: "states ?s y \<noteq> None" if "y \<in> set (prealloc_state_list x)" for y using d(2) [OF that] by simp
  have 3: "rls ?s q \<noteq> None" if "q \<in> set (rl_bucket x j)" for q j using d(3) [OF that] by simp
  have 4: "rls ?s q \<noteq> None" if "q \<in> set (prealloc_rl_list x)" for q using d(4) [OF that] by simp
  show ?thesis unfolding txc_ok_def using 1 2 3 4 by (intro conjI allI ballI)
qed

lemma tx_ok_put_state:
  assumes "tx_ok d s" "st_rl st = Some p" "rls s p \<noteq> None"
  shows "tx_ok d (put_state i st s)"
proof -
  obtain ctx where ctx: "txctxs s d = Some ctx" using assms(1) by (auto simp: tx_ok_def)
  note o = tx_okD [OF assms(1) ctx]
  let ?s = "put_state i st s"
  have "\<exists>x. txcs ?s y = Some x \<and> txc_ok ?s x \<and> txc_txctx x = d" if y: "y \<in> set (txc_list ctx)" for y
    using o(5) [OF y] txc_ok_put_state [OF _ assms(2,3)] by auto
  then show ?thesis unfolding tx_ok_def
    by (intro exI [of _ ctx]) (use o ctx in auto)
qed

lemma tx_table_puts:
  assumes "tx_table d s"
  shows "txcs s t = Some txc \<Longrightarrow> txc_txctx txc' = txc_txctx txc \<Longrightarrow> txc_ok s txc' \<Longrightarrow> tx_table d (put_txc t txc' s)"
    and "states s i \<noteq> None \<Longrightarrow> st_rl st = Some p \<Longrightarrow> rls s p \<noteq> None \<Longrightarrow> tx_table d (put_state i st s)"
    and "rls s p = Some rl \<Longrightarrow> rl_queue rl' = rl_queue rl \<Longrightarrow> rl_txc rl' = rl_txc rl \<Longrightarrow> rl_rlcb rl' = rl_rlcb rl \<Longrightarrow>
      tx_table d (put_rl p rl' s)"
proof -
  have i: "tx_ok d s" "sched_inv {} s" "unused s" using assms by (simp_all add: tx_table_def)
  show "tx_table d (put_txc t txc' s)" if "txcs s t = Some txc" "txc_txctx txc' = txc_txctx txc" "txc_ok s txc'"
  proof -
    have "t < fresh s" using that(1) unusedD(4) [OF i(3), of t] by (cases "fresh s \<le> t") auto
    then show ?thesis using tx_ok_put_txc [OF i(1) that] i unused_put(4) [OF i(3)] by (simp add: tx_table_def sched_inv_env)
  qed
  show "tx_table d (put_state i st s)" if "states s i \<noteq> None" "st_rl st = Some p" "rls s p \<noteq> None"
  proof -
    have "i < fresh s" using that(1) unusedD(3) [OF i(3), of i] by (cases "fresh s \<le> i") auto
    then show ?thesis using tx_ok_put_state [OF i(1) that(2,3)] i unused_put(3) [OF i(3)] by (simp add: tx_table_def sched_inv_env)
  qed
  show "tx_table d (put_rl p rl' s)" if "rls s p = Some rl" "rl_queue rl' = rl_queue rl" "rl_txc rl' = rl_txc rl" "rl_rlcb rl' = rl_rlcb rl"
  proof -
    have "unused (put_rl p rl' s)" using that(1) i(3) by (auto simp: unused_def)
    then show ?thesis using tx_step_put_rl [OF that, of d] i by (auto simp: tx_table_def tx_step_def tx_ok_keeps)
  qed
qed

lemma tx_table_env [simp]:
  "tx_table d (s\<lparr>ticks := a\<rparr>) = tx_table d s" "tx_table d (s\<lparr>nlocks := l\<rparr>) = tx_table d s"
proof -
  have "tx_ok d (s\<lparr>ticks := a\<rparr>) = tx_ok d s" "tx_ok d (s\<lparr>nlocks := l\<rparr>) = tx_ok d s" by (simp_all add: tx_ok_def txc_ok_def)
  moreover have "sched_inv {} (s\<lparr>nlocks := l\<rparr>) = sched_inv {} s" by (rule sched_inv_same) simp_all
  ultimately show "tx_table d (s\<lparr>ticks := a\<rparr>) = tx_table d s" "tx_table d (s\<lparr>nlocks := l\<rparr>) = tx_table d s"
    by (simp_all add: tx_table_def sched_inv_env unused_def)
qed

lemma tx_table_rename:
  assumes "tx_table d s" "states s i = Some st" "st_rl st' = st_rl st"
  shows "tx_table d (put_state i st' s)"
proof -
  let ?s = "put_state i st' s"
  have i: "tx_ok d s" "sched_inv {} s" "unused s" using assms(1) by (simp_all add: tx_table_def)
  have "tx_keeps d s ?s" using assms(2,3) by (simp add: tx_keeps_def same_links_def)
  moreover have "unused ?s" using i(3) assms(2) by (auto simp: unused_def)
  ultimately show ?thesis using i by (simp add: tx_table_def tx_ok_keeps sched_inv_env)
qed

text \<open>
  The limiter of a destination: the one in the table, or a preallocated one, which leaves the pool and
  enters the table.
\<close>

definition limiter_taken :: "kapi \<Rightarrow> u32 \<Rightarrow> 'z tx_mem_scheme \<Rightarrow> iso_tx_class \<Rightarrow> rl_ptr \<Rightarrow> iso_tx_class \<Rightarrow> bool" where
  "limiter_taken K ip s txc p txc' \<longleftrightarrow>
     (let b = bucket_index (jhash_1word K ip 0xfaceface) ISO_MAX_RL_BUCKETS in
      if \<exists>q \<in> set (rl_bucket txc b). rl_has_ip ip s q = Some True
      then p \<in> set (rl_bucket txc b) \<and> rl_has_ip ip s p = Some True \<and>
        prealloc_rl_list txc' = prealloc_rl_list txc \<and> rl_bucket txc' = rl_bucket txc
      else prealloc_rl_list txc = p # prealloc_rl_list txc' \<and> rl_bucket txc' = (rl_bucket txc)(b := p # rl_bucket txc b))"

lemma limiter_taken_same:
  assumes "limiter_taken K ip s txc p txc1" "rls s' = rls s" "prealloc_rl_list txc2 = prealloc_rl_list txc1"
    "rl_bucket txc2 = rl_bucket txc1"
  shows "limiter_taken K ip s' txc p txc2"
proof -
  have "rl_has_ip ip s' = rl_has_ip ip s" using assms(2) by (simp add: fun_eq_iff rl_has_ip_def)
  then show ?thesis using assms(1,3,4) by (simp only: limiter_taken_def)
qed

lemma pick_rl_spec:
  assumes inv: "tx_table d s" and txc: "txcs s t = Some txc" "txc_ok s txc" and room: "prealloc_rl_list txc \<noteq> []"
  shows "\<exists>p rl s' txc'. iso_pick_rl K t ip s = Some (Some p, s') \<and> tx_side d s s' \<and> rls s' p = Some rl \<and> rl_ip rl = ip \<and>
    states s' = states s \<and> txcs s' t = Some txc' \<and> txc_ok s' txc' \<and> txc_txctx txc' = txc_txctx txc \<and>
    prealloc_state_list txc' = prealloc_state_list txc \<and> state_bucket txc' = state_bucket txc \<and>
    limiter_taken K ip s txc p txc'"
proof -
  let ?i = "bucket_index (jhash_1word K ip 0xfaceface) ISO_MAX_RL_BUCKETS"
  have live: "rl_has_ip ip s p \<noteq> None" if "p \<in> set (rl_bucket txc ?i)" for p
    using txc_okD(3) [OF txc(2) that] by (auto simp: rl_has_ip_def)
  obtain f where f: "hlist_find (rl_has_ip ip s) (rl_bucket txc ?i) = Some f"
    using hlist_find_no_oops [of "rl_bucket txc ?i" "rl_has_ip ip s", OF live] by blast
  show ?thesis
  proof (cases f)
    case (Some p)
    then have p: "rl_has_ip ip s p = Some True" "p \<in> set (rl_bucket txc ?i)"
      using hlist_find_SomeD [of "rl_has_ip ip s" "rl_bucket txc ?i" p] f by simp_all
    then obtain rl where "rls s p = Some rl" "rl_ip rl = ip" by (auto simp: rl_has_ip_def)
    moreover have "limiter_taken K ip s txc p txc" using p by (auto simp: limiter_taken_def Let_def)
    ultimately show ?thesis using Some f txc tx_side_refl [OF inv] by (auto simp: iso_pick_rl_def)
  next
    case None
    obtain p rest where pr: "prealloc_rl_list txc = p # rest" using room by (cases "prealloc_rl_list txc") auto
    obtain rl where rl: "rls s p = Some rl" using txc_okD(4) [OF txc(2), of p] pr by auto
    let ?s1 = "put_rl p (rl\<lparr>rl_ip := ip\<rparr>) s"
    let ?txc = "txc\<lparr>prealloc_rl_list := rest, rl_bucket := (rl_bucket txc)(?i := p # rl_bucket txc ?i)\<rparr>"
    have t1: "tx_table d ?s1" using tx_table_puts(3) [OF inv rl] by simp
    have "txc_ok ?s1 txc" by (rule txc_ok_mono [OF txc(2)]) simp_all
    then have ok: "txc_ok ?s1 ?txc" using pr by (auto simp: txc_ok_def)
    let ?s2 = "put_txc t ?txc ?s1"
    have t2: "tx_table d ?s2" using tx_table_puts(1) [OF t1, of t txc ?txc] txc(1) ok by simp
    have "tx_side d s ?s2" using t2 by (simp add: tx_side_def)
    moreover have "txc_ok ?s2 ?txc" using ok by (simp add: txc_ok_def)
    moreover have "limiter_taken K ip s txc p ?txc"
      using hlist_find_NoneD [of "rl_has_ip ip s" "rl_bucket txc ?i"] f None pr by (auto simp: limiter_taken_def Let_def)
    ultimately show ?thesis using None f txc pr rl by (simp add: iso_pick_rl_def Let_def)
  qed
qed

text \<open>The room a feedback packet needs to create a state.\<close>

definition has_room :: "iso_tx_class \<Rightarrow> bool" where
  "has_room txc \<longleftrightarrow> prealloc_state_list txc \<noteq> [] \<and> prealloc_rl_list txc \<noteq> []"

lemma state_create_spec:
  assumes inv: "tx_table d s" and txc: "txcs s t = Some txc" "txc_ok s txc" and room: "has_room txc"
  shows "\<exists>s' txc' st p rl. state_create K t ip s = Some (StatePtr (hd (prealloc_state_list txc)), s') \<and> tx_side d s s' \<and>
    states s' (hd (prealloc_state_list txc)) = Some st \<and> ip_key st = ip \<and> st_rl st = Some p \<and> rls s' p = Some rl \<and>
    rl_ip rl = ip \<and> txcs s' t = Some txc' \<and>
    state_bucket txc' = (state_bucket txc)(state_index K ip :=
      hd (prealloc_state_list txc) # state_bucket txc (state_index K ip)) \<and>
    prealloc_state_list txc' = tl (prealloc_state_list txc) \<and> limiter_taken K ip s txc p txc'"
proof -
  obtain i rest where pr: "prealloc_state_list txc = i # rest" and rl: "prealloc_rl_list txc \<noteq> []"
    using room by (cases "prealloc_state_list txc") (auto simp: has_room_def)
  obtain st where st: "states s i = Some st" using txc_okD(2) [OF txc(2), of i] pr by auto
  let ?s1 = "put_state i (st\<lparr>ip_key := ip\<rparr>) s"
  have t1: "tx_table d ?s1" using tx_table_rename [OF inv st] by simp
  have ok1: "txc_ok ?s1 txc"
  proof -
    have "tx_keeps d s ?s1" using st by (simp add: tx_keeps_def same_links_def)
    with txc(2) show ?thesis by (rule txc_ok_keeps) (simp add: same_links_def)
  qed
  obtain p prl s2 txc2 where p: "iso_pick_rl K t ip ?s1 = Some (Some p, s2)" "tx_side d ?s1 s2" "rls s2 p = Some prl"
    "rl_ip prl = ip" "states s2 = states ?s1" "txcs s2 t = Some txc2" "txc_ok s2 txc2" "txc_txctx txc2 = txc_txctx txc"
    "prealloc_state_list txc2 = i # rest" "state_bucket txc2 = state_bucket txc" "limiter_taken K ip ?s1 txc p txc2"
    using pick_rl_spec [OF t1 _ ok1, of t K ip] txc(1) rl pr by auto
  let ?st = "st\<lparr>ip_key := ip, st_rl := Some p\<rparr>"
  obtain rc where rc: "iso_rc_init (tx_rc ?st) s2 = (rc, s2\<lparr>ticks := Suc (Suc (Suc (ticks s2)))\<rparr>)"
    by (simp add: iso_rc_init_def ktime_get_def Let_def)
  let ?s3 = "put_state i (?st\<lparr>tx_rc := rc\<rparr>) (s2\<lparr>ticks := Suc (Suc (Suc (ticks s2)))\<rparr>)"
  let ?h = "state_index K ip"
  let ?txc = "txc2\<lparr>prealloc_state_list := rest, state_bucket := (state_bucket txc2)(?h := i # state_bucket txc2 ?h),
      freelist_count := s32 (freelist_count txc2 - 1)\<rparr>"
  let ?s4 = "put_txc t ?txc ?s3"
  have "tx_table d s2" using p(2) by (simp add: tx_side_def)
  then have t3: "tx_table d ?s3"
    by (intro tx_table_puts(2) [where p = p]) (use p(3,5) in simp_all)
  have "txc_ok (s2\<lparr>ticks := Suc (Suc (Suc (ticks s2)))\<rparr>) txc2" using p(7) by (simp add: txc_ok_def)
  then have "txc_ok ?s3 txc2" by (rule txc_ok_put_state [where p = p]) (use p(3) in simp_all)
  then have ok3: "txc_ok ?s3 ?txc" using p(3,9) by (auto simp: txc_ok_def)
  have t4: "tx_table d ?s4" by (rule tx_table_puts(1) [OF t3]) (use p(6) ok3 in simp_all)
  have run: "state_create K t ip s = Some (StatePtr i, ?s4)"
    using txc(1) pr st p rc by (simp add: state_create_def Let_def)
  have "tx_side d s ?s1" "tx_side d s2 ?s4" using t1 t4 by (simp_all add: tx_side_def)
  then have "tx_side d s ?s4" using p(2) by (blast intro: tx_side_trans)
  moreover have "limiter_taken K ip s txc p ?txc" by (rule limiter_taken_same [OF p(11)]) simp_all
  ultimately show ?thesis using run pr p(3,4,10) by simp
qed

text \<open>The first feedback from a new destination.\<close>

lemma state_get_create:
  assumes inv: "tx_table d s" and txc: "txcs s t = Some txc" "txc_ok s txc" and room: "has_room txc"
    and lock: "trylocks s (nlocks s)" and ip: "is_ip skb"
    and cur: "hlist_cursor (state_has_ip (dest_ip skb rx) s) (state_bucket txc (state_index K (dest_ip skb rx))) None = Some None"
  shows "\<exists>s' txc' st p rl. iso_state_get K t skb rx True s = Some (Some (StatePtr (hd (prealloc_state_list txc))), s') \<and>
    tx_side d s s' \<and> states s' (hd (prealloc_state_list txc)) = Some st \<and> ip_key st = dest_ip skb rx \<and> st_rl st = Some p \<and>
    rls s' p = Some rl \<and> rl_ip rl = dest_ip skb rx \<and> txcs s' t = Some txc' \<and>
    state_bucket txc' = (state_bucket txc)(state_index K (dest_ip skb rx) :=
      hd (prealloc_state_list txc) # state_bucket txc (state_index K (dest_ip skb rx))) \<and>
    prealloc_state_list txc' = tl (prealloc_state_list txc) \<and> limiter_taken K (dest_ip skb rx) s txc p txc'"
proof -
  let ?ip = "dest_ip skb rx" and ?i = "hd (prealloc_state_list txc)"
  let ?b = "state_bucket txc (state_index K ?ip)" and ?l = "s\<lparr>nlocks := Suc (nlocks s)\<rparr>"
  have sl: "tx_side d s ?l" using inv by (simp add: tx_side_def)
  have "state_has_ip ?ip ?l = state_has_ip ?ip s" by (rule ext) (simp add: state_has_ip_def)
  then have cur2: "hlist_cursor (state_has_ip ?ip ?l) ?b None = Some None" using cur by simp
  have tl: "tx_table d ?l" "txcs ?l t = Some txc" "txc_ok ?l txc" using inv txc by (simp_all add: txc_ok_def)
  obtain s1 txc1 st p rl where s1: "state_create K t ?ip ?l = Some (StatePtr ?i, s1)" "tx_side d ?l s1"
    "states s1 ?i = Some st" "ip_key st = ?ip" "st_rl st = Some p" "rls s1 p = Some rl" "rl_ip rl = ?ip"
    "txcs s1 t = Some txc1" "state_bucket txc1 = (state_bucket txc)(state_index K ?ip := ?i # ?b)"
    "prealloc_state_list txc1 = tl (prealloc_state_list txc)" "limiter_taken K ?ip ?l txc p txc1"
    using state_create_spec [OF tl room, of K ?ip] by auto
  let ?txc2 = "txc1\<lparr>allocator_pending := True\<rparr>"
  let ?s2 = "put_txc t ?txc2 s1"
  have t1: "tx_table d s1" using s1(2) by (simp add: tx_side_def)
  have "tx_step d s1 ?s2" by (rule tx_step_put_txc [OF s1(8)]) (simp add: same_links_def)
  moreover have "unused ?s2" using t1 s1(8) by (auto simp: tx_table_def unused_def)
  ultimately have "tx_table d ?s2" using t1 by (auto simp: tx_table_def tx_step_def tx_ok_keeps)
  then have side: "tx_side d s s1" "tx_side d s ?s2"
    using sl s1(2) tx_side_trans [of d s ?l s1] tx_side_trans [of d s s1 ?s2] by (simp_all add: tx_side_def)
  have run: "iso_state_get K t skb rx True s =
      Some (Some (StatePtr ?i), if freelist_count txc1 \<le> 10 then ?s2 else s1)"
    using ip lock cur cur2 txc(1) s1(1,8) by (simp add: iso_state_get_def spin_trylock_def Let_def)
  have "limiter_taken K ?ip s txc p txc1" "limiter_taken K ?ip s txc p ?txc2"
    by (rule limiter_taken_same [OF s1(11)]; simp)+
  then show ?thesis
    by (cases "freelist_count txc1 \<le> 10") (use run side s1(3-10) in auto)
qed

lemma state_get_spec:
  assumes inv: "tx_table d s" and txc: "txcs s t = Some txc" "txc_ok s txc"
    and room: "create \<Longrightarrow> state_bucket txc (state_index K (dest_ip skb rx)) = [] \<Longrightarrow> has_room txc"
  shows "\<exists>r s'. iso_state_get K t skb rx create s = Some (r, s') \<and> tx_side d s s' \<and>
    (\<forall>p. r = Some p \<longrightarrow> (\<exists>i st q rl. p = StatePtr i \<and> states s' i = Some st \<and> st_rl st = Some q \<and> rls s' q = Some rl))"
proof (cases "is_ip skb")
  case True
  let ?ip = "dest_ip skb rx"
  let ?b = "state_bucket txc (state_index K ?ip)"
  have live: "state_has_ip ?ip s x \<noteq> None" if "x \<in> set ?b" for x
    using txc_okD(1) [OF txc(2) that] by (auto simp: state_has_ip_def)
  obtain c where c: "hlist_cursor (state_has_ip ?ip s) ?b None = Some c"
    using hlist_cursor_no_oops [of ?b "state_has_ip ?ip s", OF live] by blast
  show ?thesis
  proof (cases c)
    case (Some i)
    then have "\<exists>st q rl. states s i = Some st \<and> st_rl st = Some q \<and> rls s q = Some rl"
      using hlist_cursor_mem [of "state_has_ip ?ip s" ?b None i] c txc_okD(1) [OF txc(2)] by fastforce
    then show ?thesis using True Some c txc(1) tx_side_refl [OF inv] by (auto simp: iso_state_get_def)
  next
    case None
    have sl: "tx_side d s (s\<lparr>nlocks := Suc (nlocks s)\<rparr>)" using inv by (simp add: tx_side_def)
    show ?thesis
    proof (cases "create \<and> trylocks s (nlocks s)")
      case False
      then show ?thesis using True None c txc(1) sl tx_side_refl [OF inv]
        by (cases create) (auto simp: iso_state_get_def spin_trylock_def Let_def)
    next
      case T: True
      then have create: "create = True" by simp
      have "?b = []" using hlist_cursor_none c None by fastforce
      then have "has_room txc" using room create by blast
      from state_get_create [OF inv txc this _ True, of rx K] show ?thesis
        unfolding create using T c None by fastforce
    qed
  qed
qed (use tx_side_refl [OF inv] in \<open>simp add: iso_state_get_def\<close>)

section \<open>Feedback\<close>

lemma apply_feedback_step:
  assumes inv: "tx_table d s" and st: "states s i = Some st" "st_rl st = Some q" "rls s q = Some rl"
  shows "\<exists>s'. rx_apply_feedback (StatePtr i) skb s = Some s' \<and> tx_side d s s'"
proof -
  let ?t = "s\<lparr>ticks := Suc (ticks s)\<rparr>" and ?now = "clock s (ticks s)"
  let ?l = "?t\<lparr>nlocks := Suc (nlocks s)\<rparr>"
  let ?rl = "rl\<lparr>rl_rate := of_int (skb_has_feedback (tun s) skb), last_rate_update_time := ?now\<rparr>"
  let ?s1 = "put_rl q ?rl ?l"
  let ?s2 = "put_state i (st\<lparr>tx_rc := (tx_rc st)\<lparr>last_rfair_change_time := ?now\<rparr>\<rparr>) ?s1"
  have t: "tx_table d ?t" "tx_table d ?l" using inv by simp_all
  have t1: "tx_table d ?s1" using tx_table_puts(3) [OF t(2), of q rl ?rl] st(3) by simp
  have "tx_table d ?s2" using tx_table_rename [OF t1, of i st] st(1) by simp
  then have side: "tx_side d s ?t" "tx_side d s ?l" "tx_side d s ?s2" using t by (simp_all add: tx_side_def)
  then show ?thesis
    using st by (simp add: rx_apply_feedback_def ktime_get_def spin_trylock_def state_of_def Let_def)
qed

text \<open>The step of the whole data path.\<close>

definition dp_ok :: "dev \<Rightarrow> 'z tx_mem_scheme \<Rightarrow> bool" where
  "dp_ok d s \<longleftrightarrow> tx_table d s \<and> rx_ok d s"

definition dp_step :: "dev \<Rightarrow> 'z tx_mem_scheme \<Rightarrow> 'z tx_mem_scheme \<Rightarrow> bool" where
  "dp_step d s s' \<longleftrightarrow> dp_ok d s' \<and> tun s' = tun s \<and> this_cpu s' = this_cpu s \<and> iso_exiting s' = iso_exiting s \<and>
     txctx_xmit s' = txctx_xmit s"

lemma dp_step_refl: "dp_ok d s \<Longrightarrow> dp_step d s s"
  by (simp add: dp_step_def)

lemma dp_step_trans [trans]: "dp_step d s t \<Longrightarrow> dp_step d t u \<Longrightarrow> dp_step d s u"
  by (simp add: dp_step_def)

lemma dp_step_ok: "dp_step d s s' \<Longrightarrow> dp_ok d s'" "dp_step d s s' \<Longrightarrow> tun s' = tun s"
  by (simp_all add: dp_step_def)

lemma dp_step_tx_side: "dp_ok d s \<Longrightarrow> tx_side d s s' \<Longrightarrow> dp_step d s s'"
  using tx_side_same [of d s s'] by (simp add: dp_step_def dp_ok_def)

lemma tx_table_same:
  assumes "tx_table d s" "txctxs s' = txctxs s" "rlcbs s' = rlcbs s" "txcs s' = txcs s" "states s' = states s"
    "rls s' = rls s" "fresh s' = fresh s" "tun s' = tun s" "txctx_xmit s' = txctx_xmit s"
  shows "tx_table d s'"
proof -
  have "txc_ok s' = txc_ok s" by (rule ext) (simp add: txc_ok_def assms)
  then have "tx_ok d s' = tx_ok d s" by (simp add: tx_ok_def assms)
  moreover have "sched_inv {} s' = sched_inv {} s" by (rule sched_inv_same) (use assms in simp_all)
  moreover have "unused s' = unused s" by (simp add: unused_def assms)
  ultimately show ?thesis using assms(1) by (simp add: tx_table_def)
qed

lemma rx_step_more:
  assumes "rx_step d s s'"
  shows "txctxs s' = txctxs s" "txcs s' = txcs s" "states s' = states s"
proof -
  have "vq_mem.more s' = vq_mem.more s" by (rule rx_step_same(12) [OF assms])
  then show "txctxs s' = txctxs s" "txcs s' = txcs s" "states s' = states s" by (cases s, cases s', simp)+
qed

lemma dp_step_rx: "dp_ok d s \<Longrightarrow> rx_step d s s' \<Longrightarrow> dp_step d s s'"
  using tx_table_same [of d s s'] rx_step_same [of d s s'] rx_step_more [of d s s'] by (simp add: dp_step_def dp_ok_def)

lemma dp_step_logs:
  assumes "dp_ok d s"
  shows "dp_step d s (s\<lparr>nallocs := n, wire := w\<rparr>)" "dp_step d s (s\<lparr>nallocs := n, freed_skbs := f\<rparr>)"
    "dp_step d s (s\<lparr>nallocs := n\<rparr>)" "dp_step d s (s\<lparr>freed_skbs := f\<rparr>)" "dp_step d s (s\<lparr>wire := w\<rparr>)"
  using assms by (auto simp: dp_step_def dp_ok_def intro: tx_table_same [of d s])

lemma generate_feedback_step:
  assumes "dp_ok d s" "skb_ok s skb"
  shows "\<exists>r s'. iso_generate_feedback fb skb s = Some (r, s') \<and> dp_step d s s' \<and> vqs s' = vqs s"
  using assms dp_step_logs [OF assms(1)] dp_step_refl [OF assms(1)]
  by (auto simp: iso_generate_feedback_def netdev_alloc_skb_def skb_xmit_def skb_ok_def)

lemma send_feedback_step:
  assumes "dp_ok d s" "skb_ok s skb" "rx_tunables (tun s)" "vqs s v = Some vq" "vq_ready vq" "vq_rxctx vq = d"
  shows "\<exists>s'. rx_send_feedback v skb s = Some s' \<and> dp_step d s s'"
proof -
  let ?s1 = "s\<lparr>ticks := Suc (Suc (ticks s))\<rparr>"
  have rx: "rx_ok d s" using assms(1) by (simp add: dp_ok_def)
  have s1: "dp_step d s ?s1" using dp_step_rx [OF assms(1) rx_step_quiet(1) [OF rx]] .
  obtain st where st: "percpu_stats vq = Some st" using assms(5) by (auto simp: vq_ready_def)
  let ?n = "rx_since_last_feedback (st (this_cpu s)) + skb_size32 skb"
  let ?f = "\<lambda>st. st\<lparr>rx_since_last_feedback := ?n\<rparr>"
  have rx1: "rx_ok d ?s1" "rx_tunables (tun ?s1)" "vqs ?s1 v = Some vq" using rx assms(3,4) by simp_all
  obtain vq2 s2 where s2: "vq_update_stats v ?f ?s1 = Some s2" "rx_step d ?s1 s2" "vqs s2 v = Some vq2" "vq_ready vq2" "vq_rxctx vq2 = d"
    using update_stats_step [OF rx1 assms(5,6), of ?f] by auto
  have d2: "dp_step d s s2" using dp_step_trans [OF s1 dp_step_rx [OF dp_step_ok(1) [OF s1] s2(2)]] .
  have ok2: "dp_ok d s2" "skb_ok s2 skb" "tun s2 = tun s" using d2 assms(2) by (simp_all add: dp_step_def skb_ok_def)
  obtain r s3 where s3: "iso_generate_feedback (iso_vq_over_limits vq) skb s2 = Some (r, s3)" "dp_step d s2 s3" "vqs s3 = vqs s2"
    using generate_feedback_step [OF ok2(1,2)] by blast
  let ?now = "clock s (ticks s)"
  let ?g = "\<lambda>st. st\<lparr>last_feedback_gen_time := ?now, rx_since_last_feedback := 0, network_marked := 0\<rparr>"
  have rx3: "rx_ok d s3" "rx_tunables (tun s3)" "vqs s3 v = Some vq2" "dp_ok d s3"
    using s3 s2(3) ok2(3) assms(3) by (simp_all add: dp_step_def dp_ok_def)
  obtain s4 where s4: "vq_update_stats v ?g s3 = Some s4" "rx_step d s3 s4"
    using update_stats_step [OF rx3(1-3) s2(4,5), of ?g] by auto
  have d4: "dp_step d s s4" using dp_step_trans [OF dp_step_trans [OF d2 s3(2)] dp_step_rx [OF rx3(4) s4(2)]] .
  show ?thesis
    using assms(4) st s2(1) s3(1) s4(1) d2 d4
    by (simp add: rx_send_feedback_def ktime_get_def Let_def)
qed

section \<open>Reception\<close>

lemma skb_ok_clear_ecn: "skb_ok s (iso_clear_ecn K skb) = skb_ok s skb"
  by (simp add: skb_ok_def iso_clear_ecn_def)

lemma rx_classified_step:
  assumes ok: "dp_ok d s" "skb_ok s skb" "rx_tunables (tun s)" and vq: "vqs s v = Some vq" "vq_ready vq" "vq_rxctx vq = d"
    and txc: "txcs s t = Some txc" "txc_ok s txc"
    and room: "iso_is_feedback_marked (tun s) skb \<noteq> 0 \<Longrightarrow> state_bucket txc (state_index K (dest_ip skb True)) = [] \<Longrightarrow>
      has_room txc"
  shows "\<exists>verdict skb' s'. rx_classified K t v skb s = Some (verdict, skb', s') \<and> dp_step d s s'"
proof -
  have tab: "tx_table d s" using ok(1) by (simp add: dp_ok_def)
  obtain r s1 where s1: "iso_state_get K t skb True (iso_is_feedback_marked (tun s) skb \<noteq> 0) s = Some (r, s1)" "tx_side d s s1"
    "\<And>p. r = Some p \<Longrightarrow> \<exists>i st q rl. p = StatePtr i \<and> states s1 i = Some st \<and> st_rl st = Some q \<and> rls s1 q = Some rl"
    using state_get_spec [where K = K and skb = skb and rx = True and create = "iso_is_feedback_marked (tun s) skb \<noteq> 0",
      OF tab txc room] by blast
  obtain verdict skb' s2 where s2: "(case r of None \<Rightarrow> Some (ISO_VERDICT_SUCCESS, skb, s1)
       | Some p \<Rightarrow> do { s \<leftarrow> rx_apply_feedback p skb s1;
           Some (if iso_is_generated_feedback (tun s) skb then ISO_VERDICT_DROP else ISO_VERDICT_SUCCESS,
                 iso_clear_ecn K skb, s) }) = Some (verdict, skb', s2)" "tx_side d s s2" "skb_ok s skb'"
  proof (cases r)
    case None
    then show thesis using that s1(2) ok(2) by simp
  next
    case (Some p)
    with s1(3) obtain i st q rl where i: "p = StatePtr i" "states s1 i = Some st" "st_rl st = Some q" "rls s1 q = Some rl" by blast
    obtain s2 where "rx_apply_feedback p skb s1 = Some s2" "tx_side d s1 s2"
      using apply_feedback_step [OF tx_side_same(1) [OF s1(2)] i(2-4)] i(1) by blast
    then show thesis using that Some tx_side_trans [OF s1(2)] ok(2) by (simp add: skb_ok_clear_ecn)
  qed
  have d2: "dp_step d s s2" using dp_step_tx_side [OF ok(1) s2(2)] .
  then have ok2: "dp_ok d s2" "skb_ok s2 skb'" "rx_tunables (tun s2)" "vqs s2 v = Some vq"
    using s2(3) ok(3) vq(1) tx_side_same(9) [OF s2(2)] by (simp_all add: dp_step_def skb_ok_def)
  obtain s3 where s3: "rx_send_feedback v skb' s2 = Some s3" "dp_step d s2 s3"
    using send_feedback_step [OF ok2 vq(2,3)] by blast
  show ?thesis
    using s1(1) s2(1) s3(1) d2 dp_step_trans [OF d2 s3(2)]
    by (auto simp: rx_classified_def split: option.splits)
qed

text \<open>A packet with feedback needs room in the class it is for, unless the bucket of its destination has a state.\<close>

definition rx_room :: "kapi \<Rightarrow> dev \<Rightarrow> sk_buff \<Rightarrow> 'z tx_mem_scheme \<Rightarrow> bool" where
  "rx_room K d skb s \<longleftrightarrow> (iso_is_feedback_marked (tun s) skb = 0 \<or>
     (\<forall>t txc. iso_txc_find K (iso_rx_classify skb) d s = Some (Some t) \<and> txcs s t = Some txc \<and>
        state_bucket txc (state_index K (dest_ip skb True)) = [] \<longrightarrow> has_room txc))"

lemma iso_rx_step:
  assumes ok: "dp_ok d s" "skb_ok s skb" "rx_tunables (tun s)" and room: "rx_room K d skb s"
  shows "\<exists>v skb' s'. iso_rx K skb d s = Some (v, skb', s') \<and> dp_step d s s'"
proof -
  let ?k = "iso_rx_classify skb"
  have rx: "rx_ok d s" using ok(1) by (simp add: dp_ok_def)
  obtain s1 where s1: "iso_rx_stats_update d skb s = Some s1" "rx_step d s s1" using stats_update_step [OF rx ok(3)] by blast
  have rx1: "rx_ok d s1" "rx_tunables (tun s1)" using rx_step_same(1,2) [OF s1(2)] ok(3) by simp_all
  obtain s2 where s2: "iso_rx_rcp_update d s1 = Some s2" "rx_step d s1 s2" using rcp_update_step [OF rx1] by blast
  have r2: "rx_step d s s2" using rx_step_trans [OF s1(2) s2(2)] .
  have rx2: "rx_ok d s2" "rx_tunables (tun s2)" using rx_step_same(1,2) [OF r2] ok(3) by simp_all
  obtain f where f: "iso_vq_find K ?k d s2 = Some f" using vq_find_total [OF rx_ok_table [OF rx2(1)], of K ?k] by blast
  show ?thesis
  proof (cases f)
    case None
    then show ?thesis using s1(1) s2(1) f dp_step_rx [OF ok(1) r2] by (simp add: iso_rx_def Let_def)
  next
    case (Some v)
    then obtain vq where vq: "vqs s2 v = Some vq" "vq_ready vq" "vq_rxctx vq = d"
      using vq_find_ready [OF rx2(1)] f by blast
    obtain vq3 s3 where s3: "iso_vq_enqueue v skb s2 = Some s3" "rx_step d s2 s3" "vqs s3 v = Some vq3" "vq_ready vq3" "vq_rxctx vq3 = d"
      using vq_enqueue_step [OF rx2 vq] by blast
    have r3: "rx_step d s s3" using rx_step_trans [OF r2 s3(2)] .
    have d3: "dp_step d s s3" using dp_step_rx [OF ok(1) r3] .
    then have ok3: "dp_ok d s3" "skb_ok s3 skb" "rx_tunables (tun s3)" using ok(2,3) by (simp_all add: dp_step_def skb_ok_def)
    obtain g where g: "iso_txc_find K ?k d s3 = Some g"
      "\<And>t. g = Some t \<Longrightarrow> \<exists>txc. txcs s3 t = Some txc \<and> txc_ok s3 txc"
      using txc_find_total [of d s3 K ?k] ok3(1) by (auto simp: dp_ok_def tx_table_def)
    show ?thesis
    proof (cases g)
      case None
      then show ?thesis using Some s1(1) s2(1) f s3(1) g(1) d3 by (simp add: iso_rx_def Let_def)
    next
      case t: (Some t)
      with g(2) obtain txc where txc: "txcs s3 t = Some txc" "txc_ok s3 txc" by blast
      have "iso_txc_find K ?k d s3 = iso_txc_find K ?k d s"
        using rx_step_more [OF r3] by (simp add: iso_txc_find_def txc_has_class_def cong: hlist_find_cong)
      then have f0: "iso_txc_find K ?k d s = Some (Some t)" "txcs s t = Some txc" "tun s3 = tun s"
        using t g(1) txc(1) rx_step_more(2) [OF r3] rx_step_same(2) [OF r3] by simp_all
      then have "has_room txc" if "iso_is_feedback_marked (tun s3) skb \<noteq> 0" "state_bucket txc (state_index K (dest_ip skb True)) = []"
        using room that unfolding rx_room_def by metis
      then obtain w skb' s4 where "rx_classified K t v skb s3 = Some (w, skb', s4)" "dp_step d s3 s4"
        using rx_classified_step [OF ok3 s3(3-5) txc] by blast
      then show ?thesis
        using Some t s1(1) s2(1) f s3(1) g(1) dp_step_trans [OF d3] by (simp add: iso_rx_def Let_def)
    qed
  qed
qed

end
