(* ===== verification/DataPath.thy ===== *)
theory DataPath
  imports RxLaws Qdisc
begin

text \<open>
  A device in service as a transition system. Its events are the arrivals of packets from above
  (\<open>iso_enqueue\<close>) and from the wire (\<open>iso_rx_handler\<close>, both of \<open>src/qdisc.c\<close>), the expiry of an armed
  timer (\<open>iso_rl_timeout\<close>), the run of a scheduled tasklet (\<open>iso_rl_xmit_tasklet\<close>) and of the work
  that refills the pool of a class (\<open>iso_txc_allocator\<close>), and the configuration of classes and virtual
  queues, in any order and on any CPU. The invariant of the reachable states joins those of the
  transmit path, of the scheduling of the limiters and of the receive path, and no event oopses.

  Left out are the events that the code does not survive: deletions, a virtual queue of weight 0, a packet
  with the feedback mark for a class whose pool of states or limiters is empty, when the bucket of its
  destination has no state yet (\<open>rx_room\<close>), and failing allocations in the refill of a pool and in
  installations. Packets are sane (\<open>skb_ok\<close>).
\<close>

section \<open>Events\<close>

datatype event = TxPacket sk_buff cpu | RxPacket sk_buff cpu | TimerFires cpu | TaskletRuns cpu
  | AllocatorRuns nat | InstallTxc iso_class_t | InstallVq iso_class_t
  | SetTxcWeight iso_class_t int | SetTxcRate iso_class_t int
  | SetVqWeight iso_class_t int | SetVqRate iso_class_t int

fun event_run :: "kapi \<Rightarrow> dev \<Rightarrow> event \<Rightarrow> 'z sys_mem_scheme \<Rightarrow> 'z sys_mem_scheme option" where
  "event_run K d (TxPacket skb c) s = map_option snd (iso_enqueue K skb d (s\<lparr>this_cpu := c\<rparr>))"
| "event_run K d (RxPacket skb c) s = map_option (\<lambda>(_, _, s). s) (iso_rx_handler K skb (s\<lparr>this_cpu := c\<rparr>))"
| "event_run K d (TimerFires c) s = iso_rl_timeout d c s"
| "event_run K d (TaskletRuns c) s = iso_rl_xmit_tasklet K d c s"
| "event_run K d (AllocatorRuns t) s = iso_txc_allocator t s"
| "event_run K d (InstallTxc k) s = map_option snd (txc_install_class K k d s)"
| "event_run K d (InstallVq k) s = map_option snd (vq_install_class K k d s)"
| "event_run K d (SetTxcWeight k w) s = map_option snd (set_txc_weight K d k w s)"
| "event_run K d (SetTxcRate k r) s = map_option snd (set_txc_rate K d k r s)"
| "event_run K d (SetVqWeight k w) s = map_option snd (set_vq_weight K d k w s)"
| "event_run K d (SetVqRate k r) s = map_option snd (set_vq_rate K d k r s)"

text \<open>The work item of a class of the device is pending.\<close>

definition refill_pending :: "dev \<Rightarrow> nat \<Rightarrow> 'z tx_mem_scheme \<Rightarrow> bool" where
  "refill_pending d t s =
     (case (txctxs s d, txcs s t) of
        (Some ctx, Some txc) \<Rightarrow> t \<in> set (txc_list ctx) \<and> allocator_pending txc
      | _ \<Rightarrow> False)"

fun event_enabled :: "kapi \<Rightarrow> dev \<Rightarrow> event \<Rightarrow> 'z sys_mem_scheme \<Rightarrow> bool" where
  "event_enabled K d (TxPacket skb c) s = skb_ok s skb"
| "event_enabled K d (RxPacket skb c) s = (skb_ok s skb \<and> skb_dev skb = d \<and> rx_room K d skb s)"
| "event_enabled K d (TimerFires c) s = (case rlcbs s d of None \<Rightarrow> False | Some cbs \<Rightarrow> cb_timer (cbs c))"
| "event_enabled K d (TaskletRuns c) s = (case rlcbs s d of None \<Rightarrow> False | Some cbs \<Rightarrow> cb_tasklet (cbs c))"
| "event_enabled K d (AllocatorRuns t) s = (refill_pending d t s \<and> allocs s = (\<lambda>_. True))"
| "event_enabled K d (InstallTxc k) s = (allocs s = (\<lambda>_. True))"
| "event_enabled K d (InstallVq k) s = (allocs s = (\<lambda>_. True))"
| "event_enabled K d (SetVqWeight k w) s = (w \<noteq> 0)"
| "event_enabled K d e s = True"

inductive runs :: "kapi \<Rightarrow> dev \<Rightarrow> 'z sys_mem_scheme \<Rightarrow> event list \<Rightarrow> 'z sys_mem_scheme \<Rightarrow> bool" for K d s where
  runs_start: "runs K d s [] s"
| runs_next: "runs K d s es s1 \<Longrightarrow> event_enabled K d e s1 \<Longrightarrow> event_run K d e s1 = Some s2 \<Longrightarrow>
    runs K d s (es @ [e]) s2"

inductive_cases runsE: "runs K d s es s'"

section \<open>Steps of the transmit side\<close>

lemma tx_table_fresh:
  fixes s s' :: "'z tx_mem_scheme"
  assumes "tx_table d s" "txctxs s' = txctxs s" "rlcbs s' = rlcbs s" "txcs s' = txcs s" "states s' = states s"
    "rls s' = rls s" "fresh s \<le> fresh s'" "tun s' = tun s" "txctx_xmit s' = txctx_xmit s"
  shows "tx_table d s'"
proof -
  have "tx_keeps d s s'" using assms(7) by (simp add: tx_keeps_def same_links_def assms(2-6))
  moreover have "sched_inv {} s' = sched_inv {} s" by (rule sched_inv_same) (use assms in simp_all)
  moreover have "unused s \<Longrightarrow> unused s'" using assms(7) by (simp add: unused_def assms(2-6))
  ultimately show ?thesis using assms(1) by (auto simp: tx_table_def tx_ok_keeps)
qed

lemma dp_step_fresh:
  fixes s s' :: "'z tx_mem_scheme"
  assumes "dp_ok d s" "rx_ok d s'" "txctxs s' = txctxs s" "rlcbs s' = rlcbs s" "txcs s' = txcs s" "states s' = states s"
    "rls s' = rls s" "fresh s \<le> fresh s'" "tun s' = tun s" "txctx_xmit s' = txctx_xmit s"
    "this_cpu s' = this_cpu s" "iso_exiting s' = iso_exiting s"
  shows "dp_step d s s'"
  using tx_table_fresh [of d s s'] assms by (simp add: dp_step_def dp_ok_def)

lemma unused_quiet: "unused s \<Longrightarrow> tx_quiet s s' \<Longrightarrow> unused s'"
  by (simp add: unused_def tx_quiet_def)

lemma dp_step_tx:
  assumes "dp_ok d s" "tx_step d s s'"
  shows "dp_step d s s'"
proof -
  have i: "tx_ok d s" "sched_inv {} s" "unused s" "rx_ok d s" using assms(1) by (simp_all add: dp_ok_def tx_table_def)
  have q: "tx_quiet s s'" "tun s' = tun s" using assms(2) by (simp_all add: tx_step_def)
  have "rx_ok d s'" by (rule rx_ok_cong [OF i(4)]) (use q in \<open>simp_all add: tx_quiet_def\<close>)
  then show ?thesis
    using assms(2) i tx_step_ok [OF assms(2) i(1)] unused_quiet [OF i(3) q(1)]
    by (simp add: dp_step_def dp_ok_def tx_table_def tx_step_def)
qed

lemma dp_step_frame:
  assumes "dp_ok d s" "rl_frame s s'" "sched_inv {} s'"
  shows "dp_step d s s'"
proof -
  have i: "tx_ok d s" "unused s" "rx_ok d s" using assms(1) by (simp_all add: dp_ok_def tx_table_def)
  note q = tx_quiet_frame [OF assms(2)] and t = rl_frameD [OF assms(2)]
  have "rx_ok d s'" by (rule rx_ok_cong [OF i(3)]) (use q t in \<open>simp_all add: tx_quiet_def\<close>)
  then show ?thesis
    using assms(3) i t tx_ok_keeps [OF i(1) tx_keeps_frame [OF assms(2)]] unused_quiet [OF i(2) q]
    by (simp add: dp_step_def dp_ok_def tx_table_def)
qed

lemma dp_ok_this_cpu:
  assumes "dp_ok d s"
  shows "dp_ok d (s\<lparr>this_cpu := c\<rparr>)"
  using assms tx_table_fresh [of d s "s\<lparr>this_cpu := c\<rparr>"] by (simp add: dp_ok_def)

lemma iso_enqueue_step:
  assumes ok: "dp_ok d s" "skb_ok s skb" and P: "tick_tunables (tun s)" "tick_interval (tun s)"
    and ex: "\<not> iso_exiting s" and K: "gso_documented K"
  shows "\<exists>r s'. iso_enqueue K skb d s = Some (r, s') \<and> dp_step d s s'"
proof -
  have "\<exists>v s'. iso_tx K skb d s = Some (v, s') \<and> tx_step d s s'"
    using iso_tx_spec [of d s "{}" skb K] assms by (simp add: dp_ok_def tx_table_def)
  then obtain v s1 where v: "(if IsoGlobalEnabled (tun s) = 0 then Some (ISO_VERDICT_PASS, s) else iso_tx K skb d s) =
      Some (v, s1)" "dp_step d s s1"
    using dp_step_tx [OF ok(1)] dp_step_refl [OF ok(1)] by (cases "IsoGlobalEnabled (tun s) = 0") auto
  have ok1: "skb_ok s1 skb" using ok(2) v(2) by (simp add: skb_ok_def dp_step_def)
  note log = dp_step_logs [OF dp_step_ok(1) [OF v(2)]]
  show ?thesis
  proof (cases v)
    case ISO_VERDICT_DROP
    then show ?thesis
      using v dp_step_trans [OF v(2) log(4)] by (auto simp: iso_enqueue_def kfree_skb_def)
  next
    case ISO_VERDICT_PASS
    have "\<exists>s2. skb_xmit skb s1 = Some s2 \<and> dp_step d s1 s2"
      using ok1 log dp_step_refl [OF dp_step_ok(1) [OF v(2)]] by (auto simp: skb_xmit_def skb_ok_def)
    then obtain s2 where "skb_xmit skb s1 = Some s2" "dp_step d s1 s2" by blast
    then show ?thesis using v dp_step_trans [OF v(2)] ISO_VERDICT_PASS by (auto simp: iso_enqueue_def)
  qed (use v in \<open>auto simp: iso_enqueue_def\<close>)
qed

lemma iso_rx_handler_step:
  assumes ok: "dp_ok d s" "skb_ok s skb" "rx_tunables (tun s)" and room: "rx_room K d skb s" and d: "skb_dev skb = d"
  shows "\<exists>r skb' s'. iso_rx_handler K skb s = Some (r, skb', s') \<and> dp_step d s s'"
proof -
  obtain v skb' s1 where s1: "iso_rx K skb d s = Some (v, skb', s1)" "dp_step d s s1"
    using iso_rx_step [OF ok room] by blast
  note log = dp_step_trans [OF s1(2) dp_step_logs(4) [OF dp_step_ok(1) [OF s1(2)]]]
  show ?thesis
    using s1 log d dp_step_refl [OF ok(1)] by (cases v) (auto simp: iso_rx_handler_def kfree_skb_def Let_def)
qed

section \<open>Refilling the pool of a class\<close>

lemma building_start:
  assumes "tx_table d s" "txctxs s d = Some ctx" "t \<in> set (txc_list ctx)" "txcs s t = Some txc"
  shows "building d t (txc_klass txc) s s"
proof -
  have i: "tx_ok d s" "sched_inv {} s" "unused s" using assms(1) by (simp_all add: tx_table_def)
  note o = tx_okD [OF i(1) assms(2)]
  obtain rl where rl: "rls s (TxcRl t) = Some rl" using o(3) [OF assms(3)] by auto
  have "links_inv s" using i(2) by (simp add: sched_inv_def heap_inv_def)
  then have "rl_txc rl = None" using shape_SomeI [OF rl] unfolding links_inv_def by blast
  then show ?thesis using i rl o(4,5) [OF assms(3)] assms(4) by (simp add: building_def)
qed

lemma built_table:
  assumes tab: "tx_table d s" and b: "building d t k s s'"
  shows "tx_table d s'"
proof -
  have i: "tx_ok d s" using tab by (simp add: tx_table_def)
  obtain ctx where ctx: "txctxs s d = Some ctx" using i by (auto simp: tx_ok_def)
  note o = tx_okD [OF i ctx]
  have rl: "rls s' p \<noteq> None" if "rls s p \<noteq> None" for p using b that by (simp add: building_def)
  have st: "states s' x = states s x" if "states s x \<noteq> None" for x using b that by (simp add: building_def)
  have "\<exists>txc. txcs s' x = Some txc \<and> txc_ok s' txc \<and> txc_txctx txc = d" if x: "x \<in> set (txc_list ctx)" for x
  proof (cases "x = t")
    case True
    then show ?thesis using b by (auto simp: building_def)
  next
    case False
    then have "txcs s' x = txcs s x" using b by (simp add: building_def)
    then show ?thesis using o(5) [OF x] txc_ok_mono [OF _ rl st] by auto
  qed
  moreover have "x < fresh s'" if "x \<in> set (txc_list ctx)" for x using o(4) [OF that] b by (simp add: building_def)
  moreover have "txctxs s' = txctxs s" "rlcbs s' = rlcbs s" using b by (simp_all add: building_def)
  ultimately have "tx_ok d s'"
    unfolding tx_ok_def using ctx o(1,2) rl o(3) by (intro exI [of _ ctx]) simp
  then show ?thesis using b by (simp add: tx_table_def building_def)
qed

lemma dp_step_built: "dp_ok d s \<Longrightarrow> building d t k s s' \<Longrightarrow> dp_step d s s'"
  using built_table [of d s t k s'] rx_ok_cong [of d s s'] by (simp add: dp_ok_def dp_step_def building_def)

lemma allocator_step:
  assumes ok: "dp_ok d s" and ctx: "txctxs s d = Some ctx" "t \<in> set (txc_list ctx)" and mem: "allocs s = (\<lambda>_. True)"
  shows "\<exists>s'. iso_txc_allocator t s = Some s' \<and> dp_step d s s'"
proof -
  have i: "tx_ok d s" using ok by (simp add: dp_ok_def tx_table_def)
  obtain txc where txc: "txcs s t = Some txc" "txc_txctx txc = d" using tx_okD(5) [OF i ctx] by blast
  let ?txc = "txc\<lparr>allocator_pending := False\<rparr>"
  let ?s = "put_txc t ?txc s"
  have st: "dp_step d s ?s" by (rule dp_step_tx [OF ok tx_step_put_txc [OF txc(1)]]) (simp add: same_links_def)
  then have tab: "tx_table d ?s" by (simp add: dp_step_def dp_ok_def)
  then have d: "rlcbs ?s d \<noteq> None" using ctx tx_okD(1) [of d ?s ctx] by (simp add: tx_table_def)
  obtain s' where s': "iso_txc_prealloc t 32 ?s = Some s'"
    using prealloc_total [of ?s t ?txc 32] ctx txc mem by auto
  have "building d t (txc_klass ?txc) ?s ?s" by (rule building_start [OF tab]) (use ctx in simp_all)
  then have "building d t (txc_klass ?txc) ?s s'" using d s' by (rule prealloc_building)
  then have "dp_step d ?s s'" using dp_step_built dp_step_ok(1) [OF st] by blast
  then show ?thesis using dp_step_trans [OF st] s' txc(1) by (auto simp: iso_txc_allocator_def)
qed

section \<open>Configuration of the transmit classes\<close>

lemma recompute_dp_step:
  assumes "dp_ok d s"
  shows "\<exists>s'. iso_txc_recompute_rates d s = Some s' \<and> dp_step d s s'"
proof -
  obtain s' where "iso_txc_recompute_rates d s = Some s'"
    using recompute_total [of d s] assms by (auto simp: dp_ok_def tx_table_def)
  then show ?thesis using dp_step_tx [OF assms] recompute_step by blast
qed

lemma txc_find_live:
  assumes "dp_ok d s"
  shows "\<exists>r. iso_txc_find K k d s = Some r \<and> (\<forall>t. r = Some t \<longrightarrow> (\<exists>txc ctx. txcs s t = Some txc \<and> txctxs s d = Some ctx))"
  using txc_find_total [of d s K k] assms by (fastforce simp: dp_ok_def tx_table_def tx_ok_def)

lemma set_txc_weight_step:
  assumes ok: "dp_ok d s"
  shows "\<exists>r s'. set_txc_weight K d k w s = Some (r, s') \<and> dp_step d s s'"
proof -
  obtain r where r: "iso_txc_find K k d s = Some r"
    "\<And>t. r = Some t \<Longrightarrow> \<exists>txc ctx. txcs s t = Some txc \<and> txctxs s d = Some ctx"
    using txc_find_live [OF ok] by blast
  show ?thesis
  proof (cases "r = None \<or> w < 0 \<or> 1024 < w")
    case True
    then show ?thesis using r(1) dp_step_refl [OF ok] by (cases r) (auto simp: set_txc_weight_def)
  next
    case False
    then obtain t txc ctx where t: "r = Some t" "txcs s t = Some txc" "txctxs s d = Some ctx" using r(2) by auto
    let ?s = "put_txc t (txc\<lparr>txc_weight := w\<rparr>) s"
    let ?w = "s32 (s32 (txc_total_weight ctx - txc_weight txc) + w)"
    let ?u = "put_txctx d (ctx\<lparr>txc_total_weight := ?w\<rparr>) ?s"
    have "tx_step d s ?s" by (rule tx_step_put_txc [OF t(2)]) (simp add: same_links_def)
    also have "tx_step d ?s ?u" by (rule tx_step_put_txctx) (use t(3) in simp_all)
    finally have st: "dp_step d s ?u" by (rule dp_step_tx [OF ok])
    obtain s' where "iso_txc_recompute_rates d ?u = Some s'" "dp_step d ?u s'"
      using recompute_dp_step [OF dp_step_ok(1) [OF st]] by blast
    then show ?thesis using dp_step_trans [OF st] False r(1) t by (auto simp: set_txc_weight_def Let_def)
  qed
qed

lemma set_txc_rate_step:
  assumes ok: "dp_ok d s"
  shows "\<exists>r s'. set_txc_rate K d k n s = Some (r, s') \<and> dp_step d s s'"
proof -
  obtain r where r: "iso_txc_find K k d s = Some r"
    "\<And>t. r = Some t \<Longrightarrow> \<exists>txc ctx. txcs s t = Some txc \<and> txctxs s d = Some ctx"
    using txc_find_live [OF ok] by blast
  show ?thesis
  proof (cases "r = None \<or> n < 0 \<or> 1024 < n")
    case True
    then show ?thesis using r(1) dp_step_refl [OF ok] by (cases r) (auto simp: set_txc_rate_def)
  next
    case False
    then obtain t txc where t: "r = Some t" "txcs s t = Some txc" using r(2) by auto
    define txc' where "txc' = (if n = 0 then txc\<lparr>txc_is_static := 0, max_rate := of_int (ISO_MAX_TX_RATE (tun s))\<rparr>
      else txc\<lparr>txc_is_static := 1, max_rate := of_int n\<rparr>)"
    let ?s = "put_txc t txc' s"
    have "tx_step d s ?s" by (rule tx_step_put_txc [OF t(2)]) (simp add: same_links_def txc'_def)
    then have st: "dp_step d s ?s" by (rule dp_step_tx [OF ok])
    obtain s' where s': "iso_txc_recompute_rates d ?s = Some s'" "dp_step d ?s s'"
      using recompute_dp_step [OF dp_step_ok(1) [OF st]] by blast
    then have "set_txc_rate K d k n s = Some (0, s')"
      using False r(1) t by (simp add: set_txc_rate_def Let_def txc'_def)
    then show ?thesis using dp_step_trans [OF st s'(2)] by blast
  qed
qed

lemma txc_install_step:
  assumes ok: "dp_ok d s" and mem: "allocs s = (\<lambda>_. True)"
  shows "\<exists>r s'. txc_install_class K k d s = Some (r, s') \<and> dp_step d s s'"
proof -
  have tab: "tx_table d s" "rx_ok d s" using ok by (simp_all add: dp_ok_def)
  obtain r where r: "iso_txc_find K k d s = Some r" using txc_find_live [OF ok] by blast
  show ?thesis
  proof (cases r)
    case (Some t)
    then show ?thesis using r dp_step_refl [OF ok] by (simp add: txc_install_class_def)
  next
    case None
    then obtain s' where s': "txc_install_class K k d s = Some (0, s')"
      using tx_install_succeeds [OF tab(1) _ mem] r by blast
    then have a: "iso_txc_alloc K k d s = Some (Some (fresh s), s')"
      using r None mem by (auto simp: txc_install_class_def iso_txc_alloc_def kmalloc_def Let_def
          split: Option.bind_splits if_splits)
    have "dp_step d s s'"
      using tab(1) a by (cases rule: txc_alloc_cases) (use tab(2) rx_ok_cong [of d s s'] in \<open>auto simp: dp_step_def dp_ok_def\<close>)
    then show ?thesis using s' by blast
  qed
qed

section \<open>Configuration of the virtual queues\<close>

lemma ready_share [simp]: "vq_ready (share P w vq) = vq_ready vq"
  by (simp add: vq_ready_def share_def)

lemma rates_dp_step:
  assumes ok: "dp_ok d s"
  shows "\<exists>s'. iso_vq_calculate_rates d s = Some s' \<and> dp_step d s s'"
proof -
  have rx: "rx_ok d s" using ok by (simp add: dp_ok_def)
  then obtain ctx where ctx: "rxctxs s d = Some ctx" by (auto simp: rx_ok_def)
  note o = rx_okD [OF rx ctx]
  have live: "\<forall>v \<in> set (vq_list ctx). vqs s v \<noteq> None" using o(6) by blast
  have "rx_ok d (share_all w (vq_list ctx) s)" for w
    using o(1-5) o(6) ctx unfolding rx_ok_def by (fastforce simp: share_all_def)
  then have "dp_step d s (share_all w (vq_list ctx) s)" for w
    by (intro dp_step_fresh [OF ok]) (simp_all add: share_all_def)
  then show ?thesis using calculate_rates_eq [OF ctx live] dp_step_refl [OF ok] by auto
qed

lemma dp_step_put_vq:
  assumes ok: "dp_ok d s" and v: "vqs s v = Some vq" "vq_ready vq'" "vq_rxctx vq' = vq_rxctx vq"
  shows "dp_step d s (put_vq v vq' s)"
proof -
  have rx: "rx_ok d s" using ok by (simp add: dp_ok_def)
  then have "rx_ok d (put_vq v vq' s)" unfolding rx_ok_def using v by fastforce
  then show ?thesis by (intro dp_step_fresh [OF ok]) simp_all
qed

lemma vq_find_live:
  assumes "dp_ok d s"
  shows "\<exists>r. iso_vq_find K k d s = Some r \<and> (\<forall>v. r = Some v \<longrightarrow> (\<exists>vq. vqs s v = Some vq \<and> vq_ready vq \<and> vq_rxctx vq = d))"
proof -
  have rx: "rx_ok d s" using assms by (simp add: dp_ok_def)
  then obtain r where "iso_vq_find K k d s = Some r" using vq_find_total [OF rx_ok_table] by blast
  then show ?thesis using vq_find_ready [OF rx] by blast
qed

lemma set_vq_weight_step:
  assumes ok: "dp_ok d s" and w: "w \<noteq> 0"
  shows "\<exists>r s'. set_vq_weight K d k w s = Some (r, s') \<and> dp_step d s s'"
proof -
  obtain r where r: "iso_vq_find K k d s = Some r"
    "\<And>v. r = Some v \<Longrightarrow> \<exists>vq. vqs s v = Some vq \<and> vq_ready vq \<and> vq_rxctx vq = d"
    using vq_find_live [OF ok] by blast
  show ?thesis
  proof (cases "r = None \<or> w < 0 \<or> 1024 < w")
    case True
    then show ?thesis using r(1) dp_step_refl [OF ok] by (cases r) (auto simp: set_vq_weight_def)
  next
    case False
    then obtain v vq where v: "r = Some v" "vqs s v = Some vq" "vq_ready vq" using r(2) by auto
    have "uint (of_int w :: u64) = w" using False by (intro uint_of_int) auto
    then have "vq_ready (vq\<lparr>vq_weight := of_int w\<rparr>)" using v(3) False w by (simp add: vq_ready_def)
    then have st: "dp_step d s (put_vq v (vq\<lparr>vq_weight := of_int w\<rparr>) s)" by (intro dp_step_put_vq [OF ok v(2)]) simp_all
    obtain s' where "iso_vq_calculate_rates d (put_vq v (vq\<lparr>vq_weight := of_int w\<rparr>) s) = Some s'"
      "dp_step d (put_vq v (vq\<lparr>vq_weight := of_int w\<rparr>) s) s'"
      using rates_dp_step [OF dp_step_ok(1) [OF st]] by blast
    then show ?thesis using dp_step_trans [OF st] False r(1) v by (auto simp: set_vq_weight_def)
  qed
qed

lemma set_vq_rate_step:
  assumes ok: "dp_ok d s" and P: "rx_tunables (tun s)"
  shows "\<exists>r s'. set_vq_rate K d k n s = Some (r, s') \<and> dp_step d s s'"
proof -
  obtain r where r: "iso_vq_find K k d s = Some r"
    "\<And>v. r = Some v \<Longrightarrow> \<exists>vq. vqs s v = Some vq \<and> vq_ready vq \<and> vq_rxctx vq = d"
    using vq_find_live [OF ok] by blast
  show ?thesis
  proof (cases "r = None \<or> n < 0 \<or> ISO_VQ_DRAIN_RATE_MBPS (tun s) < n")
    case True
    then show ?thesis using r(1) dp_step_refl [OF ok] by (cases r) (auto simp: set_vq_rate_def)
  next
    case False
    then obtain v vq where v: "r = Some v" "vqs s v = Some vq" "vq_ready vq" using r(2) by auto
    show ?thesis
    proof (cases "0 < n")
      case True
      have "uint (of_int n :: u64) = n" using True False P by (intro uint_of_int) (auto simp: rx_tunables_def)
      then have "vq_ready (vq\<lparr>vq_rate := of_int n, vq_is_static := 1\<rparr>)" using v(3) True by (simp add: vq_ready_def)
      then have "dp_step d s (put_vq v (vq\<lparr>vq_rate := of_int n, vq_is_static := 1\<rparr>) s)"
        by (intro dp_step_put_vq [OF ok v(2)]) simp_all
      then show ?thesis using True False r(1) v by (auto simp: set_vq_rate_def)
    next
      case n0: False
      have "vq_ready (vq\<lparr>vq_is_static := 0\<rparr>)" using v(3) by (simp add: vq_ready_def)
      then have st: "dp_step d s (put_vq v (vq\<lparr>vq_is_static := 0\<rparr>) s)" by (intro dp_step_put_vq [OF ok v(2)]) simp_all
      obtain s' where "iso_vq_calculate_rates d (put_vq v (vq\<lparr>vq_is_static := 0\<rparr>) s) = Some s'"
        "dp_step d (put_vq v (vq\<lparr>vq_is_static := 0\<rparr>) s) s'"
        using rates_dp_step [OF dp_step_ok(1) [OF st]] by blast
      then show ?thesis using dp_step_trans [OF st] n0 False r(1) v by (auto simp: set_vq_rate_def)
    qed
  qed
qed

lemma vq_install_step:
  assumes ok: "dp_ok d s" and mem: "allocs s = (\<lambda>_. True)"
  shows "\<exists>r s'. vq_install_class K k d s = Some (r, s') \<and> dp_step d s s'"
proof -
  obtain r where r: "iso_vq_find K k d s = Some r" using vq_find_live [OF ok] by blast
  show ?thesis
  proof (cases r)
    case (Some v)
    then show ?thesis using r dp_step_refl [OF ok] by (simp add: vq_install_class_def)
  next
    case None
    have rx: "rx_ok d s" using ok by (simp add: dp_ok_def)
    then obtain ctx where ctx: "rxctxs s d = Some ctx" by (auto simp: rx_ok_def)
    note o = rx_okD [OF rx ctx]
    let ?i = "vq_index K k" and ?s = "s\<lparr>nallocs := Suc (nallocs s), fresh := Suc (fresh s)\<rparr>"
    let ?s1 = "?s\<lparr>ticks := Suc (ticks s), nallocs := Suc (Suc (nallocs s))\<rparr>"
    let ?ctx = "ctx\<lparr>vq_list := vq_list ctx @ [fresh s], vq_bucket := (vq_bucket ctx)(?i := fresh s # vq_bucket ctx ?i)\<rparr>"
    obtain vq where vq: "iso_vq_init (vq_raw d (garbage s (Suc (nallocs s)))) ?s = (0, vq, ?s1)" "vq_ready vq" "vq_rxctx vq = d"
      using mem by (simp add: iso_vq_init_def ktime_get_def alloc_percpu_def Let_def vq_ready_def vq_raw_def)
    let ?u = "put_rxctx d ?ctx (put_vq (fresh s) (vq\<lparr>vq_klass := k\<rparr>) ?s1)"
    have ready: "vq_ready (vq\<lparr>vq_klass := k\<rparr>)" using vq(2) by (simp add: vq_ready_def)
    have live: "v < Suc (fresh s) \<and> (\<exists>vq'. vqs ?u v = Some vq' \<and> vq_ready vq' \<and> vq_rxctx vq' = d)"
      if v: "v \<in> set (vq_list ?ctx)" for v
      using v o(5,6) [of v] ready vq(3) by (cases "v = fresh s") auto
    have "rx_ok d ?u" unfolding rx_ok_def
      by (rule exI [of _ ?ctx]) (use o(1-4) live in \<open>auto simp del: not_None_eq\<close>)
    then have st: "dp_step d s ?u" by (intro dp_step_fresh [OF ok]) simp_all
    obtain s' where s': "iso_vq_calculate_rates d ?u = Some s'" "dp_step d ?u s'"
      using rates_dp_step [OF dp_step_ok(1) [OF st]] by blast
    then have "vq_install_class K k d s = Some (0, s')"
      using r None mem vq(1) ctx by (simp add: vq_install_class_def iso_vq_alloc_def kmalloc_def Let_def)
    then show ?thesis using dp_step_trans [OF st s'(2)] by blast
  qed
qed

section \<open>The system\<close>

definition dp_env :: "kapi \<Rightarrow> 'z tx_mem_scheme \<Rightarrow> bool" where
  "dp_env K s \<longleftrightarrow> tick_tunables (tun s) \<and> tick_interval (tun s) \<and> rx_tunables (tun s) \<and> \<not> iso_exiting s \<and>
     gso_documented K"

definition dp_system :: "kapi \<Rightarrow> dev \<Rightarrow> 'z tx_mem_scheme \<Rightarrow> bool" where
  "dp_system K d s \<longleftrightarrow> dp_ok d s \<and> dp_env K s"

lemma dp_systemD:
  assumes "dp_system K d s"
  shows "dp_ok d s" "tick_tunables (tun s)" "tick_interval (tun s)" "rx_tunables (tun s)" "\<not> iso_exiting s"
    "gso_documented K" "sched_inv {} s" "rlcbs s d \<noteq> None"
  using assms by (auto simp: dp_system_def dp_env_def dp_ok_def tx_table_def tx_ok_def)

lemma dp_step_system: "dp_system K d s \<Longrightarrow> dp_step d s s' \<Longrightarrow> dp_system K d s'"
  by (simp add: dp_system_def dp_env_def dp_step_def)

text \<open>Every enabled event runs to its end and keeps the invariant.\<close>

lemma packet_total:
  assumes inv: "dp_system K d s"
  shows "skb_ok s skb \<Longrightarrow> \<exists>s'. event_run K d (TxPacket skb c) s = Some s' \<and> dp_system K d s'"
    and "skb_ok s skb \<Longrightarrow> skb_dev skb = d \<Longrightarrow> rx_room K d skb s \<Longrightarrow>
      \<exists>s'. event_run K d (RxPacket skb c) s = Some s' \<and> dp_system K d s'"
proof -
  let ?s = "s\<lparr>this_cpu := c\<rparr>"
  note i = dp_systemD [OF inv]
  have sys: "dp_system K d ?s" using dp_ok_this_cpu [OF i(1)] inv by (simp add: dp_system_def dp_env_def)
  note j = dp_systemD [OF sys]
  show "\<exists>s'. event_run K d (TxPacket skb c) s = Some s' \<and> dp_system K d s'" if "skb_ok s skb"
    using iso_enqueue_step [OF j(1) _ j(2,3,5,6), of skb] dp_step_system [OF sys] that by (auto simp: skb_ok_def)
  show "\<exists>s'. event_run K d (RxPacket skb c) s = Some s' \<and> dp_system K d s'"
    if h: "skb_ok s skb" "skb_dev skb = d" "rx_room K d skb s"
  proof -
    have "skb_ok ?s skb" "rx_room K d skb ?s"
      using h by (simp_all add: skb_ok_def rx_room_def iso_txc_find_def txc_has_class_def cong: hlist_find_cong)
    then obtain r skb' s' where "iso_rx_handler K skb ?s = Some (r, skb', s')" "dp_step d ?s s'"
      using iso_rx_handler_step [OF j(1) _ j(4) _ h(2)] by blast
    then show ?thesis using dp_step_system [OF sys] by auto
  qed
qed

lemma event_total:
  assumes inv: "dp_system K d s" and e: "event_enabled K d e s"
  shows "\<exists>s'. event_run K d e s = Some s' \<and> dp_system K d s'"
proof -
  note i = dp_systemD [OF inv] and nxt = dp_step_system [OF inv]
  show ?thesis
  proof (cases e)
    case (TimerFires c)
    then show ?thesis using timeout_spec [OF i(7,8), of c] dp_step_frame [OF i(1)] nxt by auto
  next
    case (TaskletRuns c)
    then show ?thesis using tasklet_spec [OF i(7) _ i(8,5,6), of c] dp_step_frame [OF i(1)] nxt by auto
  next
    case (AllocatorRuns t)
    then show ?thesis
      using allocator_step [OF i(1), of _ t] e nxt by (auto simp: refill_pending_def split: option.splits)
  next
    case (TxPacket skb c)
    then show ?thesis using packet_total(1) [OF inv] e by simp
  next
    case (RxPacket skb c)
    then show ?thesis using packet_total(2) [OF inv] e by simp
  next
    case (InstallTxc k)
    then show ?thesis using txc_install_step [OF i(1), of K k] e nxt by auto
  next
    case (InstallVq k)
    then show ?thesis using vq_install_step [OF i(1), of K k] e nxt by auto
  next
    case (SetTxcWeight k w)
    then show ?thesis using set_txc_weight_step [OF i(1), of K k w] nxt by auto
  next
    case (SetTxcRate k n)
    then show ?thesis using set_txc_rate_step [OF i(1), of K k n] nxt by auto
  next
    case (SetVqWeight k w)
    then show ?thesis using set_vq_weight_step [OF i(1), of w K k] e nxt by auto
  next
    case (SetVqRate k n)
    then show ?thesis using set_vq_rate_step [OF i(1,4), of K k n] nxt by auto
  qed
qed

lemma runs_system: "runs K d s es s' \<Longrightarrow> dp_system K d s \<Longrightarrow> dp_system K d s'"
proof (induction rule: runs.induct)
  case (runs_next es s1 e s2)
  then show ?case using event_total [of K d s1 e] by auto
qed

end
