(* ===== verification/Lifecycle.thy ===== *)
theory Lifecycle
  imports DataPath
begin

text \<open>
  The life of a device under the queueing discipline (\<open>mq_init\<close>, \<open>mq_attach\<close>, \<open>mq_destroy\<close> of
  \<open>src/qdisc.c\<close>): a successful set-up establishes the invariant of the data path, and what its
  error path and the tear-down do.
\<close>

section \<open>Control blocks and leaves\<close>

lemma init_cbs_spec:
  "(\<And>c. cb_active (f c) = []) \<Longrightarrow>
     \<exists>g n. init_cbs cs f s = (g, s\<lparr>ticks := n\<rparr>) \<and> (\<forall>c. cb_active (g c) = [])"
proof (induction cs arbitrary: f s)
  case Nil
  then show ?case by (intro exI [of _ f] exI [of _ "ticks s"]) simp
next
  case (Cons c cs)
  let ?f = "f(c := \<lparr>cb_timer = False, cb_tasklet = False, cb_active = [], cb_last = clock s (ticks s),
    cb_avg_us = 0, cb_tx_bytes = 0\<rparr>)"
  have "cb_active (?f x) = []" for x using Cons.prems by simp
  from Cons.IH [of ?f "s\<lparr>ticks := Suc (ticks s)\<rparr>", OF this] show ?case
    by (simp add: ktime_get_def fun_upd_def)
qed

lemma create_leaves_spec:
  "allocs s = (\<lambda>_. True) \<Longrightarrow> \<exists>qs' m n l. create_leaves k qs s =
     (True, qs @ map Some qs', s\<lparr>nallocs := n, fresh := m, leaves := l\<rparr>) \<and> length qs' = k \<and> fresh s \<le> m"
proof (induction k arbitrary: qs s)
  case 0
  show ?case
    by (rule exI [of _ "[]"], rule exI [of _ "fresh s"], rule exI [of _ "nallocs s"], rule exI [of _ "leaves s"]) simp
next
  case (Suc k)
  let ?s = "s\<lparr>nallocs := Suc (nallocs s), fresh := Suc (fresh s), leaves := (leaves s)(fresh s \<mapsto> gnet_zero)\<rparr>"
  from Suc.IH [of ?s "qs @ [Some (fresh s)]"] Suc.prems obtain qs' m n l where
    "create_leaves k (qs @ [Some (fresh s)]) ?s =
       (True, (qs @ [Some (fresh s)]) @ map Some qs', s\<lparr>nallocs := n, fresh := m, leaves := l\<rparr>)"
    "length qs' = k" "Suc (fresh s) \<le> m" by auto
  then show ?case
    using Suc.prems
    by (intro exI [of _ "fresh s # qs'"] exI [of _ m] exI [of _ n] exI [of _ l]) (simp add: kmalloc_def)
qed

section \<open>Set-up\<close>

text \<open>The control blocks of a device without limiters.\<close>

lemma sched_inv_new_device:
  assumes inv: "sched_inv Y s" and new: "rlcbs s d = None"
    and s': "rls s' = rls s" "tun s' = tun s" "rlcbs s' = (rlcbs s)(d \<mapsto> cbs)" "txctx_xmit s' = (txctx_xmit s)(d \<mapsto> x)"
    and cbs: "\<And>c. cb_active (cbs c) = []"
  shows "sched_inv Y s'"
proof -
  have i: "queues_inv s" "links_inv s" "active_inv s" "backlog_inv {} s" "timer_inv Y s" "sane_queue_limit s"
    using inv by (simp_all add: sched_inv_def heap_inv_def)
  have sh: "shape s' p = shape s p" for p by (simp add: shape_def s')
  have cb: "cb_sched s' e c = (if e = d then Some ([], cb_timer (cbs c), cb_tasklet (cbs c)) else cb_sched s e c)" for e c
    using cbs by (simp add: cb_sched_def s')
  have old: "e \<noteq> d" if "cb_sched s e c = Some v" for e c v using that new by (auto simp: cb_sched_def)
  have q1: "queues_inv s'" using i(1) by (fastforce simp: queues_inv_def s' queue_inv_def skb_ok_def)
  have "rlcbs s e \<noteq> None" if "shape s p = Some (t, e)" for p t e using i(2) that unfolding links_inv_def by blast
  then have q2: "links_inv s'" using i(2) unfolding links_inv_def sh by (simp add: s')
  have q3: "active_inv s'" using i(3) unfolding active_inv_def sh cb
    by (metis empty_iff list.set(1) option.inject prod.inject)
  have act: "active_at s' p c" if "active_at s p c" for p c
    using that old unfolding active_at_def sh cb by metis
  have "backlogged s' = backlogged s" by (rule backlogged_cong) (intro ext, simp add: queue_at_def s')
  then have q4: "backlog_inv {} s'" using i(4) act by (simp add: backlog_inv_def)
  have q5: "timer_inv Y s'" using i(5) unfolding timer_inv_def cb by (metis option.inject prod.inject)
  show ?thesis using q1 q2 q3 q4 q5 i(6) by (simp add: sched_inv_def heap_inv_def sane_queue_limit_def s')
qed

lemma unused_later:
  fixes s s' :: "'z tx_mem_scheme"
  assumes "unused s" "fresh s \<le> fresh s'" "rls s' = rls s" "states s' = states s" "txcs s' = txcs s"
  shows "unused s'"
  using assms by (simp add: unused_def)

text \<open>A device that EyeQ does not manage yet.\<close>

definition unmanaged :: "dev \<Rightarrow> 'z qd_mem_scheme \<Rightarrow> bool" where
  "unmanaged d s \<longleftrightarrow> sched_inv {} s \<and> unused s \<and> rlcbs s d = None \<and> has_netdev_ops s d \<and> \<not> rx_handlers s d"

lemma tx_init_spec:
  fixes s :: "'z tx_mem_scheme"
  assumes "txctxs s d = Some ctx" "allocs s (nallocs s)" "has_netdev_ops s d"
  shows "\<exists>cbs t ctx'. iso_tx_init d s = Some (0, s\<lparr>ticks := t, nallocs := Suc (nallocs s),
      rlcbs := (rlcbs s)(d \<mapsto> cbs), txctxs := (txctxs s)(d \<mapsto> ctx'), txctx_list := txctx_list s @ [d],
      gso_max_size := (gso_max_size s)(d := ISO_GSO_MAX_SIZE), txctx_xmit := (txctx_xmit s)(d \<mapsto> True)\<rparr>) \<and>
    (\<forall>c. cb_active (cbs c) = []) \<and> txc_list ctx' = [] \<and> iso_tx_bucket ctx' = iso_tx_bucket ctx \<and>
    prev_gso_max_size ctx' = gso_max_size s d"
proof -
  let ?ctx = "ctx\<lparr>txc_list := [], txc_last_update_time := clock s (ticks s), ctx_rate := 2, ctx_tx_rate := 0, ctx_tx_bytes := 0\<rparr>"
  let ?s = "s\<lparr>ticks := Suc (ticks s), txctxs := (txctxs s)(d \<mapsto> ?ctx), nallocs := Suc (nallocs s)\<rparr>"
  obtain g n where g: "init_cbs (possible s) (\<lambda>_. cb_zero) ?s = (g, ?s\<lparr>ticks := n\<rparr>)" "\<forall>c. cb_active (g c) = []"
    using init_cbs_spec [of "\<lambda>_. cb_zero" "possible s" ?s] by (auto simp: cb_zero_def)
  show ?thesis
    by (rule exI [of _ g], rule exI [of _ n],
        rule exI [of _ "?ctx\<lparr>txc_total_weight := 0, prev_gso_max_size := gso_max_size s d\<rparr>"])
      (use assms g in \<open>simp add: iso_tx_init_def ktime_get_def iso_rl_prep_def alloc_percpu_def iso_tx_hook_init_def Let_def\<close>)
qed

lemma rx_init_spec:
  fixes s :: "'z rx_mem_scheme"
  assumes "rxctxs s d = Some ctx" "allocs s = (\<lambda>_. True)" "\<not> rx_handlers s d"
  shows "\<exists>t ctx'. iso_rx_init d s = Some (0, s\<lparr>ticks := t, nallocs := Suc (nallocs s),
      rxctxs := (rxctxs s)(d \<mapsto> ctx'), rxctx_list := rxctx_list s @ [d], rx_handlers := (rx_handlers s)(d := True)\<rparr>) \<and>
    vq_list ctx' = [] \<and> vq_bucket ctx' = (\<lambda>i. if i < ISO_MAX_VQ_BUCKETS then [] else vq_bucket ctx i) \<and>
    rx_stats ctx' \<noteq> None \<and> rcp_rate ctx' = of_int (ISO_VQ_DRAIN_RATE_MBPS (tun s))"
  by (rule exI [of _ "Suc (Suc (Suc (ticks s)))"],
      rule exI [of _ "ctx\<lparr>rx_stats := Some (\<lambda>_. rx_stats_zero), last_stats_update_time := clock s (ticks s),
        last_rcp_time := clock s (Suc (ticks s)), rcp_rate := of_int (ISO_VQ_DRAIN_RATE_MBPS (tun s)), rxctx_rx_rate := 0,
        global_stats := rx_stats_zero, global_stats_last := rx_stats_zero, vq_list := [],
        rxctx_vq_last_update_time := clock s (Suc (Suc (ticks s))), vq_active_rate := 0,
        vq_bucket := (\<lambda>i. if i < ISO_MAX_VQ_BUCKETS then [] else vq_bucket ctx i)\<rparr>"])
    (use assms in \<open>simp add: iso_rx_init_def alloc_percpu_def ktime_get_def iso_vqs_init_def iso_rx_hook_init_def Let_def cong del: if_weak_cong\<close>)

lemma zero_contexts: "iso_tx_bucket txctx_zero = (\<lambda>_. [])" "vq_bucket rxctx_zero = (\<lambda>_. [])"
  by (simp_all add: txctx_zero_def rxctx_zero_def)

text \<open>The contexts of a device after a successful set-up; everything else is as before.\<close>

definition started :: "dev \<Rightarrow> 'z qd_mem_scheme \<Rightarrow> 'z qd_mem_scheme \<Rightarrow> bool" where
  "started d s s' \<longleftrightarrow>
     rls s' = rls s \<and> tun s' = tun s \<and> states s' = states s \<and> txcs s' = txcs s \<and> iso_exiting s' = iso_exiting s \<and>
     allocs s' = allocs s \<and> has_netdev_ops s' = has_netdev_ops s \<and> num_tx_queues s' = num_tx_queues s \<and> fresh s \<le> fresh s' \<and>
     txctx_list s' = txctx_list s @ [d] \<and> rxctx_list s' = rxctx_list s @ [d] \<and>
     gso_max_size s' = (gso_max_size s)(d := ISO_GSO_MAX_SIZE) \<and> txctx_xmit s' = (txctx_xmit s)(d \<mapsto> True) \<and>
     rx_handlers s' = (rx_handlers s)(d := True) \<and> eyeq_root s' d \<and>
     (\<exists>cbs. rlcbs s' = (rlcbs s)(d \<mapsto> cbs) \<and> (\<forall>c. cb_active (cbs c) = [])) \<and>
     (\<exists>ctx. txctxs s' = (txctxs s)(d \<mapsto> ctx) \<and> txc_list ctx = [] \<and> iso_tx_bucket ctx = (\<lambda>_. []) \<and>
        prev_gso_max_size ctx = gso_max_size s d) \<and>
     (\<exists>rctx. rxctxs s' = (rxctxs s)(d \<mapsto> rctx) \<and> vq_list rctx = [] \<and> vq_bucket rctx = (\<lambda>_. []) \<and> rx_stats rctx \<noteq> None \<and>
        rcp_rate rctx = of_int (ISO_VQ_DRAIN_RATE_MBPS (tun s)))"

lemma mq_init_eq:
  assumes un: "unmanaged d s" and mem: "allocs s = (\<lambda>_. True)"
  shows "\<exists>s' qs. mq_init d True s = Some (0, s') \<and> started d s s' \<and>
    mq_privs s' d = Some \<lparr>mq_qdiscs = Some (map Some qs), mq_txc = True, mq_rxc = True\<rparr> \<and> length qs = num_tx_queues s d"
proof -
  let ?n = "num_tx_queues s d"
  let ?p = "\<lparr>mq_qdiscs = Some (replicate ?n None), mq_txc = True, mq_rxc = True\<rparr>"
  let ?a = "s\<lparr>txctx_xmit := (txctx_xmit s)(d \<mapsto> False), txctxs := (txctxs s)(d \<mapsto> txctx_zero),
    nallocs := Suc (Suc (Suc (nallocs s))), fresh := Suc (Suc (Suc (fresh s))),
    rxctxs := (rxctxs s)(d \<mapsto> rxctx_zero), mq_privs := (mq_privs s)(d \<mapsto> ?p)\<rparr>"
  have u: "has_netdev_ops s d" "\<not> rx_handlers s d" using un by (simp_all add: unmanaged_def)
  obtain cbs t ctx where tx: "iso_tx_init d ?a = Some (0, ?a\<lparr>ticks := t, nallocs := Suc (nallocs ?a),
      rlcbs := (rlcbs s)(d \<mapsto> cbs), txctxs := (txctxs s)(d \<mapsto> ctx), txctx_list := txctx_list s @ [d],
      gso_max_size := (gso_max_size s)(d := ISO_GSO_MAX_SIZE), txctx_xmit := (txctx_xmit s)(d \<mapsto> True)\<rparr>)"
      (is "_ = Some (0, ?b)")
    and cbs: "\<forall>c. cb_active (cbs c) = []" and ctx: "txc_list ctx = []" "iso_tx_bucket ctx = (\<lambda>_. [])"
      "prev_gso_max_size ctx = gso_max_size s d"
    using tx_init_spec [of ?a d txctx_zero] mem u(1) by (auto simp: zero_contexts)
  obtain t2 rctx where rx: "iso_rx_init d ?b = Some (0, ?b\<lparr>ticks := t2, nallocs := Suc (nallocs ?b),
      rxctxs := (rxctxs s)(d \<mapsto> rctx), rxctx_list := rxctx_list s @ [d], rx_handlers := (rx_handlers s)(d := True)\<rparr>)"
      (is "_ = Some (0, ?c)")
    and rctx: "vq_list rctx = []" "vq_bucket rctx = (\<lambda>_. [])" "rx_stats rctx \<noteq> None"
      "rcp_rate rctx = of_int (ISO_VQ_DRAIN_RATE_MBPS (tun s))"
    using rx_init_spec [of ?b d rxctx_zero] mem u(2) by (auto simp: zero_contexts cong del: if_weak_cong)
  obtain qs m n l where cr: "create_leaves ?n [] ?c = (True, map Some qs, ?c\<lparr>nallocs := n, fresh := m, leaves := l\<rparr>)"
    "length qs = ?n" "fresh ?c \<le> m"
    using create_leaves_spec [of ?c ?n "[]"] mem by auto
  have "mq_init d True s = Some (0, ?c\<lparr>nallocs := n, fresh := m, leaves := l,
      mq_privs := (mq_privs s)(d \<mapsto> ?p\<lparr>mq_qdiscs := Some (map Some qs)\<rparr>), eyeq_root := (eyeq_root s)(d := True)\<rparr>)"
    using mem tx rx cr(1) by (simp add: mq_init_def kmalloc_def Let_def)
  then show ?thesis
    by (intro exI conjI) (assumption, use cr(2,3) cbs ctx rctx in \<open>auto simp: started_def\<close>)
qed

lemma started_ok:
  assumes un: "unmanaged d s" and st: "started d s s'" and P: "rx_tunables (tun s)"
  shows "dp_ok d s'"
proof -
  have u: "sched_inv {} s" "unused s" "rlcbs s d = None" using un by (simp_all add: unmanaged_def)
  obtain cbs where cbs: "rlcbs s' = (rlcbs s)(d \<mapsto> cbs)" "\<And>c. cb_active (cbs c) = []" using st by (auto simp: started_def)
  have "sched_inv {} s'"
    by (rule sched_inv_new_device [OF u(1,3) _ _ cbs(1) _ cbs(2)]) (use st in \<open>simp_all add: started_def\<close>)
  moreover have "unused s'" by (rule unused_later [OF u(2)]) (use st in \<open>simp_all add: started_def\<close>)
  moreover have "tx_ok d s'" using st cbs(1) by (auto simp: tx_ok_def started_def)
  moreover have "uint (of_int (ISO_VQ_DRAIN_RATE_MBPS (tun s)) :: u32) = ISO_VQ_DRAIN_RATE_MBPS (tun s)"
    using P by (intro uint_of_int) (auto simp: rx_tunables_def drain_tunables_def rcp_tunables_def)
  then have "rx_ok d s'" using st P by (auto simp: rx_ok_def started_def rx_tunables_def rcp_tunables_def)
  ultimately show ?thesis by (simp add: dp_ok_def tx_table_def)
qed

section \<open>Attachment of the leaves\<close>

lemma attach_fold:
  assumes "\<forall>i \<in> set ns. f i \<noteq> None"
  shows "\<exists>s'. foldM (\<lambda>i. attach_leaf d i (f i)) ns s = Some s' \<and>
    s' = s\<lparr>leaves := leaves s', txq_qdisc := txq_qdisc s'\<rparr> \<and>
    (\<forall>i \<in> set ns. txq_qdisc s' d i = f i) \<and> (\<forall>i. i \<notin> set ns \<longrightarrow> txq_qdisc s' d i = txq_qdisc s d i)"
  using assms
proof (induction ns arbitrary: s)
  case (Cons n ns)
  then obtain q where q: "f n = Some q" by auto
  let ?s = "s\<lparr>txq_qdisc := (txq_qdisc s)(d := (txq_qdisc s d)(n := Some q))\<rparr>"
  let ?u = "case txq_qdisc s d n of None \<Rightarrow> ?s | Some q' \<Rightarrow> qdisc_destroy q' ?s"
  have u: "?u = s\<lparr>leaves := leaves ?u, txq_qdisc := txq_qdisc ?u\<rparr>" "txq_qdisc ?u d = (txq_qdisc s d)(n := Some q)"
    by (simp_all add: qdisc_destroy_def split: option.splits)
  from Cons.IH [of ?u] Cons.prems obtain s' where s': "foldM (\<lambda>i. attach_leaf d i (f i)) ns ?u = Some s'"
    "s' = ?u\<lparr>leaves := leaves s', txq_qdisc := txq_qdisc s'\<rparr>"
    "\<forall>i \<in> set ns. txq_qdisc s' d i = f i" "\<forall>i. i \<notin> set ns \<longrightarrow> txq_qdisc s' d i = txq_qdisc ?u d i" by auto
  have "attach_leaf d n (f n) s = Some ?u" using q by (simp add: attach_leaf_def Let_def)
  moreover have "s' = s\<lparr>leaves := leaves s', txq_qdisc := txq_qdisc s'\<rparr>"
    by (subst s'(2), subst u(1)) simp
  moreover have "txq_qdisc s' d n = f n" using s'(3,4) u(2) q by (cases "n \<in> set ns") auto
  ultimately show ?case using s'(1,3,4) u(2) by (intro exI [of _ s']) auto
qed simp

lemma mq_attach_spec:
  assumes "mq_privs s d = Some priv" "mq_qdiscs priv = Some (map Some qs)" "length qs = num_tx_queues s d"
  shows "\<exists>s'. mq_attach d s = Some s' \<and> (\<forall>i < num_tx_queues s d. txq_qdisc s' d i = Some (qs ! i)) \<and>
    s' = s\<lparr>leaves := leaves s', txq_qdisc := txq_qdisc s', mq_privs := (mq_privs s)(d \<mapsto> priv\<lparr>mq_qdiscs := None\<rparr>)\<rparr>"
proof -
  obtain s' where s': "foldM (\<lambda>i. attach_leaf d i (map Some qs ! i)) [0..<num_tx_queues s d] s = Some s'"
    "s' = s\<lparr>leaves := leaves s', txq_qdisc := txq_qdisc s'\<rparr>"
    "\<forall>i \<in> set [0..<num_tx_queues s d]. txq_qdisc s' d i = map Some qs ! i"
    using attach_fold [of "[0..<num_tx_queues s d]" "\<lambda>i. map Some qs ! i" d s] assms(3) by auto
  let ?s = "put_priv d (priv\<lparr>mq_qdiscs := None\<rparr>) s'"
  have p: "mq_privs s' = mq_privs s" by (subst s'(2)) simp
  have "?s = s\<lparr>leaves := leaves ?s, txq_qdisc := txq_qdisc ?s, mq_privs := (mq_privs s)(d \<mapsto> priv\<lparr>mq_qdiscs := None\<rparr>)\<rparr>"
    unfolding p by (subst s'(2)) simp
  moreover have "mq_attach d s = Some ?s" using assms s'(1) by (simp add: mq_attach_def)
  moreover have "\<forall>i < num_tx_queues s d. txq_qdisc ?s d i = Some (qs ! i)" using s'(3) assms(3) by simp
  ultimately show ?thesis by blast
qed

section \<open>Tear-down\<close>

lemma foldM_nil: "foldM (\<lambda>i. foldM (f i) []) ns s = Some s"
  by (induction ns) simp_all

text \<open>The tear-down of a device whose classes and virtual queues are gone.\<close>

lemma mq_destroy_idle:
  assumes "mq_privs s d = Some \<lparr>mq_qdiscs = None, mq_txc = True, mq_rxc = True\<rparr>" "rlcbs s d = Some cbs"
    "txctxs s d = Some ctx" "iso_tx_bucket ctx = (\<lambda>_. [])" "rxctxs s d = Some rctx" "vq_list rctx = []"
    "d \<in> set (txctx_list s)" "d \<in> set (rxctx_list s)"
  shows "mq_destroy d s = Some (s\<lparr>rlcbs := (rlcbs s)(d := None), txctx_list := remove1 d (txctx_list s),
    gso_max_size := (gso_max_size s)(d := prev_gso_max_size ctx), rxctx_list := remove1 d (rxctx_list s),
    rx_handlers := (rx_handlers s)(d := False), txctxs := (txctxs s)(d := None),
    txctx_xmit := (txctx_xmit s)(d := None), rxctxs := (rxctxs s)(d := None)\<rparr>)"
  using assms by (simp add: mq_destroy_def iso_tx_exit_def iso_rl_exit_def foldM_nil iso_rx_exit_def
      iso_vqs_exit_def iso_rx_hook_exit_def)

lemma remove1_snoc: "d \<notin> set xs \<Longrightarrow> remove1 d (xs @ [d]) = xs"
  by (simp add: remove1_append)

text \<open>What set-up made, tear-down takes away.\<close>

definition released :: "dev \<Rightarrow> 'z qd_mem_scheme \<Rightarrow> 'z qd_mem_scheme \<Rightarrow> bool" where
  "released d s s' \<longleftrightarrow>
     rls s' = rls s \<and> tun s' = tun s \<and> states s' = states s \<and> txcs s' = txcs s \<and> has_netdev_ops s' = has_netdev_ops s \<and>
     fresh s \<le> fresh s' \<and> txctxs s' = txctxs s \<and> rxctxs s' = rxctxs s \<and> rlcbs s' = rlcbs s \<and> txctx_list s' = txctx_list s \<and>
     rxctx_list s' = rxctx_list s \<and> gso_max_size s' = gso_max_size s \<and> txctx_xmit s' = txctx_xmit s \<and>
     rx_handlers s' = rx_handlers s"

lemma released_unmanaged:
  assumes "released d s s'" "unmanaged d s"
  shows "unmanaged d s'"
proof -
  have "sched_inv {} s' = sched_inv {} s" by (rule sched_inv_same) (use assms(1) in \<open>simp_all add: released_def\<close>)
  moreover have "unused s'"
    by (rule unused_later [of s]) (use assms in \<open>simp_all add: released_def unmanaged_def\<close>)
  ultimately show ?thesis using assms by (simp add: unmanaged_def released_def)
qed

lemma mq_destroy_released:
  assumes un: "unmanaged d s" and st: "started d s s1"
    and new: "d \<notin> set (txctx_list s)" "d \<notin> set (rxctx_list s)" "txctxs s d = None" "rxctxs s d = None" "txctx_xmit s d = None"
    and s2: "s2 = s1\<lparr>leaves := l, txq_qdisc := q, mq_privs := m\<rparr>" "m d = Some \<lparr>mq_qdiscs = None, mq_txc = True, mq_rxc = True\<rparr>"
  shows "\<exists>s3. mq_destroy d s2 = Some s3 \<and> released d s s3"
proof -
  obtain cbs ctx rctx where o: "rlcbs s1 = (rlcbs s)(d \<mapsto> cbs)" "txctxs s1 = (txctxs s)(d \<mapsto> ctx)"
    "iso_tx_bucket ctx = (\<lambda>_. [])" "prev_gso_max_size ctx = gso_max_size s d" "rxctxs s1 = (rxctxs s)(d \<mapsto> rctx)" "vq_list rctx = []"
    using st by (auto simp: started_def)
  have u: "rlcbs s d = None" "\<not> rx_handlers s d" using un by (simp_all add: unmanaged_def)
  have "mq_destroy d s2 = Some (s2\<lparr>rlcbs := (rlcbs s2)(d := None), txctx_list := remove1 d (txctx_list s2),
    gso_max_size := (gso_max_size s2)(d := prev_gso_max_size ctx), rxctx_list := remove1 d (rxctx_list s2),
    rx_handlers := (rx_handlers s2)(d := False), txctxs := (txctxs s2)(d := None),
    txctx_xmit := (txctx_xmit s2)(d := None), rxctxs := (rxctxs s2)(d := None)\<rparr>)"
    by (rule mq_destroy_idle) (use o s2 st in \<open>simp_all add: started_def\<close>)
  moreover have "released d s (s2\<lparr>rlcbs := (rlcbs s2)(d := None), txctx_list := remove1 d (txctx_list s2),
    gso_max_size := (gso_max_size s2)(d := prev_gso_max_size ctx), rxctx_list := remove1 d (rxctx_list s2),
    rx_handlers := (rx_handlers s2)(d := False), txctxs := (txctxs s2)(d := None),
    txctx_xmit := (txctx_xmit s2)(d := None), rxctxs := (rxctxs s2)(d := None)\<rparr>)"
    using st o new u by (auto simp: released_def started_def s2(1) remove1_snoc fun_upd_idem)
  ultimately show ?thesis by blast
qed

lemma mq_cycle:
  assumes un: "unmanaged d s" and mem: "allocs s = (\<lambda>_. True)"
    and new: "d \<notin> set (txctx_list s)" "d \<notin> set (rxctx_list s)" "txctxs s d = None" "rxctxs s d = None" "txctx_xmit s d = None"
  shows "\<exists>s1 s2 s3. mq_init d True s = Some (0, s1) \<and> mq_attach d s1 = Some s2 \<and>
    (\<forall>i < num_tx_queues s d. txq_qdisc s2 d i \<noteq> None) \<and> mq_destroy d s2 = Some s3 \<and> released d s s3"
proof -
  obtain s1 qs where s1: "mq_init d True s = Some (0, s1)" "started d s s1"
    "mq_privs s1 d = Some \<lparr>mq_qdiscs = Some (map Some qs), mq_txc = True, mq_rxc = True\<rparr>" "length qs = num_tx_queues s d"
    using mq_init_eq [OF un mem] by blast
  have n: "num_tx_queues s1 = num_tx_queues s" using s1(2) by (simp add: started_def)
  obtain s2 where s2: "mq_attach d s1 = Some s2" "\<forall>i < num_tx_queues s d. txq_qdisc s2 d i = Some (qs ! i)"
    "s2 = s1\<lparr>leaves := leaves s2, txq_qdisc := txq_qdisc s2,
      mq_privs := (mq_privs s1)(d \<mapsto> \<lparr>mq_qdiscs = None, mq_txc = True, mq_rxc = True\<rparr>)\<rparr>"
    using mq_attach_spec [OF s1(3)] s1(4) n by auto
  obtain s3 where "mq_destroy d s2 = Some s3" "released d s s3"
    using mq_destroy_released [OF un s1(2) new s2(3)] by auto
  then show ?thesis using s1(1) s2(1,2) by auto
qed

section \<open>The error path of the set-up\<close>

text \<open>
  When memory runs out between the allocation of the transmit context and the end of \<open>iso_rx_init\<close>, \<open>mq_init\<close>
  calls \<open>mq_destroy\<close>, which tears down a context that is not set up: the transmit context when the receive
  context or the limiters of the CPUs cannot be allocated, the receive context when its counters cannot.
\<close>

lemma mq_init_oops:
  assumes un: "unmanaged d s" "d \<notin> set (rxctx_list s)"
    and mem: "k \<in> {2, 3, 4}" "\<And>j. j < k \<Longrightarrow> allocs s (nallocs s + j)" "\<not> allocs s (nallocs s + k)"
  shows "mq_init d True s = None"
proof -
  let ?n = "nallocs s"
  have u: "rlcbs s d = None" "has_netdev_ops s d" using un(1) by (simp_all add: unmanaged_def)
  have a: "allocs s ?n" "allocs s (Suc ?n)" using mem(1) mem(2) [of 0] mem(2) [of 1] by auto
  note defs = mq_init_def kmalloc_def mq_fail_def mq_destroy_def iso_tx_exit_def iso_rl_exit_def Let_def
  consider (rxc) "\<not> allocs s (Suc (Suc ?n))" | (rlcb) "allocs s (Suc (Suc ?n))" "\<not> allocs s (Suc (Suc (Suc ?n)))"
    | (stats) "allocs s (Suc (Suc ?n))" "allocs s (Suc (Suc (Suc ?n)))" "\<not> allocs s (Suc (Suc (Suc (Suc ?n))))"
    using mem(1,3) mem(2) [of 2] mem(2) [of 3] by (auto simp: numeral_eq_Suc)
  then show ?thesis
  proof cases
    case rxc
    then show ?thesis using a u by (simp add: defs)
  next
    case rlcb
    then show ?thesis using a u by (simp add: defs iso_tx_init_def ktime_get_def iso_rl_prep_def alloc_percpu_def)
  next
    case stats
    let ?p = "\<lparr>mq_qdiscs = Some (replicate (num_tx_queues s d) None), mq_txc = True, mq_rxc = True\<rparr>"
    let ?a = "s\<lparr>txctx_xmit := (txctx_xmit s)(d \<mapsto> False), txctxs := (txctxs s)(d \<mapsto> txctx_zero),
      nallocs := Suc (Suc (Suc ?n)), fresh := Suc (Suc (Suc (fresh s))),
      rxctxs := (rxctxs s)(d \<mapsto> rxctx_zero), mq_privs := (mq_privs s)(d \<mapsto> ?p)\<rparr>"
    obtain cbs t ctx where tx: "iso_tx_init d ?a = Some (0, ?a\<lparr>ticks := t, nallocs := Suc (nallocs ?a),
        rlcbs := (rlcbs s)(d \<mapsto> cbs), txctxs := (txctxs s)(d \<mapsto> ctx), txctx_list := txctx_list s @ [d],
        gso_max_size := (gso_max_size s)(d := ISO_GSO_MAX_SIZE), txctx_xmit := (txctx_xmit s)(d \<mapsto> True)\<rparr>)"
      and ctx: "iso_tx_bucket ctx = (\<lambda>_. [])"
      using tx_init_spec [of ?a d txctx_zero] stats(2) u(2) by (auto simp: zero_contexts)
    show ?thesis
      using a stats tx ctx un(2) by (simp add: defs iso_rx_init_def alloc_percpu_def foldM_nil iso_rx_exit_def)
  qed
qed

end
