(* ===== verification/Shaping.thy ===== *)
theory Shaping
  imports Pacing Interfaces
begin

text \<open>
  The limiter of a transmit class, a limiter without a parent, is a token bucket: whatever the
  interleaving of packets, dequeues of any CPU, clock updates and changes of its rate below a
  bound \<open>R\<close> (in Mb/s), the bytes that reach the driver in a window of time are at most the
  tokens held at its start and \<open>R\<close> times its length.
\<close>

section \<open>The clock\<close>

lemma uint_add_le: "uint (a + b :: 'a::len word) \<le> uint a + uint b"
  by (simp add: uint_word_ariths zmod_le_nonneg_dividend)

lemma uint_mult_le: "uint (a * b :: 'a::len word) \<le> uint a * uint b"
  by (simp add: uint_word_ariths zmod_le_nonneg_dividend)

lemma rl_decay_rate:
  assumes "uint (rl_rate rl) \<le> R" "2 \<le> R" "R < 2 ^ 31"
  shows "uint (rl_rate (rl_decay P now rl)) \<le> R"
proof -
  have half: "uint (of_int (max 2 (sint (drop_bit 1 r))) :: u32) \<le> R" if "uint r \<le> R" for r :: u32
  proof -
    have h: "uint (drop_bit 1 r) = uint r div 2" by (simp add: drop_bit_eq_div uint_div)
    have b: "0 \<le> uint r div 2" "uint r div 2 < 2 ^ 31"
      using that assms(3) by (simp_all add: pos_imp_zdiv_nonneg_iff)
    then have "sint (drop_bit 1 r) = uint r div 2"
      unfolding sint_uint h by (intro signed_take_bit_int_eq_self) (simp_all add: order_trans [OF _ b(1)])
    moreover have "uint (of_int (max 2 (uint r div 2)) :: u32) = max 2 (uint r div 2)"
      using b by (intro uint_of_int) auto
    moreover have "uint r div 2 \<le> R" using that assms(2) by linarith
    ultimately show ?thesis using assms(2) by simp
  qed
  have "uint (of_int ISO_IDLE_RATE :: u32) \<le> R" if "of_int ISO_IDLE_RATE < rl_rate rl"
    using that assms(1) by (simp add: word_less_def)
  then show ?thesis using half assms(1) unfolding rl_decay_def by (simp add: Let_def)
qed

text \<open>A refill adds at most the bytes that the rate allows in the time since the last one.\<close>

lemma rl_refill_credit:
  assumes "uint (rl_rate rl) \<le> R" "2 \<le> R" "R < 2 ^ 31"
    and "last_update_time rl \<le> now" "now - last_update_time rl < 2 ^ 63"
  shows "8000 * uint (total_tokens (rl_refill P now rl)) \<le>
    8000 * uint (total_tokens rl) + R * (now - last_update_time rl)"
proof -
  let ?d = "now - last_update_time rl" and ?r = "rl_rate (rl_decay P now rl)"
  let ?us = "of_int (ktime_us_delta now (last_update_time rl)) :: u64"
  have us: "uint ?us = ?d div 1000"
  proof -
    have "ktime_us_delta now (last_update_time rl) = ?d div 1000"
      using assms(4,5) by (simp add: ktime_us_delta_def s64_id)
    moreover have "0 \<le> ?d div 1000" "?d div 1000 < 2 ^ 64" using assms(4,5) by (simp_all add: pos_imp_zdiv_nonneg_iff)
    ultimately show ?thesis by (simp add: uint_of_int)
  qed
  have r: "uint (ucast ?r :: u64) = uint ?r"
  proof -
    have "uint ?r < 2 ^ 32" using uint_lt2p [of ?r] by simp
    then show ?thesis by (intro uint_ucast_bounded) simp
  qed
  have "uint (total_tokens (rl_refill P now rl)) \<le>
      uint (total_tokens rl + drop_bit 3 (ucast ?r * ?us))"
    by (simp add: rl_refill_def Let_def uint_min)
  also have "\<dots> \<le> uint (total_tokens rl) + uint (drop_bit 3 (ucast ?r * ?us))" by (rule uint_add_le)
  also have "uint (drop_bit 3 (ucast ?r * ?us)) = uint (ucast ?r * ?us) div 8"
    by (simp add: drop_bit_eq_div uint_div)
  finally have "8 * uint (total_tokens (rl_refill P now rl)) \<le>
      8 * uint (total_tokens rl) + uint (ucast ?r * ?us)" by linarith
  also have "uint (ucast ?r * ?us) \<le> uint ?r * (?d div 1000)"
    using uint_mult_le [of "ucast ?r :: u64" ?us] by (simp only: r us)
  also have "\<dots> \<le> R * (?d div 1000)"
    using rl_decay_rate [OF assms(1-3)] assms(4) by (intro mult_right_mono) (simp_all add: pos_imp_zdiv_nonneg_iff)
  finally have "8000 * uint (total_tokens (rl_refill P now rl)) \<le>
      8000 * uint (total_tokens rl) + R * (1000 * (?d div 1000))" by simp
  also have "R * (1000 * (?d div 1000)) \<le> R * ?d" using assms(2) by (intro mult_left_mono) simp_all
  finally show ?thesis by simp
qed

lemma rl_refill_cap: "uint (total_tokens (rl_refill P now rl)) \<le> uint (rl_cap P (rl_decay P now rl))"
proof -
  have "uint (ucast c :: u64) = uint c" for c :: u32
    using uint_lt2p [of c] by (intro uint_ucast_bounded) simp
  then show ?thesis by (simp add: rl_refill_def Let_def uint_min rl_cap_def)
qed

section \<open>Events of a limiter\<close>

text \<open>
  What the module does to the limiter of a class: \<open>iso_rl_clock\<close> (also the start of every
  enqueue), \<open>iso_rl_enqueue\<close>, \<open>iso_rl_dequeue\<close>, and the writes of \<open>iso_txc_tick\<close> to its rate.
\<close>

datatype rl_event = Clock | Enqueue sk_buff cpu | Dequeue cpu | SetRate u32

fun rl_event_run :: "kapi \<Rightarrow> rl_ptr \<Rightarrow> rl_event \<Rightarrow> 'z rl_mem_scheme \<Rightarrow> 'z rl_mem_scheme option" where
  "rl_event_run K p Clock s = do {
     rl \<leftarrow> rls s p;
     let (rl, s) = iso_rl_clock rl s;
     Some (s\<lparr>rls := (rls s)(p \<mapsto> rl)\<rparr>) }"
| "rl_event_run K p (Enqueue pkt c) s = do { (v, s) \<leftarrow> iso_rl_enqueue K p pkt c s; Some s }"
| "rl_event_run K p (Dequeue c) s = do { (n, s) \<leftarrow> iso_rl_dequeue 1 K p c s; Some s }"
| "rl_event_run K p (SetRate r) s = do {
     rl \<leftarrow> rls s p;
     Some (s\<lparr>rls := (rls s)(p \<mapsto> rl\<lparr>rl_rate := r\<rparr>)\<rparr>) }"

text \<open>Packets of a sane size, CPUs that exist, rates up to \<open>R\<close>.\<close>

fun event_ok :: "int \<Rightarrow> rl_event \<Rightarrow> 'z rl_mem_scheme \<Rightarrow> bool" where
  "event_ok R Clock s = True"
| "event_ok R (Enqueue pkt c) s = skb_ok s pkt"
| "event_ok R (Dequeue c) s = (c \<in> set (possible s))"
| "event_ok R (SetRate r) s = (uint r \<le> R)"

definition bucket_step :: "kapi \<Rightarrow> int \<Rightarrow> rl_ptr \<Rightarrow> rl_event \<Rightarrow> 'z rl_mem_scheme \<Rightarrow> 'z rl_mem_scheme" where
  "bucket_step K R p e s =
     (if event_ok R e s then (case rl_event_run K p e s of None \<Rightarrow> s | Some s' \<Rightarrow> s') else s)"

definition rl_tokens :: "cpu list \<Rightarrow> iso_rl \<Rightarrow> int" where
  "rl_tokens cs rl = uint (total_tokens rl) + (\<Sum>c \<in> set cs. uint (q_tokens (rl_queue rl c)))"

definition bucket_level :: "rl_ptr \<Rightarrow> 'z rl_mem_scheme \<Rightarrow> int" where
  "bucket_level p s = (case rls s p of None \<Rightarrow> 0 | Some rl \<Rightarrow> rl_tokens (possible s) rl)"

definition bucket_stamp :: "rl_ptr \<Rightarrow> 'z rl_mem_scheme \<Rightarrow> int" where
  "bucket_stamp p s = (case rls s p of None \<Rightarrow> 0 | Some rl \<Rightarrow> last_update_time rl)"

definition wire_bytes :: "'z rl_mem_scheme \<Rightarrow> int" where
  "wire_bytes s = sum_list (map skb_size (wire s))"

definition sane_clock :: "'z kenv_scheme \<Rightarrow> bool" where
  "sane_clock s \<longleftrightarrow> mono (clock s) \<and> (\<forall>n. clock s n < 2 ^ 63)"

definition root_rl :: "int \<Rightarrow> 'z kenv_scheme \<Rightarrow> iso_rl \<Rightarrow> bool" where
  "root_rl R s rl \<longleftrightarrow> rl_txc rl = None \<and> uint (rl_rate rl) \<le> R \<and> 0 \<le> last_update_time rl \<and>
     last_update_time rl \<le> clock s (ticks s)"

definition bucket_inv :: "kapi \<Rightarrow> int \<Rightarrow> rl_ptr \<Rightarrow> 'z rl_mem_scheme \<Rightarrow> bool" where
  "bucket_inv K R p s \<longleftrightarrow> heap_inv s \<and> gso_documented K \<and> 2 \<le> R \<and> R < 2 ^ 31 \<and> sane_clock s \<and>
     (\<exists>rl. rls s p = Some rl \<and> root_rl R s rl)"

text \<open>A step from the limiter \<open>rl\<close> to \<open>rl'\<close> that pays for \<open>n\<close> bytes.\<close>

definition pays :: "int \<Rightarrow> cpu list \<Rightarrow> iso_rl \<Rightarrow> int \<Rightarrow> iso_rl \<Rightarrow> bool" where
  "pays R cs rl n rl' \<longleftrightarrow> 8000 * (rl_tokens cs rl' + n) + R * last_update_time rl \<le>
     8000 * rl_tokens cs rl + R * last_update_time rl'"

definition bucket_moves :: "int \<Rightarrow> rl_ptr \<Rightarrow> 'z rl_mem_scheme \<Rightarrow> 'z rl_mem_scheme \<Rightarrow> bool" where
  "bucket_moves R p s s' \<longleftrightarrow> (\<exists>rl rl'. rls s p = Some rl \<and> rls s' p = Some rl' \<and>
     heap_inv s' \<and> clock s' = clock s \<and> possible s' = possible s \<and> root_rl R s' rl' \<and>
     pays R (possible s) rl (wire_bytes s' - wire_bytes s) rl')"

lemma bucket_moves_inv: "bucket_inv K R p s \<Longrightarrow> bucket_moves R p s s' \<Longrightarrow> bucket_inv K R p s'"
  by (auto simp: bucket_inv_def bucket_moves_def sane_clock_def)

lemma bucket_moves_pays:
  "bucket_moves R p s s' \<Longrightarrow> 8000 * (bucket_level p s' + wire_bytes s') + R * bucket_stamp p s \<le>
     8000 * (bucket_level p s + wire_bytes s) + R * bucket_stamp p s'"
  by (auto simp: bucket_moves_def bucket_level_def bucket_stamp_def pays_def)

lemma clock_pays:
  assumes "bucket_inv K R p s" "rls s p = Some rl" "iso_rl_clock rl s = (rl', s')"
  shows "root_rl R s' rl'" "pays R cs rl 0 rl'" "clock s' = clock s"
proof -
  have R: "2 \<le> R" "R < 2 ^ 31" "sane_clock s" "root_rl R s rl" using assms(1,2) by (auto simp: bucket_inv_def)
  let ?now = "clock s (Suc (ticks s))"
  have m: "clock s (ticks s) \<le> ?now" "?now \<le> clock s (Suc (Suc (ticks s)))" "?now < 2 ^ 63"
    using R(3) by (simp_all add: sane_clock_def monoD)
  have d: "last_update_time rl \<le> ?now" "?now - last_update_time rl < 2 ^ 63"
    using R(4) m by (auto simp: root_rl_def)
  consider "rl' = rl" "s' = s\<lparr>ticks := Suc (ticks s)\<rparr>"
    | "rl' = rl_refill (tun s) ?now rl" "s' = s\<lparr>ticks := Suc (Suc (ticks s))\<rparr>"
    using assms(3)
    by (auto simp: iso_rl_clock_def iso_rl_should_refill_def ktime_get_def Let_def split: if_splits)
  then show "root_rl R s' rl'" "pays R cs rl 0 rl'" "clock s' = clock s"
    using R(4) m d rl_decay_rate [OF _ R(1,2)] rl_refill_credit [OF _ R(1,2) d]
    by (cases; force simp: root_rl_def pays_def rl_tokens_def algebra_simps)+
qed

lemma enqueue_time:
  assumes "rls s p = Some rl" "iso_rl_enqueue K p pkt c s = Some (v, s')"
  shows "clock s' = clock (snd (iso_rl_clock rl s))" "ticks s' = ticks (snd (iso_rl_clock rl s))"
  using assms
  by (auto simp: iso_rl_enqueue_def Let_def split_beta split: if_splits gso.splits)

lemma skb_xmit_time: "skb_xmit pkt s = Some s' \<Longrightarrow> clock s' = clock s \<and> ticks s' = ticks s"
  by (auto simp: skb_xmit_def split: Option.bind_splits if_splits)

lemma add_tx_bytes_time: "add_tx_bytes d c sz s = Some s' \<Longrightarrow> clock s' = clock s \<and> ticks s' = ticks s"
  by (auto simp: add_tx_bytes_def split: Option.bind_splits)

lemma dequeue_loop_time:
  "dequeue_loop K c None d pkts q tot s = Some (q', tot', b, s') \<Longrightarrow>
     clock s' = clock s \<and> ticks s' = ticks s"
proof (induction pkts arbitrary: q tot s)
  case (Cons pkt rest)
  then show ?case
    by (auto simp: Let_def split: Option.bind_splits if_splits dest!: skb_xmit_time add_tx_bytes_time)
qed simp

lemma borrow_time:
  "iso_rl_borrow_tokens p c s = Some (b, s') \<Longrightarrow> clock s' = clock s \<and> ticks s' = ticks s"
  by (auto simp: iso_rl_borrow_tokens_def spin_trylock_def Let_def split: Option.bind_splits if_splits)

lemma dequeue_time:
  assumes "rls s p = Some rl" "rl_txc rl = None" "iso_rl_dequeue 1 K p c s = Some (n, s')"
    "heap_inv s"
  shows "clock s' = clock s \<and> ticks s' = ticks s"
proof -
  have act: "rl_activate p c d x = Some y \<Longrightarrow> clock y = clock x \<and> ticks y = ticks x" for d x y
    by (auto simp: rl_activate_def Let_def split: Option.bind_splits)
  have own: "clock x = clock s \<and> ticks x = ticks s" if "dequeue_own K p c s = Some (a, b, t, x)" for a b t x
  proof -
    have "queues_inv s" using assms(4) by (simp add: heap_inv_def)
    from own_borrow [OF assms(1) this, of c] obtain blocked b s1 where s1:
      "(if q_tokens (rl_queue rl c) < of_int (first_pkt_size (rl_queue rl c))
        then iso_rl_borrow_tokens p c s else Some (False, s)) = Some (blocked, s1)"
      "dequeued s p c rl b 0 (first_pkt_size (rl_queue rl c)) s1" by blast
    have t1: "clock s1 = clock s \<and> ticks s1 = ticks s"
      using s1(1) borrow_time [of p c s blocked s1] by (auto split: if_splits)
    have rl1: "rls s1 p = Some (rl_sent c b 0 (first_pkt_size (rl_queue rl c)) rl)"
      using s1(2) by (simp add: dequeued_def)
    show ?thesis
      using that s1(1) rl1 assms(1,2) t1
      by (auto simp: dequeue_own_def put_queue_def Let_def split: if_splits Option.bind_splits
          dest!: dequeue_loop_time)
  qed
  show ?thesis
    using assms(1-3) by (auto split: Option.bind_splits if_splits dest!: own act)
qed

text \<open>The packets that leave are paid for with the tokens of the limiter.\<close>

lemma sum_filter_sizes:
  "(\<forall>x \<in> set ps. wf_skb x) \<Longrightarrow> sum_list (map skb_size (filter f ps)) \<le> sum_list (map skb_size ps)"
proof (induction ps)
  case (Cons p ps)
  then show ?case using skb_size_wf(2) [of p] by auto
qed simp

lemma dequeued_pays:
  assumes d: "dequeued s p c rl b k f s'" and rl: "rls s p = Some rl" "rl_txc rl = None" "queues_inv s"
    and c: "c \<in> set (possible s)"
  shows "pays R (possible s) rl (wire_bytes s' - wire_bytes s) (rl_sent c b k f rl)"
proof -
  let ?q = "rl_queue rl c" and ?rl = "rl_sent c b k f rl"
  let ?ps = "take k (q_list ?q)" and ?C = "set (possible s)"
  let ?n = "sum_list (map skb_size ?ps)"
  have q: "queue_ok ?q" using queues_invD [OF rl(3,1), of c] by (simp add: queue_inv_def)
  have wf: "\<forall>x \<in> set ?ps. wf_skb x" using q by (auto simp: queue_ok_def dest: in_set_takeD)
  have n: "?n \<le> uint (q_tokens ?q + b)" using d by (simp add: dequeued_def)
  have "uint (sum_list (map skb_bytes ?ps)) = ?n"
    by (rule uint_sum_bytes [OF wf]) (use n uint_lt2p [of "q_tokens ?q + b"] in simp)
  then have tok: "uint (q_tokens (rl_queue ?rl c)) = uint (q_tokens ?q + b) - ?n"
    using n by (simp add: rl_sent_def q_take_def Let_def uint_sub_bounded)
  have tot: "uint (total_tokens ?rl) = uint (total_tokens rl) - uint b"
    using d by (auto simp: dequeued_def rl_sent_def)
  have split: "(\<Sum>c' \<in> ?C. uint (q_tokens (rl_queue x c'))) =
      uint (q_tokens (rl_queue x c)) + (\<Sum>c' \<in> ?C - {c}. uint (q_tokens (rl_queue x c')))" for x
    using c by (intro sum.remove) simp_all
  have rest: "(\<Sum>c' \<in> ?C - {c}. uint (q_tokens (rl_queue ?rl c'))) =
      (\<Sum>c' \<in> ?C - {c}. uint (q_tokens (rl_queue rl c')))"
    by (intro sum.cong) simp_all
  have "wire_bytes s' - wire_bytes s \<le> ?n"
    using d rl(2) sum_filter_sizes [OF wf, of "driver_takes s"] by (simp add: dequeued_def wire_bytes_def)
  then have "rl_tokens (possible s) ?rl + (wire_bytes s' - wire_bytes s) \<le> rl_tokens (possible s) rl"
    unfolding rl_tokens_def split tot tok rest using uint_add_le [of "q_tokens ?q" b] by linarith
  moreover have "last_update_time ?rl = last_update_time rl" by (simp add: rl_sent_def)
  ultimately show ?thesis by (simp add: pays_def)
qed

section \<open>Every event keeps the account\<close>

lemma enqueue_moves:
  assumes inv: "bucket_inv K R p s" and pkt: "skb_ok s pkt"
  shows "\<exists>v s'. iso_rl_enqueue K p pkt c s = Some (v, s') \<and> bucket_moves R p s s'"
proof -
  obtain rl where rl: "rls s p = Some rl" "root_rl R s rl" and h: "heap_inv s" "gso_documented K"
    using inv by (auto simp: bucket_inv_def)
  have h': "queues_inv s" "sane_queue_limit s" using h(1) by (simp_all add: heap_inv_def)
  obtain rl1 s1 where c1: "iso_rl_clock rl s = (rl1, s1)" by fastforce
  obtain v s' q' where e: "iso_rl_enqueue K p pkt c s = Some (v, s')" "rl_frame s s'"
    "rls s' = (rls s)(p \<mapsto> (fst (iso_rl_clock rl s))\<lparr>rl_queue := (rl_queue rl)(c := q')\<rparr>)"
    "wire s' = wire s" "queue_inv s q'" "q_tokens q' = q_tokens (rl_queue rl c)"
    using iso_rl_enqueue_spec [OF rl(1) h'(1) pkt h(2) h'(2), of c] by metis
  let ?rl = "rl1\<lparr>rl_queue := (rl_queue rl)(c := q')\<rparr>"
  have "queues_inv s'"
    using queues_inv_put [OF h'(1) e(2,3)] e(5) queues_invD [OF h'(1) rl(1)] by simp
  then have "heap_inv s'" by (rule heap_inv_frame [OF h(1) e(2)])
  moreover have t: "clock s' = clock s1" "ticks s' = ticks s1" "clock s1 = clock s"
    using enqueue_time [OF rl(1) e(1)] clock_pays(3) [OF inv rl(1) c1] by (simp_all add: c1)
  moreover have q1: "rl_queue rl1 = rl_queue rl" using iso_rl_clock_fst(1) [of rl s] by (simp add: c1)
  have "root_rl R s' ?rl" using clock_pays(1) [OF inv rl(1) c1] t by (simp add: root_rl_def)
  moreover have "rl_tokens cs ?rl = rl_tokens cs rl1" for cs
    using e(6) q1 by (auto simp: rl_tokens_def intro!: sum.cong)
  then have "pays R (possible s) rl 0 ?rl"
    using clock_pays(2) [OF inv rl(1) c1, of "possible s"] by (simp add: pays_def)
  ultimately show ?thesis
    using e rl(1) rl_frameD(11) [OF e(2)] by (auto simp: bucket_moves_def c1 wire_bytes_def)
qed

lemma dequeue_moves:
  assumes inv: "bucket_inv K R p s" and c: "c \<in> set (possible s)"
  shows "\<exists>n s'. iso_rl_dequeue 1 K p c s = Some (n, s') \<and> bucket_moves R p s s'"
proof -
  obtain rl where rl: "rls s p = Some rl" "root_rl R s rl" "rl_txc rl = None"
    and h: "heap_inv s" "gso_documented K"
    using inv by (auto simp: bucket_inv_def root_rl_def)
  obtain b k f n s' where d: "iso_rl_dequeue 1 K p c s = Some (n, s')" "dequeued s p c rl b k f s'"
    using dequeue_root_spec [OF rl(1,3) h, of 0 c] unfolding One_nat_def by blast
  have fr: "rl_frame s s'" "queues_inv s'" "rls s' p = Some (rl_sent c b k f rl)"
    using d(2) by (simp_all add: dequeued_def)
  have t: "clock s' = clock s" "ticks s' = ticks s" using dequeue_time [OF rl(1,3) d(1) h(1)] by simp_all
  have "pays R (possible s) rl (wire_bytes s' - wire_bytes s) (rl_sent c b k f rl)"
    using dequeued_pays [OF d(2) rl(1,3) _ c] h(1) by (simp add: heap_inv_def)
  moreover have "root_rl R s' (rl_sent c b k f rl)" using rl(2) t by (simp add: root_rl_def rl_sent_def)
  ultimately show ?thesis
    using d(1) fr rl(1) t heap_inv_frame [OF h(1) fr(1,2)] rl_frameD(11) [OF fr(1)]
    by (auto simp: bucket_moves_def)
qed

lemma heap_inv_put_rl:
  assumes "heap_inv s" "rls s p = Some rl" "rl_queue rl' = rl_queue rl" "rl_txc rl' = rl_txc rl"
    "rl_rlcb rl' = rl_rlcb rl"
  shows "heap_inv (s\<lparr>ticks := n, rls := (rls s)(p \<mapsto> rl')\<rparr>)"
proof -
  let ?s = "s\<lparr>ticks := n, rls := (rls s)(p \<mapsto> rl')\<rparr>"
  have fr: "rl_frame s ?s" by (rule rl_frame_put_log(1) [OF assms(2,4,5)])
  have q: "queues_inv s" using assms(1) by (simp add: heap_inv_def)
  have "queues_inv ?s"
    by (rule queues_inv_put [OF q fr, where p = p and rl' = rl'])
      (use queues_invD [OF q assms(2)] assms(3) in simp_all)
  then show ?thesis by (rule heap_inv_frame [OF assms(1) fr])
qed

lemma clock_moves:
  assumes inv: "bucket_inv K R p s"
  shows "\<exists>s'. rl_event_run K p Clock s = Some s' \<and> bucket_moves R p s s'"
proof -
  obtain rl where rl: "rls s p = Some rl" and h: "heap_inv s" using inv by (auto simp: bucket_inv_def)
  obtain rl1 n where c1: "iso_rl_clock rl s = (rl1, s\<lparr>ticks := n\<rparr>)"
    using iso_rl_clock_snd [of rl s] by (metis prod.collapse)
  note q1 = iso_rl_clock_fst [of rl s, unfolded c1 fst_conv]
  note pay = clock_pays [OF inv rl c1]
  show ?thesis
    using rl heap_inv_put_rl [OF h rl q1(1-3), of n] pay(1) pay(2) [of "possible s"]
    by (auto simp: c1 bucket_moves_def root_rl_def wire_bytes_def)
qed

lemma set_rate_moves:
  assumes inv: "bucket_inv K R p s" and r: "uint r \<le> R"
  shows "\<exists>s'. rl_event_run K p (SetRate r) s = Some s' \<and> bucket_moves R p s s'"
proof -
  obtain rl where rl: "rls s p = Some rl" "root_rl R s rl" and h: "heap_inv s"
    using inv by (auto simp: bucket_inv_def)
  show ?thesis
    using rl r heap_inv_put_rl [OF h rl(1), of "rl\<lparr>rl_rate := r\<rparr>" "ticks s"]
    by (auto simp: bucket_moves_def root_rl_def pays_def rl_tokens_def wire_bytes_def)
qed

text \<open>No admissible event oopses.\<close>

lemma event_moves:
  assumes "bucket_inv K R p s" "event_ok R e s"
  shows "\<exists>s'. rl_event_run K p e s = Some s' \<and> bucket_moves R p s s'"
proof (cases e)
  case (Enqueue pkt c)
  then show ?thesis using enqueue_moves [OF assms(1), of pkt c] assms(2) by auto
next
  case (Dequeue c)
  then show ?thesis
    using dequeue_moves [OF assms(1), of c] assms(2) by (auto simp del: iso_rl_dequeue.simps)
qed (use clock_moves set_rate_moves assms in auto)

interpretation class_bucket: token_bucket "bucket_inv K R p" "bucket_level p" wire_bytes
  "bucket_stamp p" "bucket_step K R p" 8000 R for K R p
proof (unfold_locales, goal_cases)
  case (2 s)
  show ?case by (auto simp: bucket_level_def rl_tokens_def sum_nonneg split: option.splits)
next
  case (3 s e)
  then show ?case using event_moves [OF 3, of e] bucket_moves_inv [OF 3] by (auto simp: bucket_step_def)
next
  case (4 s e)
  then show ?case using event_moves [OF 4, of e] bucket_moves_pays [of R p s] by (auto simp: bucket_step_def)
qed simp

end
