(* ===== verification/Example.thy ===== *)
theory Example
  imports Stats Lifecycle Shaping
begin

text \<open>
  A small configuration on which the properties are instantiated: one device with one transmit
  class (address 1) and one virtual queue (address 4) for the tenant \<open>10.0.0.1\<close>, and one
  destination \<open>10.0.0.2\<close> with its state (address 2) and its limiter (address 3). The class has one
  more state (address 5) and limiter (address 6) in its pool. The kernel functions that are parameters of the model are instantiated by simple functions with the
  documented behaviour.
\<close>

section \<open>The kernel\<close>

definition demo_K :: kapi where
  "demo_K = \<lparr>jhash_1word = (\<lambda>x seed. x + seed), skb_gso_segment = (\<lambda>pkt. GsoSegs pkt []),
     ipv4_change_ds = (\<lambda>old m v. (old AND m) OR v)\<rparr>"

lemma demo_K_documented [simp]: "gso_documented demo_K" "change_ds_documented demo_K"
  by (simp_all add: demo_K_def gso_documented_def change_ds_documented_def)

text \<open>The initial values of the tunables.\<close>

lemma default_tunables_simps [simp]:
  "ISO_FALPHA default_tunables = 8"
  "ISO_MAX_TX_RATE default_tunables = 9800"
  "ISO_VQ_DRAIN_RATE_MBPS default_tunables = 9000"
  "ISO_MAX_BURST_TIME_US default_tunables = 150"
  "ISO_MIN_BURST_BYTES default_tunables = 65536"
  "ISO_RATEMEASURE_INTERVAL_US default_tunables = 100000"
  "ISO_TOKENBUCKET_TIMEOUT_NS default_tunables = 50000"
  "ISO_TOKENBUCKET_MARK_THRESH_BYTES default_tunables = 524288"
  "ISO_TOKENBUCKET_DROP_THRESH_BYTES default_tunables = 524288"
  "ISO_VQ_MARK_THRESH_BYTES default_tunables = 131072"
  "ISO_VQ_MAX_BYTES default_tunables = 262144"
  "ISO_RFAIR_INITIAL default_tunables = 5000"
  "ISO_MIN_RFAIR default_tunables = 10"
  "ISO_RFAIR_INCREMENT default_tunables = 10"
  "ISO_RFAIR_DECREASE_INTERVAL_US default_tunables = 120"
  "ISO_RFAIR_INCREASE_INTERVAL_US default_tunables = 120"
  "ISO_RFAIR_FEEDBACK_TIMEOUT_US default_tunables = 1000000"
  "ISO_RFAIR_FEEDBACK_TIMEOUT_DEFAULT_RATE default_tunables = 10"
  "IsoGlobalEnabled default_tunables = 1"
  "IsoAutoGenerateFeedback default_tunables = 1"
  "ISO_FEEDBACK_INTERVAL_US default_tunables = 100"
  "ISO_FEEDBACK_INTERVAL_BYTES default_tunables = 10000"
  "ISO_FEEDBACK_PACKET_IPPROTO default_tunables = 143"
  "ISO_RL_UPDATE_INTERVAL_US default_tunables = 20"
  "ISO_BURST_FACTOR default_tunables = 8"
  "ISO_VQ_UPDATE_INTERVAL_US default_tunables = 200"
  "ISO_TXC_UPDATE_INTERVAL_US default_tunables = 200"
  "ISO_VQ_REFRESH_INTERVAL_US default_tunables = 500"
  "ISO_MAX_QUEUE_LEN_BYTES default_tunables = 131072"
  "ISO_TX_MARK_THRESH default_tunables = 102400"
  "ISO_GSO_THRESH_RATE default_tunables = 1000"
  "ISO_GSO_MIN_SPLIT_BYTES default_tunables = 10000"
  "ISO_ECN_MARK_THRESH_BYTES default_tunables = 45000"
  "ISO_VQ_HRCP_US default_tunables = 1000"
  by (simp_all add: default_tunables_def)

section \<open>The packets\<close>

definition tenant :: u32 where "tenant = 0x0100000A"
definition peer :: u32 where "peer = 0x0200000A"

definition demo_pkt :: "u32 \<Rightarrow> u32 \<Rightarrow> sk_buff" where
  "demo_pkt src dst = \<lparr>skb_len = 1486, skb_dev = 0, skb_protocol = htons ETH_P_IP,
     skb_pkt_type = PACKET_HOST, queue_mapping = 0, skb_mark = 0,
     eth_hdr = \<lparr>h_dest = 1, h_source = 2, h_proto = htons ETH_P_IP\<rparr>,
     ip_hdr = \<lparr>ihl = 5, version = 4, tos = 0, tot_len = 0, ip_id = 0, frag_off = 0, ttl = 64,
               protocol = 6, saddr = src, daddr = dst\<rparr>,
     l4_dest = 80\<rparr>"

lemma demo_pkt_wf [simp]: "wf_skb (demo_pkt a b)" "skb_dev (demo_pkt a b) = 0" "is_ip (demo_pkt a b)"
  "skb_size (demo_pkt a b) = 1500"
  by (simp_all add: demo_pkt_def wf_skb_def is_ip_def skb_size_def ETH_HLEN_def)

lemma demo_pkt_no_feedback [simp]: "skb_has_feedback default_tunables (demo_pkt a b) = 0"
  by (simp add: skb_has_feedback_def) (simp add: demo_pkt_def)

section \<open>The state\<close>

definition demo_rl :: "nat option \<Rightarrow> sk_buff list \<Rightarrow> iso_rl" where
  "demo_rl t pkts = \<lparr>rl_rate = 1000, rl_ip = htonl peer, total_tokens = 15000, accum_xmit = 0,
     accum_enqueued = 0, last_update_time = 0, last_rate_update_time = 0,
     rl_queue = (\<lambda>_. queue_init)(0 := queue_init\<lparr>q_list := pkts,
       bytes_enqueued := sum_list (map skb_bytes pkts)\<rparr>),
     rl_txc = t, rl_rlcb = 0\<rparr>"

definition demo_txc :: iso_tx_class where
  "demo_txc = (txc_new default_tunables 0 tenant)\<lparr>
     state_bucket := (\<lambda>_. [])(state_index demo_K (htonl peer) := [2]),
     rl_bucket := (\<lambda>_. [])(bucket_index (jhash_1word demo_K (htonl peer) 0xfaceface) ISO_MAX_RL_BUCKETS := [DestRl 3]),
     prealloc_state_list := [5], prealloc_rl_list := [DestRl 6], freelist_count := 1,
     txc_vq := Some 4\<rparr>"

definition demo_txctx :: iso_tx_context where
  "demo_txctx = txctx_zero\<lparr>iso_tx_bucket := (\<lambda>_. [])(txc_index demo_K tenant := [1]), txc_list := [1],
     txc_total_weight := 1, ctx_rate := 2\<rparr>"

definition demo_vq :: iso_vq where
  "demo_vq = \<lparr>vq_enabled = 1, vq_is_static = 0, vq_rate = 9000, total_bytes_queued = 0,
     feedback_rate = 9000, vq_rx_rate = 0, last_rx_bytes = 0, vq_weight = 1, vq_alpha = 0,
     vq_last_update_time = 0, last_borrow_time = 0, percpu_stats = Some (\<lambda>_. vq_stats_zero),
     vq_klass = tenant, vq_refcnt = 1, vq_rxctx = 0\<rparr>"

definition demo_rxctx :: iso_rx_context where
  "demo_rxctx = rxctx_zero\<lparr>vq_list := [4], vq_bucket := (\<lambda>_. [])(vq_index demo_K tenant := [4]),
     rx_stats := Some (\<lambda>_. rx_stats_zero), rcp_rate := 9000\<rparr>"

definition demo :: mod_mem where
  "demo = \<lparr>tun = default_tunables, clock = (\<lambda>n. min (1000000 * int n) (2 ^ 60)), ticks = 1,
     trylocks = (\<lambda>_. True), nlocks = 0, allocs = (\<lambda>_. True), nallocs = 0, fresh = 7,
     online = [0, 1], possible = [0, 1], this_cpu = 0, iso_exiting = False, garbage = (\<lambda>_. 0),
     rls = [TxcRl 1 \<mapsto> demo_rl None [], DestRl 3 \<mapsto> demo_rl (Some 1) [], DestRl 6 \<mapsto> demo_rl (Some 1) []],
     rlcbs = [0 \<mapsto> (\<lambda>_. cb_zero)], txctx_xmit = [0 \<mapsto> True], txq_stopped = (\<lambda>_ _. False),
     wire = [], freed_skbs = [],
     vqs = [4 \<mapsto> demo_vq], rxctxs = [0 \<mapsto> demo_rxctx], rxctx_list = [0],
     txcs = [1 \<mapsto> demo_txc],
     states = [2 \<mapsto> state_raw\<lparr>ip_key := htonl peer, st_rl := Some (DestRl 3)\<rparr>, 5 \<mapsto> state_raw],
     txctxs = [0 \<mapsto> demo_txctx], txctx_list = [0], gso_max_size = (\<lambda>_. 65536),
     has_netdev_ops = (\<lambda>_. True), rx_handlers = (\<lambda>_. True),
     netdevs = [(''eth0'', 0)], eyeq_root = (\<lambda>d. d = 0), config_mutex = True,
     num_tx_queues = (\<lambda>_. 1), mq_privs = [0 \<mapsto> \<lparr>mq_qdiscs = None, mq_txc = True, mq_rxc = True\<rparr>],
     leaves = [9 \<mapsto> gnet_zero], txq_qdisc = (\<lambda>_ _. Some 9),
     regs = [RegQdisc, RegCsvStats, RegStats, RegParams]\<rparr>"

lemma demo_fields [simp]:
  "tun demo = default_tunables" "clock demo = (\<lambda>n. min (1000000 * int n) (2 ^ 60))" "ticks demo = 1"
  "trylocks demo = (\<lambda>_. True)" "allocs demo = (\<lambda>_. True)" "fresh demo = 7" "possible demo = [0, 1]"
  "online demo = [0, 1]" "this_cpu demo = 0" "iso_exiting demo = False"
  "rls demo = [TxcRl 1 \<mapsto> demo_rl None [], DestRl 3 \<mapsto> demo_rl (Some 1) [], DestRl 6 \<mapsto> demo_rl (Some 1) []]"
  "rlcbs demo = [0 \<mapsto> (\<lambda>_. cb_zero)]" "txctx_xmit demo = [0 \<mapsto> True]" "wire demo = []"
  "txq_stopped demo = (\<lambda>_ _. False)"
  "vqs demo = [4 \<mapsto> demo_vq]" "rxctxs demo = [0 \<mapsto> demo_rxctx]" "txcs demo = [1 \<mapsto> demo_txc]"
  "states demo = [2 \<mapsto> state_raw\<lparr>ip_key := htonl peer, st_rl := Some (DestRl 3)\<rparr>, 5 \<mapsto> state_raw]"
  "txctxs demo = [0 \<mapsto> demo_txctx]" "config_mutex demo = True" "eyeq_root demo = (\<lambda>d. d = 0)"
  "netdevs demo = [(''eth0'', 0)]"
  by (simp_all add: demo_def)

section \<open>Its invariants\<close>

lemma queue_init_inv [simp]: "queue_inv s queue_init"
  by (simp add: queue_inv_def queue_init_def queue_ok_def queue_len_def)

lemma demo_rl_simps [simp]:
  "rl_txc (demo_rl t ps) = t" "rl_rlcb (demo_rl t ps) = 0" "rl_rate (demo_rl t ps) = 1000"
  "last_update_time (demo_rl t ps) = 0" "rl_queue (demo_rl t []) c = queue_init"
  by (simp_all add: demo_rl_def queue_init_def)

lemma demo_heap_inv: "heap_inv demo"
  by (auto simp: heap_inv_def queues_inv_def links_inv_def shape_def sane_queue_limit_def
      default_tunables_def split: if_splits)

lemma demo_sched_inv: "sched_inv {} demo"
  using demo_heap_inv
  by (auto simp: sched_inv_def active_inv_def cb_sched_def cb_zero_def backlog_inv_def backlogged_def
      queue_at_def queue_init_def timer_inv_def split: if_splits)

lemma demo_tx_ok: "tx_ok 0 demo"
  by (auto simp: tx_ok_def demo_txctx_def txctx_zero_def txc_ok_def demo_txc_def txc_new_def state_raw_def)

lemma demo_bucket_inv: "bucket_inv demo_K 1000 (TxcRl 1) demo"
proof -
  have "mono (\<lambda>n. min (1000000 * int n) (2 ^ 60 :: int))" by (rule monoI) simp
  then show ?thesis
    using demo_heap_inv by (simp add: bucket_inv_def sane_clock_def root_rl_def min_less_iff_disj)
qed

lemma demo_tunables [simp]: "tick_tunables default_tunables" "tick_interval default_tunables"
  "drain_tunables default_tunables" "rcp_tunables default_tunables" "rc_tunables default_tunables"
  by (simp_all add: tick_tunables_def tick_interval_def drain_tunables_def rcp_tunables_def
      rc_tunables_def default_tunables_def ISO_IDLE_RATE_def)

lemma demo_rx_tunables [simp]: "rx_tunables default_tunables"
  by (simp add: rx_tunables_def)

lemma demo_rx_ok: "rx_ok 0 demo"
  by (auto simp: rx_ok_def demo_rxctx_def rxctx_zero_def demo_vq_def vq_ready_def)

lemma demo_dp_ok: "dp_ok 0 demo"
  using demo_tx_ok demo_sched_inv demo_rx_ok by (simp add: dp_ok_def tx_table_def unused_def)

lemma demo_system: "dp_system demo_K 0 demo"
  using demo_dp_ok by (simp add: dp_system_def dp_env_def)

lemma demo_tick_due: "tick_due 0 demo"
  by (simp add: tick_due_def demo_txctx_def txctx_zero_def ktime_us_delta_def s64_id)

text \<open>The same configuration with a packet in the queue of the class on CPU 0.\<close>

definition demo_busy :: mod_mem where
  "demo_busy = demo\<lparr>rls := (rls demo)(TxcRl 1 \<mapsto> demo_rl None [demo_pkt tenant peer]),
     rlcbs := [0 \<mapsto> (\<lambda>_. cb_zero)(0 := cb_zero\<lparr>cb_active := [(TxcRl 1, 0)], cb_timer := True\<rparr>)]\<rparr>"

lemma demo_busy_system: "dp_system demo_K 0 demo_busy"
proof -
  have "uint (skb_bytes (demo_pkt tenant peer)) = 1500" by (simp add: uint_skb_bytes)
  then have "queue_inv demo_busy (rl_queue (demo_rl None [demo_pkt tenant peer]) c)" for c
    by (auto simp: queue_inv_def queue_ok_def queue_len_def demo_rl_def queue_init_def skb_ok_def demo_busy_def)
  then have "queues_inv demo_busy" by (auto simp: queues_inv_def demo_busy_def split: if_splits)
  then have "heap_inv demo_busy"
    using demo_heap_inv
    by (auto simp: heap_inv_def links_inv_def shape_def sane_queue_limit_def demo_busy_def split: if_splits)
  then have "sched_inv {} demo_busy"
    by (auto simp: sched_inv_def active_inv_def cb_sched_def cb_zero_def backlog_inv_def backlogged_def
        queue_at_def queue_init_def timer_inv_def active_at_def shape_def demo_busy_def demo_rl_def
        split: if_splits)
  moreover have "tx_ok 0 demo_busy"
    by (auto simp: tx_ok_def demo_txctx_def txctx_zero_def txc_ok_def demo_txc_def txc_new_def
        state_raw_def demo_busy_def)
  moreover have "rx_ok 0 demo_busy" using demo_rx_ok by (simp add: demo_busy_def)
  moreover have "unused demo_busy" by (simp add: unused_def demo_busy_def)
  ultimately show ?thesis by (simp add: dp_system_def dp_env_def dp_ok_def tx_table_def demo_busy_def)
qed

lemma demo_rc_inv: "rc_inv default_tunables (fst (iso_rc_init rc_raw demo))"
  by (simp add: rc_inv_def rc_range_def iso_rc_init_def ktime_get_def Let_def default_tunables_def)

section \<open>A machine before EyeQ is set up\<close>

definition demo_boot :: mod_mem where
  "demo_boot = demo\<lparr>fresh := 1, rls := Map.empty, rlcbs := Map.empty, txctx_xmit := Map.empty, vqs := Map.empty,
     rxctxs := Map.empty, rxctx_list := [], txcs := Map.empty, states := Map.empty, txctxs := Map.empty, txctx_list := [],
     rx_handlers := (\<lambda>_. False), eyeq_root := (\<lambda>_. False), mq_privs := Map.empty, leaves := Map.empty,
     txq_qdisc := (\<lambda>_ _. None)\<rparr>"

lemma demo_boot_fields [simp]:
  "tun demo_boot = default_tunables" "rls demo_boot = Map.empty" "rlcbs demo_boot = Map.empty" "txctxs demo_boot = Map.empty"
  "rxctxs demo_boot = Map.empty" "txctx_list demo_boot = []" "rxctx_list demo_boot = []" "txctx_xmit demo_boot = Map.empty"
  "allocs demo_boot = (\<lambda>_. True)" "iso_exiting demo_boot = False" "num_tx_queues demo_boot = (\<lambda>_. 1)"
  by (simp_all add: demo_boot_def demo_def)

lemma demo_boot_unmanaged: "unmanaged 0 demo_boot"
  by (auto simp: unmanaged_def sched_inv_def heap_inv_def queues_inv_def links_inv_def shape_def sane_queue_limit_def
      active_inv_def cb_sched_def backlog_inv_def backlogged_def queue_at_def timer_inv_def unused_def demo_boot_def demo_def)

end
