(* ===== verification/Inventory.thy ===== *)
theory Inventory
  imports DataPath "HOL-Library.Multiset"
begin

text \<open>
  Where packets are. A packet that the transmit path has taken is in one queue of one rate limiter, was
  handed to the driver, or was freed: \<open>stock\<close> counts these packets, and \<open>ships X\<close> is a step that takes
  in the packets \<open>X\<close> and loses none. It is shown here for the operations of \<open>src/rl.c\<close>, from the queues
  up to the tasklet.

  Packets are compared up to the bits of their type of service, which the code rewrites to mark
  congestion. A packet above \<open>ISO_GSO_MIN_SPLIT_BYTES\<close> may be split, which frees it and queues its
  segments; the queues of the states here hold none (\<open>calm\<close>).
\<close>

section \<open>Where the packets are\<close>

definition unmark :: "sk_buff \<Rightarrow> sk_buff" where
  "unmark skb = skb\<lparr>ip_hdr := (ip_hdr skb)\<lparr>tos := 0\<rparr>\<rparr>"

lemma unmark_ds [simp]: "unmark (ipv4_change_dsfield K m v skb) = unmark skb"
  by (simp add: unmark_def ipv4_change_dsfield_def)

lemma unmark_ecn [simp]: "unmark (iso_enable_ecn K skb) = unmark skb" "unmark (iso_clear_ecn K skb) = unmark skb"
  by (simp_all add: iso_enable_ecn_def iso_clear_ecn_def)

lemma unmark_size [simp]: "skb_size (unmark skb) = skb_size skb"
  by (simp add: unmark_def skb_size_def)

definition packets :: "sk_buff list \<Rightarrow> sk_buff multiset" where
  "packets xs = mset (map unmark xs)"

lemma packets_simps [simp]:
  "packets [] = {#}" "packets (x # xs) = add_mset (unmark x) (packets xs)" "packets (xs @ ys) = packets xs + packets ys"
  by (simp_all add: packets_def)

definition parked :: "'z rl_mem_scheme \<Rightarrow> q_ptr \<Rightarrow> sk_buff multiset" where
  "parked s x = (case rls s (fst x) of None \<Rightarrow> {#} | Some rl \<Rightarrow> packets (q_list (rl_queue rl (snd x))))"

definition left :: "'z rl_mem_scheme \<Rightarrow> sk_buff multiset" where
  "left s = packets (wire s) + packets (freed_skbs s)"

definition occupied :: "'z rl_mem_scheme \<Rightarrow> q_ptr set" where
  "occupied s = {x. parked s x \<noteq> {#}}"

definition stock :: "'z rl_mem_scheme \<Rightarrow> sk_buff multiset" where
  "stock s = left s + (\<Sum>x\<in>occupied s. parked s x)"

definition calm :: "'z rl_mem_scheme \<Rightarrow> bool" where
  "calm s \<longleftrightarrow> (\<forall>x. \<forall>k \<in># parked s x. skb_size k \<le> ISO_GSO_MIN_SPLIT_BYTES (tun s))"

lemma calmD: "calm s \<Longrightarrow> k \<in># parked s x \<Longrightarrow> skb_size k \<le> ISO_GSO_MIN_SPLIT_BYTES (tun s)"
  unfolding calm_def by blast

text \<open>A step that takes in \<open>X\<close> and loses nothing.\<close>

definition ships :: "sk_buff multiset \<Rightarrow> 'z rl_mem_scheme \<Rightarrow> 'z rl_mem_scheme \<Rightarrow> bool" where
  "ships X s s' \<longleftrightarrow> tun s' = tun s \<and> txctx_xmit s' = txctx_xmit s \<and> (calm s \<longrightarrow> calm s') \<and>
     (\<exists>Q. finite Q \<and> (\<forall>x. x \<notin> Q \<longrightarrow> parked s' x = parked s x) \<and>
        left s' + (\<Sum>x\<in>Q. parked s' x) = left s + (\<Sum>x\<in>Q. parked s x) + X)"

lemma stock_over:
  assumes "finite Q" "occupied s \<subseteq> Q"
  shows "stock s = left s + (\<Sum>x\<in>Q. parked s x)"
  unfolding stock_def using sum.mono_neutral_left [OF assms] by (auto simp: occupied_def)

lemma ships_stock:
  assumes "ships X s s'" "finite (occupied s)"
  shows "stock s' = stock s + X" "finite (occupied s')"
proof -
  obtain Q where Q: "finite Q" "\<And>x. x \<notin> Q \<Longrightarrow> parked s' x = parked s x"
    "left s' + (\<Sum>x\<in>Q. parked s' x) = left s + (\<Sum>x\<in>Q. parked s x) + X"
    using assms(1) unfolding ships_def by blast
  let ?R = "Q \<union> occupied s"
  have R: "finite ?R" "occupied s \<subseteq> ?R" "occupied s' \<subseteq> ?R" using Q(1,2) assms(2) by (auto simp: occupied_def)
  have split: "(\<Sum>x\<in>?R. f x) = (\<Sum>x\<in>Q. f x) + (\<Sum>x\<in>occupied s - Q. f x)" for f :: "q_ptr \<Rightarrow> sk_buff multiset"
    using sum.union_disjoint [of Q "occupied s - Q" f] Q(1) assms(2) by simp
  have "(\<Sum>x\<in>occupied s - Q. parked s' x) = (\<Sum>x\<in>occupied s - Q. parked s x)" by (rule sum.cong) (use Q(2) in auto)
  then show "stock s' = stock s + X"
    using Q(3) unfolding stock_over [OF R(1,2)] stock_over [OF R(1,3)] split by (simp add: ac_simps)
  show "finite (occupied s')" using R(1,3) by (rule finite_subset [rotated])
qed

lemma ships_widen:
  assumes "finite Q" "\<forall>x. x \<notin> Q \<longrightarrow> parked s' x = parked s x"
    "left s' + (\<Sum>x\<in>Q. parked s' x) = left s + (\<Sum>x\<in>Q. parked s x) + X" "finite R" "Q \<subseteq> R"
  shows "left s' + (\<Sum>x\<in>R. parked s' x) = left s + (\<Sum>x\<in>R. parked s x) + X"
proof -
  have split: "(\<Sum>x\<in>R. f x) = (\<Sum>x\<in>R - Q. f x) + (\<Sum>x\<in>Q. f x)" for f :: "q_ptr \<Rightarrow> sk_buff multiset"
    using assms(4,5) by (rule sum.subset_diff [OF _ _, rotated])
  have "(\<Sum>x\<in>R - Q. parked s' x) = (\<Sum>x\<in>R - Q. parked s x)" by (rule sum.cong) (use assms(2) in auto)
  with assms(3) show ?thesis unfolding split by (metis (no_types, lifting) add.assoc add.left_commute)
qed

lemma ships_trans [trans]:
  assumes "ships X s t" "ships Y t u"
  shows "ships (X + Y) s u"
proof -
  obtain Q where Q: "finite Q" "\<forall>x. x \<notin> Q \<longrightarrow> parked t x = parked s x"
    "left t + (\<Sum>x\<in>Q. parked t x) = left s + (\<Sum>x\<in>Q. parked s x) + X"
    using assms(1) unfolding ships_def by blast
  obtain R where R: "finite R" "\<forall>x. x \<notin> R \<longrightarrow> parked u x = parked t x"
    "left u + (\<Sum>x\<in>R. parked u x) = left t + (\<Sum>x\<in>R. parked t x) + Y"
    using assms(2) unfolding ships_def by blast
  have fin: "finite (Q \<union> R)" using Q(1) R(1) by simp
  note q = ships_widen [OF Q fin Un_upper1] and r = ships_widen [OF R fin Un_upper2]
  have "left u + (\<Sum>x\<in>Q \<union> R. parked u x) = left s + (\<Sum>x\<in>Q \<union> R. parked s x) + (X + Y)"
    unfolding r q by (simp add: add.assoc)
  then show ?thesis using assms Q(2) R(2) fin unfolding ships_def by (metis UnCI)
qed

text \<open>One queue changes, and packets leave.\<close>

lemma ships_move:
  assumes "tun s' = tun s" "txctx_xmit s' = txctx_xmit s" "parked s' = (parked s)(x := A)"
    "left s' = left s + B" "A + B = parked s x + X"
    and "calm s \<Longrightarrow> \<forall>k \<in># A. skb_size k \<le> ISO_GSO_MIN_SPLIT_BYTES (tun s)"
  shows "ships X s s'"
proof -
  have "calm s \<longrightarrow> calm s'" using assms(1,3,6) by (auto simp: calm_def)
  moreover have "left s' + (\<Sum>y\<in>{x}. parked s' y) = left s + (\<Sum>y\<in>{x}. parked s y) + X"
    using assms(3-5) by (simp add: ac_simps)
  ultimately show ?thesis using assms(1-3) unfolding ships_def by (intro conjI exI [of _ "{x}"]) auto
qed

definition idle :: "'z rl_mem_scheme \<Rightarrow> 'z rl_mem_scheme \<Rightarrow> bool" where
  "idle s s' \<longleftrightarrow> tun s' = tun s \<and> txctx_xmit s' = txctx_xmit s \<and> parked s' = parked s \<and> left s' = left s"

lemma idle_ships: "idle s s' \<Longrightarrow> ships {#} s s'"
  by (rule ships_move [where x = undefined and A = "parked s undefined" and B = "{#}"]) (auto simp: idle_def dest: calmD)

lemma idle_refl [simp, intro]: "idle s s"
  by (simp add: idle_def)

lemma idle_trans [trans]: "idle s t \<Longrightarrow> idle t u \<Longrightarrow> idle s u"
  by (simp add: idle_def)

lemma ships_idle:
  assumes "ships X s t" "idle t u"
  shows "ships X s u"
  using ships_trans [OF assms(1) idle_ships [OF assms(2)]] by simp

lemma idle_then_ships:
  assumes "idle s t" "ships X t u"
  shows "ships X s u"
  using ships_trans [OF idle_ships [OF assms(1)] assms(2)] by simp

lemma parked_same: "rls s' = rls s \<Longrightarrow> parked s' = parked s"
  by (rule ext) (simp add: parked_def)

lemma idle_same:
  "tun s' = tun s \<Longrightarrow> txctx_xmit s' = txctx_xmit s \<Longrightarrow> rls s' = rls s \<Longrightarrow> wire s' = wire s \<Longrightarrow>
     freed_skbs s' = freed_skbs s \<Longrightarrow> idle s s'"
  using parked_same [of s' s] by (simp add: idle_def left_def)

text \<open>Replacing a limiter by one with the same queues, or adding an empty one.\<close>

lemma parked_put:
  "rls s' = (rls s)(p \<mapsto> rl') \<Longrightarrow> parked s' (p', c) = (if p' = p then packets (q_list (rl_queue rl' c)) else parked s (p', c))"
  by (simp add: parked_def)

lemma idle_put:
  assumes "tun s' = tun s" "txctx_xmit s' = txctx_xmit s" "wire s' = wire s" "freed_skbs s' = freed_skbs s"
    "rls s' = (rls s)(p \<mapsto> rl')" "\<And>c. packets (q_list (rl_queue rl' c)) = parked s (p, c)"
  shows "idle s s'"
proof -
  have "parked s' x = parked s x" for x by (cases x) (simp add: parked_put [OF assms(5)] assms(6))
  then show ?thesis using assms(1-4) by (simp add: idle_def left_def fun_eq_iff)
qed

lemma parked_live: "rls s p = Some rl \<Longrightarrow> parked s (p, c) = packets (q_list (rl_queue rl c))"
  by (simp add: parked_def)

lemma parked_dead: "rls s p = None \<Longrightarrow> parked s (p, c) = {#}"
  by (simp add: parked_def)

section \<open>Sending and queueing one packet\<close>

definition drivers :: "'z rl_mem_scheme \<Rightarrow> bool" where
  "drivers s \<longleftrightarrow> (\<forall>d. txctx_xmit s d \<noteq> Some False)"

lemma drivers_ships: "ships X s s' \<Longrightarrow> drivers s' = drivers s"
  by (simp add: ships_def drivers_def)

lemma calm_ships: "ships X s s' \<Longrightarrow> calm s \<Longrightarrow> calm s'"
  by (simp add: ships_def)

lemma xmit_ships:
  assumes "skb_xmit pkt s = Some s'" "drivers s"
  shows "ships {#unmark pkt#} s s'" "rls s' = rls s" "rlcbs s' = rlcbs s"
proof -
  have r: "tun s' = tun s" "txctx_xmit s' = txctx_xmit s" "rls s' = rls s" "rlcbs s' = rlcbs s"
    "left s' = left s + {#unmark pkt#}"
    using assms by (auto simp: skb_xmit_def drivers_def left_def split: Option.bind_splits if_splits)
  show "ships {#unmark pkt#} s s'"
    by (rule ships_move [OF r(1,2), where x = undefined and A = "parked s undefined" and B = "{#unmark pkt#}"])
      (use r parked_same [OF r(3)] in \<open>auto dest: calmD\<close>)
qed (use assms in \<open>auto simp: skb_xmit_def split: Option.bind_splits if_splits\<close>)

lemma packets_tail: "packets (q_list (enqueue_tail K P txc q pkt)) = packets (q_list q) + {#unmark pkt#}"
  by (simp add: enqueue_tail_def Let_def)

lemma enqueue_ships:
  assumes e: "iso_rl_enqueue K p pkt c s = Some (v, s')" and rl: "rls s p = Some rl" "queues_inv s" "sane_queue_limit s"
    and pkt: "wf_skb pkt" "skb_size pkt \<le> ISO_GSO_MIN_SPLIT_BYTES (tun s)"
  shows "if queue_len (rl_queue rl c) + skb_size pkt \<le> ISO_MAX_QUEUE_LEN_BYTES (tun s)
    then v = ISO_VERDICT_SUCCESS \<and> ships {#unmark pkt#} s s' else v = ISO_VERDICT_DROP \<and> idle s s'"
proof -
  obtain n where n: "snd (iso_rl_clock rl s) = s\<lparr>ticks := n\<rparr>" using iso_rl_clock_snd by blast
  let ?q = "rl_queue rl c" and ?w = "enqueue_whole K (tun s) (rl_txc rl) (rl_queue rl c) pkt"
  let ?rl = "(fst (iso_rl_clock rl s))\<lparr>rl_queue := (rl_queue rl)(c := snd ?w)\<rparr>"
  have r: "v = fst ?w" "s' = s\<lparr>ticks := n, rls := (rls s)(p \<mapsto> ?rl)\<rparr>"
    using e rl(1) pkt(2) n by (auto simp: iso_rl_enqueue_def split_beta Let_def)
  have q: "queue_ok ?q" using queues_invD [OF rl(2,1), of c] by (simp add: queue_inv_def)
  note w = enqueue_whole_eq [OF q pkt(1), of "tun s" K "rl_txc rl"]
  have lim: "0 < ISO_MAX_QUEUE_LEN_BYTES (tun s)" "ISO_MAX_QUEUE_LEN_BYTES (tun s) \<le> 2 ^ 30"
    using rl(3) by (simp_all add: sane_queue_limit_def)
  have rls: "rls s' = (rls s)(p \<mapsto> ?rl)" by (simp add: r(2))
  have live: "parked s (p, c') = packets (q_list (rl_queue rl c'))" for c' by (rule parked_live [OF rl(1)])
  show ?thesis
  proof (cases "queue_len ?q + skb_size pkt \<le> ISO_MAX_QUEUE_LEN_BYTES (tun s)")
    case True
    then have wt: "?w = (ISO_VERDICT_SUCCESS, enqueue_tail K (tun s) (rl_txc rl) ?q pkt)" using w lim by simp
    have "parked s' x = ((parked s)((p, c) := parked s (p, c) + {#unmark pkt#})) x" for x
      by (cases x) (auto simp: parked_put [OF rls] live wt packets_tail)
    then have "ships {#unmark pkt#} s s'"
      by (intro ships_move [where x = "(p, c)" and A = "parked s (p, c) + {#unmark pkt#}" and B = "{#}"])
        (use pkt(2) in \<open>auto simp: r(2) left_def calm_def\<close>)
    then show ?thesis using True r(1) wt by simp
  next
    case False
    then have wf: "?w = (ISO_VERDICT_DROP, ?q)" using w lim by simp
    have "idle s s'" by (rule idle_put [where p = p and rl' = ?rl]) (auto simp: r(2) live wf)
    then show ?thesis using False r(1) wf by simp
  qed
qed

lemma space_fits:
  assumes "iso_rl_has_space_for p pkt c s = Some True" "rls s p = Some rl" "queues_inv s" "sane_queue_limit s" "wf_skb pkt"
  shows "queue_len (rl_queue rl c) + skb_size pkt \<le> ISO_MAX_QUEUE_LEN_BYTES (tun s)"
proof -
  have q: "queue_ok (rl_queue rl c)" using queues_invD [OF assms(3,2), of c] by (simp add: queue_inv_def)
  have "bytes_enqueued (rl_queue rl c) + skb_bytes pkt < of_int (ISO_MAX_QUEUE_LEN_BYTES (tun s))"
    using assms(1,2,5) by (simp add: iso_rl_has_space_for_def ucast_skb_size32)
  moreover have "uint (of_int (ISO_MAX_QUEUE_LEN_BYTES (tun s)) :: u64) = ISO_MAX_QUEUE_LEN_BYTES (tun s)"
    using assms(4) by (intro uint_of_int) (auto simp: sane_queue_limit_def)
  ultimately show ?thesis using uint_bytes_plus [OF q assms(5)] by (simp add: word_less_def)
qed

section \<open>Dequeue\<close>

text \<open>What the limiters need to lose nothing.\<close>

definition shipping :: "kapi \<Rightarrow> 'z rl_mem_scheme \<Rightarrow> bool" where
  "shipping K s \<longleftrightarrow> heap_inv s \<and> calm s \<and> drivers s \<and> gso_documented K"

lemma shippingD:
  assumes "shipping K s"
  shows "heap_inv s" "calm s" "drivers s" "gso_documented K" "queues_inv s" "links_inv s" "sane_queue_limit s"
  using assms by (simp_all add: shipping_def heap_inv_def)

lemma shipping_next:
  assumes "shipping K s" "ships X s s'" "rl_frame s s'" "queues_inv s'"
  shows "shipping K s'"
  using assms heap_inv_frame [of s s'] calm_ships [OF assms(2)] drivers_ships [OF assms(2)] by (simp add: shipping_def)

lemma dequeue_round_ships:
  fixes q :: iso_rl_queue and s :: "'z rl_mem_scheme" and pkt :: sk_buff and tot :: u64
  defines "q1 \<equiv> q\<lparr>first_pkt_size := sint (skb_size32 pkt)\<rparr>"
    and "tot1 \<equiv> tot + ucast (skb_size32 pkt)"
  assumes sh: "shipping K s" and pkt: "skb_ok s pkt" "skb_size pkt \<le> ISO_GSO_MIN_SPLIT_BYTES (tun s)"
    and r: "dequeue_loop K c txc d (pkt # rest) q tot s = Some r"
  shows "r = (q1, tot1, True, s) \<or>
    (\<exists>s1. dequeue_loop K c txc d rest (take_head q1 rest (skb_size32 pkt)) tot1 s1 = Some r \<and>
       ships {#unmark pkt#} s s1 \<and> shipping K s1 \<and> rl_frame s s1)"
proof (cases "ucast (skb_size32 pkt) \<le> q_tokens q \<and> tot1 \<le> of_int (s32 (ISO_MIN_BURST_BYTES (tun s) * 2))")
  case False
  then show ?thesis using r by (intro disjI1) (auto simp: Let_def q1_def tot1_def)
next
  case go: True
  note i = shippingD [OF sh]
  show ?thesis
  proof (cases txc)
    case None
    then obtain s1 s2 where s1: "skb_xmit pkt s = Some s1" "add_tx_bytes d c (skb_size32 pkt) s1 = Some s2"
      and l: "dequeue_loop K c txc d rest (take_head q1 rest (skb_size32 pkt)) tot1 s2 = Some r"
      using go r by (auto simp: Let_def q1_def tot1_def split: Option.bind_splits)
    note x = xmit_ships [OF s1(1) i(3)]
    have s2: "rls s2 = rls s1" "idle s1 s2" "rl_frame s1 s2"
      using s1(2) by (auto simp: add_tx_bytes_def intro!: idle_same split: Option.bind_splits)
    have fr: "rl_frame s s2" using skb_xmit_spec [OF pkt(1)] s1(1) rl_frame_trans [OF _ s2(3)] by auto
    have sp: "ships {#unmark pkt#} s s2" by (rule ships_idle [OF x(1) s2(2)])
    have "queues_inv s2" using queues_inv_same [OF fr] x(2) s2(1) i(5) by simp
    then show ?thesis using l fr sp shipping_next [OF sh sp fr] by blast
  next
    case (Some t)
    show ?thesis
    proof (cases "iso_rl_has_space_for (TxcRl t) pkt c s = Some True")
      case False
      then show ?thesis using go Some r by (intro disjI1) (auto simp: Let_def q1_def tot1_def split: Option.bind_splits if_splits)
    next
      case space: True
      then obtain prl where prl: "rls s (TxcRl t) = Some prl"
        by (auto simp: iso_rl_has_space_for_def split: Option.bind_splits)
      obtain v s1 q' where e: "iso_rl_enqueue K (TxcRl t) pkt c s = Some (v, s1)" "rl_frame s s1"
        "rls s1 = (rls s)(TxcRl t \<mapsto> (fst (iso_rl_clock prl s))\<lparr>rl_queue := (rl_queue prl)(c := q')\<rparr>)" "queue_inv s q'"
        using iso_rl_enqueue_spec [OF prl i(5) pkt(1) i(4,7), of c] by metis
      have wf: "wf_skb pkt" using pkt(1) by (simp add: skb_ok_def)
      have sp: "ships {#unmark pkt#} s s1"
        using enqueue_ships [OF e(1) prl i(5,7) wf pkt(2)] space_fits [OF space prl i(5,7) wf] by simp
      have "queues_inv s1" using queues_inv_put [OF i(5) e(2,3)] e(4) queues_invD [OF i(5) prl] by simp
      then show ?thesis using go Some r space e(1,2) sp shipping_next [OF sh sp e(2)]
        by (intro disjI2 exI [of _ s1]) (auto simp: Let_def q1_def tot1_def)
    qed
  qed
qed

lemma dequeue_loop_ships:
  assumes "dequeue_loop K c txc d pkts q tot s = Some (q', tot', tmo, s')" "q_list q = pkts" "shipping K s"
    "\<forall>k \<in> set pkts. skb_ok s k \<and> skb_size k \<le> ISO_GSO_MIN_SPLIT_BYTES (tun s)"
  shows "\<exists>k. q_list q' = drop k pkts \<and> ships (packets (take k pkts)) s s'"
  using assms
proof (induction pkts arbitrary: q tot s)
  case Nil
  then show ?case using idle_ships [of s s] by auto
next
  case (Cons pkt rest)
  let ?q = "q\<lparr>first_pkt_size := sint (skb_size32 pkt)\<rparr>" and ?tot = "tot + ucast (skb_size32 pkt)"
  have pkt: "skb_ok s pkt" "skb_size pkt \<le> ISO_GSO_MIN_SPLIT_BYTES (tun s)" using Cons.prems(4) by simp_all
  consider (stop) "(q', tot', tmo, s') = (?q, ?tot, True, s)"
    | (go) s1 where "dequeue_loop K c txc d rest (take_head ?q rest (skb_size32 pkt)) ?tot s1 = Some (q', tot', tmo, s')"
        "ships {#unmark pkt#} s s1" "shipping K s1" "rl_frame s s1"
    using dequeue_round_ships [OF Cons.prems(3) pkt Cons.prems(1)] by blast
  then show ?case
  proof cases
    case stop
    then show ?thesis using Cons.prems(2) idle_ships [of s s] by (intro exI [of _ 0]) simp
  next
    case go
    have "\<forall>k \<in> set rest. skb_ok s1 k \<and> skb_size k \<le> ISO_GSO_MIN_SPLIT_BYTES (tun s1)"
      using Cons.prems(4) by (simp add: skb_ok_frame [OF go(4)] rl_frameD [OF go(4)])
    then obtain k where k: "q_list q' = drop k rest" "ships (packets (take k rest)) s1 s'"
      using Cons.IH [OF go(1) _ go(3)] by (auto simp: take_head_def)
    then show ?thesis using ships_trans [OF go(2) k(2)] by (intro exI [of _ "Suc k"]) simp
  qed
qed

text \<open>Packets sent from a copy of a queue are paid for when the queue is written back.\<close>

lemma ships_repay:
  assumes "ships A s s1" "tun s2 = tun s1" "txctx_xmit s2 = txctx_xmit s1" "left s2 = left s1"
    "parked s2 = (parked s1)(x := B)" "parked s1 x = A + B"
  shows "ships {#} s s2"
proof -
  obtain Q where Q: "finite Q" "\<forall>y. y \<notin> Q \<longrightarrow> parked s1 y = parked s y"
    "left s1 + (\<Sum>y\<in>Q. parked s1 y) = left s + (\<Sum>y\<in>Q. parked s y) + A"
    using assms(1) unfolding ships_def by blast
  let ?R = "insert x Q"
  have R: "finite ?R" "Q \<subseteq> ?R" using Q(1) by auto
  note w = ships_widen [OF Q R]
  have split: "(\<Sum>y\<in>?R. f y) = f x + (\<Sum>y\<in>?R - {x}. f y)" for f :: "q_ptr \<Rightarrow> sk_buff multiset"
    using R(1) by (rule sum.remove) simp
  have "(\<Sum>y\<in>?R - {x}. parked s2 y) = (\<Sum>y\<in>?R - {x}. parked s1 y)" by (rule sum.cong) (use assms(5) in auto)
  then have "A + (left s2 + (\<Sum>y\<in>?R. parked s2 y)) = left s1 + (\<Sum>y\<in>?R. parked s1 y)"
    unfolding split [of "parked s1"] split [of "parked s2"] using assms(4-6) by (simp add: ac_simps)
  then have "left s2 + (\<Sum>y\<in>?R. parked s2 y) = left s + (\<Sum>y\<in>?R. parked s y) + {#}"
    unfolding w by (metis (no_types, lifting) add.commute add.right_neutral add_left_cancel)
  moreover have "calm s \<longrightarrow> calm s2"
    using assms(1,2,5,6) unfolding ships_def calm_def by (metis fun_upd_apply union_iff)
  ultimately show ?thesis
    using assms(1-3,5) Q(2) R(1) unfolding ships_def by (intro conjI exI [of _ ?R]) auto
qed

lemma borrow_idle:
  assumes "iso_rl_borrow_tokens p c s = Some (b, s')"
  shows "idle s s'"
proof (cases "trylocks s (nlocks s)")
  case False
  then show ?thesis using assms by (auto simp: iso_rl_borrow_tokens_def spin_trylock_def intro!: idle_same)
next
  case True
  then obtain rl where rl: "rls s p = Some rl"
    using assms by (auto simp: iso_rl_borrow_tokens_def spin_trylock_def split: Option.bind_splits)
  show ?thesis
    using assms True rl
    by (auto simp: iso_rl_borrow_tokens_def spin_trylock_def Let_def parked_live [OF rl]
        intro!: idle_put [where p = p])
qed

lemma queue_packets:
  assumes "shipping K s" "rls s p = Some rl" "k \<in> set (q_list (rl_queue rl c))"
  shows "skb_ok s k \<and> skb_size k \<le> ISO_GSO_MIN_SPLIT_BYTES (tun s)"
proof -
  note i = shippingD [OF assms(1)]
  have "unmark k \<in># parked s (p, c)" using assms(3) by (simp add: parked_live [OF assms(2)] packets_def)
  then show ?thesis using calmD [OF i(2)] queues_invD [OF i(5) assms(2), of c] assms(3) by (force simp: queue_inv_def)
qed

lemma own_loop_ships:
  assumes sh: "shipping K s" and rl: "rls s p = Some rl"
    and l: "dequeue_loop K c (rl_txc rl) (rl_rlcb rl) (q_list (rl_queue rl c)) (rl_queue rl c) 0 s = Some (q, tot, tmo, s1)"
    and put: "put_queue p c q s1 = Some s2"
  shows "ships {#} s s2"
proof -
  let ?pkts = "q_list (rl_queue rl c)"
  note i = shippingD [OF sh]
  obtain k where k: "q_list q = drop k ?pkts" "ships (packets (take k ?pkts)) s s1"
    using dequeue_loop_ships [OF l refl sh] queue_packets [OF sh rl] by blast
  have parent: "\<forall>t. rl_txc rl = Some t \<longrightarrow> rls s (TxcRl t) \<noteq> None" using links_invD(2) [OF i(6) rl] by auto
  have p1: "rls s1 p = Some rl"
    using dequeue_loop_spec [OF refl queues_invD [OF i(5) rl, of c] i(5,4,7) links_invD(1) [OF i(6) rl] parent, of c 0]
      l rl links_invD(3) [OF i(6) rl] by auto
  have s2: "s2 = s1\<lparr>rls := (rls s1)(p \<mapsto> rl\<lparr>rl_queue := (rl_queue rl)(c := q)\<rparr>)\<rparr>"
    using put p1 by (simp add: put_queue_def)
  have "packets ?pkts = packets (take k ?pkts) + packets (drop k ?pkts)"
    by (metis append_take_drop_id packets_simps(3))
  moreover have "parked s2 x = ((parked s1)((p, c) := packets (drop k ?pkts))) x" for x
    by (cases x) (auto simp: s2 parked_def p1 k(1))
  ultimately show ?thesis
    by (intro ships_repay [OF k(2), where x = "(p, c)" and B = "packets (drop k ?pkts)"])
      (auto simp: s2 left_def parked_live [OF p1])
qed

lemma dequeue_own_ships:
  assumes sh: "shipping K s" and o: "dequeue_own K p c s = Some (blocked, tot, tmo, s')"
  shows "ships {#} s s'" "shipping K s'" "rl_frame s s'"
proof -
  note i = shippingD [OF sh]
  obtain rl where rl: "rls s p = Some rl" using o by (auto simp: dequeue_own_def split: Option.bind_splits)
  let ?b = "if q_tokens (rl_queue rl c) < of_int (first_pkt_size (rl_queue rl c))
      then iso_rl_borrow_tokens p c s else Some (False, s)"
  obtain b x s1 where s1: "?b = Some (b, s1)" "dequeued s p c rl x 0 (first_pkt_size (rl_queue rl c)) s1"
    using own_borrow [OF rl i(5), of c] by blast
  let ?rl = "rl_sent c x 0 (first_pkt_size (rl_queue rl c)) rl"
  have idle: "idle s s1" using s1(1) borrow_idle by (auto split: if_splits)
  have f1: "rl_frame s s1" "queues_inv s1" "rls s1 p = Some ?rl" using s1(2) by (simp_all add: dequeued_def)
  have sh1: "shipping K s1" by (rule shipping_next [OF sh idle_ships [OF idle] f1(1,2)])
  show ships: "ships {#} s s'"
  proof (cases "b \<or> q_list (rl_queue ?rl c) = []")
    case True
    then have "s' = s1" using o rl s1(1) f1(3) by (auto simp: dequeue_own_def Let_def split: if_splits)
    then show ?thesis using idle_ships [OF idle] by simp
  next
    case False
    then obtain q s2 where "dequeue_loop K c (rl_txc ?rl) (rl_rlcb ?rl) (q_list (rl_queue ?rl c)) (rl_queue ?rl c) 0 s1 =
        Some (q, tot, tmo, s2)" "put_queue p c q s2 = Some s'"
      using o rl s1(1) f1(3) by (auto simp: dequeue_own_def Let_def split: Option.bind_splits)
    then have "ships {#} s1 s'" by (rule own_loop_ships [OF sh1 f1(3)])
    then show ?thesis by (rule idle_then_ships [OF idle])
  qed
  have "rl_frame s s' \<and> queues_inv s'"
    using dequeue_own_spec [OF rl i(5,6,4,7), of c] o by (auto simp: dequeued_def)
  then show "rl_frame s s'" "shipping K s'" using shipping_next [OF sh ships] by simp_all
qed

lemma activate_idle: "rl_activate p c d s = Some s' \<Longrightarrow> idle s s'"
  by (auto simp: rl_activate_def Let_def intro!: idle_same split: Option.bind_splits)

lemma dequeue_ships:
  "iso_rl_dequeue n K p c s = Some (tot, s') \<Longrightarrow> shipping K s \<Longrightarrow> ships {#} s s'"
proof (induction n arbitrary: p s tot s')
  case (Suc n)
  obtain rl blocked tot1 tmo s1 s2 where r: "rls s p = Some rl" "dequeue_own K p c s = Some (blocked, tot1, tmo, s1)"
    "(if blocked then Some s1
      else (case rl_txc rl of None \<Rightarrow> Some s1
            | Some t \<Rightarrow> do { (_, s) \<leftarrow> iso_rl_dequeue n K (TxcRl t) c s1; Some s })) = Some s2"
    "(if tmo \<and> \<not> iso_exiting s2 then rl_activate p c (rl_rlcb rl) s2 else Some s2) = Some s'"
    using Suc.prems(1) by (auto split: Option.bind_splits)
  note o = dequeue_own_ships [OF Suc.prems(2) r(2)]
  have "ships {#} s1 s2"
    using r(3) Suc.IH [OF _ o(2)] idle_ships [of s1 s1] by (auto split: if_splits option.splits Option.bind_splits)
  from ships_trans [OF o(1) this] have "ships {#} s s2" by simp
  then show ?case by (rule ships_idle) (use r(4) activate_idle in \<open>auto split: if_splits\<close>)
qed simp

section \<open>Timer and tasklet\<close>

lemma clock_idle:
  assumes "rls s p = Some rl" "iso_rl_clock rl s = (rl', s1)"
  shows "idle s (s1\<lparr>rls := (rls s1)(p \<mapsto> rl')\<rparr>)"
proof -
  obtain n where "s1 = s\<lparr>ticks := n\<rparr>" using iso_rl_clock_snd [of rl s] assms(2) by auto
  moreover have "rl_queue rl' = rl_queue rl" using iso_rl_clock_fst(1) [of rl s] by (simp add: assms(2))
  ultimately show ?thesis by (intro idle_put [where p = p and rl' = rl']) (simp_all add: parked_live [OF assms(1)])
qed

lemma dequeue_shipping:
  assumes "shipping K s" "iso_rl_dequeue 2 K p c s = Some (n, s')"
  shows "shipping K s'"
proof -
  obtain rl where rl: "rls s p = Some rl" using assms(2) by (auto simp: numeral_2_eq_2 split: Option.bind_splits)
  have "rl_frame s s' \<and> queues_inv s'"
    using dequeue_spec [OF rl shippingD(1,4) [OF assms(1)], of 0 c] assms(2)
    unfolding numeral_2_eq_2 [symmetric] by (auto simp: dequeued_def)
  then show ?thesis using shipping_next [OF assms(1) dequeue_ships [OF assms(2,1)]] by blast
qed

lemma tasklet_round_ships:
  assumes sh: "shipping K s" and cbs: "rlcbs s d = Some cbs"
    and r: "rls s p = Some rl" "iso_rl_clock rl (put_cb d c cbs cb s) = (rl', s1)"
      "iso_rl_dequeue 2 K p c' (s1\<lparr>rls := (rls s1)(p \<mapsto> rl')\<rparr>) = Some (n, s2)"
  shows "ships {#} s s2" "shipping K s2"
proof -
  let ?s0 = "put_cb d c cbs cb s" and ?s1 = "s1\<lparr>rls := (rls s1)(p \<mapsto> rl')\<rparr>"
  have rl0: "rls ?s0 p = Some rl" using r(1) by simp
  have f0: "rl_frame s ?s0" by (rule rl_frame_cb) (simp add: cbs)
  have q0: "queues_inv ?s0" using queues_inv_same [OF f0] shippingD(5) [OF sh] by simp
  note c = clock_step [OF rl0 r(2) q0]
  have "idle s ?s0" by (rule idle_same) simp_all
  also have "idle ?s0 ?s1" by (rule clock_idle [OF rl0 r(2)])
  finally have i1: "idle s ?s1" .
  have sh1: "shipping K ?s1" by (rule shipping_next [OF sh idle_ships [OF i1] rl_frame_trans [OF f0 c(1)] c(2)])
  show "shipping K s2" by (rule dequeue_shipping [OF sh1 r(3)])
  show "ships {#} s s2" by (rule idle_then_ships [OF i1 dequeue_ships [OF r(3) sh1]])
qed

lemma tasklet_loop_ships:
  "tasklet_loop K d c first cnt sent s = Some s' \<Longrightarrow> shipping K s \<Longrightarrow> ships {#} s s'"
proof (induction "budget - cnt" arbitrary: cnt sent s rule: less_induct)
  case less
  obtain cbs where cbs: "rlcbs s d = Some cbs"
    using less.prems(1) by (subst (asm) tasklet_loop.simps) (auto split: Option.bind_splits)
  let ?act = "cb_active (cbs c)"
  show ?case
  proof (cases "?act = [] \<or> (tl ?act \<noteq> [] \<and> hd (tl ?act) = first) \<or>
     budget < Suc cnt \<or> of_int (s32 (2 * ISO_MIN_BURST_BYTES (tun s))) < sent")
    case True
    then show ?thesis using tasklet_loop_stop [OF cbs True, of K] less.prems(1) idle_ships [of s s] by auto
  next
    case False
    then obtain p c' qs where act: "?act = (p, c') # qs" by (cases ?act) auto
    obtain rl rl' s1 n s2 where r: "rls s p = Some rl"
      "iso_rl_clock rl (put_cb d c cbs ((cbs c)\<lparr>cb_active := qs\<rparr>) s) = (rl', s1)"
      "iso_rl_dequeue 2 K p c' (s1\<lparr>rls := (rls s1)(p \<mapsto> rl')\<rparr>) = Some (n, s2)"
      "(if qs = [] then Some s2 else tasklet_loop K d c first (cnt + 2) (sent + n) s2) = Some s'"
      using less.prems(1) False act cbs
      by (subst (asm) tasklet_loop.simps) (auto simp: Let_def split: Option.bind_splits prod.splits)
    note rs = tasklet_round_ships [OF less.prems(2) cbs r(1-3)]
    have "ships {#} s2 s'"
    proof (cases "qs = []")
      case qs: False
      have "budget - (cnt + 2) < budget - cnt" using False by auto
      then show ?thesis by (rule less.hyps) (use qs r(4) rs(2) in simp_all)
    qed (use r(4) idle_ships [of s2 s2] in simp)
    with ships_trans [OF rs(1) this] show ?thesis by simp
  qed
qed

lemma serve_ships:
  assumes "tasklet_serve K d c s = Some s'" "shipping K s"
  shows "ships {#} s s'"
proof -
  obtain cbs s1 cbs1 where r: "rlcbs s d = Some cbs"
    "(case cb_active (cbs c) of [] \<Rightarrow> Some s | first # _ \<Rightarrow> tasklet_loop K d c first 0 0 s) = Some s1"
    "rlcbs s1 d = Some cbs1"
    "s' = (if cb_active (cbs1 c) \<noteq> [] \<and> \<not> iso_exiting s1 then put_cb d c cbs1 ((cbs1 c)\<lparr>cb_timer := True\<rparr>) s1 else s1)"
    using assms(1) by (auto simp: tasklet_serve_def split: Option.bind_splits if_splits)
  have "ships {#} s s1" using r(2) tasklet_loop_ships [OF _ assms(2)] idle_ships [of s s] by (auto split: list.splits)
  then show ?thesis by (rule ships_idle) (auto simp: r(4) intro!: idle_same)
qed

lemma tasklet_ships:
  assumes t: "iso_rl_xmit_tasklet K d c s = Some s'" and sh: "shipping K s"
  shows "ships {#} s s'"
proof -
  obtain cbs where cbs: "rlcbs s d = Some cbs" using t by (auto simp: iso_rl_xmit_tasklet_def split: Option.bind_splits)
  show ?thesis
  proof (cases "iso_exiting s")
    case True
    then show ?thesis using t cbs by (auto simp: iso_rl_xmit_tasklet_def Let_def intro!: idle_ships idle_same)
  next
    case False
    let ?s = "s\<lparr>ticks := Suc (ticks s)\<rparr>"
    obtain cb where r: "tasklet_serve K d c (put_cb d c cbs cb ?s) = Some s'"
      using t cbs False by (auto simp: iso_rl_xmit_tasklet_def Let_def ktime_get_def)
    have i: "idle s (put_cb d c cbs cb ?s)" by (rule idle_same) simp_all
    have f: "rl_frame s (put_cb d c cbs cb ?s)"
      by (rule rl_frame_trans [OF rl_frame_logs(3)], rule rl_frame_cb) (simp add: cbs)
    have "queues_inv (put_cb d c cbs cb ?s)" using queues_inv_same [OF f] shippingD(5) [OF sh] by simp
    from shipping_next [OF sh idle_ships [OF i] f this] have "ships {#} (put_cb d c cbs cb ?s) s'" by (rule serve_ships [OF r])
    then show ?thesis by (rule idle_then_ships [OF i])
  qed
qed

end
