(* ===== verification/Conservation.thy ===== *)
theory Conservation
  imports Inventory
begin

text \<open>
  Conservation of packets over the events of a device in service. The operations on the control path
  (the periodic update of the rates, the configuration, the refill of a pool) leave every packet where
  it is; \<open>iso_enqueue\<close> takes in its packet; reception adds the feedback packets it generates and frees
  those it consumes. Together: along every run, what was there and what was offered is on the wire,
  freed or queued, each packet once.
\<close>

section \<open>The control path moves no packet\<close>

lemma idle_put_live:
  assumes "rls s p = Some rl" "rls s' = (rls s)(p \<mapsto> rl')" "rl_queue rl' = rl_queue rl"
    "tun s' = tun s" "txctx_xmit s' = txctx_xmit s" "wire s' = wire s" "freed_skbs s' = freed_skbs s"
  shows "idle s s'"
  by (rule idle_put [OF assms(4-7,2)]) (simp add: parked_live [OF assms(1)] assms(3))

lemma idle_put_fresh:
  assumes "rls s p = None" "rls s' = (rls s)(p \<mapsto> rl')" "rl_queue rl' = (\<lambda>_. queue_init)"
    "tun s' = tun s" "txctx_xmit s' = txctx_xmit s" "wire s' = wire s" "freed_skbs s' = freed_skbs s"
  shows "idle s s'"
  by (rule idle_put [OF assms(4-7,2)]) (simp add: parked_dead [OF assms(1)] assms(3) queue_init_def)

lemma idle_foldM:
  assumes "\<And>x s s'. f x s = Some s' \<Longrightarrow> idle s s'" "foldM f xs s = Some s'"
  shows "idle s s'"
  by (rule foldM_inv [where I = "idle s" and f = f and xs = xs and s = s])
    (use assms in \<open>auto intro: idle_trans\<close>)

lemma recompute_class_idle: "recompute_class w t s = Some s' \<Longrightarrow> idle s s'"
  by (auto simp: recompute_class_def Let_def intro!: idle_put_live [where p = "TxcRl t"] split: Option.bind_splits)

lemma recompute_idle: "iso_txc_recompute_rates d s = Some s' \<Longrightarrow> idle s s'"
  by (auto simp: iso_txc_recompute_rates_def intro!: idle_foldM [OF recompute_class_idle]
      split: Option.bind_splits if_splits)

lemma tick_class_idle: "tick_class dt r t s = Some s' \<Longrightarrow> idle s s'"
  by (auto simp: tick_class_def Let_def iso_rl_accum_def intro!: idle_put_live [where p = "TxcRl t"]
      split: Option.bind_splits)

lemma tick_fold_idle: "foldM (tick_class dt r) ts t = Some u \<Longrightarrow> idle s t \<Longrightarrow> idle s u"
  by (rule idle_trans, assumption, rule idle_foldM [where f = "tick_class dt r"], erule tick_class_idle, assumption)

lemma recompute_after: "iso_txc_recompute_rates d t = Some u \<Longrightarrow> idle s t \<Longrightarrow> idle s u"
  using recompute_idle idle_trans by blast

lemma tick_idle: "iso_txc_tick d s = Some s' \<Longrightarrow> idle s s'"
  by (auto simp: iso_txc_tick_def ktime_get_def spin_trylock_def Let_def iso_txctx_accum_def intro: idle_same
      elim!: tick_fold_idle split: Option.bind_splits if_splits)

lemma set_txc_weight_idle: "set_txc_weight K d k w s = Some (r, s') \<Longrightarrow> idle s s'"
  by (auto simp: set_txc_weight_def Let_def elim!: recompute_after intro: idle_same
      split: Option.bind_splits option.splits if_splits)

lemma set_txc_rate_idle: "set_txc_rate K d k w s = Some (r, s') \<Longrightarrow> idle s s'"
  by (auto simp: set_txc_rate_def Let_def elim!: recompute_after intro: idle_same
      split: Option.bind_splits option.splits if_splits)

lemma prealloc_idle:
  "unused s \<Longrightarrow> t < fresh s \<Longrightarrow> iso_txc_prealloc t n s = Some s' \<Longrightarrow> idle s s'"
proof (induction n arbitrary: s)
  case (Suc n)
  note u = Suc.prems(1)
  show ?case
  proof (cases "allocs s (nallocs s) \<and> allocs s (Suc (nallocs s)) \<and> allocs s (Suc (Suc (nallocs s)))")
    case False
    then show ?thesis
      using Suc.prems(3) by (auto simp: kmalloc_def alloc_percpu_def Let_def split: if_splits intro!: idle_same)
  next
    case True
    let ?a = "s\<lparr>nallocs := Suc (Suc (Suc (nallocs s))), fresh := Suc (Suc (fresh s))\<rparr>"
    let ?b = "?a\<lparr>ticks := Suc (Suc (Suc (ticks s)))\<rparr>"
    obtain st where st: "iso_state_init state_raw ?a = (st, ?b)" using state_init_cases [of state_raw ?a] by auto
    obtain txc rl s1 where txc: "txcs s t = Some txc" and rl: "iso_rl_init (txc_txctx txc) ?b = Some (rl, s1)"
      using Suc.prems(3) True st by (auto simp: kmalloc_def alloc_percpu_def Let_def split: Option.bind_splits)
    note r = rl_init_cases [OF rl]
    let ?u = "put_txc t (txc\<lparr>freelist_count := s32 (freelist_count txc + 1),
        prealloc_state_list := prealloc_state_list txc @ [fresh s],
        prealloc_rl_list := prealloc_rl_list txc @ [DestRl (Suc (fresh s))]\<rparr>)
      (put_rl (DestRl (Suc (fresh s))) (rl\<lparr>rl_txc := Some t\<rparr>) (put_state (fresh s) st s1))"
    have n: "iso_txc_prealloc t n ?u = Some s'"
      using Suc.prems(3) True st txc rl r by (auto simp: kmalloc_def alloc_percpu_def Let_def split: Option.bind_splits)
    have "idle s ?u"
      by (rule idle_put_fresh [OF unusedD(2) [OF u, of "Suc (fresh s)"], where rl' = "rl\<lparr>rl_txc := Some t\<rparr>"])
        (use r in simp_all)
    moreover have "unused ?u" using u r Suc.prems(2) by (simp add: unused_def)
    then have "idle ?u s'" by (rule Suc.IH) (use n r Suc.prems(2) in simp_all)
    ultimately show ?thesis by (rule idle_trans)
  qed
qed simp

lemma allocator_idle:
  assumes "iso_txc_allocator t s = Some s'" "unused s" "t < fresh s"
  shows "idle s s'"
proof -
  obtain txc where txc: "iso_txc_prealloc t 32 (put_txc t (txc\<lparr>allocator_pending := False\<rparr>) s) = Some s'"
    using assms(1) by (auto simp: iso_txc_allocator_def split: Option.bind_splits)
  let ?s = "put_txc t (txc\<lparr>allocator_pending := False\<rparr>) s"
  have "idle ?s s'" by (rule prealloc_idle [OF _ _ txc]) (use assms(2,3) in \<open>simp_all add: unused_put\<close>)
  then show ?thesis by (rule idle_trans [OF idle_same, rotated -1]) simp_all
qed

lemma txc_install_idle:
  assumes i: "txc_install_class K k d s = Some (r, s')" and u: "unused s"
  shows "idle s s'"
proof (cases "allocs s (nallocs s) \<and> iso_txc_find K k d s = Some None")
  case False
  then show ?thesis using i
    by (auto simp: txc_install_class_def iso_txc_alloc_def kmalloc_def intro!: idle_same split: Option.bind_splits if_splits)
next
  case True
  let ?t = "fresh s" and ?s1 = "s\<lparr>nallocs := Suc (nallocs s), fresh := Suc (fresh s)\<rparr>"
  obtain rl s2 s3 ctx where r: "iso_rl_init d ?s1 = Some (rl, s2)"
    "iso_txc_prealloc ?t 32 (put_rl (TxcRl ?t) rl (put_txc ?t (txc_new (tun s2) d k) s2)) = Some s3"
    "iso_txc_recompute_rates d (put_txctx d ctx s3) = Some s'"
    using i True by (auto simp: txc_install_class_def iso_txc_alloc_def iso_txc_init_def kmalloc_def Let_def
        split: Option.bind_splits)
  note rl = rl_init_cases [OF r(1)]
  let ?u = "put_rl (TxcRl ?t) rl (put_txc ?t (txc_new (tun s2) d k) s2)"
  have "idle s ?u" by (rule idle_put_fresh [OF unusedD(1) [OF u, of ?t], where rl' = rl]) (use rl in simp_all)
  also have "idle ?u s3" by (rule prealloc_idle [OF _ _ r(2)]) (use u rl in \<open>simp_all add: unused_def\<close>)
  also have "idle s3 (put_txctx d ctx s3)" by (rule idle_same) simp_all
  also have "idle (put_txctx d ctx s3) s'" by (rule recompute_idle [OF r(3)])
  finally show ?thesis .
qed

lemma set_share_idle: "set_share w v s = Some s' \<Longrightarrow> idle s s'"
  by (auto simp: set_share_def intro!: idle_same split: Option.bind_splits if_splits)

lemma calculate_idle: "iso_vq_calculate_rates d s = Some s' \<Longrightarrow> idle s s'"
  by (auto simp: iso_vq_calculate_rates_def intro!: idle_foldM [OF set_share_idle] split: Option.bind_splits if_splits)

lemma calculate_after: "iso_vq_calculate_rates d t = Some u \<Longrightarrow> idle s t \<Longrightarrow> idle s u"
  using calculate_idle idle_trans by blast

lemma vq_install_idle: "vq_install_class K k d s = Some (r, s') \<Longrightarrow> idle s s'"
  by (auto simp: vq_install_class_def iso_vq_alloc_def iso_vq_init_def kmalloc_def alloc_percpu_def ktime_get_def Let_def
      elim!: calculate_after intro: idle_same split: Option.bind_splits if_splits)

lemma set_vq_weight_idle: "set_vq_weight K d k w s = Some (r, s') \<Longrightarrow> idle s s'"
  by (auto simp: set_vq_weight_def elim!: calculate_after intro: idle_same
      split: Option.bind_splits option.splits if_splits)

lemma set_vq_rate_idle: "set_vq_rate K d k w s = Some (r, s') \<Longrightarrow> idle s s'"
  by (auto simp: set_vq_rate_def elim!: calculate_after intro: idle_same
      split: Option.bind_splits option.splits if_splits)

lemma timeout_idle: "iso_rl_timeout d c s = Some s' \<Longrightarrow> idle s s'"
  by (auto simp: iso_rl_timeout_def intro!: idle_same split: Option.bind_splits)

section \<open>Packets from above\<close>

lemma system_shipping: "dp_system K d s \<Longrightarrow> calm s \<Longrightarrow> drivers s \<Longrightarrow> shipping K s"
  using dp_systemD(6,7) [of K d s] by (simp add: shipping_def sched_inv_def)

lemma send_ships:
  assumes sh: "shipping K s" and pkt: "skb_ok s pkt" "skb_size pkt \<le> ISO_GSO_MIN_SPLIT_BYTES (tun s)"
    and e: "iso_rl_enqueue K p pkt c s = Some (v, s1)" "iso_rl_dequeue 2 K p c s1 = Some (n, s2)"
  shows "v = ISO_VERDICT_SUCCESS \<and> ships {#unmark pkt#} s s2 \<or> v = ISO_VERDICT_DROP \<and> ships {#} s s2"
proof -
  note i = shippingD [OF sh]
  obtain rl where rl: "rls s p = Some rl" using e(1) by (auto simp: iso_rl_enqueue_def split: Option.bind_splits)
  have wf: "wf_skb pkt" using pkt(1) by (simp add: skb_ok_def)
  obtain X where X: "ships X s s1" "v = ISO_VERDICT_SUCCESS \<and> X = {#unmark pkt#} \<or> v = ISO_VERDICT_DROP \<and> X = {#}"
    using enqueue_ships [OF e(1) rl i(5,7) wf pkt(2)] idle_ships by (auto split: if_splits)
  obtain q' where q': "rl_frame s s1" "queue_inv s q'"
    "rls s1 = (rls s)(p \<mapsto> (fst (iso_rl_clock rl s))\<lparr>rl_queue := (rl_queue rl)(c := q')\<rparr>)"
    using iso_rl_enqueue_spec [OF rl i(5) pkt(1) i(4,7), of c] e(1) by (metis option.inject prod.inject)
  have "queues_inv s1" using queues_inv_put [OF i(5) q'(1,3)] q'(2) queues_invD [OF i(5) rl] by simp
  then have "ships {#} s1 s2" using dequeue_ships [OF e(2)] shipping_next [OF sh X(1) q'(1)] by blast
  then show ?thesis using ships_trans [OF X(1)] X(2) by fastforce
qed

lemma iso_tx_ships:
  assumes sys: "dp_system K d s" "calm s" "drivers s"
    and skb: "skb_ok s skb" "skb_size skb \<le> ISO_GSO_MIN_SPLIT_BYTES (tun s)" and tx: "iso_tx K skb d s = Some (v, s')"
  shows "v = ISO_VERDICT_SUCCESS \<and> ships {#unmark skb#} s s' \<or> v \<in> {ISO_VERDICT_DROP, ISO_VERDICT_PASS} \<and> ships {#} s s'"
proof -
  note i = dp_systemD [OF sys(1)]
  have tab: "tx_ok d s" using i(1) by (simp add: dp_ok_def tx_table_def)
  obtain s1 where s1: "iso_txc_tick d s = Some s1" "tx_step d s s1" using tick_step [OF tab i(2,3)] by blast
  note idle = tick_idle [OF s1(1)]
  have "heap_inv s1" using s1(2) i(7) by (auto simp: tx_step_def sched_inv_def)
  then have sh1: "shipping K s1" using idle_ships [OF idle] sys(2,3) i(6) by (auto simp: shipping_def calm_ships drivers_ships)
  have skb1: "skb_ok s1 (iso_enable_ecn K skb)" "skb_size (iso_enable_ecn K skb) \<le> ISO_GSO_MIN_SPLIT_BYTES (tun s1)"
    using skb idle by (simp_all add: skb_ok_def idle_def iso_enable_ecn_def)
  obtain r where r: "iso_txc_find K (iso_txc_classify skb) d s1 = Some r"
    "\<And>t. r = Some t \<Longrightarrow> \<exists>txc. txcs s1 t = Some txc \<and> txc_ok s1 txc"
    using txc_find_total [OF tx_step_ok [OF s1(2) tab], of K "iso_txc_classify skb"] by blast
  show ?thesis
  proof (cases r)
    case None
    then show ?thesis using tx s1(1) r(1) idle_ships [OF idle] by (simp add: iso_tx_def)
  next
    case (Some t)
    then obtain u where u: "iso_state_get K t skb False False s1 = Some (u, s1)"
      using state_find_total r(2) by metis
    show ?thesis
    proof (cases u)
      case None
      then show ?thesis using Some tx s1(1) r(1) u idle_ships [OF idle] by (simp add: iso_tx_def)
    next
      case p: (Some p)
      then obtain q s2 n where "iso_rl_enqueue K q (iso_enable_ecn K skb) (this_cpu s1) s1 = Some (v, s2)"
        "iso_rl_dequeue 2 K q (this_cpu s1) s2 = Some (n, s')"
        using Some tx s1(1) r(1) u by (auto simp: iso_tx_def Let_def split: Option.bind_splits)
      from send_ships [OF sh1 skb1 this] show ?thesis using idle_then_ships [OF idle] by auto
    qed
  qed
qed

lemma kfree_ships: "ships {#unmark skb#} s (kfree_skb skb s)"
  by (rule ships_move [where x = undefined and A = "parked s undefined" and B = "{#unmark skb#}"])
    (auto simp: kfree_skb_def left_def parked_same [of "s\<lparr>freed_skbs := f\<rparr>" s for f] dest: calmD)

lemma iso_enqueue_ships:
  assumes sys: "dp_system K d s" "calm s" "drivers s"
    and skb: "skb_ok s skb" "skb_size skb \<le> ISO_GSO_MIN_SPLIT_BYTES (tun s)" and e: "iso_enqueue K skb d s = Some (r, s')"
  shows "ships {#unmark skb#} s s'"
proof -
  obtain v s1 where s1: "(if IsoGlobalEnabled (tun s) = 0 then Some (ISO_VERDICT_PASS, s) else iso_tx K skb d s) = Some (v, s1)"
    using e by (auto simp: iso_enqueue_def split: Option.bind_splits)
  then have v: "v = ISO_VERDICT_SUCCESS \<and> ships {#unmark skb#} s s1 \<or> v \<in> {ISO_VERDICT_DROP, ISO_VERDICT_PASS} \<and> ships {#} s s1"
    using iso_tx_ships [OF sys skb] idle_ships [of s s] by (auto split: if_splits)
  consider "v = ISO_VERDICT_SUCCESS" "ships {#unmark skb#} s s1" | "v = ISO_VERDICT_DROP" "ships {#} s s1"
    | "v = ISO_VERDICT_PASS" "ships {#} s s1" using v by blast
  then show ?thesis
  proof cases
    case 1
    then show ?thesis using e s1 by (simp add: iso_enqueue_def)
  next
    case 2
    then show ?thesis using e s1 ships_trans [OF 2(2) kfree_ships [of skb s1]] by (simp add: iso_enqueue_def)
  next
    case 3
    then have "skb_xmit skb s1 = Some s'" using e s1 by (auto simp: iso_enqueue_def split: Option.bind_splits)
    then show ?thesis using xmit_ships(1) ships_trans [OF 3(2)] drivers_ships [OF 3(2)] sys(3) by fastforce
  qed
qed

section \<open>Packets from the wire\<close>

lemma pick_rl_idle: "iso_pick_rl K t ip s = Some (r, s') \<Longrightarrow> idle s s'"
  by (auto simp: iso_pick_rl_def Let_def intro!: idle_put_live split: Option.bind_splits option.splits list.splits)

lemma pick_after: "iso_pick_rl K t ip s1 = Some (r, s2) \<Longrightarrow> idle s s1 \<Longrightarrow> idle s s2"
  using pick_rl_idle idle_trans by blast

lemma idle_after:
  "idle s s1 \<Longrightarrow> tun s2 = tun s1 \<Longrightarrow> txctx_xmit s2 = txctx_xmit s1 \<Longrightarrow> rls s2 = rls s1 \<Longrightarrow> wire s2 = wire s1 \<Longrightarrow>
     freed_skbs s2 = freed_skbs s1 \<Longrightarrow> idle s s2"
  using idle_same [of s2 s1] idle_trans by blast

lemma state_create_idle:
  assumes "state_create K t ip s = Some (p, s')"
  shows "idle s s'"
proof -
  obtain txc where txc: "txcs s t = Some txc" using assms by (auto simp: state_create_def split: Option.bind_splits)
  show ?thesis
  proof (cases "prealloc_state_list txc")
    case Nil
    then show ?thesis using assms txc by (simp add: state_create_def)
  next
    case (Cons i rest)
    then obtain st q s1 where s1: "iso_pick_rl K t ip (put_state i (st\<lparr>ip_key := ip\<rparr>) s) = Some (q, s1)"
      "tun s' = tun s1" "txctx_xmit s' = txctx_xmit s1" "rls s' = rls s1" "wire s' = wire s1" "freed_skbs s' = freed_skbs s1"
      using assms txc by (auto simp: state_create_def Let_def iso_rc_init_def ktime_get_def
          split: Option.bind_splits if_splits)
    have "idle s (put_state i (st\<lparr>ip_key := ip\<rparr>) s)" by (rule idle_same) simp_all
    from pick_after [OF s1(1) this] show ?thesis using s1(2-6) by (rule idle_after)
  qed
qed

lemma create_after: "state_create K t ip s1 = Some (p, s2) \<Longrightarrow> idle s s1 \<Longrightarrow> idle s s2"
  using state_create_idle idle_trans by blast

lemma state_get_idle:
  assumes "iso_state_get K t skb rx cr s = Some (p, s')"
  shows "idle s s'"
proof (cases "rls s' = rls s \<and> wire s' = wire s \<and> freed_skbs s' = freed_skbs s \<and> tun s' = tun s \<and> txctx_xmit s' = txctx_xmit s")
  case False
  let ?s = "s\<lparr>nlocks := Suc (nlocks s)\<rparr>"
  obtain q s1 where s1: "state_create K t (dest_ip skb rx) ?s = Some (q, s1)"
    "tun s' = tun s1" "txctx_xmit s' = txctx_xmit s1" "rls s' = rls s1" "wire s' = wire s1" "freed_skbs s' = freed_skbs s1"
    using assms False by (auto simp: iso_state_get_def Let_def spin_trylock_def split: Option.bind_splits if_splits option.splits)
  have "idle s ?s" by (rule idle_same) simp_all
  from create_after [OF s1(1) this] show ?thesis using s1(2-6) by (rule idle_after)
qed (auto intro: idle_same)

lemma apply_feedback_idle:
  assumes "rx_apply_feedback p skb s = Some s'"
  shows "idle s s'"
proof (cases "rls s' = rls s")
  case True
  then show ?thesis using assms
    by (intro idle_same) (auto simp: rx_apply_feedback_def Let_def ktime_get_def spin_trylock_def
        split: Option.bind_splits if_splits st_ptr.splits)
next
  case False
  then obtain q rl x y where r: "rls s q = Some rl" "rls s' = (rls s)(q \<mapsto> rl\<lparr>rl_rate := x, last_rate_update_time := y\<rparr>)"
    "tun s' = tun s" "txctx_xmit s' = txctx_xmit s" "wire s' = wire s" "freed_skbs s' = freed_skbs s"
    using assms by (auto simp: rx_apply_feedback_def Let_def ktime_get_def spin_trylock_def
        split: Option.bind_splits if_splits st_ptr.splits)
  show ?thesis by (rule idle_put_live [OF r(1,2)]) (use r(3-6) in simp_all)
qed

lemma stats_update_idle: "iso_rx_stats_update d skb s = Some s' \<Longrightarrow> idle s s'"
  by (auto simp: iso_rx_stats_update_def Let_def ktime_get_def spin_trylock_def intro!: idle_same
      split: Option.bind_splits if_splits)

lemma rcp_update_idle: "iso_rx_rcp_update d s = Some s' \<Longrightarrow> idle s s'"
  by (auto simp: iso_rx_rcp_update_def Let_def ktime_get_def spin_trylock_def intro!: idle_same
      split: Option.bind_splits if_splits)

lemma update_stats_idle: "vq_update_stats v f s = Some s' \<Longrightarrow> idle s s'"
  by (auto simp: vq_update_stats_def Let_def intro!: idle_same split: Option.bind_splits)

lemma vq_poll_idle: "vq_poll v s = Some s' \<Longrightarrow> idle s s'"
  by (auto simp: vq_poll_def iso_vq_drain_def Let_def ktime_get_def spin_trylock_def intro!: idle_same
      split: Option.bind_splits if_splits)

lemma vq_enqueue_idle: "iso_vq_enqueue v pkt s = Some s' \<Longrightarrow> idle s s'"
  by (auto simp: iso_vq_enqueue_def split: Option.bind_splits)
    (blast intro: idle_trans update_stats_idle vq_poll_idle)

text \<open>Reception adds at most packets of the module's own protocol: those it generates and those it frees.\<close>

definition feedback_in :: "'z rl_mem_scheme \<Rightarrow> 'z rl_mem_scheme \<Rightarrow> bool" where
  "feedback_in s s' \<longleftrightarrow> (\<exists>fb. (\<forall>y \<in> set fb. iso_is_generated_feedback (tun s) y) \<and> ships (packets fb) s s')"

lemma idle_feedback: "idle s s' \<Longrightarrow> feedback_in s s'"
  using idle_ships by (auto simp: feedback_in_def intro!: exI [of _ "[]"])

lemma feedback_trans [trans]:
  assumes "feedback_in s t" "feedback_in t u"
  shows "feedback_in s u"
proof -
  obtain xs ys where x: "\<forall>y \<in> set xs. iso_is_generated_feedback (tun s) y" "ships (packets xs) s t"
    and y: "\<forall>y \<in> set ys. iso_is_generated_feedback (tun t) y" "ships (packets ys) t u"
    using assms by (auto simp: feedback_in_def)
  have "tun t = tun s" using x(2) by (simp add: ships_def)
  then show ?thesis using x(1) y(1) ships_trans [OF x(2) y(2)] unfolding feedback_in_def by (intro exI [of _ "xs @ ys"]) auto
qed

definition proto_ok :: "tunables \<Rightarrow> bool" where
  "proto_ok P \<longleftrightarrow> 0 \<le> ISO_FEEDBACK_PACKET_IPPROTO P \<and> ISO_FEEDBACK_PACKET_IPPROTO P < 256"

lemma feedback_packet_generated:
  "proto_ok P \<Longrightarrow> is_ip pkt \<Longrightarrow> iso_is_generated_feedback P (feedback_packet P fb pkt)"
  by (simp add: iso_is_generated_feedback_def) (simp add: feedback_packet_def proto_ok_def uint_of_int)

lemma generate_feedback_in:
  assumes "iso_generate_feedback fb pkt s = Some (r, s')" "drivers s" "proto_ok (tun s)"
  shows "feedback_in s s'"
proof (cases "is_ip pkt \<and> allocs s (nallocs s)")
  case True
  let ?s = "s\<lparr>nallocs := Suc (nallocs s)\<rparr>" and ?y = "feedback_packet (tun s) fb pkt"
  have x: "skb_xmit ?y ?s = Some s'"
    using assms(1) True by (auto simp: iso_generate_feedback_def netdev_alloc_skb_def split: Option.bind_splits)
  have "idle s ?s" by (rule idle_same) simp_all
  from idle_then_ships [OF this xmit_ships(1) [OF x]] have "ships (packets [?y]) s s'"
    using assms(2) by (simp add: drivers_def)
  then show ?thesis
    using feedback_packet_generated [OF assms(3)] True unfolding feedback_in_def by (intro exI [of _ "[?y]"]) simp
next
  case False
  then show ?thesis using assms(1)
    by (auto simp: iso_generate_feedback_def netdev_alloc_skb_def intro!: idle_feedback idle_same split: if_splits)
qed

lemma send_feedback_in:
  assumes "rx_send_feedback v skb s = Some s'" "drivers s" "proto_ok (tun s)"
  shows "feedback_in s s'"
proof -
  let ?s = "s\<lparr>ticks := Suc (Suc (ticks s))\<rparr>"
  obtain f s1 where s1: "vq_update_stats v f ?s = Some s1"
    and r: "s1 = s' \<or> (\<exists>vq r s2 g. iso_generate_feedback (iso_vq_over_limits vq) skb s1 = Some (r, s2) \<and> vq_update_stats v g s2 = Some s')"
    using assms(1) by (fastforce simp: rx_send_feedback_def ktime_get_def Let_def split: Option.bind_splits if_splits)
  have "idle s ?s" by (rule idle_same) simp_all
  then have i: "idle s s1" using update_stats_idle [OF s1] by (rule idle_trans)
  then have "drivers s1" "proto_ok (tun s1)" using assms(2,3) by (simp_all add: idle_def drivers_def)
  then have "feedback_in s1 s'"
    using r generate_feedback_in idle_feedback [OF update_stats_idle] feedback_trans idle_feedback [OF idle_refl] by metis
  then show ?thesis using feedback_trans [OF idle_feedback [OF i]] by blast
qed

lemma idle_env: "idle s s' \<Longrightarrow> drivers s \<Longrightarrow> proto_ok (tun s) \<Longrightarrow> drivers s' \<and> proto_ok (tun s')"
  by (simp add: idle_def drivers_def)

lemma rx_classified_in:
  assumes r: "rx_classified K t v skb s = Some (vd, skb', s')" and env: "drivers s" "proto_ok (tun s)"
  shows "feedback_in s s'" "vd = ISO_VERDICT_DROP \<Longrightarrow> iso_is_generated_feedback (tun s) skb'"
proof -
  obtain p s1 s2 where p: "iso_state_get K t skb True (iso_is_feedback_marked (tun s) skb \<noteq> 0) s = Some (p, s1)"
    and s2: "(case p of None \<Rightarrow> Some (ISO_VERDICT_SUCCESS, skb, s1)
       | Some p \<Rightarrow> do {
           s \<leftarrow> rx_apply_feedback p skb s1;
           Some (if iso_is_generated_feedback (tun s) skb then ISO_VERDICT_DROP else ISO_VERDICT_SUCCESS,
                 iso_clear_ecn K skb, s) }) = Some (vd, skb', s2)"
    and s3: "(if IsoAutoGenerateFeedback (tun s2) \<noteq> 0 \<and> vd \<noteq> ISO_VERDICT_DROP
           then rx_send_feedback v skb' s2 else Some s2) = Some s'"
    using r by (auto simp: rx_classified_def split: Option.bind_splits)
  have "idle s1 s2" using s2 apply_feedback_idle by (auto split: option.splits Option.bind_splits)
  with state_get_idle [OF p] have i: "idle s s2" by (rule idle_trans)
  have "feedback_in s2 s'"
    using s3 send_feedback_in idle_env [OF i env] idle_feedback [OF idle_refl] by (auto split: if_splits)
  then show "feedback_in s s'" by (rule feedback_trans [OF idle_feedback [OF i]])
  show "iso_is_generated_feedback (tun s) skb'" if drop: "vd = ISO_VERDICT_DROP"
  proof -
    obtain q where q: "p = Some q" using s2 drop by (cases p) auto
    then have "rx_apply_feedback q skb s1 = Some s2" "iso_is_generated_feedback (tun s2) skb" "skb' = iso_clear_ecn K skb"
      using s2 drop by (auto split: Option.bind_splits if_splits)
    then show ?thesis using i by (simp add: idle_def iso_is_generated_feedback_def iso_clear_ecn_def)
  qed
qed

lemma iso_rx_in:
  assumes r: "iso_rx K skb d s = Some (vd, skb', s')" and env: "drivers s" "proto_ok (tun s)"
  shows "feedback_in s s' \<and> (vd = ISO_VERDICT_DROP \<longrightarrow> iso_is_generated_feedback (tun s) skb')"
proof -
  obtain s1 s2 f where s1: "iso_rx_stats_update d skb s = Some s1" "iso_rx_rcp_update d s1 = Some s2"
    "iso_vq_find K (iso_rx_classify skb) d s2 = Some f"
    using r by (auto simp: iso_rx_def Let_def split: Option.bind_splits)
  have i2: "idle s s2" using stats_update_idle [OF s1(1)] rcp_update_idle [OF s1(2)] by (rule idle_trans)
  show ?thesis
  proof (cases f)
    case None
    then show ?thesis using r s1 idle_feedback [OF i2] by (auto simp: iso_rx_def)
  next
    case (Some v)
    then obtain s3 g where s3: "iso_vq_enqueue v skb s2 = Some s3" "iso_txc_find K (iso_rx_classify skb) d s3 = Some g"
      using r s1 by (auto simp: iso_rx_def Let_def split: Option.bind_splits)
    have i3: "idle s s3" by (rule idle_trans [OF i2 vq_enqueue_idle [OF s3(1)]])
    show ?thesis
    proof (cases g)
      case None
      then show ?thesis using Some r s1 s3 idle_feedback [OF i3] by (auto simp: iso_rx_def)
    next
      case t: (Some t)
      then have c: "rx_classified K t v skb s3 = Some (vd, skb', s')" using Some r s1 s3 by (simp add: iso_rx_def Let_def)
      have env3: "drivers s3" "proto_ok (tun s3)" "tun s3 = tun s" using idle_env [OF i3 env] i3 by (simp_all add: idle_def)
      show ?thesis
        using rx_classified_in [OF c env3(1,2)] feedback_trans [OF idle_feedback [OF i3]] env3(3) by simp
    qed
  qed
qed

lemma rx_handler_in:
  assumes "iso_rx_handler K skb s = Some (r, skb', s')" "drivers s" "proto_ok (tun s)"
  shows "feedback_in s s'"
proof (cases "s' = s")
  case False
  then obtain vd s1 where s1: "iso_rx K skb (skb_dev skb) s = Some (vd, skb', s1)"
    "s' = (if vd = ISO_VERDICT_DROP then kfree_skb skb' s1 else s1)"
    using assms(1) by (auto simp: iso_rx_handler_def Let_def split: Option.bind_splits if_splits iso_verdict.splits)
  note i = iso_rx_in [OF s1(1) assms(2,3)]
  then have tun: "tun s1 = tun s" by (auto simp: feedback_in_def ships_def)
  have "feedback_in s1 s'"
    using i kfree_ships [of skb' s1] s1(2) idle_feedback [of s1 s1] unfolding feedback_in_def tun
    by (cases "vd = ISO_VERDICT_DROP") (auto intro!: exI [of _ "[skb']"])
  with i show ?thesis using feedback_trans by blast
qed (simp add: idle_feedback)

section \<open>Runs\<close>

fun offer :: "event \<Rightarrow> sk_buff list" where
  "offer (TxPacket skb c) = [skb]"
| "offer _ = []"

definition offered :: "event list \<Rightarrow> sk_buff list" where
  "offered es = concat (map offer es)"

text \<open>An event takes in what is offered to it and feedback packets, and loses nothing.\<close>

definition takes_in :: "sk_buff list \<Rightarrow> 'z rl_mem_scheme \<Rightarrow> 'z rl_mem_scheme \<Rightarrow> bool" where
  "takes_in xs s s' \<longleftrightarrow>
     (\<exists>fb. (\<forall>y \<in> set fb. iso_is_generated_feedback (tun s) y) \<and> ships (packets (xs @ fb)) s s')"

lemma idle_takes: "idle s s' \<Longrightarrow> takes_in [] s s'"
  using idle_ships by (auto simp: takes_in_def intro!: exI [of _ "[]"])

lemma takes_trans:
  assumes "takes_in xs s t" "takes_in ys t u"
  shows "takes_in (xs @ ys) s u"
proof -
  obtain f g where f: "\<forall>y \<in> set f. iso_is_generated_feedback (tun s) y" "ships (packets (xs @ f)) s t"
    and g: "\<forall>y \<in> set g. iso_is_generated_feedback (tun t) y" "ships (packets (ys @ g)) t u"
    using assms by (auto simp: takes_in_def)
  have "tun t = tun s" using f(2) by (simp add: ships_def)
  then show ?thesis
    using f(1) g(1) ships_trans [OF f(2) g(2)] unfolding takes_in_def
    by (intro exI [of _ "f @ g"]) (auto simp: ac_simps)
qed

lemma refill_live:
  assumes "dp_ok d s" "refill_pending d t s"
  shows "unused s \<and> t < fresh s"
  using assms tx_okD(4) [of d s] by (auto simp: dp_ok_def tx_table_def refill_pending_def split: option.splits)

lemma event_takes:
  assumes sys: "dp_system K d s" "calm s" "drivers s" "proto_ok (tun s)" and e: "event_enabled K d e s" "event_run K d e s = Some s'"
    and small: "\<forall>x \<in> set (offer e). skb_size x \<le> ISO_GSO_MIN_SPLIT_BYTES (tun s)"
  shows "takes_in (offer e) s s'"
proof -
  note i = dp_systemD [OF sys(1)]
  have un: "unused s" using i(1) by (simp add: dp_ok_def tx_table_def)
  have cpu: "idle s (s\<lparr>this_cpu := c\<rparr>)" for c by (rule idle_same) simp_all
  show ?thesis
  proof (cases e)
    case (TxPacket skb c)
    let ?s = "s\<lparr>this_cpu := c\<rparr>"
    have "dp_system K d ?s" using dp_ok_this_cpu [OF i(1)] sys(1) by (simp add: dp_system_def dp_env_def)
    moreover have "calm ?s" "drivers ?s" using calm_ships drivers_ships idle_ships [OF cpu] sys(2,3) by blast+
    moreover obtain r where "iso_enqueue K skb d ?s = Some (r, s')" using e(2) TxPacket by auto
    ultimately have "ships {#unmark skb#} ?s s'"
      using e(1) small TxPacket by (intro iso_enqueue_ships) (auto simp: skb_ok_def)
    from idle_then_ships [OF cpu this] show ?thesis using TxPacket by (auto simp: takes_in_def intro!: exI [of _ "[]"])
  next
    case (RxPacket skb c)
    then obtain r skb' where "iso_rx_handler K skb (s\<lparr>this_cpu := c\<rparr>) = Some (r, skb', s')" using e(2) by auto
    from rx_handler_in [OF this] have "feedback_in s s'"
      using feedback_trans [OF idle_feedback [OF cpu]] idle_env [OF cpu sys(3,4)] by blast
    then show ?thesis using RxPacket by (simp add: takes_in_def feedback_in_def)
  next
    case (TaskletRuns c)
    then have "ships {#} s s'" using e(2) tasklet_ships [OF _ system_shipping [OF sys(1-3)]] by simp
    then show ?thesis using TaskletRuns by (auto simp: takes_in_def intro!: exI [of _ "[]"])
  next
    case (AllocatorRuns t)
    then show ?thesis using e refill_live [OF i(1), of t] by (auto intro!: idle_takes allocator_idle)
  next
    case (InstallTxc k)
    then show ?thesis using e(2) txc_install_idle [OF _ un] by (auto intro!: idle_takes)
  qed (use e(2) in \<open>auto intro!: idle_takes dest: timeout_idle set_txc_weight_idle set_txc_rate_idle vq_install_idle
        set_vq_weight_idle set_vq_rate_idle\<close>)
qed

lemma runs_take:
  assumes "runs K d s es s'" "dp_system K d s" "calm s" "drivers s" "proto_ok (tun s)"
    "\<forall>x \<in> set (offered es). skb_size x \<le> ISO_GSO_MIN_SPLIT_BYTES (tun s)"
  shows "takes_in (offered es) s s'"
  using assms
proof (induction rule: runs.induct)
  case runs_start
  then show ?case by (simp add: offered_def idle_takes)
next
  case (runs_next es s1 e s2)
  have t1: "takes_in (offered es) s s1" using runs_next by (auto simp: offered_def)
  then have "tun s1 = tun s" "calm s1" "drivers s1"
    using runs_next.prems by (auto simp: takes_in_def calm_ships drivers_ships) (auto simp: ships_def)
  moreover have "dp_system K d s1" using runs_system [OF runs_next.hyps(1) runs_next.prems(1)] .
  ultimately have "takes_in (offer e) s1 s2"
    using runs_next.prems by (intro event_takes [OF _ _ _ _ runs_next.hyps(2,3)]) (auto simp: offered_def)
  from takes_trans [OF t1 this] show ?case by (simp add: offered_def)
qed

end
