(* ===== verification/RateProps.thy ===== *)
theory RateProps
  imports Example Conservation
begin

text \<open>
  The properties of the rate limiters, of their scheduling and of the rate controller, with an
  instance of each on the configuration of \<open>Example\<close>.
\<close>

section \<open>Rate limiters\<close>

text \<open>
  C1. The limiter of a transmit class shapes its traffic. Take any sequence of packets, dequeues on
  any CPU, clock updates and rate changes up to \<open>R\<close> Mb/s; the bytes handed to the driver by the last
  part \<open>fs\<close> of it are at most the tokens the limiter and its per-CPU queues held at its start, plus
  \<open>R\<close> times the time that passed on the limiter's clock (8000 is ns per us times bits per byte). No
  admissible event oopses on the way.
\<close>
theorem class_limiter_shapes:
  fixes s :: "'z rl_mem_scheme" and es fs :: "rl_event list"
  assumes "bucket_inv K R p s"
  defines "s1 \<equiv> fold (bucket_step K R p) es s" and "s2 \<equiv> fold (bucket_step K R p) (es @ fs) s"
  shows "8000 * (wire_bytes s2 - wire_bytes s1) \<le>
      8000 * bucket_level p s1 + R * (bucket_stamp p s2 - bucket_stamp p s1) \<and>
    (\<forall>e. event_ok R e s1 \<longrightarrow> (\<exists>s'. rl_event_run K p e s1 = Some s'))"
proof -
  have "bucket_inv K R p s1" unfolding s1_def by (rule class_bucket.run_inv [OF assms(1)])
  then show ?thesis
    unfolding s1_def s2_def using class_bucket.window_bound [OF assms(1)] event_moves by blast
qed

theorem class_limiter_shapes_witness:
  "bucket_inv demo_K 1000 (TxcRl 1) demo \<and>
   (let s2 = fold (bucket_step demo_K 1000 (TxcRl 1)) [Enqueue (demo_pkt tenant peer) 0, Dequeue 0] demo
    in 8000 * (wire_bytes s2 - wire_bytes demo) \<le>
       8000 * bucket_level (TxcRl 1) demo + 1000 * (bucket_stamp (TxcRl 1) s2 - bucket_stamp (TxcRl 1) demo))"
  using demo_bucket_inv class_limiter_shapes [OF demo_bucket_inv, of "[]" "[Enqueue (demo_pkt tenant peer) 0, Dequeue 0]"]
  unfolding Let_def by simp

text \<open>
  C2. Dequeue is FIFO and pays for every byte: the dequeue of a class limiter never oopses, hands a
  prefix of the queue of its CPU to the driver in order (less the packets whose hardware queue is
  stopped), keeps the rest in order, leaves the queues of the other CPUs alone, and the bytes of the
  prefix are covered by the tokens of the queue and the pool it borrowed.
\<close>
theorem dequeue_fifo_paid:
  fixes s :: "'z rl_mem_scheme"
  assumes "heap_inv s" "rls s p = Some rl" "rl_txc rl = None" "gso_documented K"
  shows "\<exists>k n s' rl'. iso_rl_dequeue 1 K p c s = Some (n, s') \<and> rls s' p = Some rl' \<and>
    wire s' = wire s @ filter (driver_takes s) (take k (q_list (rl_queue rl c))) \<and>
    q_list (rl_queue rl' c) = drop k (q_list (rl_queue rl c)) \<and>
    (\<forall>c'. c' \<noteq> c \<longrightarrow> rl_queue rl' c' = rl_queue rl c') \<and>
    (\<Sum>x\<leftarrow>take k (q_list (rl_queue rl c)). skb_size x) \<le>
      uint (q_tokens (rl_queue rl c)) + uint (total_tokens rl)"
proof -
  obtain b k f n s' where d: "iso_rl_dequeue 1 K p c s = Some (n, s')" "dequeued s p c rl b k f s'"
    using dequeue_root_spec [OF assms(2,3,1,4), of 0 c] unfolding One_nat_def by blast
  have "uint (q_tokens (rl_queue rl c) + b) \<le> uint (q_tokens (rl_queue rl c)) + uint (total_tokens rl)"
    using d(2) uint_add_le [of "q_tokens (rl_queue rl c)" b] by (auto simp: dequeued_def)
  then show ?thesis
    using d assms(3)
    by (intro exI [of _ k] exI [of _ n] exI [of _ s'] exI [of _ "rl_sent c b k f rl"])
      (auto simp: dequeued_def)
qed

theorem dequeue_fifo_paid_witness:
  "\<exists>k n s' rl'. iso_rl_dequeue 1 demo_K (TxcRl 1) 0 demo = Some (n, s') \<and> rls s' (TxcRl 1) = Some rl' \<and>
    wire s' = wire demo @ filter (driver_takes demo) (take k (q_list (rl_queue (demo_rl None []) 0)))"
  using dequeue_fifo_paid [OF demo_heap_inv _ _ demo_K_documented(1), of "TxcRl 1" "demo_rl None []" 0]
  by (simp del: iso_rl_dequeue.simps) blast

text \<open>
  C3. The tail drop is exact: while the queue accounts for its packets, a packet that is queued
  whole is accepted exactly when the bytes queued and its own size fit into
  \<open>ISO_MAX_QUEUE_LEN_BYTES\<close>; otherwise it is dropped and the queue is unchanged. The branch of the
  source that trims a packet to the room left is never taken.
\<close>
theorem enqueue_tail_drop:
  assumes "queue_ok q" "wf_skb pkt" "0 < ISO_MAX_QUEUE_LEN_BYTES P" "ISO_MAX_QUEUE_LEN_BYTES P \<le> 2 ^ 30"
  shows "enqueue_whole K P txc q pkt =
     (if queue_len q + skb_size pkt \<le> ISO_MAX_QUEUE_LEN_BYTES P
      then (ISO_VERDICT_SUCCESS, enqueue_tail K P txc q pkt)
      else (ISO_VERDICT_DROP, q))"
  using assms by (rule enqueue_whole_eq)

theorem enqueue_tail_drop_witness:
  "enqueue_whole demo_K default_tunables None queue_init (demo_pkt tenant peer) =
     (ISO_VERDICT_SUCCESS, enqueue_tail demo_K default_tunables None queue_init (demo_pkt tenant peer)) \<and>
   enqueue_whole demo_K (default_tunables\<lparr>ISO_MAX_QUEUE_LEN_BYTES := 1499\<rparr>) None queue_init (demo_pkt tenant peer) =
     (ISO_VERDICT_DROP, queue_init)"
  using enqueue_tail_drop [OF queue_ok_init demo_pkt_wf(1), of default_tunables]
    enqueue_tail_drop [OF queue_ok_init demo_pkt_wf(1), of "default_tunables\<lparr>ISO_MAX_QUEUE_LEN_BYTES := 1499\<rparr>"]
  by (simp add: queue_len_def queue_init_def)

text \<open>
  C4. A refill of the pool never exceeds the burst capacity, and adds at most the bytes that the
  rate allows in the time since the last refill, whatever the 64-bit arithmetic does.
\<close>
theorem refill_bounded:
  assumes "uint (rl_rate rl) \<le> R" "2 \<le> R" "R < 2 ^ 31"
    and "last_update_time rl \<le> now" "now - last_update_time rl < 2 ^ 63"
  shows "uint (total_tokens (rl_refill P now rl)) \<le> uint (rl_cap P (rl_decay P now rl)) \<and>
    8000 * uint (total_tokens (rl_refill P now rl)) \<le>
      8000 * uint (total_tokens rl) + R * (now - last_update_time rl)"
  using rl_refill_credit [OF assms] rl_refill_cap [of P now rl] by simp

theorem refill_bounded_witness:
  "uint (total_tokens (rl_refill default_tunables 1000000 (demo_rl None []))) \<le>
     uint (rl_cap default_tunables (rl_decay default_tunables 1000000 (demo_rl None []))) \<and>
   8000 * uint (total_tokens (rl_refill default_tunables 1000000 (demo_rl None []))) \<le>
     8000 * uint (total_tokens (demo_rl None [])) + 1000 * 1000000"
  using refill_bounded [of "demo_rl None []" 1000 1000000 default_tunables] by simp

section \<open>Scheduling\<close>

lemma timer_invD:
  assumes "timer_inv {} s" "rlcbs s d = Some cbs"
  shows "cb_active (cbs c) = [] \<or> cb_timer (cbs c) \<or> cb_tasklet (cbs c)"
proof -
  have "cb_sched s d c = Some (cb_active (cbs c), cb_timer (cbs c), cb_tasklet (cbs c))"
    using assms(2) by (rule cb_sched_Some)
  with assms(1) show ?thesis unfolding timer_inv_def by blast
qed

text \<open>
  C5. No queue is forgotten. In every state a device in service can reach, by packets in both
  directions, timer expiries, tasklet runs, pool refills and configuration, in any order and on any
  CPUs, a queue with packets is on the active list of its CPU, and that CPU's timer is armed or its
  tasklet is scheduled.
\<close>
theorem no_forgotten_queue:
  fixes s s' :: "'z sys_mem_scheme"
  assumes "dp_system K d s" "runs K d s es s'" "rls s' p = Some rl" "q_list (rl_queue rl c) \<noteq> []"
  shows "\<exists>cbs. rlcbs s' (rl_rlcb rl) = Some cbs \<and> (p, c) \<in> set (cb_active (cbs c)) \<and>
    (cb_timer (cbs c) \<or> cb_tasklet (cbs c))"
proof -
  have inv: "backlog_inv {} s'" "timer_inv {} s'"
    using dp_systemD(7) [OF runs_system [OF assms(2,1)]] by (simp_all add: sched_inv_def)
  have "backlogged s' p c" using assms(3,4) by (simp add: backlogged_def queue_at_def)
  with inv(1) have "active_at s' p c" by (simp add: backlog_inv_def)
  then obtain cbs where "rlcbs s' (rl_rlcb rl) = Some cbs" "(p, c) \<in> set (cb_active (cbs c))"
    using assms(3) by (auto simp: active_at_def shape_def cb_sched_def)
  then show ?thesis using timer_invD [OF inv(2), of "rl_rlcb rl" cbs c] by auto
qed

theorem no_forgotten_queue_witness:
  "dp_system demo_K 0 demo_busy \<and>
   (\<exists>cbs. rlcbs demo_busy 0 = Some cbs \<and> (TxcRl 1, 0) \<in> set (cb_active (cbs 0)) \<and>
      (cb_timer (cbs 0) \<or> cb_tasklet (cbs 0)))"
proof -
  let ?rl = "demo_rl None [demo_pkt tenant peer]"
  have "rls demo_busy (TxcRl 1) = Some ?rl" "q_list (rl_queue ?rl 0) \<noteq> []"
    by (simp_all add: demo_busy_def demo_rl_def)
  from no_forgotten_queue [OF demo_busy_system runs_start this] show ?thesis
    using demo_busy_system by simp
qed

text \<open>
  C6. The data path never oopses. Once a device is in service, every enabled event of every run, packets
  sent and received, timers, tasklets, pool refills, installations of classes and virtual queues and
  changes of weights and rates, runs to its end without reading freed memory, following a NULL pointer
  or dividing by zero, and the device is in service after it. Not enabled are feedback for a new destination
  of a class whose pool is used up, the weight 0 for a virtual queue, and refills and installations when
  allocations fail.
\<close>
theorem data_path_never_oopses:
  fixes s s' :: "'z sys_mem_scheme"
  assumes "dp_system K d s" "runs K d s es s'" "event_enabled K d e s'"
  shows "\<exists>s''. event_run K d e s' = Some s'' \<and> dp_system K d s''"
  using event_total [OF runs_system [OF assms(2,1)] assms(3)] .

theorem data_path_never_oopses_witness:
  "dp_system demo_K 0 demo \<and>
   (\<exists>s1 s2. event_run demo_K 0 (TxPacket (demo_pkt tenant peer) 0) demo = Some s1 \<and>
      event_run demo_K 0 (SetVqWeight tenant 7) s1 = Some s2 \<and> dp_system demo_K 0 s2)"
proof -
  have en: "event_enabled demo_K 0 (TxPacket (demo_pkt tenant peer) 0) demo" by (simp add: skb_ok_def)
  obtain s1 where s1: "event_run demo_K 0 (TxPacket (demo_pkt tenant peer) 0) demo = Some s1" "dp_system demo_K 0 s1"
    using data_path_never_oopses [OF demo_system runs_start en] by blast
  have "runs demo_K 0 demo ([] @ [TxPacket (demo_pkt tenant peer) 0]) s1" by (rule runs_next [OF runs_start en s1(1)])
  from data_path_never_oopses [OF demo_system this, of "SetVqWeight tenant 7"] s1 demo_system show ?thesis by auto
qed

text \<open>
  C7. The tasklet ends and leaves nothing behind: its loop over the active list of its CPU, which the
  dequeues extend while it runs, ends without an oops and keeps the scheduling invariant, and when something
  is still on the list the timer is armed or the tasklet scheduled again.
\<close>
theorem tasklet_ends:
  fixes s :: "'z rl_mem_scheme"
  assumes "sched_inv {} s" "rlcbs s d \<noteq> None" "\<not> iso_exiting s" "gso_documented K"
  shows "\<exists>s' cbs. iso_rl_xmit_tasklet K d c s = Some s' \<and> sched_inv {} s' \<and> rlcbs s' d = Some cbs \<and>
    (cb_active (cbs c) = [] \<or> cb_timer (cbs c) \<or> cb_tasklet (cbs c))"
proof -
  obtain s' where s': "iso_rl_xmit_tasklet K d c s = Some s'" "rl_frame s s'" "sched_inv {} s'"
    using tasklet_spec [OF assms(1) _ assms(2-4), of c] by blast
  then obtain cbs where "rlcbs s' d = Some cbs" using assms(2) rl_frameD(7) [OF s'(2), of d] by auto
  moreover from this s'(3) have "cb_active (cbs c) = [] \<or> cb_timer (cbs c) \<or> cb_tasklet (cbs c)"
    by (intro timer_invD) (simp_all add: sched_inv_def)
  ultimately show ?thesis using s' by blast
qed

theorem tasklet_ends_witness:
  "sched_inv {} demo_busy \<and> (\<exists>s'. iso_rl_xmit_tasklet demo_K 0 0 demo_busy = Some s' \<and> sched_inv {} s')"
proof -
  have "sched_inv {} demo_busy" "rlcbs demo_busy 0 \<noteq> None" "\<not> iso_exiting demo_busy"
    using dp_systemD [OF demo_busy_system] by (auto simp: demo_busy_def)
  then show ?thesis using tasklet_ends [OF _ _ _ demo_K_documented(1), of demo_busy 0 0] by blast
qed

lemma demo_stock: "calm demo" "drivers demo" "occupied demo = {}" "stock demo = {#}"
proof -
  have p: "parked demo x = {#}" for x by (auto simp: parked_def queue_init_def split: option.split)
  then show "calm demo" "occupied demo = {}" by (simp_all add: calm_def occupied_def)
  with p show "stock demo = {#}" by (simp add: stock_def left_def demo_def)
  show "drivers demo" by (simp add: drivers_def)
qed

text \<open>
  C9. No packet is lost and none is duplicated. Along every run of a device in service, packets sent and
  received, timers, tasklets, pool refills and changes of the configuration in any order, the packets that
  were in the queues, on the wire or freed at the start, those handed to \<open>iso_enqueue\<close> since, and feedback
  packets of the module's own protocol are exactly the packets on the wire, freed or in a queue of a rate
  limiter at the end, each as often. Packets are compared without their type of service. No packet is large enough to be split
  (above \<open>ISO_GSO_MIN_SPLIT_BYTES\<close> it may be replaced by its segments), and every device
  with a context has its driver's transmit function, without which \<open>skb_xmit\<close> leaks the packet.
\<close>
theorem packets_conserved:
  fixes s s' :: "'z sys_mem_scheme"
  assumes "dp_system K d s" "runs K d s es s'" "calm s" "drivers s" "finite (occupied s)" "proto_ok (tun s)"
    "\<forall>skb \<in> set (offered es). skb_size skb \<le> ISO_GSO_MIN_SPLIT_BYTES (tun s)"
  shows "finite (occupied s') \<and>
    (\<exists>fb. (\<forall>y \<in> set fb. iso_is_generated_feedback (tun s) y) \<and> stock s' = stock s + packets (offered es @ fb))"
  using runs_take [OF assms(2,1,3,4,6,7)] ships_stock [OF _ assms(5)] unfolding takes_in_def by blast

theorem packets_conserved_witness:
  "\<exists>s1 s2. event_run demo_K 0 (TxPacket (demo_pkt tenant peer) 0) demo = Some s1 \<and>
     event_run demo_K 0 (TxPacket (demo_pkt tenant peer) 1) s1 = Some s2 \<and>
     (\<exists>fb. (\<forall>y \<in> set fb. iso_is_generated_feedback default_tunables y) \<and>
        stock s2 = packets ([demo_pkt tenant peer, demo_pkt tenant peer] @ fb))"
proof -
  let ?e = "\<lambda>c. TxPacket (demo_pkt tenant peer) c"
  obtain s1 where s1: "event_run demo_K 0 (?e 0) demo = Some s1" "dp_system demo_K 0 s1"
    using event_total [OF demo_system, of "?e 0"] by (auto simp: skb_ok_def)
  have r1: "runs demo_K 0 demo [?e 0] s1" using runs_next [OF runs_start _ s1(1)] by (simp add: skb_ok_def)
  have proto: "proto_ok (tun demo)" by (simp add: proto_ok_def)
  have "takes_in (offered [?e 0]) demo s1"
    using runs_take [OF r1 demo_system demo_stock(1,2) proto] by (simp add: offered_def)
  then have "txctx_xmit s1 = txctx_xmit demo" by (auto simp: takes_in_def ships_def)
  then have en: "event_enabled demo_K 0 (?e 1) s1" by (simp add: skb_ok_def)
  then obtain s2 where s2: "event_run demo_K 0 (?e 1) s1 = Some s2" using event_total [OF s1(2)] by blast
  have "runs demo_K 0 demo [?e 0, ?e 1] s2" using runs_next [OF r1 en s2] by simp
  from packets_conserved [OF demo_system this demo_stock(1,2) _ proto] have
    "\<exists>fb. (\<forall>y \<in> set fb. iso_is_generated_feedback default_tunables y) \<and>
        stock s2 = packets ([demo_pkt tenant peer, demo_pkt tenant peer] @ fb)"
    by (simp add: demo_stock offered_def)
  with s1(1) s2 show ?thesis by blast
qed

section \<open>Rate controller\<close>

text \<open>
  C8. The fair rate and its target stay between \<open>ISO_MIN_RFAIR\<close> and \<open>ISO_MAX_TX_RATE\<close> on every
  received packet, with or without feedback, in or out of idle, as long as the feedback value is at
  most 512 (a larger one makes the factor \<open>512 - marked\<close> of the source negative).
\<close>
theorem rc_rate_in_range:
  assumes "rc_inv (tun s) rc" "rc_tunables (tun s)" "skb_has_feedback (tun s) skb \<le> 512"
  shows "rc_inv (tun s) (fst (snd (iso_rc_rx rc skb s)))"
  using assms by (rule rc_inv_rx)

theorem rc_rate_in_range_witness:
  "rc_inv default_tunables (fst (iso_rc_init rc_raw demo)) \<and>
   rc_inv default_tunables (fst (snd (iso_rc_rx (fst (iso_rc_init rc_raw demo)) (demo_pkt peer tenant) demo)))"
  using demo_rc_inv rc_rate_in_range [of demo "fst (iso_rc_init rc_raw demo)" "demo_pkt peer tenant"]
  by simp

text \<open>
  C19. Fast recovery converges: after a decrease, five increases bring the fair rate to within
  1/32 of the lost distance (rounded up) of its target, never above it, and the sixth increase
  leaves fast recovery.
\<close>
theorem rc_recovers:
  assumes "rc_inv P rc" "rc_tunables P" "uint (rfair rc) \<le> uint (rfair_target rc)"
    "rc_phase rc = RC_FAST_RECOVERY" "rc_count rc = 0"
  shows "(let rc' = (rc_raise P ^^ 5) rc in uint (rfair rc') \<le> uint (rfair_target rc) \<and>
      32 * (uint (rfair_target rc) - uint (rfair rc')) \<le> uint (rfair_target rc) - uint (rfair rc) + 31) \<and>
    rc_phase ((rc_raise P ^^ 6) rc) = RC_AI"
proof -
  have r: "let rc' = (rc_raise P ^^ 5) rc in uint (rfair rc') \<le> uint (rfair_target rc) \<and>
      rc_phase rc' = RC_FAST_RECOVERY \<and> rc_count rc' = 5 \<and>
      32 * (uint (rfair_target rc) - uint (rfair rc')) \<le> uint (rfair_target rc) - uint (rfair rc) + 31"
    using recovery_run [OF assms, of 5] by (simp add: Let_def)
  moreover have "(rc_raise P ^^ 6) rc = rc_raise P ((rc_raise P ^^ 5) rc)"
    by (simp add: numeral_eq_Suc)
  ultimately show ?thesis by (simp add: Let_def rc_raise_def iso_rc_do_ai_def)
qed

theorem rc_recovers_witness:
  "(let rc = rc_raw\<lparr>rfair := 1000, rfair_target := 5000\<rparr> in
    (let rc' = (rc_raise default_tunables ^^ 5) rc in uint (rfair rc') \<le> 5000 \<and>
      32 * (5000 - uint (rfair rc')) \<le> 4000 + 31) \<and>
    rc_phase ((rc_raise default_tunables ^^ 6) rc) = RC_AI)"
  using rc_recovers [of default_tunables "rc_raw\<lparr>rfair := 1000, rfair_target := 5000\<rparr>"]
  by (simp add: rc_inv_def rc_range_def rc_raw_def Let_def)

end
