(* ===== verification/RecvProps.thy ===== *)
theory RecvProps
  imports Example
begin

text \<open>
  The properties of the virtual queues and of the three RCP control laws (virtual queue, receive
  context, transmit context), with an instance of each on the configuration of \<open>Example\<close>.
\<close>

section \<open>The advertised rate of a virtual queue\<close>

text \<open>
  C10. The word arithmetic of \<open>iso_vq_drain\<close> computes the RCP law: for a capacity up to
  \<open>2^25\<close> Mb/s and a measured rate up to three times the capacity, the advertised rate is
  \<open>r (3 C - y) / 2 C\<close>, rounded down and clamped between \<open>ISO_MIN_RFAIR\<close> and the capacity.
\<close>
theorem vq_feedback_is_rcp:
  assumes "drain_tunables P" "0 < uint rate" "uint rate \<le> 2 ^ 25" "uint fb \<le> 2 ^ 30"
    "0 \<le> y" "y \<le> 3 * uint rate"
  shows "\<exists>w. drain_feedback P rate y fb = Some w \<and> uint w =
    max (ISO_MIN_RFAIR P) (min (uint rate) (uint fb * (3 * uint rate - y) div (2 * uint rate)))"
  using drain_feedback_law [OF assms] drain_feedback_bounds [OF assms(1-3), of y fb] by auto

theorem vq_feedback_is_rcp_witness:
  "\<exists>w. drain_feedback default_tunables 9000 4500 4500 = Some w \<and> uint w = 5625"
  using vq_feedback_is_rcp [of default_tunables 9000 4500 4500] by simp

text \<open>
  C11. The advertised rate converges. When \<open>n\<close> senders obey the rate that a virtual queue of capacity
  \<open>C\<close> advertises, starting from a rate with \<open>n r \<le> C\<close>, the rate settles after at most \<open>C\<close> updates; it
  never overloads the queue on the way, and at rest the unused capacity times the rate is below \<open>2 C\<close>.
\<close>
theorem vq_feedback_converges:
  fixes rate :: u64 and P :: tunables and n :: int
  defines "f \<equiv> \<lambda>r. uint (the (drain_feedback P rate (n * r) (of_int r)))"
  assumes "drain_tunables P" "ISO_MIN_RFAIR P \<le> uint rate" "uint rate \<le> 2 ^ 25"
    "0 < n" "ISO_MIN_RFAIR P \<le> r" "n * r \<le> uint rate"
  shows "(\<forall>k. n * (f ^^ k) r \<le> uint rate) \<and>
    (\<exists>k \<le> nat (uint rate). (\<forall>j \<ge> k. (f ^^ j) r = (f ^^ k) r) \<and>
       (f ^^ k) r * (uint rate - n * (f ^^ k) r) < 2 * uint rate)"
  using vq_rcp.loop_settles [of "(P, rate)" n r] assms(2-7) by (simp add: f_def)

theorem vq_feedback_converges_witness:
  "\<exists>k \<le> 9000. \<forall>j \<ge> k. ((\<lambda>r. uint (the (drain_feedback default_tunables 9000 (3 * r) (of_int r)))) ^^ j) 10 =
     ((\<lambda>r. uint (the (drain_feedback default_tunables 9000 (3 * r) (of_int r)))) ^^ k) 10"
  using vq_feedback_converges [of default_tunables 9000 3 10] by auto

text \<open>
  C12. Overload is not punished: when the measured rate exceeds three times the capacity, the
  unsigned factor of the law wraps around and the virtual queue advertises its full capacity.
\<close>
theorem vq_feedback_overload:
  assumes "drain_tunables P" "0 < uint rate" "uint rate \<le> 2 ^ 25" "0 < uint fb" "uint fb \<le> 2 ^ 30"
    "3 * uint rate < y" "y < 2 ^ 31"
  shows "\<exists>w. drain_feedback P rate y fb = Some w \<and> uint w = max (ISO_MIN_RFAIR P) (uint rate)"
  using drain_feedback_overload [OF assms] drain_feedback_bounds [OF assms(1-3), of y fb] by auto

theorem vq_feedback_overload_witness:
  "\<exists>w. drain_feedback default_tunables 1000 3001 20 = Some w \<and> uint w = 1000"
  using vq_feedback_overload [of default_tunables 1000 20 3001] by simp

text \<open>
  C13. A virtual queue of weight 0, which \<open>set_vq_weight\<close> accepts, divides by zero at its next due
  update.
\<close>
theorem vq_weight0_divides_by_zero:
  assumes "vqs s v = Some vq" "vq_weight vq = 0" "vq_is_static vq = 0"
    "of_int (ISO_VQ_UPDATE_INTERVAL_US (tun s)) \<le>
       (of_int (ktime_us_delta (clock s (ticks s)) (vq_last_update_time vq)) :: u64)"
    "ISO_VQ_DRAIN_RATE_MBPS (tun s) \<le> ISO_MAX_TX_RATE (tun s)"
  shows "iso_vq_drain v dt s = None"
proof -
  have "drain_rate vq r = 0" for r using assms(2,3) by (simp add: drain_rate_def)
  then show ?thesis
    using assms by (simp add: iso_vq_drain_def ktime_get_def Let_def drain_feedback_weight0 not_less
        split: Option.bind_split)
qed

theorem vq_weight0_divides_by_zero_witness:
  "(\<exists>s'. set_vq_weight demo_K 0 tenant 0 demo = Some (0, s') \<and> iso_vq_drain 4 1000 s' = None)"
proof -
  have f: "iso_vq_find demo_K tenant 0 demo = Some (Some 4)"
    by (simp add: iso_vq_find_def demo_rxctx_def vq_has_class_def demo_vq_def)
  let ?s = "put_vq 4 (demo_vq\<lparr>vq_weight := 0\<rparr>) demo"
  have "set_vq_weight demo_K 0 tenant 0 demo = Some (0, ?s)"
    by (simp add: set_vq_weight_def f iso_vq_calculate_rates_def demo_rxctx_def add_weight_def rxctx_zero_def)
  moreover have "iso_vq_drain 4 1000 ?s = None"
    by (rule vq_weight0_divides_by_zero [where vq = "demo_vq\<lparr>vq_weight := 0\<rparr>"])
      (simp_all add: demo_vq_def ktime_us_delta_def s64_id)
  ultimately show ?thesis by blast
qed

text \<open>
  C14. The enqueue of a packet in a virtual queue in service, that is with its counters allocated, \<open>alpha\<close> at
  most 1024 and a positive capacity, which excludes weight 0, never oopses, adds the size of the packet to the
  byte count of the current CPU and to no other, keeps \<open>alpha\<close> at most 1024, and leaves an
  advertised rate between \<open>ISO_MIN_RFAIR\<close> and the capacity whenever it changes it.
\<close>
theorem vq_enqueue_counts:
  fixes s :: "'z vq_mem_scheme"
  assumes "vqs s v = Some vq" "vq_serves s vq" "drain_tunables (tun s)"
  shows "\<exists>vq' s'. iso_vq_enqueue v pkt s = Some s' \<and> vqs s' v = Some vq' \<and> vq_serves s' vq' \<and>
    uint (vq_alpha vq') \<le> 1024 \<and>
    rx_bytes_of vq' = (rx_bytes_of vq)(this_cpu s := rx_bytes_of vq (this_cpu s) + ucast (skb_size32 pkt)) \<and>
    (feedback_rate vq' = feedback_rate vq \<or>
     fb_range (tun s) (drain_rate vq (rcp_rate (the (rxctxs s (vq_rxctx vq))))) (feedback_rate vq'))"
  using vq_enqueue_moved [OF assms, of pkt] unfolding vq_moved_def vq_serves_def by blast

theorem vq_enqueue_counts_witness:
  "\<exists>s' vq'. iso_vq_enqueue 4 (demo_pkt peer tenant) demo = Some s' \<and> vqs s' 4 = Some vq' \<and>
     rx_bytes_of vq' 0 = rx_bytes_of demo_vq 0 + ucast (skb_size32 (demo_pkt peer tenant))"
proof -
  have "vqs demo 4 = Some demo_vq" "vq_serves demo demo_vq" "drain_tunables (tun demo)"
    by (simp_all add: vq_serves_def demo_vq_def demo_rxctx_def drain_rate_def)
  from vq_enqueue_counts [OF this, of "demo_pkt peer tenant"] show ?thesis by auto
qed

section \<open>Shares and the table of virtual queues\<close>

text \<open>
  C15. The rates that \<open>iso_vq_calculate_rates\<close> hands out fit: a virtual queue without a static rate gets its
  weighted share of the drain rate, rounded down, one with a static rate is left as it is, and the shares
  handed out sum to at most the drain rate.
\<close>
theorem vq_shares_fit:
  fixes s :: "'z vq_mem_scheme"
  assumes "rxctxs s d = Some ctx" "distinct (vq_list ctx)"
    "\<forall>v \<in> set (vq_list ctx). \<exists>vq. vqs s v = Some vq \<and> uint (vq_weight vq) \<le> 1024"
    "length (vq_list ctx) < 2 ^ 20" "0 \<le> ISO_VQ_DRAIN_RATE_MBPS (tun s)" "ISO_VQ_DRAIN_RATE_MBPS (tun s) < 2 ^ 31"
    "0 < total_weight d s"
  shows "\<exists>s'. iso_vq_calculate_rates d s = Some s' \<and>
    (\<forall>v \<in> set (vq_list ctx). if vq_is_static (the (vqs s v)) \<noteq> 0 then vqs s' v = vqs s v
       else uint (vq_rate (the (vqs s' v))) =
         ISO_VQ_DRAIN_RATE_MBPS (tun s) * uint (vq_weight (the (vqs s v))) div uint (total_weight d s)) \<and>
    (\<Sum>v\<leftarrow>filter (\<lambda>v. vq_is_static (the (vqs s v)) = 0) (vq_list ctx). uint (vq_rate (the (vqs s' v)))) \<le>
      ISO_VQ_DRAIN_RATE_MBPS (tun s)"
  using vq_shares_spec [OF assms] .

text \<open>A queue with a share and one with a static rate.\<close>

definition demo_shares :: mod_mem where
  "demo_shares = demo\<lparr>vqs := [4 \<mapsto> demo_vq, 7 \<mapsto> demo_vq\<lparr>vq_is_static := 1, vq_rate := 300\<rparr>],
     rxctxs := [0 \<mapsto> demo_rxctx\<lparr>vq_list := [4, 7]\<rparr>]\<rparr>"

theorem vq_shares_fit_witness:
  "\<exists>s'. iso_vq_calculate_rates 0 demo_shares = Some s' \<and> uint (vq_rate (the (vqs s' 4))) = 4500 \<and>
    vqs s' 7 = Some (demo_vq\<lparr>vq_is_static := 1, vq_rate := 300\<rparr>)"
proof -
  have w: "total_weight 0 demo_shares = 2" by (simp add: total_weight_def demo_shares_def demo_vq_def)
  show ?thesis
    using vq_shares_fit [of demo_shares 0 "demo_rxctx\<lparr>vq_list := [4, 7]\<rparr>", unfolded w]
    by (simp add: demo_shares_def demo_vq_def) blast
qed

text \<open>
  C16. Installing virtual queues behaves like inserting into a set of classes: an installation always ends
  with a result, also when memory runs out; one that succeeds was of a class not there before and makes
  exactly that class found, one that fails changes no lookup, and a second installation of the same class
  is refused and changes nothing.
\<close>
theorem vq_install_once:
  fixes s :: "'z vq_mem_scheme"
  assumes "vq_table d s"
  shows "\<exists>r s'. vq_install_class K k d s = Some (r, s') \<and> (r = 0 \<or> r = - 1) \<and> vq_table d s' \<and>
    (r = 0 \<longrightarrow> iso_vq_find K k d s = Some None \<and> (\<exists>v. iso_vq_find K k d s' = Some (Some v)) \<and>
       vq_install_class K k d s' = Some (- 1, s')) \<and>
    (\<forall>k'. k' \<noteq> k \<or> r \<noteq> 0 \<longrightarrow> iso_vq_find K k' d s' = iso_vq_find K k' d s)"
proof -
  obtain r s' where i: "vq_install_class K k d s = Some (r, s')" using vq_install_total [OF assms] by blast
  then have "r = 0 \<longrightarrow> vq_install_class K k d s' = Some (- 1, s')" using vq_classes.install_twice [OF assms, of K k s'] by simp
  then show ?thesis
    using i vq_classes.install_result [OF assms i] by (intro exI [of _ r] exI [of _ s']) blast
qed

theorem vq_install_once_witness:
  "\<exists>s'. vq_install_class demo_K tenant 0 (demo\<lparr>rxctxs := [0 \<mapsto> rxctx_zero]\<rparr>) = Some (0, s') \<and>
     vq_install_class demo_K tenant 0 s' = Some (- 1, s')"
proof -
  let ?s = "demo\<lparr>rxctxs := [0 \<mapsto> rxctx_zero]\<rparr>"
  have t: "vq_table 0 ?s" by (simp add: vq_table_def rxctx_zero_def)
  obtain s' where "vq_install_class demo_K tenant 0 ?s = Some (0, s')"
    using vq_install_fresh [of ?s 0 rxctx_zero demo_K tenant] by (auto simp: rxctx_zero_def)
  with vq_install_once [OF t, of demo_K tenant] show ?thesis by auto
qed

text \<open>
  C17. Freeing a virtual queue leaves its address in the hash bucket of its class: when it is the first entry
  of the bucket, the next lookup of the class, by any received packet of the tenant, reads freed memory.
\<close>
theorem vq_free_dangles:
  fixes s s' :: "'z vq_mem_scheme"
  assumes "rxctxs s d = Some ctx" "vqs s v = Some vq" "vq_refcnt vq \<le> 0" "vq_rxctx vq = d"
    "vq_bucket ctx (vq_index K (vq_klass vq)) = v # vs" "iso_vq_free v s = Some s'"
  shows "iso_vq_find K (vq_klass vq) d s' = None"
  using assms by (rule vq_find_after_free)

theorem vq_free_dangles_witness:
  "\<exists>s'. iso_vq_free 4 (put_vq 4 (demo_vq\<lparr>vq_refcnt := 0\<rparr>) demo) = Some s' \<and> iso_vq_find demo_K tenant 0 s' = None"
proof -
  let ?vq = "demo_vq\<lparr>vq_refcnt := 0\<rparr>"
  let ?s = "put_vq 4 ?vq demo"
  obtain s' where s': "iso_vq_free 4 ?s = Some s'" by (simp add: iso_vq_free_def demo_vq_def)
  have k: "vq_klass ?vq = tenant" by (simp add: demo_vq_def)
  have "iso_vq_find demo_K (vq_klass ?vq) 0 s' = None"
    by (rule vq_free_dangles [OF _ _ _ _ _ s', where ctx = demo_rxctx and vs = "[]"])
      (simp_all add: demo_vq_def demo_rxctx_def)
  then show ?thesis using s' k by auto
qed

section \<open>The RCP laws of the contexts\<close>

text \<open>
  C18. The 32-bit arithmetic of \<open>iso_txc_tick\<close> computes the RCP law for every capacity up to
  37837 Mb/s, and whatever is measured, overload included, the rate of the context stays between
  \<open>ISO_MIN_RFAIR\<close> and \<open>ISO_MAX_TX_RATE\<close>.
\<close>
theorem tx_tick_is_rcp:
  assumes "tick_tunables P"
  shows "(\<exists>w. tick_rate P r y = Some w \<and> ISO_MIN_RFAIR P \<le> uint w \<and> uint w \<le> ISO_MAX_TX_RATE P) \<and>
    (uint r \<le> ISO_MAX_TX_RATE P \<and> uint y \<le> 3 * ISO_MAX_TX_RATE P \<longrightarrow>
     uint (the (tick_rate P r y)) = max (ISO_MIN_RFAIR P) (min (ISO_MAX_TX_RATE P)
       (uint r * (3 * ISO_MAX_TX_RATE P - uint y) div (2 * ISO_MAX_TX_RATE P))))"
  using tick_rate_bounds [OF assms, of r y] tick_rate_law [OF assms, of r y] by auto

theorem tx_tick_is_rcp_witness:
  "uint (the (tick_rate default_tunables 1000 4900)) = 1250"
  using tx_tick_is_rcp [of default_tunables 1000 4900] by simp

text \<open>
  Above 37837 Mb/s the 32-bit product of \<open>iso_txc_tick\<close> wraps: at 40000 Mb/s an idle context at full
  rate computes a rate of 6312 Mb/s instead of the capacity.
\<close>
lemma tx_tick_wraps:
  "tick_rate (default_tunables\<lparr>ISO_MAX_TX_RATE := 40000\<rparr>) 40000 0 = Some 6312"
  by (simp add: tick_rate_def clamp32_def udiv_def s32_id)

text \<open>
  C20. The advertised rate of the receive context converges from any rate between \<open>ISO_MIN_RFAIR\<close> and the
  drain rate \<open>C\<close>, so also from \<open>C\<close>, where \<open>iso_rx_init\<close> starts it. In the closed loop of \<open>iso_rx_rcp_update\<close> with
  \<open>n\<close> virtual queues that receive at the advertised rate through a link of rate \<open>L\<close>, \<open>C < L \<le> 3 C\<close>, it
  settles after at most \<open>2 C\<close> updates; at rest the queues together do not exceed \<open>C\<close>, and the unused capacity
  times the rate is below \<open>2 C\<close>. The \<open>n\<close> minimum rates have to fit into \<open>C\<close>.
\<close>
theorem rx_rcp_converges:
  fixes P :: tunables and n L :: int
  defines "f \<equiv> \<lambda>r. uint (the (rx_rcp_rate P (of_int r) (of_int (min (n * r) L))))"
  assumes "rcp_tunables P" "0 < n" "ISO_VQ_DRAIN_RATE_MBPS P < L" "L \<le> 3 * ISO_VQ_DRAIN_RATE_MBPS P"
    "n * ISO_MIN_RFAIR P \<le> ISO_VQ_DRAIN_RATE_MBPS P" "ISO_MIN_RFAIR P \<le> r" "r \<le> ISO_VQ_DRAIN_RATE_MBPS P"
  shows "\<exists>k \<le> 2 * nat (ISO_VQ_DRAIN_RATE_MBPS P). (\<forall>j \<ge> k. (f ^^ j) r = (f ^^ k) r) \<and>
    n * (f ^^ k) r \<le> ISO_VQ_DRAIN_RATE_MBPS P \<and>
    (f ^^ k) r * (ISO_VQ_DRAIN_RATE_MBPS P - n * (f ^^ k) r) < 2 * ISO_VQ_DRAIN_RATE_MBPS P"
  using rx_rcp.link_settles [OF assms(2-8)] unfolding f_def .

text \<open>Five queues on a link of 10 Gb/s, from the rate at the start.\<close>

theorem rx_rcp_converges_witness:
  "\<exists>k \<le> 18000. \<forall>j \<ge> k.
     ((\<lambda>r. uint (the (rx_rcp_rate default_tunables (of_int r) (of_int (min (5 * r) 10000))))) ^^ j) 9000 =
     ((\<lambda>r. uint (the (rx_rcp_rate default_tunables (of_int r) (of_int (min (5 * r) 10000))))) ^^ k) 9000"
  using rx_rcp_converges [of default_tunables 5 10000 9000] by auto

text \<open>
  Overload is not punished at the receive context either: above three times the drain rate the
  32-bit factor wraps around and the advertised rate grows by at least a half, up to the drain rate.
\<close>

lemma rx_rcp_overload_grows:
  assumes "rcp_tunables P" "3 * ISO_VQ_DRAIN_RATE_MBPS P < uint y"
  shows "\<exists>w. rx_rcp_rate P r y = Some w \<and> min (ISO_VQ_DRAIN_RATE_MBPS P) (uint r * 3 div 2) \<le> uint w"
  using assms by (rule rx_rcp_overload)

end
