(* ===== verification/TxLookup.thy ===== *)
theory TxLookup
  imports TxTable
begin

text \<open>
  The hash table of transmit classes against a linear search: after any sequence of installations a
  lookup in the bucket of the hash value finds what a walk along the list of all classes finds.
\<close>

definition class_at :: "'z tx_mem_scheme \<Rightarrow> nat \<Rightarrow> iso_class_t option" where
  "class_at s t = map_option txc_klass (txcs s t)"

text \<open>Every class of the list is in the bucket of its hash value, and no class is there twice.\<close>

definition hashed :: "kapi \<Rightarrow> dev \<Rightarrow> 'z tx_mem_scheme \<Rightarrow> bool" where
  "hashed K d s \<longleftrightarrow> (\<forall>ctx. txctxs s d = Some ctx \<longrightarrow> distinct (map (class_at s) (txc_list ctx)) \<and>
     (\<forall>t \<in> set (txc_list ctx). \<forall>k. class_at s t = Some k \<longrightarrow> t \<in> set (iso_tx_bucket ctx (txc_index K k))))"

lemma hlist_find_eq:
  "(\<And>x. x \<in> set xs \<Longrightarrow> f x = Some (P x)) \<Longrightarrow> hlist_find f xs = Some (find P xs)"
  by (induction xs) auto

lemma find_unique:
  assumes "distinct (map f xs)" "t \<in> set xs" "f t = y"
  shows "find (\<lambda>x. f x = y) xs = Some t"
  using assms by (induction xs) (auto simp: inj_on_def image_iff)

lemma lookup_eq:
  assumes tab: "tx_table d s" and h: "hashed K d s" and ctx: "txctxs s d = Some ctx"
  shows "iso_txc_find K k d s = Some (find (\<lambda>t. class_at s t = Some k) (txc_list ctx))"
proof -
  let ?b = "iso_tx_bucket ctx (txc_index K k)" and ?P = "\<lambda>t. class_at s t = Some k"
  have sub: "set ?b \<subseteq> set (txc_list ctx)" "\<And>t. t \<in> set (txc_list ctx) \<Longrightarrow> txcs s t \<noteq> None"
    using tab tx_okD(2,5) [of d s ctx] ctx by (fastforce simp: tx_table_def)+
  have h': "distinct (map (class_at s) (txc_list ctx))"
    "\<And>t. t \<in> set (txc_list ctx) \<Longrightarrow> class_at s t = Some k \<Longrightarrow> t \<in> set ?b"
    using h ctx by (auto simp: hashed_def)
  have "hlist_find (txc_has_class k s) ?b = Some (find ?P ?b)"
    by (rule hlist_find_eq) (use sub in \<open>fastforce simp: txc_has_class_def class_at_def\<close>)
  moreover have "find ?P ?b = find ?P (txc_list ctx)"
  proof (cases "find ?P ?b")
    case None
    then have "\<not> ?P t" if "t \<in> set ?b" for t using that by (simp add: find_None_iff)
    then have "\<not> ?P t" if "t \<in> set (txc_list ctx)" for t using h'(2) [OF that] by blast
    then have "find ?P (txc_list ctx) = None" by (simp add: find_None_iff)
    then show ?thesis using None by simp
  next
    case (Some t)
    then have "t \<in> set ?b" "?P t" by (auto simp: find_Some_iff)
    then show ?thesis using Some find_unique [OF h'(1), of t "Some k"] sub(1) by auto
  qed
  ultimately show ?thesis using ctx by (simp add: iso_txc_find_def)
qed

lemma hashed_install:
  assumes tab: "tx_table d s" and h: "hashed K d s" and i: "txc_install_class K k d s = Some (r, s')"
  shows "tx_table d s' \<and> hashed K d s'"
proof -
  obtain f where f: "iso_txc_find K k d s = Some f" using tx_find_total [OF tab] by blast
  show ?thesis
  proof (cases f)
    case (Some t)
    then show ?thesis using i f tab h by (simp add: txc_install_class_def)
  next
    case None
    then obtain a where a: "iso_txc_alloc K k d s = Some (a, s')"
      using i f by (auto simp: txc_install_class_def split: Option.bind_splits)
    have tab': "tx_table d s'" by (rule tx_table_alloc [OF tab a])
    from tab a show ?thesis
    proof (cases rule: txc_alloc_cases)
      case (fail n)
      then have "class_at s' = class_at s" by (simp add: class_at_def fun_eq_iff)
      then show ?thesis using fail h tab' by (simp add: hashed_def)
    next
      case (ok ctx ctx')
      have lt: "t < fresh s" if "t \<in> set (txc_list ctx)" for t using that tab ok(2) tx_okD(4) by (auto simp: tx_table_def)
      have old: "class_at s' t = class_at s t" if "t \<in> set (txc_list ctx)" for t
        using ok(7) lt [OF that] by (simp add: class_at_def)
      have new: "class_at s' (fresh s) = Some k" using ok(8) by (simp add: class_at_def)
      have "find (\<lambda>t. class_at s t = Some k) (txc_list ctx) = None" using lookup_eq [OF tab h ok(2), of k] f None by simp
      then have "class_at s t \<noteq> Some k" if "t \<in> set (txc_list ctx)" for t using that by (simp add: find_None_iff)
      then have "distinct (map (class_at s') (txc_list ctx'))"
        using h ok(2,6) old new by (fastforce simp: hashed_def cong: map_cong)
      moreover have "t \<in> set (iso_tx_bucket ctx' (txc_index K c))"
        if "t \<in> set (txc_list ctx')" "class_at s' t = Some c" for t c
        using that h ok(2,5,6) old new by (auto simp: hashed_def)
      ultimately show ?thesis using tab' ok(4) by (simp add: hashed_def)
    qed
  qed
qed

lemma hashed_installs:
  "tx_table d s \<Longrightarrow> hashed K d s \<Longrightarrow> foldM (\<lambda>k s. map_option snd (txc_install_class K k d s)) ks s = Some s' \<Longrightarrow>
     tx_table d s' \<and> hashed K d s'"
proof (induction ks arbitrary: s)
  case (Cons k ks)
  then obtain r s1 where s1: "txc_install_class K k d s = Some (r, s1)"
    "foldM (\<lambda>k s. map_option snd (txc_install_class K k d s)) ks s1 = Some s'"
    by (auto split: Option.bind_splits)
  then show ?case using hashed_install [OF Cons.prems(1,2) s1(1)] Cons.IH by blast
qed simp

end
