(* ===== verification/SenderProps.thy ===== *)
theory SenderProps
  imports Example TxLookup
begin

text \<open>
  The properties of the transmit classes: their guaranteed and their momentary rates, their table, and
  the states of the destinations, with an instance of each on the configuration of \<open>Example\<close>.
\<close>

section \<open>Rates of the classes\<close>

text \<open>
  C22. The guarantees of the transmit classes fit into the link: \<open>iso_txc_recompute_rates\<close> gives every
  class the share of \<open>ISO_MAX_TX_RATE\<close> that its weight has in the total weight, its limiter that rate
  (or its static rate if that is lower), and the guarantees sum up to at most \<open>ISO_MAX_TX_RATE\<close>.
\<close>
theorem txc_guarantees_fit:
  fixes s :: "'z tx_mem_scheme"
  assumes "txctxs s d = Some ctx" "classes_ok (set (txc_list ctx)) s"
    "txc_total_weight ctx = (\<Sum>t\<leftarrow>txc_list ctx. txc_weight (the (txcs s t)))" "0 < txc_total_weight ctx"
    "0 \<le> ISO_MAX_TX_RATE (tun s)"
  shows "\<exists>s'. iso_txc_recompute_rates d s = Some s' \<and>
    (\<forall>t \<in> set (txc_list ctx). uint (min_rate (the (txcs s' t))) =
       txc_weight (the (txcs s t)) * ISO_MAX_TX_RATE (tun s) div txc_total_weight ctx \<and>
       rl_rate (the (rls s' (TxcRl t))) = static_cap (the (txcs s t)) (min_rate (the (txcs s' t)))) \<and>
    (\<Sum>t\<leftarrow>txc_list ctx. uint (min_rate (the (txcs s' t)))) \<le> ISO_MAX_TX_RATE (tun s)"
  using assms by (rule guarantees_fit)

text \<open>Two classes of weights 1 and 3.\<close>

definition demo_two :: mod_mem where
  "demo_two = demo\<lparr>txcs := [1 \<mapsto> demo_txc, 7 \<mapsto> demo_txc\<lparr>txc_klass := peer, txc_weight := 3\<rparr>],
     rls := (rls demo)(TxcRl 7 \<mapsto> demo_rl None []),
     txctxs := [0 \<mapsto> demo_txctx\<lparr>txc_list := [1, 7], txc_total_weight := 4\<rparr>]\<rparr>"

theorem txc_guarantees_fit_witness:
  "\<exists>s'. iso_txc_recompute_rates 0 demo_two = Some s' \<and>
     uint (min_rate (the (txcs s' 1))) = 2450 \<and> uint (min_rate (the (txcs s' 7))) = 7350"
  using txc_guarantees_fit [of demo_two 0 "demo_txctx\<lparr>txc_list := [1, 7], txc_total_weight := 4\<rparr>"]
  by (auto simp: demo_two_def classes_ok_def demo_txctx_def demo_txc_def txc_new_def weight_ok_def)

text \<open>
  C23. A due \<open>iso_txc_tick\<close> on a context in service ends, keeps the rate of the context between \<open>ISO_MIN_RFAIR\<close> and \<open>ISO_MAX_TX_RATE\<close>
  and gives the limiter of every class the rate of the context times the weight of the class, at
  least its guarantee, at most the link, and at most its static rate if it has one.
\<close>
theorem tick_sets_class_rates:
  fixes s :: "'z tx_mem_scheme"
  assumes "tx_ok d s" "tick_due d s" "tick_tunables (tun s)" "tick_interval (tun s)" "txctxs s d = Some ctx"
    "t \<in> set (txc_list ctx)" "txcs s t = Some txc" "weight_ok (tun s) txc"
  shows "\<exists>s' ctx'. iso_txc_tick d s = Some s' \<and> txctxs s' d = Some ctx' \<and>
    ISO_MIN_RFAIR (tun s) \<le> uint (ctx_rate ctx') \<and> uint (ctx_rate ctx') \<le> ISO_MAX_TX_RATE (tun s) \<and>
    uint (rl_rate (the (rls s' (TxcRl t)))) =
      (let r = max (uint (min_rate txc)) (min (ISO_MAX_TX_RATE (tun s)) (uint (ctx_rate ctx') * txc_weight txc))
       in if txc_is_static txc \<noteq> 0 then min (uint (max_rate txc)) r else r)"
proof -
  obtain s' where s': "iso_txc_tick d s = Some s'" using tick_step [OF assms(1,3,4)] by blast
  obtain ctx' where c: "txctxs s' d = Some ctx'" "ISO_MIN_RFAIR (tun s) \<le> uint (ctx_rate ctx')"
    "uint (ctx_rate ctx') \<le> ISO_MAX_TX_RATE (tun s)"
    "rl_rate (the (rls s' (TxcRl t))) = class_rate (tun s) (ctx_rate ctx') txc"
    using tick_sets_rates [OF s' assms(2,3)] assms(5-7) by auto
  have "uint (class_rate (tun s) (ctx_rate ctx') txc) =
      (let r = max (uint (min_rate txc)) (min (ISO_MAX_TX_RATE (tun s)) (uint (ctx_rate ctx') * txc_weight txc))
       in if txc_is_static txc \<noteq> 0 then min (uint (max_rate txc)) r else r)"
    using assms(8) c(3) by (intro class_rate_eq) (simp_all add: weight_ok_def)
  then show ?thesis using s' c by simp
qed

theorem tick_sets_class_rates_witness:
  "\<exists>s' ctx'. iso_txc_tick 0 demo = Some s' \<and> txctxs s' 0 = Some ctx' \<and>
     uint (rl_rate (the (rls s' (TxcRl 1)))) = 9800"
proof -
  have "txctxs demo 0 = Some demo_txctx" "1 \<in> set (txc_list demo_txctx)" "txcs demo 1 = Some demo_txc"
    "weight_ok default_tunables demo_txc"
    by (simp_all add: demo_txctx_def weight_ok_def demo_txc_def txc_new_def)
  then obtain s' ctx' where "iso_txc_tick 0 demo = Some s'" "txctxs s' 0 = Some ctx'" "uint (rl_rate (the (rls s' (TxcRl 1)))) =
      (let r = max (uint (min_rate demo_txc)) (min 9800 (uint (ctx_rate ctx') * txc_weight demo_txc))
       in if txc_is_static demo_txc \<noteq> 0 then min (uint (max_rate demo_txc)) r else r)"
    using tick_sets_class_rates [OF demo_tx_ok demo_tick_due, of demo_txctx 1 demo_txc] by auto
  then show ?thesis by (simp add: demo_txc_def txc_new_def Let_def)
qed

section \<open>The table of classes\<close>

text \<open>
  C24. Installing transmit classes behaves like inserting into a set of classes, also while traffic
  flows: the invariant of the transmit side is kept, an installation that succeeds was of a class not
  there before and makes exactly that class found, one that fails changes no lookup, a second
  installation of the same class is refused, and with memory at hand a new class is installed.
\<close>
theorem txc_install_once:
  fixes s :: "'z tx_mem_scheme"
  assumes "tx_table d s"
  shows "(\<forall>r s'. txc_install_class K k d s = Some (r, s') \<longrightarrow> (r = 0 \<or> r = - 1) \<and> tx_table d s' \<and>
      (r = 0 \<longrightarrow> iso_txc_find K k d s = Some None \<and> (\<exists>t. iso_txc_find K k d s' = Some (Some t)) \<and>
         txc_install_class K k d s' = Some (- 1, s')) \<and>
      (\<forall>k'. k' \<noteq> k \<or> r \<noteq> 0 \<longrightarrow> iso_txc_find K k' d s' = iso_txc_find K k' d s)) \<and>
    (iso_txc_find K k d s = Some None \<and> allocs s = (\<lambda>_. True) \<longrightarrow>
      (\<exists>s'. txc_install_class K k d s = Some (0, s')))"
proof -
  have "(r = 0 \<or> r = - 1) \<and> tx_table d s' \<and>
      (r = 0 \<longrightarrow> iso_txc_find K k d s = Some None \<and> (\<exists>t. iso_txc_find K k d s' = Some (Some t)) \<and>
         txc_install_class K k d s' = Some (- 1, s')) \<and>
      (\<forall>k'. k' \<noteq> k \<or> r \<noteq> 0 \<longrightarrow> iso_txc_find K k' d s' = iso_txc_find K k' d s)"
    if "txc_install_class K k d s = Some (r, s')" for r s'
    using tx_classes.install_result [OF assms that] tx_classes.install_twice [OF assms, of K k s'] that by blast
  then show ?thesis using tx_install_succeeds [OF assms] by simp
qed

theorem txc_install_once_witness:
  "\<exists>s' t. txc_install_class demo_K peer 0 demo = Some (0, s') \<and> iso_txc_find demo_K peer 0 s' = Some (Some t) \<and>
     txc_install_class demo_K peer 0 s' = Some (- 1, s')"
proof -
  have tab: "tx_table 0 demo" using demo_dp_ok by (simp add: dp_ok_def)
  have none: "iso_txc_find demo_K peer 0 demo = Some None"
    by (simp add: iso_txc_find_def demo_txctx_def txctx_zero_def txc_has_class_def demo_txc_def txc_new_def tenant_def peer_def)
  obtain s' where s': "txc_install_class demo_K peer 0 demo = Some (0, s')"
    using tx_install_succeeds [OF tab none] by auto
  then show ?thesis using txc_install_once [OF tab, of demo_K peer] by blast
qed

text \<open>
  C25. The hash table of the transmit classes is a faithful index: after any sequence of installations
  on a device without classes, whatever the hash function, a lookup in the bucket of the hash value
  gives what a linear search along the list of all classes gives.
\<close>
theorem lookup_is_linear_search:
  fixes s s' :: "'z tx_mem_scheme"
  assumes "tx_table d s" "txctxs s d = Some ctx" "txc_list ctx = []"
    "foldM (\<lambda>k s. map_option snd (txc_install_class K k d s)) ks s = Some s'" "txctxs s' d = Some ctx'"
  shows "iso_txc_find K k d s' = Some (find (\<lambda>t. map_option txc_klass (txcs s' t) = Some k) (txc_list ctx'))"
proof -
  have "hashed K d s" using assms(2,3) by (simp add: hashed_def)
  then have "tx_table d s'" "hashed K d s'" using hashed_installs [OF assms(1) _ assms(4)] by blast+
  from lookup_eq [OF this assms(5)] show ?thesis by (simp add: class_at_def)
qed

theorem lookup_is_linear_search_witness:
  "\<exists>s s' ctx'. mq_init 0 True demo_boot = Some (0, s) \<and> txc_install_class demo_K tenant 0 s = Some (0, s') \<and>
     txctxs s' 0 = Some ctx' \<and>
     iso_txc_find demo_K tenant 0 s' = Some (find (\<lambda>t. map_option txc_klass (txcs s' t) = Some tenant) (txc_list ctx'))"
proof -
  obtain s where s: "mq_init 0 True demo_boot = Some (0, s)" "started 0 demo_boot s"
    using mq_init_eq [OF demo_boot_unmanaged] by auto
  have tab: "tx_table 0 s" using started_ok [OF demo_boot_unmanaged s(2)] by (simp add: dp_ok_def)
  obtain ctx where ctx: "txctxs s 0 = Some ctx" "txc_list ctx = []" "iso_tx_bucket ctx = (\<lambda>_. [])" "allocs s = (\<lambda>_. True)"
    using s(2) by (auto simp: started_def)
  then obtain s' where s': "txc_install_class demo_K tenant 0 s = Some (0, s')"
    using tx_install_succeeds [OF tab, of demo_K tenant] by (auto simp: iso_txc_find_def)
  have "tx_table 0 s'" using tx_classes.install_result [OF tab s'] by blast
  then obtain ctx' where "txctxs s' 0 = Some ctx'" by (auto simp: tx_table_def tx_ok_def)
  then show ?thesis using lookup_is_linear_search [OF tab ctx(1,2), of demo_K "[tenant]" s' ctx' tenant] s s' by auto
qed

section \<open>Destination states\<close>

text \<open>
  C26. The first feedback from a new destination whose bucket of states is empty sets up its state, given a
  state and a limiter in the pool and the lock. The state is the first of the pool and leaves it for the
  bucket; the limiter is the one of the class that has the address already, or else the first of the pool,
  which leaves it for the table of limiters. Both carry the address of the destination, the invariant of the
  transmit side is kept, and from then on packets to and from that destination find this state.
\<close>
theorem new_destination_found:
  fixes s :: "'z tx_mem_scheme"
  assumes "tx_table d s" "txcs s t = Some txc" "txc_ok s txc" "has_room txc" "trylocks s (nlocks s)"
    "is_ip skb" "state_bucket txc (state_index K (dest_ip skb rx)) = []"
  shows "\<exists>i s' txc' st p rl. iso_state_get K t skb rx True s = Some (Some (StatePtr i), s') \<and> tx_table d s' \<and>
    txcs s' t = Some txc' \<and> prealloc_state_list txc = i # prealloc_state_list txc' \<and>
    state_bucket txc' = (state_bucket txc)(state_index K (dest_ip skb rx) := [i]) \<and>
    limiter_taken K (dest_ip skb rx) s txc p txc' \<and>
    states s' i = Some st \<and> ip_key st = dest_ip skb rx \<and> st_rl st = Some p \<and> rls s' p = Some rl \<and> rl_ip rl = dest_ip skb rx \<and>
    (\<forall>pkt rx' create. is_ip pkt \<and> dest_ip pkt rx' = dest_ip skb rx \<longrightarrow>
       iso_state_get K t pkt rx' create s' = Some (Some (StatePtr i), s'))"
proof -
  let ?i = "hd (prealloc_state_list txc)"
  obtain s' txc' st p rl where s': "iso_state_get K t skb rx True s = Some (Some (StatePtr ?i), s')" "tx_side d s s'"
    "states s' ?i = Some st" "ip_key st = dest_ip skb rx" "st_rl st = Some p" "rls s' p = Some rl" "rl_ip rl = dest_ip skb rx"
    "txcs s' t = Some txc'" "state_bucket txc' = (state_bucket txc)(state_index K (dest_ip skb rx) := [?i])"
    "prealloc_state_list txc' = tl (prealloc_state_list txc)" "limiter_taken K (dest_ip skb rx) s txc p txc'"
    using state_get_create [OF assms(1-6), of rx K] assms(7) by auto
  have "iso_state_get K t pkt rx' create s' = Some (Some (StatePtr ?i), s')"
    if "is_ip pkt" "dest_ip pkt rx' = dest_ip skb rx" for pkt rx' create
    using that s'(3,4,8,9) by (simp add: iso_state_get_def state_has_ip_def)
  moreover have "prealloc_state_list txc = ?i # prealloc_state_list txc'"
    using assms(4) s'(10) by (simp add: has_room_def)
  moreover have "tx_table d s'" using s'(2) by (simp add: tx_side_def)
  ultimately show ?thesis using s'(1,3-9,11) by (intro exI conjI) (assumption | blast)+
qed

definition other :: u32 where "other = 0x0300000A"

lemma demo_txc_ok: "txc_ok demo demo_txc"
  by (auto simp: txc_ok_def demo_txc_def txc_new_def state_raw_def)

lemma demo_table: "tx_table 0 demo"
  using demo_dp_ok by (simp add: dp_ok_def)

theorem new_destination_found_witness:
  "\<exists>s'. iso_state_get demo_K 1 (demo_pkt other tenant) True True demo = Some (Some (StatePtr 5), s') \<and>
     iso_state_get demo_K 1 (demo_pkt tenant other) False False s' = Some (Some (StatePtr 5), s')"
proof -
  let ?f = "demo_pkt other tenant"
  have room: "has_room demo_txc" by (simp add: has_room_def demo_txc_def)
  have eq: "dest_ip (demo_pkt tenant other) False = dest_ip ?f True" by (simp add: dest_ip_def demo_pkt_def)
  have "state_index demo_K (dest_ip ?f True) \<noteq> state_index demo_K (htonl peer)" by code_simp
  then have b: "state_bucket demo_txc (state_index demo_K (dest_ip ?f True)) = []" by (simp add: demo_txc_def)
  have l: "trylocks demo (nlocks demo)" "txcs demo 1 = Some demo_txc" by simp_all
  have "hd (prealloc_state_list demo_txc) = 5" by (simp add: demo_txc_def)
  have cur: "hlist_cursor (state_has_ip (dest_ip ?f True) demo) (state_bucket demo_txc (state_index demo_K (dest_ip ?f True))) None = Some None"
    using b by simp
  from state_get_create [OF demo_table l(2) demo_txc_ok room l(1) demo_pkt_wf(3) cur]
  obtain s1 where s1: "iso_state_get demo_K 1 ?f True True demo = Some (Some (StatePtr 5), s1)"
    using \<open>hd (prealloc_state_list demo_txc) = 5\<close> by auto
  from new_destination_found [OF demo_table l(2) demo_txc_ok room l(1) demo_pkt_wf(3) b] s1 eq show ?thesis by auto
qed

text \<open>
  C27. A collision of hash values gives a packet the state of another destination: when the bucket of the
  packet's destination holds states of other destinations only, \<open>iso_state_get\<close> returns the last of
  them, with or without \<open>create\<close>, and never sets up a state for the destination itself.
\<close>
theorem colliding_destination_gets_foreign_state:
  fixes s :: "'z tx_mem_scheme"
  assumes "is_ip skb" "txcs s t = Some txc" "state_bucket txc (state_index K (dest_ip skb rx)) = xs @ [i]"
    "\<forall>x \<in> set (xs @ [i]). \<exists>st. states s x = Some st \<and> ip_key st \<noteq> dest_ip skb rx"
  shows "iso_state_get K t skb rx create s = Some (Some (StatePtr i), s) \<and>
    (\<exists>st. states s i = Some st \<and> ip_key st \<noteq> dest_ip skb rx)"
proof -
  have "hlist_find (state_has_ip (dest_ip skb rx) s) (xs @ [i]) = Some None"
    by (rule hlist_find_NoneI) (use assms(4) in \<open>auto simp: state_has_ip_def\<close>)
  then show ?thesis using state_get_collision [OF assms(1,2), of rx K create] assms(3,4) by simp
qed

text \<open>A hash function that maps everything to one value.\<close>

theorem colliding_destination_gets_foreign_state_witness:
  "(let K = demo_K\<lparr>jhash_1word := (\<lambda>_ _. 0)\<rparr>;
        s = demo\<lparr>txcs := [1 \<mapsto> demo_txc\<lparr>state_bucket := (\<lambda>_. [])(state_index (demo_K\<lparr>jhash_1word := (\<lambda>_ _. 0)\<rparr>) 0 := [2])\<rparr>]\<rparr>
    in iso_state_get K 1 (demo_pkt tenant other) False True s = Some (Some (StatePtr 2), s))"
proof -
  let ?K = "demo_K\<lparr>jhash_1word := (\<lambda>_ _. 0)\<rparr>"
  let ?txc = "demo_txc\<lparr>state_bucket := (\<lambda>_. [])(state_index ?K 0 := [2])\<rparr>"
  let ?s = "demo\<lparr>txcs := [1 \<mapsto> ?txc]\<rparr>" and ?p = "demo_pkt tenant other"
  have b: "state_bucket ?txc (state_index ?K (dest_ip ?p False)) = [] @ [2]" by (simp add: state_index_def)
  have "htonl peer \<noteq> dest_ip ?p False" by code_simp
  then have f: "\<forall>x \<in> set ([] @ [2]). \<exists>st. states ?s x = Some st \<and> ip_key st \<noteq> dest_ip ?p False" by simp
  have "txcs ?s 1 = Some ?txc" by simp
  from colliding_destination_gets_foreign_state [OF demo_pkt_wf(3) this b f, of True] show ?thesis by (simp add: Let_def)
qed




section \<open>The control loop\<close>

text \<open>
  C29. Feedback reaches the limiter it is about. The feedback packet that a receiver generates for a
  packet of a sender goes out on the receiver's wire; at the sender it finds the very state that
  the sender's packets to that receiver use, its rate (the low 16 bits of the advertised one) becomes
  the rate of that destination's limiter, and the packet is dropped. This takes that the interval between
  two decreases has passed since the last change, and that the lock of the state is free.
\<close>
theorem feedback_reaches_limiter:
  fixes s :: "'z rl_mem_scheme" and u :: "'y tx_mem_scheme"
  assumes receiver: "is_ip skb" "allocs s (nallocs s)" "txctx_xmit s (skb_dev skb) = Some True" "\<not> txq_stopped s (skb_dev skb) 0"
    and sender: "is_ip pkt" "daddr (ip_hdr pkt) = daddr (ip_hdr skb)"
      "iso_state_get K t pkt False False u = Some (Some (StatePtr i), u)" "states u i = Some st" "st_rl st = Some q"
      "rls u q = Some rl" "trylocks u (nlocks u)"
      "of_int (ISO_RFAIR_DECREASE_INTERVAL_US (tun u)) \<le>
         (of_int (ktime_us_delta (clock u (ticks u)) (last_rfair_change_time (tx_rc st))) :: u64)"
    and P: "tun u = tun s" "ISO_VQ_DRAIN_RATE_MBPS (tun u) \<le> ISO_MAX_TX_RATE (tun u)"
      "0 \<le> ISO_FEEDBACK_PACKET_IPPROTO (tun u)" "ISO_FEEDBACK_PACKET_IPPROTO (tun u) < 256" "fb mod 65536 \<noteq> 0"
  shows "\<exists>f s' skb' u'. iso_generate_feedback fb skb s = Some (1, s') \<and> wire s' = wire s @ [f] \<and>
    rx_classified K t v f u = Some (ISO_VERDICT_DROP, skb', u') \<and> uint (rl_rate (the (rls u' q))) = fb mod 65536"
proof -
  let ?f = "feedback_packet (tun u) fb skb"
  have proto: "uint (of_int (ISO_FEEDBACK_PACKET_IPPROTO (tun u)) :: u8) = ISO_FEEDBACK_PACKET_IPPROTO (tun u)"
    using P(3,4) by (intro uint_of_int) simp_all
  have val: "skb_has_feedback (tun u) ?f = fb mod 65536" "iso_is_generated_feedback (tun u) ?f"
    using receiver(1) proto
    by (simp_all add: skb_has_feedback_def iso_is_generated_feedback_def) (simp_all add: feedback_packet_def uint_word_of_int)
  have ip: "dest_ip ?f True = dest_ip pkt False" using sender(2) by (simp add: dest_ip_def)
  obtain txc where txc: "txcs u t = Some txc"
      "hlist_cursor (state_has_ip (dest_ip pkt False) u) (state_bucket txc (state_index K (dest_ip pkt False))) None = Some (Some i)"
    using sender(1,3) by (auto simp: iso_state_get_def Let_def split: Option.bind_splits option.splits)
  have get: "iso_state_get K t ?f True c u = Some (Some (StatePtr i), u)" for c
    using receiver(1) txc by (simp add: iso_state_get_def ip)
  have "uint (of_int (fb mod 65536) :: u32) = fb mod 65536" by (intro uint_of_int) (simp_all add: pos_mod_bound)
  moreover have "wire (s\<lparr>nallocs := Suc (nallocs s), wire := wire s @ [?f]\<rparr>) = wire s @ [?f]" by simp
  moreover have "iso_generate_feedback fb skb s = Some (1, s\<lparr>nallocs := Suc (nallocs s), wire := wire s @ [?f]\<rparr>)"
    using receiver P(1) by (simp add: iso_generate_feedback_def netdev_alloc_skb_def skb_xmit_def) (simp add: feedback_packet_def)
  ultimately show ?thesis
    using get val sender(4-8) P(2,5)
    by (auto simp: rx_classified_def rx_apply_feedback_def ktime_get_def spin_trylock_def state_of_def Let_def)
qed

theorem feedback_reaches_limiter_witness:
  "\<exists>f s' skb' u'. iso_generate_feedback 800 (demo_pkt tenant peer) demo = Some (1, s') \<and> wire s' = wire demo @ [f] \<and>
     rx_classified demo_K 1 4 f demo = Some (ISO_VERDICT_DROP, skb', u') \<and> uint (rl_rate (the (rls u' (DestRl 3)))) = 800"
proof -
  have "iso_state_get demo_K 1 (demo_pkt tenant peer) False False demo = Some (Some (StatePtr 2), demo)"
    by (simp add: iso_state_get_def Let_def) (simp add: dest_ip_def demo_pkt_def demo_txc_def state_has_ip_def)
  from feedback_reaches_limiter [OF _ _ _ _ _ _ this, of "demo_pkt tenant peer" demo "state_raw\<lparr>ip_key := htonl peer, st_rl := Some (DestRl 3)\<rparr>"
      "DestRl 3" "demo_rl (Some 1) []" 800 4]
  show ?thesis by (simp add: state_raw_def rc_raw_def ktime_us_delta_def s64_id)
qed

end
