(* ===== verification/Tools.thy ===== *)
theory Tools
  imports Stats
begin

text \<open>
  The administration tools \<open>src/tools/perfiso.py\<close> and \<open>src/tools/pi.py\<close>: the commands they give to
  the shell, the flows that create, change and delete a tenant, the files of the module parameters
  behind the commands, and the lemmas that the \<open>sscanf\<close> of the handlers reads the commands back.
\<close>

section \<open>The tool and its shell\<close>

text \<open>
  The commands: \<open>echo\<close> into the file of a module parameter, the reloading of the module, the
  attachment of the queueing discipline to a device and its removal, \<open>rmmod\<close> and \<open>insmod\<close>.
\<close>

datatype shell_cmd = Echo string string | Reload | TcAdd string | TcDel string | Rmmod | Insmod string

text \<open>The operating system under the tool, with the world as its state.\<close>

record 'w os =
  sh :: "shell_cmd \<Rightarrow> 'w \<Rightarrow> bool \<times> 'w"
  path_exists :: "string \<Rightarrow> 'w \<Rightarrow> bool"
  ip_link_show :: "'w \<Rightarrow> string"

text \<open>The classes and virtual queues that the tool has read from the statistics, per device name.\<close>

record tool =
  txcs_dev :: "string \<Rightarrow> string list"
  vqs_dev :: "string \<Rightarrow> string list"
  ISO_CREATED :: "string \<Rightarrow> bool"
  ISO_INSMOD :: bool

text \<open>A step of the tool ends the program or returns a value.\<close>

datatype ('a, 'w) outcome = Died 'w | Done 'a tool 'w

fun and_then :: "('a, 'w) outcome \<Rightarrow> (tool \<Rightarrow> 'w \<Rightarrow> ('b, 'w) outcome) \<Rightarrow> ('b, 'w) outcome" where
  "and_then (Died w) f = Died w"
| "and_then (Done a T w) f = f T w"

definition cmd :: "'w os \<Rightarrow> shell_cmd \<Rightarrow> tool \<Rightarrow> 'w \<Rightarrow> (int, 'w) outcome" where
  "cmd X c T w = (case sh X c w of (ok, w) \<Rightarrow> if ok then Done 0 T w else Died w)"

definition ISO_PROCFILE :: string where "ISO_PROCFILE = ''/proc/perfiso_stats''"

definition ISO_PATH :: string where "ISO_PATH = ''/root/iso/perfiso.ko''"

definition install :: "'w os \<Rightarrow> string \<Rightarrow> tool \<Rightarrow> 'w \<Rightarrow> (int, 'w) outcome" where
  "install X dev T w =
     (let loaded = path_exists X ISO_PROCFILE w; T = T\<lparr>ISO_INSMOD := True\<rparr> in
      and_then
        (if loaded then Done 0 T w
         else if \<not> path_exists X ISO_PATH w then Died w
         else cmd X Reload T w)
        (\<lambda>T w. if ISO_CREATED T dev then Done 0 T w
               else and_then (cmd X (TcAdd dev) T w)
                 (\<lambda>T w. Done 0 (T\<lparr>ISO_CREATED := (ISO_CREATED T)(dev := True)\<rparr>) w)))"

definition ensure :: "'w os \<Rightarrow> string \<Rightarrow> tool \<Rightarrow> 'w \<Rightarrow> (int, 'w) outcome" where
  "ensure X dev T w = (if ISO_CREATED T dev then Done 0 T w else install X dev T w)"

section \<open>The commands of perfiso.py\<close>

definition txc_create :: "'w os \<Rightarrow> string \<Rightarrow> string \<Rightarrow> tool \<Rightarrow> 'w \<Rightarrow> (int, 'w) outcome" where
  "txc_create X dev klass T w = and_then (ensure X dev T w)
     (\<lambda>T w. if klass \<in> set (txcs_dev T dev) then Done (- 1) T w
            else cmd X (Echo (''dev '' @ dev @ '' '' @ klass) ''create_txc'') T w)"

definition txc_delete :: "'w os \<Rightarrow> string \<Rightarrow> string \<Rightarrow> tool \<Rightarrow> 'w \<Rightarrow> (int, 'w) outcome" where
  "txc_delete X dev klass T w =
     (if \<not> ISO_CREATED T dev then Done (- 1) T w
      else if klass \<notin> set (txcs_dev T dev) then Done (- 1) T w
      else cmd X (Echo (''dev '' @ dev @ '' txc '' @ klass) ''delete_txc'') T w)"

definition txc_set_weight :: "'w os \<Rightarrow> string \<Rightarrow> string \<Rightarrow> string \<Rightarrow> tool \<Rightarrow> 'w \<Rightarrow> (int, 'w) outcome" where
  "txc_set_weight X dev klass n = cmd X (Echo (''dev '' @ dev @ '' '' @ klass @ '' weight '' @ n) ''set_txc_weight'')"

definition txc_set_rate :: "'w os \<Rightarrow> string \<Rightarrow> string \<Rightarrow> string \<Rightarrow> tool \<Rightarrow> 'w \<Rightarrow> (int, 'w) outcome" where
  "txc_set_rate X dev klass n = cmd X (Echo (''dev '' @ dev @ '' '' @ klass @ '' rate '' @ n) ''set_txc_rate'')"

definition txc_clear_rate :: "'w os \<Rightarrow> string \<Rightarrow> string \<Rightarrow> tool \<Rightarrow> 'w \<Rightarrow> (int, 'w) outcome" where
  "txc_clear_rate X dev klass = txc_set_rate X dev klass ''0''"

definition txc_associate :: "'w os \<Rightarrow> string \<Rightarrow> string \<Rightarrow> string \<Rightarrow> tool \<Rightarrow> 'w \<Rightarrow> (int, 'w) outcome" where
  "txc_associate X dev klass vq =
     cmd X (Echo (''dev '' @ dev @ '' associate txc '' @ klass @ '' vq '' @ vq) ''assoc_txc_vq'')"

definition vq_create :: "'w os \<Rightarrow> string \<Rightarrow> string \<Rightarrow> tool \<Rightarrow> 'w \<Rightarrow> (int, 'w) outcome" where
  "vq_create X dev klass T w = and_then (ensure X dev T w)
     (\<lambda>T w. if klass \<in> set (vqs_dev T dev) then Done (- 1) T w
            else cmd X (Echo (''dev '' @ dev @ '' '' @ klass) ''create_vq'') T w)"

definition vq_delete :: "'w os \<Rightarrow> string \<Rightarrow> string \<Rightarrow> tool \<Rightarrow> 'w \<Rightarrow> (int, 'w) outcome" where
  "vq_delete X dev klass T w =
     (if \<not> ISO_CREATED T dev then Done (- 1) T w
      else if klass \<notin> set (vqs_dev T dev) then Done (- 1) T w
      else cmd X (Echo (''dev '' @ dev @ '' vq '' @ klass) ''delete_vq'') T w)"

definition vq_set_weight :: "'w os \<Rightarrow> string \<Rightarrow> string \<Rightarrow> string \<Rightarrow> tool \<Rightarrow> 'w \<Rightarrow> (int, 'w) outcome" where
  "vq_set_weight X dev klass n = cmd X (Echo (''dev '' @ dev @ '' '' @ klass @ '' weight '' @ n) ''set_vq_weight'')"

definition vq_set_rate :: "'w os \<Rightarrow> string \<Rightarrow> string \<Rightarrow> string \<Rightarrow> tool \<Rightarrow> 'w \<Rightarrow> (int, 'w) outcome" where
  "vq_set_rate X dev klass n = cmd X (Echo (''dev '' @ dev @ '' '' @ klass @ '' rate '' @ n) ''set_vq_rate'')"

definition vq_clear_rate :: "'w os \<Rightarrow> string \<Rightarrow> string \<Rightarrow> tool \<Rightarrow> 'w \<Rightarrow> (int, 'w) outcome" where
  "vq_clear_rate X dev klass = vq_set_rate X dev klass ''0''"

definition recompute_dev :: "'w os \<Rightarrow> string \<Rightarrow> tool \<Rightarrow> 'w \<Rightarrow> (int, 'w) outcome" where
  "recompute_dev X dev = cmd X (Echo (''dev '' @ dev) ''recompute_dev'')"

text \<open>Loading a saved configuration: per device, the classes with weight and virtual queue.\<close>

fun for_each :: "('x \<Rightarrow> tool \<Rightarrow> 'w \<Rightarrow> (int, 'w) outcome) \<Rightarrow> 'x list \<Rightarrow> tool \<Rightarrow> 'w \<Rightarrow> (int, 'w) outcome" where
  "for_each f [] T w = Done 0 T w"
| "for_each f (x # xs) T w = and_then (f x T w) (for_each f xs)"

definition txc_load :: "'w os \<Rightarrow> (string \<times> (string \<times> string \<times> string) list) list \<Rightarrow> tool \<Rightarrow> 'w \<Rightarrow> (int, 'w) outcome" where
  "txc_load X = for_each (\<lambda>(dev, vals) T w.
     and_then (install X dev T w) (for_each (\<lambda>(klass, weight, vq) T w.
       and_then (txc_create X dev klass T w) (\<lambda>T w.
       and_then (txc_set_weight X dev klass weight T w) (txc_associate X dev klass vq))) vals))"

definition vq_load :: "'w os \<Rightarrow> (string \<times> (string \<times> string) list) list \<Rightarrow> tool \<Rightarrow> 'w \<Rightarrow> (int, 'w) outcome" where
  "vq_load X = for_each (\<lambda>(dev, vals) T w.
     and_then (install X dev T w) (for_each (\<lambda>(klass, weight) T w.
       and_then (vq_create X dev klass T w) (vq_set_weight X dev klass weight)) vals))"

section \<open>The flows of pi.py\<close>

text \<open>\<open>str.split\<close> at a character, at most \<open>n\<close> times, and \<open>str.strip\<close>.\<close>

fun split_at :: "char \<Rightarrow> nat \<Rightarrow> string \<Rightarrow> string list" where
  "split_at c 0 str = [str]"
| "split_at c (Suc n) str =
     (let w = takeWhile (\<lambda>x. x \<noteq> c) str in
      if length w = length str then [str] else w # split_at c n (drop (Suc (length w)) str))"

definition strip :: "string \<Rightarrow> string" where
  "strip str = rev (skip_spaces (rev (skip_spaces str)))"

text \<open>\<open>is_netdev\<close> on the lines of \<open>ip link show\<close>. None: a line with less than two colons.\<close>

fun is_netdev_lines :: "string \<Rightarrow> string list \<Rightarrow> bool option" where
  "is_netdev_lines dev [] = Some False"
| "is_netdev_lines dev (line # ls) =
     (if line = [] then is_netdev_lines dev ls
      else if \<not> is_digit (hd line) then is_netdev_lines dev ls
      else (case split_at (CHR '':'') 2 line of
              [num, d, _] \<Rightarrow> if dev = strip d then Some True else is_netdev_lines dev ls
            | _ \<Rightarrow> None))"

definition is_netdev :: "string \<Rightarrow> string \<Rightarrow> bool option" where
  "is_netdev dev out = is_netdev_lines dev (split_at (CHR 0x0A) (length out) out)"

text \<open>
  Creating a tenant, or changing its parameters. The rate is None when the option is not given:
  a given one is a string, which compares greater than every number.
\<close>

definition create_or_change :: "'w os \<Rightarrow> bool \<Rightarrow> string \<Rightarrow> string \<Rightarrow> string \<Rightarrow> string option \<Rightarrow> tool \<Rightarrow> 'w \<Rightarrow>
    (int, 'w) outcome" where
  "create_or_change X new dev tid weight rate T w =
     (if is_netdev dev (ip_link_show X w) \<noteq> Some True then Died w
      else
        and_then
          (if new
           then and_then (txc_create X dev tid T w) (\<lambda>T w.
                and_then (vq_create X dev tid T w) (txc_associate X dev tid tid))
           else Done 0 T w)
          (\<lambda>T w. and_then (txc_set_weight X dev tid weight T w) (\<lambda>T w.
            and_then (vq_set_weight X dev tid weight T w) (\<lambda>T w.
            case rate of
              None \<Rightarrow> Done 0 T w
            | Some r \<Rightarrow> and_then (txc_set_rate X dev tid r T w) (vq_set_rate X dev tid r)))))"

definition delete_tenant :: "'w os \<Rightarrow> string \<Rightarrow> string \<Rightarrow> tool \<Rightarrow> 'w \<Rightarrow> (int, 'w) outcome" where
  "delete_tenant X dev tid T w =
     (if is_netdev dev (ip_link_show X w) \<noteq> Some True then Died w
      else and_then (txc_delete X dev tid T w) (vq_delete X dev tid))"

section \<open>The files behind the commands\<close>

text \<open>\<open>echo\<close> ends its output by a newline.\<close>

definition echo :: "string \<Rightarrow> string" where
  "echo str = str @ [CHR 0x0A]"

text \<open>The handlers registered by \<open>module_param_call\<close> in \<open>src/params.c\<close>.\<close>

definition module_param :: "kapi \<Rightarrow> string \<Rightarrow> string \<Rightarrow> 'z sys_mem_scheme \<Rightarrow> (int \<times> 'z sys_mem_scheme) option" where
  "module_param K name val s =
     (if name = ''create_txc'' then iso_sys_create_txc K val s
      else if name = ''create_vq'' then iso_sys_create_vq K val s
      else if name = ''assoc_txc_vq'' then iso_sys_assoc_txc_vq K val s
      else if name = ''set_txc_weight'' then iso_sys_set_txc_weight K val s
      else if name = ''set_txc_rate'' then iso_sys_set_txc_rate K val s
      else if name = ''set_vq_weight'' then iso_sys_set_vq_weight K val s
      else if name = ''set_vq_rate'' then iso_sys_set_vq_rate K val s
      else if name = ''delete_txc'' then iso_sys_delete_txc K val s
      else if name = ''delete_vq'' then iso_sys_delete_vq K val s
      else if name = ''recompute_dev'' then iso_sys_recompute_dev val s
      else Some (- 2, s))"

text \<open>
  A world that holds the loaded module, or None once it has oopsed. A command succeeds when the
  handler returns 0. What the other commands do is a parameter.
\<close>

definition module_os :: "kapi \<Rightarrow> (shell_cmd \<Rightarrow> 'z sys_mem_scheme \<Rightarrow> (bool \<times> 'z sys_mem_scheme) option) \<Rightarrow> string \<Rightarrow>
    'z sys_mem_scheme option os" where
  "module_os K tc links = \<lparr>
     sh = (\<lambda>c w. case w of
             None \<Rightarrow> (False, None)
           | Some s \<Rightarrow>
               (case (case c of
                        Echo str name \<Rightarrow> map_option (\<lambda>(r, s). (r = 0, s)) (module_param K name (echo str) s)
                      | _ \<Rightarrow> tc c s) of
                  None \<Rightarrow> (False, None)
                | Some (ok, s) \<Rightarrow> (ok, Some s))),
     path_exists = (\<lambda>path w. path = ISO_PROCFILE \<and> w \<noteq> None),
     ip_link_show = (\<lambda>w. links)\<rparr>"

text \<open>The settings for 1 Gb/s.\<close>

definition set_onegbe_params :: "tunables \<Rightarrow> tunables" where
  "set_onegbe_params P = P\<lparr>ISO_TOKENBUCKET_TIMEOUT_NS := 100 * 1000, ISO_VQ_DRAIN_RATE_MBPS := 920,
     ISO_MAX_TX_RATE := 980, ISO_RFAIR_INITIAL := 500, ISO_RL_UPDATE_INTERVAL_US := 50\<rparr>"

section \<open>Words and numbers in a command\<close>

text \<open>A word: not empty, no white space, at most 100 characters.\<close>

definition is_word :: "string \<Rightarrow> bool" where
  "is_word w \<longleftrightarrow> w \<noteq> [] \<and> (\<forall>c \<in> set w. \<not> is_space c) \<and> length w \<le> 100"

lemma space_chars [simp]: "is_space (CHR '' '')" "is_space (CHR 0x0A)" "\<not> is_digit (CHR 0x0A)" "\<not> is_space (CHR ''.'')"
  by (simp_all add: is_space_def is_digit_def)

lemma skip_word: "is_word w \<Longrightarrow> skip_spaces (w @ r) = w @ r"
  by (cases w) (simp_all add: is_word_def skip_spaces_def)

lemma skip_space_word: "is_word w \<Longrightarrow> skip_spaces (CHR '' '' # w @ r) = w @ r"
  using skip_word [of w r] by (simp add: skip_spaces_def)

lemma take_word: "is_word w \<Longrightarrow> is_space c \<Longrightarrow> takeWhile (\<lambda>c. \<not> is_space c) (w @ c # r) = w"
  by (simp add: is_word_def)

lemma scanf_word:
  assumes "is_word w" "is_space c"
  shows "scanf_item (ConvS # fs) (w @ c # r) = ArgS w # scanf fs (c # r)"
    "scanf_item (ConvS # fs) (w @ [c]) = ArgS w # scanf fs [c]"
  using skip_word [OF assms(1), of "c # r"] take_word [OF assms, of r] skip_word [OF assms(1), of "[c]"]
    take_word [OF assms, of "[]"] by (simp_all add: Let_def)

lemma scanf_sp_word:
  "is_word w \<Longrightarrow> scanf (Sp # fs) (CHR '' '' # w @ r) = scanf_item fs (w @ r)"
  using skip_space_word [of w r] by simp

lemma scan_d_dec: "scan_d (dec n @ [CHR 0x0A]) = Some (s32 (int n), [CHR 0x0A])"
proof -
  obtain c cs where cs: "dec n = c # cs" using dec_nonempty by (cases "dec n") auto
  with dec_digits [of n] have c: "is_digit c" by auto
  then have "\<not> is_space c" "c \<noteq> CHR ''-''" by (auto simp: is_digit_def is_space_def)
  moreover have "scan_digits 0 (dec n @ [CHR 0x0A]) = (n, [CHR 0x0A])"
    by (simp add: scan_digits_append dec_digits scan_digits_dec_value)
  ultimately show ?thesis using c cs by (simp add: scan_d_def skip_spaces_def)
qed

lemma digit_no_space: "is_digit c \<Longrightarrow> \<not> is_space c" "is_digit c \<Longrightarrow> c \<noteq> CHR '',''"
  by (auto simp: is_digit_def is_space_def)

lemma length_dec: "n < 10 ^ Suc k \<Longrightarrow> length (dec n) \<le> Suc k"
proof (induction k arbitrary: n)
  case 0
  then show ?case by (subst dec.simps) simp
next
  case (Suc k)
  then have "n div 10 < 10 ^ Suc k" by (simp add: less_mult_imp_div_less)
  then show ?case using Suc.IH [of "n div 10"] by (subst dec.simps) simp
qed

lemma dec_word: "n < 2 ^ 64 \<Longrightarrow> is_word (dec n)"
  using length_dec [of n 19] dec_nonempty dec_digits [of n] digit_no_space by (auto simp: is_word_def)

lemma octet_dec: "length (dec (unat (octet i (a :: u32)))) \<le> 3"
proof -
  have "octet i a = take_bit 8 (octet i a)" by simp
  then have "unat (octet i a) < 2 ^ 8" by (metis take_bit_nat_less_exp unsigned_take_bit_eq)
  then show ?thesis using length_dec [of "unat (octet i a)" 2] by simp
qed

lemma class_word:
  "is_word (iso_class_show k)" "length (iso_class_show k) \<le> 15" "CHR '','' \<notin> set (iso_class_show k)"
proof -
  let ?a = "htonl k"
  have e: "iso_class_show k = dec (unat (octet 3 ?a)) @ ''.'' @ dec (unat (octet 2 ?a)) @ ''.'' @
      dec (unat (octet 1 ?a)) @ ''.'' @ dec (unat (octet 0 ?a))"
    unfolding iso_class_show_def mask_octets Let_def ..
  have d: "\<forall>c \<in> set (dec (unat (octet i ?a))). \<not> is_space c \<and> c \<noteq> CHR '',''" for i
    using dec_digits [of "unat (octet i ?a)"] digit_no_space by blast
  show l: "length (iso_class_show k) \<le> 15"
    unfolding e using octet_dec [of 3 ?a] octet_dec [of 2 ?a] octet_dec [of 1 ?a] octet_dec [of 0 ?a] by simp
  show "is_word (iso_class_show k)" unfolding is_word_def
    using l d [of 3] d [of 2] d [of 1] d [of 0] by (auto simp: e)
  show "CHR '','' \<notin> set (iso_class_show k)" using d [of 3] d [of 2] d [of 1] d [of 0] by (auto simp: e)
qed

section \<open>The handlers understand the commands\<close>

lemma lits_simps [simp]: "lits [] = []" "lits (c # cs) = (if c = CHR '' '' then Sp else Lit c) # lits cs"
  by (simp_all add: lits_def)

lemma skip_char: "\<not> is_space c \<Longrightarrow> skip_spaces (CHR '' '' # c # r) = c # r"
  by (simp add: skip_spaces_def)

lemma letters [simp]: "\<not> is_space (CHR ''w'')" "\<not> is_space (CHR ''r'')" "\<not> is_space (CHR ''t'')"
  "\<not> is_space (CHR ''v'')" "\<not> is_space (CHR ''a'')"
  by (simp_all add: is_space_def)

lemmas scan_words = skip_word skip_space_word take_word skip_char scan_d_dec Let_def echo_def

lemma scan_set:
  assumes "is_word dev" "is_word klass" "n < 2 ^ 31" "kw = ''weight'' \<or> kw = ''rate''"
  shows "scanf (lits ''dev '' @ [ConvS, Sp, ConvS, Sp] @ lits kw @ [Sp, ConvD])
      (echo (''dev '' @ dev @ '' '' @ klass @ '' '' @ kw @ '' '' @ dec n)) = [ArgS dev, ArgS klass, ArgD (int n)]"
proof -
  have n: "is_word (dec n)" "s32 (int n) = int n" using dec_word [of n] assms(3) by (simp_all add: s32_id)
  show ?thesis using assms(4)
    by (elim disjE) (simp_all add: assms(1,2) n scan_words)
qed

lemma scan_delete:
  assumes "is_word dev" "is_word klass" "kw = ''txc'' \<or> kw = ''vq''"
  shows "scanf (lits ''dev '' @ [ConvS, Sp] @ lits kw @ [Sp, ConvS])
      (echo (''dev '' @ dev @ '' '' @ kw @ '' '' @ klass)) = [ArgS dev, ArgS klass]"
  using assms(3) by (elim disjE) (simp_all add: assms(1,2) scan_words)

lemma scan_create:
  assumes "is_word dev" "is_word klass"
  shows "scanf (lits ''dev '' @ [ConvS, Sp, ConvS]) (echo (''dev '' @ dev @ '' '' @ klass)) = [ArgS dev, ArgS klass]"
    "scanf (lits ''dev '' @ [ConvS]) (echo (''dev '' @ dev)) = [ArgS dev]"
  using assms by (simp_all add: scan_words)

lemma scan_associate:
  assumes "is_word dev" "is_word klass" "is_word vq"
  shows "scanf (lits ''dev '' @ [ConvS] @ lits '' associate txc '' @ [ConvS] @ lits '' vq '' @ [ConvS])
      (echo (''dev '' @ dev @ '' associate txc '' @ klass @ '' vq '' @ vq)) = [ArgS dev, ArgS klass, ArgS vq]"
  using assms by (simp add: scan_words)

text \<open>The semaphore is taken around the body of a handler.\<close>

definition in_config :: "('z sys_mem_scheme \<Rightarrow> (int \<times> 'z sys_mem_scheme) option) \<Rightarrow> 'z sys_mem_scheme \<Rightarrow>
    (int \<times> 'z sys_mem_scheme) option" where
  "in_config body s = map_option (\<lambda>(r, s). (r, up_config s)) (body (s\<lparr>config_mutex := False\<rparr>))"

lemma enabled_dev_config [simp]: "enabled_dev name (s\<lparr>config_mutex := b\<rparr>) = enabled_dev name s"
  by (simp add: enabled_dev_def iso_search_netdev_def iso_enabled_def)

lemma word_fits [simp]: "is_word w \<Longrightarrow> arg_fits (ArgS w)" "arg_fits (ArgD n)"
  by (simp_all add: is_word_def arg_fits_def)

lemmas handler_defs = down_interruptible_def sscanf_def str_arg_def int_arg_def in_config_def

lemma bind_config: "x \<bind> (\<lambda>(r, s). Some (r, up_config s)) = map_option (\<lambda>(r, s). (r, up_config s)) x"
  by (cases x) auto

lemma set_handler_cmd:
  assumes "config_mutex s" "enabled_dev dev s = Some d" "is_word dev" "is_word klass" "n < 2 ^ 31" "kw = ''weight'' \<or> kw = ''rate''"
  shows "set_handler kw (echo (''dev '' @ dev @ '' '' @ klass @ '' '' @ kw @ '' '' @ dec n)) body s =
    in_config (body d (iso_class_parse klass) (int n)) s"
  using assms(1-4) unfolding set_handler_def sscanf_def scan_set [OF assms(3-6)]
  by (simp add: handler_defs bind_config)

lemma delete_handler_cmd:
  assumes "config_mutex s" "enabled_dev dev s = Some d" "is_word dev" "is_word klass" "kw = ''txc'' \<or> kw = ''vq''"
  shows "delete_handler kw (echo (''dev '' @ dev @ '' '' @ kw @ '' '' @ klass)) body s =
    in_config (body d (iso_class_parse klass)) s"
  using assms(1-4) unfolding delete_handler_def sscanf_def scan_delete [OF assms(3-5)]
  by (simp add: handler_defs bind_config)

lemma echo_short: "length str \<le> 126 \<Longrightarrow> take 127 (echo str) = echo str"
  by (simp add: echo_def)

text \<open>What the two creations return.\<close>

definition einval :: "(int \<times> 's) option \<Rightarrow> (int \<times> 's) option" where
  "einval x = map_option (\<lambda>(r, s). (if r \<noteq> 0 then - EINVAL else 0, s)) x"

lemma bind_einval: "x \<bind> (\<lambda>(r, s). Some (if r \<noteq> 0 then - EINVAL else 0, up_config s)) =
    map_option (\<lambda>(r, s). (r, up_config s)) (einval x)"
  by (cases x) (auto simp: einval_def)

lemma create_cmd:
  assumes "config_mutex s" "enabled_dev dev s = Some d" "is_word dev" "is_word klass" "length dev + length klass \<le> 121"
  shows "iso_sys_create_txc K (echo (''dev '' @ dev @ '' '' @ klass)) s =
      in_config (\<lambda>s. einval (iso_txc_install K klass d s)) s"
    "iso_sys_create_vq K (echo (''dev '' @ dev @ '' '' @ klass)) s =
      in_config (\<lambda>s. einval (iso_vq_install K klass d s)) s"
proof -
  have t: "take 127 (echo (''dev '' @ dev @ '' '' @ klass)) = echo (''dev '' @ dev @ '' '' @ klass)"
    using assms(5) by (intro echo_short) simp
  show "iso_sys_create_txc K (echo (''dev '' @ dev @ '' '' @ klass)) s =
      in_config (\<lambda>s. einval (iso_txc_install K klass d s)) s"
    "iso_sys_create_vq K (echo (''dev '' @ dev @ '' '' @ klass)) s =
      in_config (\<lambda>s. einval (iso_vq_install K klass d s)) s"
    using assms(1-4) unfolding iso_sys_create_txc_def iso_sys_create_vq_def sscanf_def t scan_create(1) [OF assms(3,4)]
    by (simp_all add: handler_defs bind_einval)
qed

lemma associate_cmd:
  assumes "config_mutex s" "enabled_dev dev s = Some d" "is_word dev" "is_word klass" "is_word vq"
    "iso_txc_find K (iso_class_parse klass) d s = Some (Some t)" "iso_vq_find K (iso_class_parse vq) d s = Some (Some v)"
  shows "iso_sys_assoc_txc_vq K (echo (''dev '' @ dev @ '' associate txc '' @ klass @ '' vq '' @ vq)) s =
    in_config (\<lambda>s. map_option (\<lambda>s. (0, s)) (associate t v s)) s"
proof -
  have f: "iso_txc_find K k d (s\<lparr>config_mutex := b\<rparr>) = iso_txc_find K k d s"
    "iso_vq_find K k d (s\<lparr>config_mutex := b\<rparr>) = iso_vq_find K k d s" for k b
    by (simp_all add: iso_txc_find_def iso_vq_find_def txc_has_class_def vq_has_class_def cong: hlist_find_cong)
  have b: "x \<bind> (\<lambda>s. Some (0, up_config s)) = map_option (\<lambda>(r, s). (r, up_config s)) (map_option (\<lambda>s. (0, s)) x)" for x :: "'a sys_mem_scheme option"
    by (cases x) auto
  show ?thesis
    using assms(1-5) unfolding iso_sys_assoc_txc_vq_def sscanf_def scan_associate [OF assms(3-5)]
    by (simp add: handler_defs f assms(6,7) b)
qed

lemma recompute_cmd:
  assumes "config_mutex s" "enabled_dev dev s = Some d" "is_word dev"
  shows "iso_sys_recompute_dev (echo (''dev '' @ dev)) s =
    in_config (\<lambda>s. map_option (\<lambda>s. (0, s)) (do { s \<leftarrow> iso_txc_recompute_rates d s; iso_vq_calculate_rates d s })) s"
proof -
  have t: "take 127 (echo (''dev '' @ dev)) = echo (''dev '' @ dev)"
    using assms(3) by (intro echo_short) (simp add: is_word_def)
  show ?thesis
    using assms unfolding iso_sys_recompute_dev_def sscanf_def t scan_create(2) [OF assms(3,3)]
    by (simp add: handler_defs) (auto split: Option.bind_splits)
qed

text \<open>The name of a class in a command is the class.\<close>

lemma class_parse_show: "iso_class_parse (iso_class_show k) = k"
  using octets_octet [of "htonl k"] by (simp add: iso_class_parse_def scan_ip_show Let_def)

end
