(* ===== verification/StatsParser.thy ===== *)
theory StatsParser
  imports Tools
begin

text \<open>
  The function \<open>stats\<close> of \<open>src/tools/perfiso.py\<close>, which reads the statistics file for people back, with what
  the tool derives from it: its knowledge at the start, and a saved configuration. Python's objects are
  references: the classes and devices built so far are kept in a store, and the variables of the loop
  hold indices into it. None is an exception.
\<close>

section \<open>Python's strings\<close>

text \<open>\<open>re.compile(r'\s+').split\<close>.\<close>

function re_spaces_split :: "string \<Rightarrow> string list" where
  "re_spaces_split str =
     (let w = takeWhile (\<lambda>c. \<not> is_space c) str; r = drop (length w) str in
      if r = [] then [w] else w # re_spaces_split (skip_spaces r))"
  by pat_completeness auto
termination
proof (relation "measure length", goal_cases)
  case (2 str w r)
  have "length (skip_spaces r) < length r"
  proof -
    have "is_space (hd r)" using 2 hd_dropWhile [of "\<lambda>c. \<not> is_space c" str] by (simp add: dropWhile_eq_drop)
    then have "skip_spaces r = skip_spaces (tl r)" using 2(3) by (cases r) (simp_all add: skip_spaces_def)
    moreover have "length (skip_spaces (tl r)) \<le> length (tl r)" unfolding skip_spaces_def by (rule length_dropWhile_le)
    ultimately show ?thesis using 2(3) by (cases r) simp_all
  qed
  also have "length r \<le> length str" using 2(2) by simp
  finally show ?case by simp
qed simp

declare re_spaces_split.simps [simp del]

definition startswith :: "string \<Rightarrow> string \<Rightarrow> bool" where
  "startswith line p = (take (length p) line = p)"

text \<open>\<open>xs[i]\<close>.\<close>

definition item :: "'a list \<Rightarrow> nat \<Rightarrow> 'a option" where
  "item xs i = (if i < length xs then Some (xs ! i) else None)"

text \<open>\<open>line.split(c)\<close>.\<close>

definition split_all :: "char \<Rightarrow> string \<Rightarrow> string list" where
  "split_all c str = split_at c (length str) str"

text \<open>\<open>int(hex, 16)\<close> of the digits that \<open>%x\<close> prints.\<close>

definition hex_val :: "char \<Rightarrow> nat option" where
  "hex_val c =
     (if is_digit c then Some (digit_val c)
      else if 97 \<le> (of_char c :: nat) \<and> (of_char c :: nat) \<le> 102 then Some (of_char c - 87) else None)"

fun hex_int :: "nat \<Rightarrow> string \<Rightarrow> nat option" where
  "hex_int acc [] = Some acc"
| "hex_int acc (c # cs) = do { n \<leftarrow> hex_val c; hex_int (16 * acc + n) cs }"

text \<open>\<open>socket.inet_ntoa(struct.pack('!L', int(hex, 16)))\<close>.\<close>

definition IP :: "string \<Rightarrow> string option" where
  "IP str = do {
     n \<leftarrow> (if str = [] then None else hex_int 0 str);
     if 2 ^ 32 \<le> n then None
     else Some (dec (n div 2 ^ 24) @ ''.'' @ dec (n div 2 ^ 16 mod 256) @ ''.'' @ dec (n div 2 ^ 8 mod 256) @ ''.'' @
                dec (n mod 256)) }"

section \<open>The objects\<close>

record py_rl =
  pr_dst :: string
  pr_rate :: string

record py_txc =
  pt_klass :: string
  pt_rls :: "py_rl list"
  pt_rate :: string
  pt_tx_rate :: string
  pt_min_rate :: string
  pt_weight :: string
  pt_assoc :: string

record py_vq =
  pv_klass :: string
  pv_rate :: string
  pv_rx_rate :: string
  pv_fb_rate :: string
  pv_alpha :: string
  pv_weight :: string

record py_dev =
  pd_dev :: string
  pd_txcs :: "nat list"
  pd_vqs :: "py_vq list"

text \<open>The variables of the loop, with the two stores.\<close>

record parse =
  all_txcs :: "py_txc list"
  all_devs :: "py_dev list"
  p_dev :: "nat option"
  p_txc :: "nat option"
  p_rl_parse :: bool
  p_vq_dev :: "string option"
  p_dev_by_name :: "string \<rightharpoonup> nat"
  p_devs :: "nat list"
  p_created :: "string \<Rightarrow> bool"

definition parse_start :: "(string \<Rightarrow> bool) \<Rightarrow> parse" where
  "parse_start created = \<lparr>all_txcs = [], all_devs = [], p_dev = None, p_txc = None, p_rl_parse = False, p_vq_dev = None,
     p_dev_by_name = Map.empty, p_devs = [], p_created = created\<rparr>"

section \<open>The loop\<close>

text \<open>The test of the filter, and a device that is complete.\<close>

definition wanted :: "string option \<Rightarrow> parse \<Rightarrow> nat \<Rightarrow> bool" where
  "wanted filterdev st i = (case filterdev of None \<Rightarrow> True | Some f \<Rightarrow> f = pd_dev (all_devs st ! i))"

definition close_dev :: "string option \<Rightarrow> parse \<Rightarrow> parse" where
  "close_dev filterdev st =
     (case p_dev st of
        None \<Rightarrow> st
      | Some i \<Rightarrow>
          if wanted filterdev st i
          then st\<lparr>p_devs := p_devs st @ [i], p_dev_by_name := (p_dev_by_name st)(pd_dev (all_devs st ! i) \<mapsto> i)\<rparr>
          else st)"

definition on_dev :: "string option \<Rightarrow> string \<Rightarrow> parse \<Rightarrow> parse option" where
  "on_dev filterdev line st = do {
     let st = close_dev filterdev st;
     first \<leftarrow> item (split_all (CHR '','') line) 0;
     devname \<leftarrow> item (split_all (CHR '' '') first) 1;
     Some (st\<lparr>p_created := (p_created st)(devname := True),
              all_devs := all_devs st @ [\<lparr>pd_dev = devname, pd_txcs = [], pd_vqs = []\<rparr>],
              p_dev := Some (length (all_devs st)), p_rl_parse := False\<rparr>) }"

definition on_txc :: "string \<Rightarrow> parse \<Rightarrow> parse option" where
  "on_txc line st = do {
     let toks = re_spaces_split line;
     klass \<leftarrow> item toks 2;
     weight \<leftarrow> item toks 4;
     assoc \<leftarrow> item toks 7;
     Some (st\<lparr>all_txcs := all_txcs st @ [\<lparr>pt_klass = klass, pt_rls = [], pt_rate = [], pt_tx_rate = [],
                pt_min_rate = [], pt_weight = weight, pt_assoc = assoc\<rparr>],
              p_txc := Some (length (all_txcs st)), p_rl_parse := False\<rparr>) }"

definition on_txc_rl :: "string \<Rightarrow> parse \<Rightarrow> parse option" where
  "on_txc_rl line st = do {
     let toks = re_spaces_split line;
     t \<leftarrow> p_txc st;
     min_rate \<leftarrow> item toks 7;
     rate \<leftarrow> item toks 5;
     rates \<leftarrow> item toks 3;
     tx_rate \<leftarrow> item (split_all (CHR '','') rates) 1;
     i \<leftarrow> p_dev st;
     let txc = all_txcs st ! t;
     let dev = all_devs st ! i;
     Some (st\<lparr>all_txcs := (all_txcs st)[t := txc\<lparr>pt_min_rate := min_rate, pt_rate := rate, pt_tx_rate := tx_rate\<rparr>],
              all_devs := (all_devs st)[i := dev\<lparr>pd_txcs := pd_txcs dev @ [t]\<rparr>]\<rparr>) }"

definition on_hash :: "string \<Rightarrow> parse \<Rightarrow> parse option" where
  "on_hash line st = do {
     let toks = re_spaces_split line;
     ip \<leftarrow> item toks 3;
     dst \<leftarrow> IP ip;
     rate \<leftarrow> item toks 5;
     t \<leftarrow> p_txc st;
     let txc = all_txcs st ! t;
     Some (st\<lparr>all_txcs := (all_txcs st)[t := txc\<lparr>pt_rls := pt_rls txc @ [\<lparr>pr_dst = dst, pr_rate = rate\<rparr>]\<rparr>]\<rparr>) }"

definition on_vqs :: "string \<Rightarrow> parse \<Rightarrow> parse option" where
  "on_vqs line st = do {
     name \<leftarrow> item (split_all (CHR '' '') line) 1;
     Some (st\<lparr>p_vq_dev := Some name\<rparr>) }"

definition on_vq :: "string \<Rightarrow> parse \<Rightarrow> parse option" where
  "on_vq line st = do {
     let toks = re_spaces_split line;
     klass \<leftarrow> item toks 2;
     rate \<leftarrow> item toks 6;
     rx_rate \<leftarrow> item toks 8;
     fb_rate \<leftarrow> item toks 10;
     alpha \<leftarrow> item toks 12;
     weight \<leftarrow> item toks 16;
     let vq = \<lparr>pv_klass = klass, pv_rate = rate, pv_rx_rate = rx_rate, pv_fb_rate = fb_rate, pv_alpha = alpha,
               pv_weight = weight\<rparr>;
     i \<leftarrow> (case Option.bind (p_vq_dev st) (p_dev_by_name st) of None \<Rightarrow> p_dev st | Some i \<Rightarrow> Some i);
     let dev = all_devs st ! i;
     Some (st\<lparr>all_devs := (all_devs st)[i := dev\<lparr>pd_vqs := pd_vqs dev @ [vq]\<rparr>]\<rparr>) }"

definition parse_step :: "string option \<Rightarrow> string \<Rightarrow> parse \<Rightarrow> parse option" where
  "parse_step filterdev line st = do {
     st \<leftarrow> (if startswith line ''tx->dev'' then on_dev filterdev line st else Some st);
     st \<leftarrow> (if startswith line ''txc class'' then on_txc line st else Some st);
     st \<leftarrow> (if startswith line ''txc rl'' then on_txc_rl line st else Some st);
     let st = (if startswith line ''rate limiters:'' then st\<lparr>p_rl_parse := True\<rparr> else st);
     st \<leftarrow> (if p_rl_parse st \<and> startswith line ''hash'' then on_hash line st else Some st);
     st \<leftarrow> (if startswith line ''vqs'' then on_vqs line st else Some st);
     if startswith line ''vq class'' then on_vq line st else Some st }"

text \<open>\<open>readlines\<close>: the lines keep their newlines.\<close>

fun readlines :: "string \<Rightarrow> string list" where
  "readlines str =
     (if str = [] then []
      else let l = takeWhile (\<lambda>c. c \<noteq> CHR 0x0A) str in (l @ take 1 (drop (length l) str)) # readlines (drop (Suc (length l)) str))"

declare readlines.simps [simp del]

definition stats :: "string option \<Rightarrow> (string \<Rightarrow> bool) \<Rightarrow> string \<Rightarrow> parse option" where
  "stats filterdev created text = do {
     st \<leftarrow> foldM (parse_step filterdev) (readlines text) (parse_start created);
     Some (case p_dev st of
             None \<Rightarrow> st
           | Some i \<Rightarrow> if wanted filterdev st i then st\<lparr>p_devs := p_devs st @ [i]\<rparr> else st) }"

text \<open>The list of devices returned, with the objects behind the references.\<close>

definition report :: "parse \<Rightarrow> (string \<times> py_txc list \<times> py_vq list) list" where
  "report st = map (\<lambda>i. let dev = all_devs st ! i in (pd_dev dev, map ((!) (all_txcs st)) (pd_txcs dev), pd_vqs dev)) (p_devs st)"

text \<open>\<open>TxClass.get\<close> and \<open>VQ.get\<close>: what the tool knows at its start.\<close>

definition tool_get :: "parse \<Rightarrow> tool" where
  "tool_get st = \<lparr>
     txcs_dev = (\<lambda>dev. concat (map (\<lambda>(n, ts, vs). if n = dev then map pt_klass ts else []) (report st))),
     vqs_dev = (\<lambda>dev. concat (map (\<lambda>(n, ts, vs). if n = dev then map pv_klass vs else []) (report st))),
     ISO_CREATED = p_created st, ISO_INSMOD = True\<rparr>"

text \<open>
  \<open>save\<close> and \<open>load_config\<close> without the tunables: the configuration is the list of the devices with their
  classes and virtual queues.
\<close>

type_synonym saved = "(string \<times> (string \<times> string \<times> string) list \<times> (string \<times> string) list) list"

definition save :: "parse \<Rightarrow> saved" where
  "save st = map (\<lambda>(dev, ts, vs). (dev, map (\<lambda>t. (pt_klass t, pt_weight t, pt_assoc t)) ts,
     map (\<lambda>v. (pv_klass v, pv_weight v)) vs)) (report st)"

definition load_config :: "'w os \<Rightarrow> saved \<Rightarrow> tool \<Rightarrow> 'w \<Rightarrow> (int, 'w) outcome" where
  "load_config X config T w =
     and_then (vq_load X (map (\<lambda>(dev, ts, vs). (dev, vs)) config) T w)
       (txc_load X (map (\<lambda>(dev, ts, vs). (dev, ts)) config))"

end
