(* ===== verification/Commands.thy ===== *)
theory Commands
  imports StatsParser "HOL-Library.AList"
begin

text \<open>
  The command line of \<open>src/tools/pi.py\<close> and the state of \<open>src/tools/perfiso.py\<close> behind it: the tunables as
  files, the reading of the statistics at the start, the commands that change, save, clear and load, and
  what the listing commands print.
\<close>

section \<open>The program and its files\<close>

text \<open>
  A step of the program either ends it, by \<open>die\<close> or by an exception, with the world as it is then, or goes
  on. Messages of \<open>die\<close> and of the log are not kept.
\<close>

fun then_do :: "'w + 'a \<Rightarrow> ('a \<Rightarrow> 'w + 'b) \<Rightarrow> 'w + 'b" where
  "then_do (Inl w) f = Inl w"
| "then_do (Inr a) f = f a"

fun or_die :: "'w \<Rightarrow> 'a option \<Rightarrow> 'w + 'a" where
  "or_die w None = Inl w"
| "or_die w (Some a) = Inr a"

fun each :: "('x \<Rightarrow> 'a \<Rightarrow> 'w + 'a) \<Rightarrow> 'x list \<Rightarrow> 'a \<Rightarrow> 'w + 'a" where
  "each f [] a = Inr a"
| "each f (x # xs) a = then_do (f x a) (each f xs)"

text \<open>A dictionary of strings.\<close>

type_synonym dict = "(string \<times> string) list"

text \<open>
  The files under the tool: the names in the sysctl directory, reading a file and opening one to write a
  text (None is an \<open>IOError\<close>; an error of the write itself goes unnoticed), and configurations in JSON.
  \<open>iteritems\<close> is the order in which Python walks a dictionary.
\<close>

record 'w files =
  shell :: "'w os"
  sysctl_names :: "'w \<Rightarrow> string list"
  open_read :: "string \<Rightarrow> 'w \<Rightarrow> string option"
  open_write :: "string \<Rightarrow> string \<Rightarrow> 'w \<Rightarrow> 'w option"
  json_load :: "string \<Rightarrow> 'w \<Rightarrow> (dict \<times> saved) option"
  json_dump :: "string \<Rightarrow> dict \<times> saved \<Rightarrow> 'w \<Rightarrow> 'w"
  iteritems :: "dict \<Rightarrow> dict"

text \<open>The global variables of \<open>perfiso.py\<close>, what has been printed, and the world.\<close>

record 'w session =
  params :: dict
  params_list :: dict
  known :: tool
  printed :: "string list"
  world :: 'w

definition ISO_SYSCTL_DIR :: string where "ISO_SYSCTL_DIR = ''/proc/sys/perfiso/''"

definition read_file :: "'w files \<Rightarrow> string \<Rightarrow> 'w \<Rightarrow> string option" where
  "read_file F f w = map_option strip (open_read F f w)"

definition say :: "string \<Rightarrow> 'w session \<Rightarrow> 'w session" where
  "say str S = S\<lparr>printed := printed S @ [str]\<rparr>"

text \<open>A function of the tool that works on its knowledge and the world.\<close>

definition via :: "(tool \<Rightarrow> 'w \<Rightarrow> ('a, 'w) outcome) \<Rightarrow> 'w session \<Rightarrow> 'w + 'w session" where
  "via f S = (case f (known S) (world S) of Died w \<Rightarrow> Inl w | Done _ T w \<Rightarrow> Inr (S\<lparr>known := T, world := w\<rparr>))"

section \<open>The class Parameters\<close>

fun read_params :: "'w files \<Rightarrow> 'w \<Rightarrow> string list \<Rightarrow> dict \<Rightarrow> dict option" where
  "read_params F w [] ps = Some ps"
| "read_params F w (name # names) ps = do {
     value \<leftarrow> read_file F (ISO_SYSCTL_DIR @ name) w;
     read_params F w names (AList.update name value ps) }"

definition params_read :: "'w files \<Rightarrow> 'w session \<Rightarrow> 'w + 'w session" where
  "params_read F S =
     then_do (or_die (world S) (read_params F (world S) (sysctl_names F (world S)) (params S)))
       (\<lambda>ps. Inr (S\<lparr>params := ps, params_list := iteritems F ps\<rparr>))"

text \<open>\<open>int(str)\<close> of a string that starts with a digit, and \<open>xs[i]\<close>, which counts from the end for a negative \<open>i\<close>.\<close>

definition py_int :: "string \<Rightarrow> int option" where
  "py_int str = (case scan_digits 0 str of (n, r) \<Rightarrow> if skip_spaces r = [] then Some (int n) else None)"

definition py_index :: "'a list \<Rightarrow> int \<Rightarrow> 'a option" where
  "py_index xs i =
     (if 0 \<le> i then item xs (nat i) else if - int (length xs) \<le> i then item xs (nat (int (length xs) + i)) else None)"

text \<open>\<open>os.path.join\<close> of a directory with a final slash, and \<open>str\<close> of an optional string.\<close>

definition path_join :: "string \<Rightarrow> string \<Rightarrow> string" where
  "path_join dir name = (if startswith name ''/'' then name else dir @ name)"

fun py_str :: "string option \<Rightarrow> string" where
  "py_str None = ''None''"
| "py_str (Some v) = v"

definition numbered :: "string \<Rightarrow> dict \<Rightarrow> string option" where
  "numbered name ps =
     (if name \<noteq> [] \<and> is_digit (hd name) then do { n \<leftarrow> py_int name; e \<leftarrow> py_index ps (n - 1); Some (fst e) }
      else Some name)"

text \<open>Parameters are numbered from 1, and number 0 is the last one.\<close>

lemma numbered_zero: "ps \<noteq> [] \<Longrightarrow> numbered ''0'' ps = Some (fst (last ps))"
  by (cases ps rule: rev_cases) (simp_all add: numbered_def py_int_def py_index_def is_digit_def digit_val_def skip_spaces_def item_def)

definition params_set :: "'w files \<Rightarrow> string \<Rightarrow> string option \<Rightarrow> 'w session \<Rightarrow> 'w + 'w session" where
  "params_set F name value S =
     then_do (or_die (world S) (numbered name (params_list S))) (\<lambda>name.
     then_do (or_die (world S) (open_write F (path_join ISO_SYSCTL_DIR name) (py_str value) (world S))) (\<lambda>w.
     params_read F (say (''Setting '' @ name @ '' = '' @ py_str value) (S\<lparr>world := w\<rparr>))))"

definition params_lines :: "bool \<Rightarrow> dict \<Rightarrow> string list" where
  "params_lines padded ps =
     map (\<lambda>(i, k, v). if padded then pad 2 (dec i) @ '' '' @ pad 40 k @ '' '' @ pad 10 v
                      else dec i @ '' '' @ k @ '' '' @ v) (enumerate 1 ps)"

fun join :: "string \<Rightarrow> string list \<Rightarrow> string" where
  "join sep [] = []"
| "join sep [x] = x"
| "join sep (x # y # xs) = x @ sep @ join sep (y # xs)"

definition params_str :: "'w files \<Rightarrow> bool \<Rightarrow> 'w session \<Rightarrow> string" where
  "params_str F padded S = join [CHR 0x0A] (params_lines padded (iteritems F (params S)))"

definition params_load :: "'w files \<Rightarrow> dict \<Rightarrow> 'w session \<Rightarrow> 'w + 'w session" where
  "params_load F cfg = each (\<lambda>(name, value). params_set F name (Some value)) (iteritems F cfg)"

section \<open>The commands\<close>

definition py_stats :: "'w files \<Rightarrow> string option \<Rightarrow> 'w session \<Rightarrow> 'w + parse \<times> 'w session" where
  "py_stats F filterdev S =
     (if \<not> path_exists (shell F) ISO_PROCFILE (world S) then Inl (world S)
      else then_do (or_die (world S) (do {
             text \<leftarrow> open_read F ISO_PROCFILE (world S);
             stats filterdev (ISO_CREATED (known S)) text }))
           (\<lambda>st. Inr (st, S\<lparr>known := (known S)\<lparr>ISO_INSMOD := True, ISO_CREATED := p_created st\<rparr>\<rparr>)))"

definition cmd_get :: "'w files \<Rightarrow> 'w session \<Rightarrow> 'w + 'w session" where
  "cmd_get F S = Inr (say (params_str F True S) S)"

text \<open>The name and the value of a setting. None: \<open>split\<close> gives more than two parts.\<close>

definition set_args :: "string \<Rightarrow> string option \<Rightarrow> (string \<times> string option) option" where
  "set_args str value =
     (if value = None \<and> CHR '','' \<in> set str
      then (case split_all (CHR '','') str of [name, v] \<Rightarrow> Some (name, Some v) | _ \<Rightarrow> None)
      else Some (str, value))"

definition cmd_set :: "'w files \<Rightarrow> string \<Rightarrow> string option \<Rightarrow> 'w session \<Rightarrow> 'w + 'w session" where
  "cmd_set F str value S =
     then_do (or_die (world S) (set_args str value)) (\<lambda>(name, value).
     then_do (params_set F name value S) (\<lambda>S.
     then_do (py_stats F None S) (\<lambda>(st, S).
     each (\<lambda>(dev, _, _). via (recompute_dev (shell F) dev)) (report st) S)))"

definition cmd_save :: "'w files \<Rightarrow> string \<Rightarrow> 'w session \<Rightarrow> 'w + 'w session" where
  "cmd_save F path S =
     then_do (or_die (world S) (open_write F path [] (world S))) (\<lambda>w.
     then_do (py_stats F None (S\<lparr>world := w\<rparr>)) (\<lambda>(st, S).
     Inr (S\<lparr>world := json_dump F path (params S, save st) (world S)\<rparr>)))"

definition cmd_load :: "'w files \<Rightarrow> string \<Rightarrow> 'w session \<Rightarrow> 'w + 'w session" where
  "cmd_load F path S =
     then_do (or_die (world S) (json_load F path (world S))) (\<lambda>(ps, config).
     then_do (params_load F ps S) (via (load_config (shell F) config)))"

text \<open>
  The objects of \<open>TxClass\<close> and \<open>VQ\<close>, which read the statistics when the module is loaded. Both read the
  same text.
\<close>

definition py_objects :: "'w files \<Rightarrow> 'w session \<Rightarrow> 'w + 'w session" where
  "py_objects F S =
     (let S = S\<lparr>known := (known S)\<lparr>txcs_dev := (\<lambda>_. []), vqs_dev := (\<lambda>_. [])\<rparr>\<rparr> in
      if \<not> path_exists (shell F) ISO_PROCFILE (world S) then Inr S
      else then_do (py_stats F None S) (\<lambda>(st, S). Inr (S\<lparr>known := tool_get st\<rparr>)))"

definition no_tool :: tool where
  "no_tool = \<lparr>txcs_dev = (\<lambda>_. []), vqs_dev = (\<lambda>_. []), ISO_CREATED = (\<lambda>_. False), ISO_INSMOD = False\<rparr>"

definition clear :: "'w files \<Rightarrow> 'w session \<Rightarrow> 'w + 'w session" where
  "clear F S =
     then_do (py_stats F None S) (\<lambda>(st, S).
     then_do (each (\<lambda>(dev, _, _). via (cmd (shell F) (TcDel dev))) (report st) S) (\<lambda>S.
     let w = snd (sh (shell F) Rmmod (world S));
         T = (known S)\<lparr>ISO_CREATED := (\<lambda>_. False), ISO_INSMOD := False\<rparr>
     in then_do (params_read F (S\<lparr>world := w, known := T, params := [], params_list := []\<rparr>)) (py_objects F)))"

definition load_module :: "'w files \<Rightarrow> string \<Rightarrow> 'w session \<Rightarrow> 'w session" where
  "load_module F path S = S\<lparr>world := snd (sh (shell F) (Insmod path) (world S))\<rparr>"

definition onegbe_vals :: dict where
  "onegbe_vals =
     [(''ISO_TOKENBUCKET_TIMEOUT_NS'', ''100000''), (''ISO_VQ_DRAIN_RATE_MBPS'', ''920''), (''ISO_MAX_TX_RATE'', ''980''),
      (''ISO_RFAIR_INITIAL'', ''500''), (''ISO_RL_UPDATE_INTERVAL_US'', ''50'')]"

definition cmd_onegbe :: "'w files \<Rightarrow> 'w session \<Rightarrow> 'w + 'w session" where
  "cmd_onegbe F = each (\<lambda>(parm, val). params_set F parm (Some val)) (iteritems F onegbe_vals)"

section \<open>The listings\<close>

text \<open>\<open>print\<close> puts no space after a tab.\<close>

definition list_lines :: "(string \<times> py_txc list \<times> py_vq list) list \<Rightarrow> string list" where
  "list_lines devs = concat (map (\<lambda>(dev, ts, vs).
     [''dev: '' @ dev, ''listing TXCs''] @
     map (\<lambda>t. tab @ pt_klass t @ '' weight '' @ pt_weight t @ '' assoc vq '' @ pt_assoc t) ts @
     [''listing VQs''] @
     map (\<lambda>v. tab @ pv_klass v @ '' weight '' @ pv_weight v) vs) devs)"

definition data_str :: "string \<Rightarrow> dict \<Rightarrow> string" where
  "data_str head keys = head @ '': '' @ join '', '' (map (\<lambda>(k, v). k @ '': '' @ v) keys)"

definition dev_str :: "string \<Rightarrow> string" where
  "dev_str dev = data_str ''Dev'' [(''dev'', dev)]"

definition txc_str :: "py_txc \<Rightarrow> string" where
  "txc_str t = data_str ''TXC'' [(''klass'', pt_klass t), (''min_rate'', pt_min_rate t), (''rate'', pt_rate t),
     (''tx_rate'', pt_tx_rate t), (''assoc'', pt_assoc t)]"

definition vq_str :: "py_vq \<Rightarrow> string" where
  "vq_str v = data_str ''VQ'' [(''klass'', pv_klass v), (''rate'', pv_rate v), (''rx_rate'', pv_rx_rate v),
     (''fb_rate'', pv_fb_rate v), (''alpha'', pv_alpha v)]"

definition rl_str :: "py_rl \<Rightarrow> string" where
  "rl_str r = data_str ''RL'' [(''dst'', pr_dst r), (''rate'', pr_rate r)]"

definition stats_lines :: "string option \<Rightarrow> (string \<times> py_txc list \<times> py_vq list) list \<Rightarrow> string list" where
  "stats_lines only devs = concat (map (\<lambda>(dev, ts, vs).
     if only \<noteq> None \<and> only \<noteq> Some dev then []
     else [dev_str dev] @
       concat (map (\<lambda>t. (tab @ txc_str t) # map (\<lambda>r. tab @ tab @ rl_str r) (pt_rls t)) ts) @
       map (\<lambda>v. tab @ vq_str v) vs) devs)"

definition cmd_list :: "'w files \<Rightarrow> string option \<Rightarrow> 'w session \<Rightarrow> 'w + 'w session" where
  "cmd_list F dev S =
     then_do (py_stats F dev S) (\<lambda>(st, S). Inr (fold say (list_lines (report st)) S))"

definition cmd_stats :: "'w files \<Rightarrow> string option \<Rightarrow> 'w session \<Rightarrow> 'w + 'w session" where
  "cmd_stats F dev S =
     then_do (py_stats F None S) (\<lambda>(st, S). Inr (fold say (stats_lines dev (report st)) S))"

section \<open>The command line\<close>

text \<open>The options by their destinations. The rate is None, not -1, when it is not given.\<close>

record args =
  arg_get :: bool
  arg_set :: "string option"
  arg_value :: "string option"
  arg_save :: "string option"
  arg_load :: "string option"
  arg_module :: string
  arg_get_rps :: "string option"
  arg_dev :: "string option"
  arg_set_rps :: "string option"
  create_tenant :: "string option"
  change_tenant :: "string option"
  arg_delete_tenant :: "string option"
  arg_list :: bool
  arg_stats :: bool
  arg_weight :: string
  arg_rate :: "string option"
  one_gbe :: bool
  arg_enable :: bool
  arg_disable :: bool

definition no_args :: args where
  "no_args = \<lparr>arg_get = False, arg_set = None, arg_value = None, arg_save = None, arg_load = None,
     arg_module = ''./perfiso.ko iso_param_dev=eth2'', arg_get_rps = None, arg_dev = None, arg_set_rps = None,
     create_tenant = None, change_tenant = None, arg_delete_tenant = None, arg_list = False, arg_stats = False,
     arg_weight = ''1'', arg_rate = None, one_gbe = False, arg_enable = False, arg_disable = False\<rparr>"

text \<open>A string that is given and not empty counts as true.\<close>

definition given :: "string option \<Rightarrow> bool" where
  "given x \<longleftrightarrow> x \<noteq> None \<and> x \<noteq> Some []"

text \<open>
  The dispatch. \<open>perfiso.py\<close> has no functions \<open>get_rps\<close> and \<open>set_rps\<close>: the calls raise an exception. Without
  a device \<open>is_netdev\<close> fails. The help text that is printed when no command is given is left out.
\<close>

definition pi_command :: "'w files \<Rightarrow> args \<Rightarrow> 'w session \<Rightarrow> 'w + 'w session" where
  "pi_command F a S =
     (if arg_get a then cmd_get F S
      else if given (arg_set a) then cmd_set F (the (arg_set a)) (arg_value a) S
      else if arg_enable a then cmd_set F ''IsoGlobalEnabled,1'' (arg_value a) S
      else if arg_disable a then cmd_set F ''IsoGlobalEnabled,0'' (arg_value a) S
      else if given (arg_save a) then cmd_save F (the (arg_save a)) S
      else if given (arg_load a)
      then then_do (clear F S) (\<lambda>S. cmd_load F (the (arg_load a)) (load_module F (arg_module a) S))
      else if given (arg_get_rps a) \<or> given (arg_set_rps a) then Inl (world S)
      else if given (create_tenant a) \<or> given (change_tenant a)
      then (let new = given (create_tenant a); tid = the (if new then create_tenant a else change_tenant a) in
            case arg_dev a of
              None \<Rightarrow> Inl (world S)
            | Some dev \<Rightarrow> via (create_or_change (shell F) new dev tid (arg_weight a) (arg_rate a)) S)
      else if given (arg_delete_tenant a)
      then (case arg_dev a of
              None \<Rightarrow> Inl (world S)
            | Some dev \<Rightarrow> via (delete_tenant (shell F) dev (the (arg_delete_tenant a))) S)
      else if arg_list a then cmd_list F (arg_dev a) S
      else if arg_stats a then cmd_stats F (arg_dev a) S
      else if one_gbe a then cmd_onegbe F S
      else Inr S)"

text \<open>A run of \<open>pi.py\<close>: the import of \<open>perfiso\<close>, the call of \<open>stats\<close>, and the command.\<close>

definition import_perfiso :: "'w files \<Rightarrow> 'w \<Rightarrow> 'w + 'w session" where
  "import_perfiso F w =
     then_do (params_read F \<lparr>params = [], params_list = [], known = no_tool, printed = [], world = w\<rparr>) (py_objects F)"

definition pi_main :: "'w files \<Rightarrow> args \<Rightarrow> 'w \<Rightarrow> 'w + 'w session" where
  "pi_main F a w =
     then_do (import_perfiso F w) (\<lambda>S. then_do (py_stats F None S) (\<lambda>(_, S). pi_command F a S))"

end
