(* ===== verification/ConfigLaws.thy ===== *)
theory ConfigLaws
  imports Lifecycle Tools
begin

text \<open>
  The configuration handlers as transactions: a refused command changes nothing, a malformed
  \<open>recompute_dev\<close> keeps the semaphore for ever, and a deleted transmit class stays on the list of its
  context, where the next update finds it.
\<close>

section \<open>Refused commands\<close>

definition refuses :: "('s \<Rightarrow> (int \<times> 's) option) \<Rightarrow> bool" where
  "refuses body \<longleftrightarrow> (\<forall>s r s'. body s = Some (r, s') \<longrightarrow> r \<noteq> 0 \<longrightarrow> s' = s)"

lemma refusesI: "(\<And>s r s'. body s = Some (r, s') \<Longrightarrow> r \<noteq> 0 \<Longrightarrow> s' = s) \<Longrightarrow> refuses body"
  by (auto simp: refuses_def)

lemma config_restored: "config_mutex s \<Longrightarrow> up_config (s\<lparr>config_mutex := b\<rparr>) = s"
  by (simp add: up_config_def)

lemma set_handler_refuses:
  assumes "\<And>d k n. refuses (body d k n)" "set_handler kw val body s = Some (r, s')" "r \<noteq> 0"
  shows "s' = s"
proof (cases "config_mutex s")
  case True
  then show ?thesis
    using assms config_restored [OF True, of False]
    by (auto simp: set_handler_def down_interruptible_def refuses_def Let_def
        split: Option.bind_splits if_splits option.splits) fast+
qed (use assms(2) in \<open>simp add: set_handler_def down_interruptible_def\<close>)

lemma delete_handler_refuses:
  assumes "\<And>d k. refuses (body d k)" "delete_handler kw val body s = Some (r, s')" "r \<noteq> 0"
  shows "s' = s"
proof (cases "config_mutex s")
  case True
  then show ?thesis
    using assms config_restored [OF True, of False]
    by (auto simp: delete_handler_def down_interruptible_def refuses_def Let_def
        split: Option.bind_splits if_splits option.splits) fast+
qed (use assms(2) in \<open>simp add: delete_handler_def down_interruptible_def\<close>)

lemma bodies_refuse:
  "refuses (set_txc_weight K d k n)" "refuses (set_txc_rate K d k n)" "refuses (set_vq_weight K d k n)"
  "refuses (set_vq_rate K d k n)" "refuses (delete_txc K d k)" "refuses (delete_vq K d k)"
  by (rule refusesI; auto simp: set_txc_weight_def set_txc_rate_def set_vq_weight_def set_vq_rate_def delete_txc_def
      delete_vq_def Let_def split: Option.bind_splits option.splits if_splits)+

lemma associate_refuses:
  assumes "iso_sys_assoc_txc_vq K val s = Some (r, s')" "r \<noteq> 0"
  shows "s' = s"
proof (cases "config_mutex s")
  case True
  then show ?thesis
    using assms config_restored [OF True, of False]
    by (auto simp: iso_sys_assoc_txc_vq_def down_interruptible_def Let_def
        split: Option.bind_splits if_splits option.splits)
qed (use assms(1) in \<open>auto simp: iso_sys_assoc_txc_vq_def down_interruptible_def split: Option.bind_splits\<close>)

section \<open>The semaphore\<close>

lemma up_config_free [simp]: "config_mutex (up_config s)"
  by (simp add: up_config_def)

text \<open>A handler that has taken the semaphore releases it on every path, but for \<open>recompute_dev\<close>.\<close>

lemma handlers_release:
  assumes "config_mutex s"
  shows "set_handler kw val body s = Some (r, s') \<Longrightarrow> config_mutex s'"
    "delete_handler kw val body' s = Some (r, s') \<Longrightarrow> config_mutex s'"
    "iso_sys_create_txc K val s = Some (r, s') \<Longrightarrow> config_mutex s'"
    "iso_sys_create_vq K val s = Some (r, s') \<Longrightarrow> config_mutex s'"
    "iso_sys_assoc_txc_vq K val s = Some (r, s') \<Longrightarrow> config_mutex s'"
  using assms by (auto simp: set_handler_def delete_handler_def iso_sys_create_txc_def iso_sys_create_vq_def
      iso_sys_assoc_txc_vq_def down_interruptible_def Let_def split: Option.bind_splits option.splits if_splits)

lemma recompute_release:
  assumes "config_mutex s" "iso_sys_recompute_dev val s = Some (r, s')"
  shows "config_mutex s' \<longleftrightarrow> length (scanf (lits ''dev '' @ [ConvS]) (take 127 val)) = 1"
  using assms by (auto simp: iso_sys_recompute_dev_def down_interruptible_def sscanf_def Let_def
      simp del: scanf.simps scanf_item.simps lits_simps split: Option.bind_splits option.splits if_splits)

lemma semaphore_released:
  assumes "config_mutex s" "module_param K name val s = Some (r, s')"
  shows "config_mutex s' \<longleftrightarrow>
    name \<noteq> ''recompute_dev'' \<or> length (scanf (lits ''dev '' @ [ConvS]) (take 127 val)) = 1"
proof (cases "name = ''recompute_dev''")
  case True
  then show ?thesis using assms recompute_release [OF assms(1)] by (simp add: module_param_def del: lits_simps)
next
  case False
  then have "config_mutex s'"
    using assms(2) handlers_release [OF assms(1)] assms(1)
    by (auto simp: module_param_def iso_sys_set_txc_weight_def iso_sys_set_txc_rate_def iso_sys_set_vq_weight_def
        iso_sys_set_vq_rate_def iso_sys_delete_txc_def iso_sys_delete_vq_def split: if_splits)
  then show ?thesis using False by simp
qed

text \<open>A text of less than 128 characters overflows no buffer.\<close>

lemma scan_digits_shorter: "length (snd (scan_digits n str)) \<le> length str"
proof (induction n str rule: scan_digits.induct)
  case (2 n c cs)
  then show ?case by (cases "is_digit c") (simp_all add: le_SucI)
qed simp

lemma skip_spaces_le: "length (skip_spaces str) \<le> length str"
  by (simp add: skip_spaces_def length_dropWhile_le)

lemma scan_d_shorter:
  assumes "scan_d str = Some (n, r)"
  shows "length r \<le> length str"
proof -
  have a: "length r \<le> length xs" if "scan_digits 0 xs = (m, r)" for m xs using that scan_digits_shorter [of 0 xs] by simp
  obtain c cs where c: "skip_spaces str = c # cs" using assms by (cases "skip_spaces str") (auto simp: scan_d_def)
  then consider m where "scan_digits 0 cs = (m, r)" | m where "scan_digits 0 (c # cs) = (m, r)"
    using assms by (auto simp: scan_d_def simp del: scan_digits.simps split: list.splits if_splits prod.splits)
  then have "length r \<le> length (c # cs)"
  proof cases
    case (1 m)
    show ?thesis using a [OF 1] by simp
  next
    case (2 m)
    show ?thesis using a [OF 2] .
  qed
  then show ?thesis using c skip_spaces_le [of str] by simp
qed

lemma scanf_words:
  "ArgS w \<in> set (scanf fs str) \<Longrightarrow> length w \<le> length str"
  "ArgS w \<in> set (scanf_item fs str) \<Longrightarrow> length w \<le> length str"
proof (induction fs str and fs str rule: scanf_scanf_item.induct, goal_cases)
  case (2 fs str)
  then show ?case using skip_spaces_le [of str] by (auto split: if_splits)
next
  case (7 fs str)
  then show ?case using skip_spaces_le [of str] by auto
next
  case (9 fs str)
  let ?x = "skip_spaces str" and ?w = "takeWhile (\<lambda>c. \<not> is_space c) (skip_spaces str)"
  have "length w \<le> length ?x"
    using 9(1) [of ?x ?w] 9(2) length_takeWhile_le [of "\<lambda>c. \<not> is_space c" ?x] by (auto simp: Let_def split: if_splits)
  then show ?case using skip_spaces_le [of str] by simp
next
  case (10 fs str)
  obtain n r where r: "scan_d str = Some (n, r)" "ArgS w \<in> set (scanf fs r)"
    using 10(2) by (cases "scan_d str") (auto split: prod.splits)
  then have "length w \<le> length r" using 10(1) [of "(n, r)" n r] by simp
  then show ?case using scan_d_shorter [OF r(1)] by simp
qed (auto split: if_splits list.splits)

lemma sscanf_short:
  assumes "length str < 128"
  shows "sscanf fs str = Some (scanf fs str)"
proof -
  have "length w < 128" if "ArgS w \<in> set (scanf fs str)" for w using scanf_words(1) [OF that] assms by simp
  then show ?thesis by (auto simp: sscanf_def arg_fits_def Let_def list_all_iff split: arg.splits)
qed

text \<open>A sequence of commands, with their results.\<close>

fun module_params :: "kapi \<Rightarrow> (string \<times> string) list \<Rightarrow> 'z sys_mem_scheme \<Rightarrow> (int list \<times> 'z sys_mem_scheme) option" where
  "module_params K [] s = Some ([], s)"
| "module_params K ((name, val) # cs) s = do {
     (r, s) \<leftarrow> module_param K name val s;
     (rs, s) \<leftarrow> module_params K cs s;
     Some (r # rs, s) }"

lemma locked_param:
  assumes "\<not> config_mutex s" "length val < 128"
  shows "\<exists>r < 0. module_param K name val s = Some (r, s)"
  using assms
  by (auto simp: module_param_def iso_sys_create_txc_def iso_sys_create_vq_def iso_sys_set_txc_weight_def
      iso_sys_set_txc_rate_def iso_sys_set_vq_weight_def iso_sys_set_vq_rate_def iso_sys_delete_txc_def
      iso_sys_delete_vq_def iso_sys_recompute_dev_def iso_sys_assoc_txc_vq_def set_handler_def delete_handler_def
      down_interruptible_def sscanf_short EINVAL_def simp del: scanf.simps scanf_item.simps lits_simps)

lemma locked_out:
  assumes "\<not> config_mutex s" "\<forall>(name, val) \<in> set cs. length val < 128"
  shows "\<exists>rs. module_params K cs s = Some (rs, s) \<and> length rs = length cs \<and> (\<forall>r \<in> set rs. r < 0)"
  using assms(2)
proof (induction cs)
  case (Cons c cs)
  obtain name val where c: "c = (name, val)" by fastforce
  obtain rs where rs: "module_params K cs s = Some (rs, s)" "length rs = length cs" "\<forall>r \<in> set rs. r < 0"
    using Cons by auto
  obtain r where "r < 0" "module_param K name val s = Some (r, s)"
    using locked_param [OF assms(1)] Cons.prems c by force
  then show ?case using rs c by (intro exI [of _ "r # rs"]) simp
qed simp

section \<open>Deletion of a class\<close>

text \<open>What the free functions touch.\<close>

definition frees :: "'z tx_mem_scheme \<Rightarrow> 'z tx_mem_scheme \<Rightarrow> bool" where
  "frees s s' \<longleftrightarrow> s'\<lparr>rls := rls s, states := states s, txcs := txcs s, vqs := vqs s\<rparr> = s"

lemma frees_refl [simp]: "frees s s"
  by (simp add: frees_def)

lemma frees_fields:
  assumes "frees s s'"
  shows "txctxs s' = txctxs s" "tun s' = tun s" "clock s' = clock s" "ticks s' = ticks s" "trylocks s' = trylocks s"
    "nlocks s' = nlocks s"
proof -
  let ?s = "s'\<lparr>rls := rls s, states := states s, txcs := txcs s, vqs := vqs s\<rparr>"
  have e: "?s = s" using assms by (simp add: frees_def)
  show "txctxs s' = txctxs s" "tun s' = tun s" "clock s' = clock s" "ticks s' = ticks s" "trylocks s' = trylocks s"
    "nlocks s' = nlocks s"
    using arg_cong [OF e, of txctxs] arg_cong [OF e, of tun] arg_cong [OF e, of clock] arg_cong [OF e, of ticks]
      arg_cong [OF e, of trylocks] arg_cong [OF e, of nlocks] by simp_all
qed

lemma frees_steps:
  assumes "frees s u"
  shows "iso_rl_free p u = Some u' \<Longrightarrow> frees s u'" "iso_state_free i u = Some u' \<Longrightarrow> frees s u'"
    "recompute_class W t u = Some u' \<Longrightarrow> frees s u'"
  using assms
  by (auto simp: frees_def iso_rl_free_def iso_state_free_def recompute_class_def Let_def split: Option.bind_splits)

lemma recompute_frees: "iso_txc_recompute_rates d s = Some s' \<Longrightarrow> frees s s'"
  by (rule recompute_inv [where I = "frees s", OF frees_steps(3) frees_refl])

lemma bind_SomeE:
  assumes "x \<bind> f = Some y"
  obtains a where "x = Some a" "f a = Some y"
  using assms by (cases x) simp_all

lemma frees_folds:
  assumes "frees s u"
  shows "foldM iso_rl_free ps u = Some u' \<Longrightarrow> frees s u'" "foldM iso_state_free ns u = Some u' \<Longrightarrow> frees s u'"
  by (rule foldM_inv [where I = "frees s", OF frees_steps(1) assms], assumption+)
    (rule foldM_inv [where I = "frees s", OF frees_steps(2) assms], assumption+)

lemma txc_free_spec:
  assumes "iso_txc_free t s = Some s'"
  shows "frees s s'" "txcs s' t = None"
proof -
  obtain txc :: iso_tx_class and s1 s2 s3 s4 s5 where f: "foldM iso_rl_free (concat (map (rl_bucket txc) [0..<ISO_MAX_RL_BUCKETS])) s = Some s1"
      "foldM iso_state_free (concat (map (state_bucket txc) [0..<ISO_MAX_STATE_BUCKETS])) s1 = Some s2"
      "foldM iso_rl_free (prealloc_rl_list txc) s2 = Some s3" "foldM iso_state_free (prealloc_state_list txc) s3 = Some s4"
    and r: "(case txc_vq txc of None \<Rightarrow> Some s4
      | Some v \<Rightarrow> do { vq \<leftarrow> vqs s4 v; Some (put_vq v (vq\<lparr>vq_refcnt := s32 (vq_refcnt vq - 1)\<rparr>) s4) }) = Some s5"
      "Some (s5\<lparr>rls := (rls s5)(TxcRl t := None), txcs := (txcs s5)(t := None)\<rparr>) = Some s'"
    using assms unfolding iso_txc_free_def by (elim bind_SomeE) (rule that, assumption+)
  have "frees s s4" using frees_folds(2) [OF frees_folds(1) [OF frees_folds(2) [OF frees_folds(1) [OF frees_refl f(1)] f(2)] f(3)] f(4)] .
  moreover have "s5 = s4 \<or> (\<exists>x. s5 = s4\<lparr>vqs := x\<rparr>)"
    using r(1) by (auto split: option.splits Option.bind_splits)
  ultimately have "frees s s5" by (auto simp: frees_def)
  then show "frees s s'" "txcs s' t = None" using r(2) by (auto simp: frees_def)
qed

lemma tick_dangling:
  "t \<in> set ts \<Longrightarrow> txcs s t = None \<Longrightarrow> foldM (tick_class dt rate) ts s = None"
proof (induction ts arbitrary: s)
  case (Cons x ts)
  show ?case
  proof (cases "tick_class dt rate x s")
    case (Some s1)
    then have "x \<noteq> t" using Cons.prems(2) by (auto simp: tick_class_def)
    moreover from this have "txcs s1 t = None"
      using Some Cons.prems(2) by (auto simp: tick_class_def Let_def split: Option.bind_splits)
    ultimately show ?thesis using Some Cons by auto
  qed simp
qed simp

lemma tick_oops:
  assumes "tick_due d s" "txctxs s d = Some ctx" "t \<in> set (txc_list ctx)" "txcs s t = None"
  shows "iso_txc_tick d s = None"
proof (rule ccontr)
  assume "iso_txc_tick d s \<noteq> None"
  then obtain s' where "iso_txc_tick d s = Some s'" by blast
  then obtain s1 dt w where "foldM (tick_class dt w) (txc_list ctx) s1 = Some s'" "txcs s1 = txcs s"
    using assms(1,2)
    by (auto simp: iso_txc_tick_def iso_txctx_accum_def tick_due_def ktime_get_def spin_trylock_def Let_def
        split: Option.bind_splits if_splits)
  then show False using tick_dangling [OF assms(3), of s1 dt w] assms(4) by simp
qed

lemma delete_dangles:
  assumes tab: "tx_table d s" and due: "tick_due d s" and del: "delete_txc K d k s = Some (0, s')"
  shows "iso_txc_tick d s' = None"
proof -
  obtain t txc ctx s2 where f: "iso_txc_find K k d s = Some (Some t)" "txcs s t = Some txc" "txctxs s d = Some ctx"
    "iso_txc_recompute_rates d (put_txctx d (ctx\<lparr>iso_tx_bucket := (iso_tx_bucket ctx)(txc_index K (txc_klass txc) :=
        remove1 t (iso_tx_bucket ctx (txc_index K (txc_klass txc)))),
      txc_total_weight := s32 (txc_total_weight ctx - txc_weight txc)\<rparr>) s) = Some s2"
      (is "iso_txc_recompute_rates d (put_txctx d ?ctx s) = _")
    "iso_txc_free t s2 = Some s'"
    using del by (auto simp: delete_txc_def Let_def EINVAL_def split: Option.bind_splits option.splits)
  have "t \<in> set (txc_list ctx)"
    using hlist_find_SomeD [of "txc_has_class k s" "iso_tx_bucket ctx (txc_index K k)" t] f(1,3)
      tx_okD(2) [of d s ctx] tab by (auto simp: iso_txc_find_def tx_table_def)
  note e = frees_fields [OF recompute_frees [OF f(4)]] frees_fields [OF txc_free_spec(1) [OF f(5)]]
  have "tick_due d s'" using due f(3) by (simp add: tick_due_def e)
  moreover have "txctxs s' d = Some ?ctx" by (simp add: e)
  ultimately show ?thesis
    by (rule tick_oops [where t = t]) (use \<open>t \<in> set (txc_list ctx)\<close> txc_free_spec(2) [OF f(5)] in simp_all)
qed

end
