(* ===== verification/Tenants.thy ===== *)
theory Tenants
  imports ConfigLaws
begin

text \<open>
  A tenant from the command line to the tables of the module: the commands that \<open>pi.py\<close> gives, the
  handlers of \<open>src/params.c\<close> behind them, and the operations on classes and virtual queues. Each command
  keeps the device in service.
\<close>

section \<open>What the operations do not touch\<close>

definition tx_frame :: "'z tx_mem_scheme \<Rightarrow> 'z tx_mem_scheme \<Rightarrow> bool" where
  "tx_frame s s' \<longleftrightarrow> s'\<lparr>ticks := ticks s, nallocs := nallocs s, fresh := fresh s, rls := rls s, states := states s,
     txcs := txcs s, txctxs := txctxs s\<rparr> = s"

definition vq_frame :: "'z vq_mem_scheme \<Rightarrow> 'z vq_mem_scheme \<Rightarrow> bool" where
  "vq_frame s s' \<longleftrightarrow> s'\<lparr>ticks := ticks s, nallocs := nallocs s, fresh := fresh s, vqs := vqs s, rxctxs := rxctxs s\<rparr> = s"

lemma tx_frame_refl [simp]: "tx_frame s s"
  by (simp add: tx_frame_def)

lemma vq_frame_refl [simp]: "vq_frame s s"
  by (simp add: vq_frame_def)

lemma tx_frame_steps:
  assumes "tx_frame s u"
  shows "tx_frame s (u\<lparr>ticks := a\<rparr>)" "tx_frame s (u\<lparr>nallocs := a\<rparr>)" "tx_frame s (u\<lparr>fresh := a\<rparr>)" "tx_frame s (u\<lparr>rls := b\<rparr>)"
    "tx_frame s (u\<lparr>states := c\<rparr>)" "tx_frame s (u\<lparr>txcs := e\<rparr>)" "tx_frame s (u\<lparr>txctxs := f\<rparr>)"
  using assms by (simp_all add: tx_frame_def)

lemma vq_frame_steps:
  assumes "vq_frame s u"
  shows "vq_frame s (u\<lparr>ticks := a\<rparr>)" "vq_frame s (u\<lparr>nallocs := a\<rparr>)" "vq_frame s (u\<lparr>fresh := a\<rparr>)"
    "vq_frame s (u\<lparr>vqs := b\<rparr>)" "vq_frame s (u\<lparr>rxctxs := c\<rparr>)"
  using assms by (simp_all add: vq_frame_def)

lemma recompute_frame:
  assumes "tx_frame s u" "iso_txc_recompute_rates d u = Some u'"
  shows "tx_frame s u'"
  by (rule recompute_inv [where I = "tx_frame s", OF _ assms])
    (auto simp: recompute_class_def Let_def tx_frame_steps split: Option.bind_splits)

lemma prealloc_frame: "tx_frame s u \<Longrightarrow> iso_txc_prealloc t n u = Some u' \<Longrightarrow> tx_frame s u'"
proof (induction n arbitrary: u)
  case (Suc n)
  from Suc.prems show ?case
    by (auto simp: kmalloc_def alloc_percpu_def iso_state_init_def iso_rc_init_def iso_rl_init_def ktime_get_def Let_def
        tx_frame_steps split: Option.bind_splits if_splits prod.splits elim!: Suc.IH [rotated])
qed simp

lemma txc_alloc_frame:
  assumes "iso_txc_alloc K k d s = Some (r, s')"
  shows "tx_frame s s'"
proof (cases "allocs s (nallocs s)")
  case True
  then obtain s2 s3 txc ctx where "iso_txc_init (fresh s) d k (s\<lparr>nallocs := Suc (nallocs s), fresh := Suc (fresh s)\<rparr>) = Some s2"
    and s3: "iso_txc_prealloc (fresh s) 32 s2 = Some s3"
    and s': "iso_txc_recompute_rates d (put_txctx d ctx s3) = Some s'"
    using assms by (auto simp: iso_txc_alloc_def kmalloc_def Let_def split: Option.bind_splits)
  then have "tx_frame s s2"
    by (auto simp: iso_txc_init_def iso_rl_init_def ktime_get_def alloc_percpu_def Let_def tx_frame_steps split: Option.bind_splits if_splits)
  from recompute_frame [OF tx_frame_steps(7) [OF prealloc_frame [OF this s3]] s'] show ?thesis .
qed (use assms in \<open>auto simp: iso_txc_alloc_def kmalloc_def tx_frame_steps\<close>)

lemma txc_install_frame: "txc_install_class K k d s = Some (r, s') \<Longrightarrow> tx_frame s s'"
  by (auto simp: txc_install_class_def dest: txc_alloc_frame split: Option.bind_splits if_splits)

lemma rates_frame:
  assumes "vq_frame s u" "iso_vq_calculate_rates d u = Some u'"
  shows "vq_frame s u'"
proof -
  have f: "vq_frame s u'" if "foldM (set_share w) vs u = Some u'" "vq_frame s u" for vs w u u'
    by (rule foldM_inv [where I = "vq_frame s", OF _ that(2,1)])
      (auto simp: set_share_def Let_def vq_frame_steps split: Option.bind_splits if_splits)
  show ?thesis using assms f by (auto simp: iso_vq_calculate_rates_def Let_def split: Option.bind_splits if_splits)
qed

lemma vq_install_frame:
  assumes "vq_install_class K k d s = Some (r, s')"
  shows "vq_frame s s'"
proof -
  have "vq_frame s s'" if "iso_vq_alloc K k d s = Some (r, s')" for r s'
  proof -
    obtain e vq where "iso_vq_init (vq_raw d (garbage s (Suc (nallocs s)))) (s\<lparr>nallocs := Suc (nallocs s), fresh := Suc (fresh s)\<rparr>) =
        (e, vq, s\<lparr>nallocs := Suc (Suc (nallocs s)), fresh := Suc (fresh s), ticks := Suc (ticks s)\<rparr>)"
      using vq_init_spec [of "vq_raw d (garbage s (Suc (nallocs s)))" "s\<lparr>nallocs := Suc (nallocs s), fresh := Suc (fresh s)\<rparr>"]
      by auto
    then show ?thesis
      using that by (auto simp: iso_vq_alloc_def kmalloc_def Let_def vq_frame_steps split: Option.bind_splits if_splits
          elim!: rates_frame [rotated])
  qed
  then show ?thesis using assms by (auto simp: vq_install_class_def split: Option.bind_splits if_splits)
qed

lemma tx_frame_fields:
  fixes s s' :: "'z sys_mem_scheme"
  assumes "tx_frame s s'"
  shows "netdevs s' = netdevs s" "eyeq_root s' = eyeq_root s" "config_mutex s' = config_mutex s" "allocs s' = allocs s"
    "vqs s' = vqs s" "rxctxs s' = rxctxs s"
proof -
  let ?s = "s'\<lparr>ticks := ticks s, nallocs := nallocs s, fresh := fresh s, rls := rls s, states := states s,
     txcs := txcs s, txctxs := txctxs s\<rparr>"
  have e: "?s = s" using assms by (simp add: tx_frame_def)
  show "netdevs s' = netdevs s" "eyeq_root s' = eyeq_root s" "config_mutex s' = config_mutex s" "allocs s' = allocs s"
    "vqs s' = vqs s" "rxctxs s' = rxctxs s"
    using arg_cong [OF e, of netdevs] arg_cong [OF e, of eyeq_root] arg_cong [OF e, of config_mutex] arg_cong [OF e, of allocs]
      arg_cong [OF e, of vqs] arg_cong [OF e, of rxctxs] by simp_all
qed

lemma vq_frame_fields:
  fixes s s' :: "'z sys_mem_scheme"
  assumes "vq_frame s s'"
  shows "netdevs s' = netdevs s" "eyeq_root s' = eyeq_root s" "config_mutex s' = config_mutex s" "allocs s' = allocs s"
    "txcs s' = txcs s" "txctxs s' = txctxs s"
proof -
  let ?s = "s'\<lparr>ticks := ticks s, nallocs := nallocs s, fresh := fresh s, vqs := vqs s, rxctxs := rxctxs s\<rparr>"
  have e: "?s = s" using assms by (simp add: vq_frame_def)
  show "netdevs s' = netdevs s" "eyeq_root s' = eyeq_root s" "config_mutex s' = config_mutex s" "allocs s' = allocs s"
    "txcs s' = txcs s" "txctxs s' = txctxs s"
    using arg_cong [OF e, of netdevs] arg_cong [OF e, of eyeq_root] arg_cong [OF e, of config_mutex] arg_cong [OF e, of allocs]
      arg_cong [OF e, of txcs] arg_cong [OF e, of txctxs] by simp_all
qed

section \<open>What the operations keep of classes and virtual queues\<close>

definition txc_same :: "'z tx_mem_scheme \<Rightarrow> 'z tx_mem_scheme \<Rightarrow> bool" where
  "txc_same s s' \<longleftrightarrow> (\<forall>x. map_option (\<lambda>c. c\<lparr>min_rate := 0\<rparr>) (txcs s' x) = map_option (\<lambda>c. c\<lparr>min_rate := 0\<rparr>) (txcs s x))"

lemma txc_sameD:
  assumes "txc_same s s'" "txcs s t = Some txc"
  obtains txc' where "txcs s' t = Some txc'" "txc_klass txc' = txc_klass txc" "txc_weight txc' = txc_weight txc"
    "txc_vq txc' = txc_vq txc" "txc_is_static txc' = txc_is_static txc" "max_rate txc' = max_rate txc"
proof -
  have "map_option (\<lambda>c. c\<lparr>min_rate := 0\<rparr>) (txcs s' t) = Some (txc\<lparr>min_rate := 0\<rparr>)" using assms by (simp add: txc_same_def)
  then obtain txc' where t: "txcs s' t = Some txc'" and e: "txc'\<lparr>min_rate := 0\<rparr> = txc\<lparr>min_rate := 0\<rparr>"
    by (auto simp: map_option_eq_Some)
  show thesis
    using that [OF t] arg_cong [OF e, of txc_klass] arg_cong [OF e, of txc_weight] arg_cong [OF e, of txc_vq]
      arg_cong [OF e, of txc_is_static] arg_cong [OF e, of max_rate] by simp
qed

lemma recompute_same:
  assumes "iso_txc_recompute_rates d s = Some s'"
  shows "txc_same s s'" "txctxs s' = txctxs s"
proof -
  have step: "txc_same s u'" if "txc_same s u" "recompute_class W t u = Some u'" for W t u u'
  proof -
    have "txc_same u u'" using that(2) by (auto simp: txc_same_def recompute_class_def Let_def split: Option.bind_splits)
    then show ?thesis using that(1) by (simp add: txc_same_def)
  qed
  show "txc_same s s'"
    by (rule recompute_inv [where I = "txc_same s", OF step _ assms]) (assumption | simp add: txc_same_def)+
qed (use recompute_step [OF assms] in simp)

text \<open>A new class has no virtual queue.\<close>

lemma prealloc_no_vq:
  "iso_txc_prealloc t n s = Some s' \<Longrightarrow> map_option txc_vq (txcs s t) = x \<Longrightarrow> map_option txc_vq (txcs s' t) = x"
proof (induction n arbitrary: s)
  case (Suc n)
  from Suc.prems show ?case
    by (auto simp: kmalloc_def alloc_percpu_def iso_state_init_def iso_rc_init_def iso_rl_init_def ktime_get_def Let_def
        split: Option.bind_splits if_splits prod.splits dest!: Suc.IH)
qed simp

lemma txc_alloc_no_vq:
  assumes "iso_txc_alloc K k d s = Some (Some t, s')"
  shows "map_option txc_vq (txcs s' t) = Some None"
proof -
  obtain s2 s3 ctx where t: "t = fresh s"
    and s2: "iso_txc_init t d k (s\<lparr>nallocs := Suc (nallocs s), fresh := Suc (fresh s)\<rparr>) = Some s2"
    and s3: "iso_txc_prealloc t 32 s2 = Some s3" and s': "iso_txc_recompute_rates d (put_txctx d ctx s3) = Some s'"
    using assms by (auto simp: iso_txc_alloc_def kmalloc_def Let_def split: Option.bind_splits if_splits)
  have "map_option txc_vq (txcs s2 t) = Some None"
    using s2 by (auto simp: iso_txc_init_def txc_new_def iso_rl_init_def ktime_get_def alloc_percpu_def Let_def split: Option.bind_splits if_splits)
  then obtain txc where txc: "txcs s3 t = Some txc" "txc_vq txc = None" using prealloc_no_vq [OF s3] by auto
  obtain txc' where "txcs s' t = Some txc'" "txc_vq txc' = txc_vq txc"
    using txc_sameD [OF recompute_same(1) [OF s'], of t txc] txc(1) by auto
  then show ?thesis using txc(2) by simp
qed

lemma txc_install_no_vq:
  assumes "tx_table d s" "txc_install_class K k d s = Some (0, s')" "iso_txc_find K k d s' = Some (Some t)"
  shows "map_option txc_vq (txcs s' t) = Some None"
proof -
  obtain t' where "iso_txc_alloc K k d s = Some (Some t', s')"
    using assms(2) by (auto simp: txc_install_class_def split: Option.bind_splits if_splits)
  moreover from tx_alloc_find [OF assms(1) this, of k] have "t' = t" using assms(3) by simp
  ultimately show ?thesis using txc_alloc_no_vq by blast
qed

lemma txc_find_cong:
  assumes "map_option iso_tx_bucket (txctxs s' d) = map_option iso_tx_bucket (txctxs s d)"
    "\<And>t. map_option txc_klass (txcs s' t) = map_option txc_klass (txcs s t)"
  shows "iso_txc_find K k d s' = iso_txc_find K k d s"
proof -
  have "txc_has_class k s' = txc_has_class k s" by (rule ext) (rule txc_has_class_cong [OF assms(2)])
  then show ?thesis using assms(1) by (auto simp: iso_txc_find_def map_option_eq_Some split: Option.bind_splits)
qed

definition vq_alike :: "'z vq_mem_scheme \<Rightarrow> 'z vq_mem_scheme \<Rightarrow> bool" where
  "vq_alike s s' \<longleftrightarrow> (\<forall>x. map_option (\<lambda>c. c\<lparr>vq_rate := 0\<rparr>) (vqs s' x) = map_option (\<lambda>c. c\<lparr>vq_rate := 0\<rparr>) (vqs s x))"

lemma vq_alikeD:
  assumes "vq_alike s s'" "vqs s t = Some vq"
  obtains vq' where "vqs s' t = Some vq'" "vq_klass vq' = vq_klass vq" "vq_weight vq' = vq_weight vq"
    "vq_is_static vq' = vq_is_static vq"
proof -
  have "map_option (\<lambda>c. c\<lparr>vq_rate := 0\<rparr>) (vqs s' t) = Some (vq\<lparr>vq_rate := 0\<rparr>)" using assms by (simp add: vq_alike_def)
  then obtain vq' where t: "vqs s' t = Some vq'" and e: "vq'\<lparr>vq_rate := 0\<rparr> = vq\<lparr>vq_rate := 0\<rparr>"
    by (auto simp: map_option_eq_Some)
  show thesis
    using that [OF t] arg_cong [OF e, of vq_klass] arg_cong [OF e, of vq_weight] arg_cong [OF e, of vq_is_static] by simp
qed

lemma rates_alike:
  assumes "iso_vq_calculate_rates d s = Some s'"
  shows "vq_alike s s'" "rxctxs s' = rxctxs s"
proof -
  let ?I = "\<lambda>u. vq_alike s u \<and> rxctxs u = rxctxs s"
  have "?I u'" if "foldM (set_share w) vs s = Some u'" for vs w u'
  proof (rule foldM_inv [where I = ?I, OF _ _ that])
    fix x u u' assume I: "?I u" and st: "set_share w x u = Some u'"
    from st have "vq_alike u u' \<and> rxctxs u' = rxctxs u"
      by (auto simp: vq_alike_def set_share_def Let_def split: Option.bind_splits if_splits)
    with I show "?I u'" by (simp add: vq_alike_def)
  qed (simp add: vq_alike_def)
  then have "?I s'"
    using assms by (auto simp: iso_vq_calculate_rates_def Let_def vq_alike_def split: Option.bind_splits if_splits)
  then show "vq_alike s s'" "rxctxs s' = rxctxs s" by simp_all
qed

lemma vq_alike_klass: "vq_alike s s' \<Longrightarrow> map_option vq_klass (vqs s' v) = map_option vq_klass (vqs s v)"
proof -
  assume "vq_alike s s'"
  then have "map_option vq_klass (map_option (\<lambda>c. c\<lparr>vq_rate := 0\<rparr>) (vqs s' v)) =
      map_option vq_klass (map_option (\<lambda>c. c\<lparr>vq_rate := 0\<rparr>) (vqs s v))" by (simp add: vq_alike_def)
  then show ?thesis by (simp add: option.map_comp comp_def)
qed

lemma vq_find_cong:
  assumes "map_option vq_bucket (rxctxs s' d) = map_option vq_bucket (rxctxs s d)"
    "\<And>v. map_option vq_klass (vqs s' v) = map_option vq_klass (vqs s v)"
  shows "iso_vq_find K k d s' = iso_vq_find K k d s"
proof -
  have "vq_has_class k s' = vq_has_class k s" by (rule ext) (rule vq_has_class_cong [OF assms(2)])
  then show ?thesis using assms(1) by (auto simp: iso_vq_find_def map_option_eq_Some split: Option.bind_splits)
qed

section \<open>The commands on a device in service\<close>

definition served :: "string \<Rightarrow> dev \<Rightarrow> 'z sys_mem_scheme \<Rightarrow> bool" where
  "served dev d s \<longleftrightarrow> dp_ok d s \<and> enabled_dev dev s = Some d \<and> allocs s = (\<lambda>_. True) \<and> config_mutex s"

definition env_same :: "'z sys_mem_scheme \<Rightarrow> 'z sys_mem_scheme \<Rightarrow> bool" where
  "env_same s s' \<longleftrightarrow> netdevs s' = netdevs s \<and> eyeq_root s' = eyeq_root s \<and> allocs s' = allocs s"

lemma env_same_frames: "tx_frame s s' \<Longrightarrow> env_same s s'" "vq_frame s s' \<Longrightarrow> env_same s s'"
  by (simp_all add: env_same_def tx_frame_fields vq_frame_fields)

abbreviation locked :: "'z sys_mem_scheme \<Rightarrow> 'z sys_mem_scheme" where
  "locked s \<equiv> s\<lparr>config_mutex := False\<rparr>"

lemma dp_ok_config: "dp_ok d s \<Longrightarrow> dp_ok d (s\<lparr>config_mutex := b\<rparr>)"
  using tx_table_fresh [of d s "s\<lparr>config_mutex := b\<rparr>"] rx_ok_cong [of d s "s\<lparr>config_mutex := b\<rparr>"] by (simp add: dp_ok_def)

lemma find_config [simp]:
  "iso_txc_find K k d (s\<lparr>config_mutex := b\<rparr>) = iso_txc_find K k d s"
  "iso_vq_find K k d (s\<lparr>config_mutex := b\<rparr>) = iso_vq_find K k d s"
  by (rule txc_find_cong vq_find_cong; simp)+

lemma commit:
  assumes "served dev d s" "body (locked s) = Some (r, u)" "dp_step d (locked s) u" "env_same (locked s) u"
  shows "in_config body s = Some (r, up_config u)" "served dev d (up_config u)"
proof -
  show "in_config body s = Some (r, up_config u)" using assms(2) by (simp add: in_config_def)
  have "dp_ok d (up_config u)" unfolding up_config_def by (rule dp_ok_config) (rule dp_step_ok(1) [OF assms(3)])
  then show "served dev d (up_config u)"
    using assms(1,4) by (simp add: served_def env_same_def up_config_def enabled_dev_def iso_search_netdev_def iso_enabled_def)
qed

lemma find_up [simp]: "iso_txc_find K k d (up_config s) = iso_txc_find K k d s" "iso_vq_find K k d (up_config s) = iso_vq_find K k d s"
  by (simp_all add: up_config_def)

lemma create_txc_step:
  assumes s: "served dev d s" and dev: "is_word dev" and new: "iso_txc_find K k d s = Some None"
  shows "\<exists>s' t. iso_sys_create_txc K (echo (''dev '' @ dev @ '' '' @ iso_class_show k)) s = Some (0, s') \<and> served dev d s' \<and>
    iso_txc_find K k d s' = Some (Some t) \<and> map_option txc_vq (txcs s' t) = Some None \<and>
    iso_vq_find K k d s' = iso_vq_find K k d s"
proof -
  have ok: "dp_ok d (locked s)" "allocs (locked s) = (\<lambda>_. True)" using s dp_ok_config [of d s False] by (simp_all add: served_def)
  then have tab: "tx_table d (locked s)" by (simp add: dp_ok_def)
  obtain u where u: "txc_install_class K k d (locked s) = Some (0, u)"
    using tx_install_succeeds [OF tab _ ok(2), of K k] new by auto
  then have st: "dp_step d (locked s) u" using txc_install_step [OF ok, of K k] by auto
  note f = txc_install_frame [OF u]
  have b: "einval (iso_txc_install K (iso_class_show k) d (locked s)) = Some (0, u)"
    using u by (simp add: einval_def iso_txc_install_def iso_txc_mark_install_def class_parse_show)
  have "iso_sys_create_txc K (echo (''dev '' @ dev @ '' '' @ iso_class_show k)) s =
      in_config (\<lambda>s. einval (iso_txc_install K (iso_class_show k) d s)) s"
    using create_cmd(1) [of s dev d "iso_class_show k" K] s dev class_word(1,2) [of k] by (simp add: served_def is_word_def)
  moreover note commit [where body = "\<lambda>s. einval (iso_txc_install K (iso_class_show k) d s)", OF s b st env_same_frames(1) [OF f]]
  moreover obtain t where "iso_txc_find K k d u = Some (Some t)" "map_option txc_vq (txcs u t) = Some None"
    using tx_classes.install_result(3) [OF tab u] txc_install_no_vq [OF tab u] by auto
  moreover have "iso_vq_find K k d u = iso_vq_find K k d (locked s)"
    by (rule vq_find_cong) (simp_all only: tx_frame_fields [OF f])
  ultimately show ?thesis by (auto simp: up_config_def)
qed

lemma create_vq_step:
  assumes s: "served dev d s" and dev: "is_word dev" and new: "iso_vq_find K k d s = Some None"
  shows "\<exists>s' v. iso_sys_create_vq K (echo (''dev '' @ dev @ '' '' @ iso_class_show k)) s = Some (0, s') \<and> served dev d s' \<and>
    iso_vq_find K k d s' = Some (Some v) \<and> iso_txc_find K k d s' = iso_txc_find K k d s \<and> txcs s' = txcs s"
proof -
  have ok: "dp_ok d (locked s)" "allocs (locked s) = (\<lambda>_. True)" using s dp_ok_config [of d s False] by (simp_all add: served_def)
  then have tab: "vq_table d (locked s)" using rx_ok_table [of d "locked s"] by (simp add: dp_ok_def)
  obtain r u where ru: "vq_install_class K k d (locked s) = Some (r, u)" and st: "dp_step d (locked s) u"
    using vq_install_step [OF ok, of K k] by blast
  have "r = 0"
    using ru new ok(2)
    by (auto simp: vq_install_class_def iso_vq_alloc_def kmalloc_def Let_def split: Option.bind_splits prod.splits)
  then have u: "vq_install_class K k d (locked s) = Some (0, u)" using ru by simp
  note f = vq_install_frame [OF u]
  have b: "einval (iso_vq_install K (iso_class_show k) d (locked s)) = Some (0, u)"
    using u by (simp add: einval_def iso_vq_install_def class_parse_show)
  have "iso_sys_create_vq K (echo (''dev '' @ dev @ '' '' @ iso_class_show k)) s =
      in_config (\<lambda>s. einval (iso_vq_install K (iso_class_show k) d s)) s"
    using create_cmd(2) [of s dev d "iso_class_show k" K] s dev class_word(1,2) [of k] by (simp add: served_def is_word_def)
  moreover note commit [where body = "\<lambda>s. einval (iso_vq_install K (iso_class_show k) d s)", OF s b st env_same_frames(2) [OF f]]
  moreover obtain v where "iso_vq_find K k d u = Some (Some v)" using vq_classes.install_result(3) [OF tab u] by auto
  moreover have "iso_txc_find K k d u = iso_txc_find K k d (locked s)"
    by (rule txc_find_cong) (simp_all only: vq_frame_fields [OF f])
  moreover have "txcs (up_config u) = txcs s" using vq_frame_fields(5) [OF f] by (simp add: up_config_def)
  ultimately show ?thesis by auto
qed

lemma associate_step:
  assumes s: "served dev d s" and dev: "is_word dev" and t: "iso_txc_find K k d s = Some (Some t)" "map_option txc_vq (txcs s t) = Some None"
    and v: "iso_vq_find K k' d s = Some (Some v)"
  shows "\<exists>s'. iso_sys_assoc_txc_vq K (echo (''dev '' @ dev @ '' associate txc '' @ iso_class_show k @ '' vq '' @ iso_class_show k')) s =
      Some (0, s') \<and> served dev d s' \<and> map_option txc_vq (txcs s' t) = Some (Some v) \<and>
    iso_txc_find K x d s' = iso_txc_find K x d s \<and> iso_vq_find K x d s' = iso_vq_find K x d s"
proof -
  have ok: "dp_ok d (locked s)" using s dp_ok_config [of d s False] by (simp_all add: served_def)
  obtain txc where txc: "txcs s t = Some txc" "txc_vq txc = None" using t(2) by auto
  obtain vq where vq: "vqs s v = Some vq" "vq_ready vq" using vq_find_live [OF ok, of K k'] v by auto
  let ?u = "put_txc t (txc\<lparr>txc_vq := Some v\<rparr>) (locked s)"
  let ?vq = "vq\<lparr>vq_refcnt := s32 (vq_refcnt vq + 1)\<rparr>"
  have 1: "dp_step d (locked s) ?u"
    by (rule dp_step_tx [OF ok tx_step_put_txc]) (use txc(1) in \<open>simp_all add: same_links_def\<close>)
  have "vq_ready ?vq" using vq(2) by (simp add: vq_ready_def)
  then have 2: "dp_step d ?u (put_vq v ?vq ?u)"
    by (intro dp_step_put_vq [OF dp_step_ok(1) [OF 1], where vq = vq]) (use vq(1) in simp_all)
  have b: "map_option (\<lambda>s. (0, s)) (associate t v (locked s)) = Some (0, put_vq v ?vq ?u)"
    using txc vq(1) by (simp add: associate_def vq_refcnt_add_def)
  define u where "u = put_vq v ?vq ?u"
  have "env_same (locked s) u" by (simp add: env_same_def u_def)
  note c = commit [where body = "\<lambda>s. map_option (\<lambda>s. (0, s)) (associate t v s)", OF s b dp_step_trans [OF 1 2], folded u_def, OF this]
  have "iso_txc_find K x d u = iso_txc_find K x d s" "iso_vq_find K x d u = iso_vq_find K x d s"
    unfolding u_def by (rule txc_find_cong vq_find_cong; use txc(1) vq(1) in simp)+
  moreover have "map_option txc_vq (txcs (up_config u) t) = Some (Some v)" by (simp add: u_def up_config_def)
  moreover have "iso_sys_assoc_txc_vq K (echo (''dev '' @ dev @ '' associate txc '' @ iso_class_show k @ '' vq '' @ iso_class_show k')) s =
      in_config (\<lambda>s. map_option (\<lambda>s. (0, s)) (associate t v s)) s"
    by (rule associate_cmd) (use s dev t v class_word(1) in \<open>simp_all add: served_def class_parse_show\<close>)
  ultimately show ?thesis using c by (intro exI [of _ "up_config u"]) simp
qed

lemma set_txc_weight_spec:
  fixes s s' :: "'z sys_mem_scheme"
  assumes "iso_txc_find K k d s = Some (Some t)" "0 \<le> w" "w \<le> 1024" "set_txc_weight K d k w s = Some (r, s')"
  shows "r = 0" "tx_frame s s'" "map_option txc_weight (txcs s' t) = Some w"
    "map_option txc_vq (txcs s' t) = map_option txc_vq (txcs s t)" "iso_txc_find K x d s' = iso_txc_find K x d s"
    "iso_vq_find K x d s' = iso_vq_find K x d s"
proof -
  obtain txc ctx n where f: "r = 0" "txcs s t = Some txc" "txctxs s d = Some ctx"
    "iso_txc_recompute_rates d (put_txctx d (ctx\<lparr>txc_total_weight := n\<rparr>) (put_txc t (txc\<lparr>txc_weight := w\<rparr>) s)) = Some s'"
      (is "iso_txc_recompute_rates d ?u = _")
    using assms by (auto simp: set_txc_weight_def Let_def split: Option.bind_splits)
  show "r = 0" by (rule f(1))
  note same = recompute_same [OF f(4)]
  show fr: "tx_frame s s'" by (rule recompute_frame [OF _ f(4)]) (simp add: tx_frame_steps)
  obtain txc' where "txcs s' t = Some txc'" "txc_weight txc' = w" "txc_vq txc' = txc_vq txc"
    using txc_sameD [OF same(1), of t "txc\<lparr>txc_weight := w\<rparr>"] by auto
  then show "map_option txc_weight (txcs s' t) = Some w" "map_option txc_vq (txcs s' t) = map_option txc_vq (txcs s t)"
    using f(2) by simp_all
  have "map_option txc_klass (txcs s' y) = map_option txc_klass (txcs ?u y)" for y
    using recompute_klass [OF f(4), of y] by simp
  then show "iso_txc_find K x d s' = iso_txc_find K x d s"
    by (intro txc_find_cong) (use same(2) f(2,3) in simp_all)
  show "iso_vq_find K x d s' = iso_vq_find K x d s"
    by (rule vq_find_cong) (simp_all only: tx_frame_fields [OF fr])
qed

lemma set_vq_weight_spec:
  fixes s s' :: "'z sys_mem_scheme"
  assumes "iso_vq_find K k d s = Some (Some v)" "0 \<le> w" "w \<le> 1024" "set_vq_weight K d k w s = Some (r, s')"
  shows "r = 0" "vq_frame s s'" "map_option vq_weight (vqs s' v) = Some (of_int w)"
    "iso_txc_find K x d s' = iso_txc_find K x d s" "iso_vq_find K x d s' = iso_vq_find K x d s"
proof -
  obtain vq where f: "r = 0" "vqs s v = Some vq" "iso_vq_calculate_rates d (put_vq v (vq\<lparr>vq_weight := of_int w\<rparr>) s) = Some s'"
      (is "iso_vq_calculate_rates d ?u = _")
    using assms by (auto simp: set_vq_weight_def split: Option.bind_splits)
  show "r = 0" by (rule f(1))
  note same = rates_alike [OF f(3)]
  show fr: "vq_frame s s'" by (rule rates_frame [OF _ f(3)]) (simp add: vq_frame_steps)
  obtain vq' where "vqs s' v = Some vq'" "vq_weight vq' = of_int w"
    using vq_alikeD [OF same(1), of v "vq\<lparr>vq_weight := of_int w\<rparr>"] by auto
  then show "map_option vq_weight (vqs s' v) = Some (of_int w)" by simp
  have "map_option vq_klass (vqs s' y) = map_option vq_klass (vqs ?u y)" for y
    by (rule vq_alike_klass [OF same(1)])
  then show "iso_vq_find K x d s' = iso_vq_find K x d s"
    by (intro vq_find_cong) (use same(2) f(2) in simp_all)
  show "iso_txc_find K x d s' = iso_txc_find K x d s"
    by (rule txc_find_cong) (simp_all only: vq_frame_fields [OF fr])
qed

lemma txc_weight_step:
  assumes s: "served dev d s" and dev: "is_word dev" and t: "iso_txc_find K k d s = Some (Some t)" and n: "n \<le> 1024"
  shows "\<exists>s'. iso_sys_set_txc_weight K (echo (''dev '' @ dev @ '' '' @ iso_class_show k @ '' weight '' @ dec n)) s = Some (0, s') \<and>
    served dev d s' \<and> map_option txc_weight (txcs s' t) = Some (int n) \<and> map_option txc_vq (txcs s' t) = map_option txc_vq (txcs s t) \<and>
    iso_txc_find K x d s' = iso_txc_find K x d s \<and> iso_vq_find K x d s' = iso_vq_find K x d s"
proof -
  have ok: "dp_ok d (locked s)" using s dp_ok_config [of d s False] by (simp_all add: served_def)
  obtain r u where u: "set_txc_weight K d k (int n) (locked s) = Some (r, u)" "dp_step d (locked s) u"
    using set_txc_weight_step [OF ok] by blast
  note spec = set_txc_weight_spec [where s = "locked s", OF _ _ _ u(1), of t, simplified, OF t n]
  have "iso_sys_set_txc_weight K (echo (''dev '' @ dev @ '' '' @ iso_class_show k @ '' weight '' @ dec n)) s =
      in_config (set_txc_weight K d (iso_class_parse (iso_class_show k)) (int n)) s"
    unfolding iso_sys_set_txc_weight_def
    using set_handler_cmd [where s = s and dev = dev and d = d and klass = "iso_class_show k" and n = n and kw = "''weight''" and body = "set_txc_weight K"] s dev n class_word(1) [of k]
    by (simp add: served_def)
  then show ?thesis
    using commit [where body = "set_txc_weight K d k (int n)", OF s u env_same_frames(1) [OF spec(2)]] spec
    by (intro exI [of _ "up_config u"]) (simp add: class_parse_show, simp add: up_config_def)
qed

lemma vq_weight_step:
  assumes s: "served dev d s" and dev: "is_word dev" and v: "iso_vq_find K k d s = Some (Some v)" and n: "0 < n" "n \<le> 1024"
  shows "\<exists>s'. iso_sys_set_vq_weight K (echo (''dev '' @ dev @ '' '' @ iso_class_show k @ '' weight '' @ dec n)) s = Some (0, s') \<and>
    served dev d s' \<and> map_option vq_weight (vqs s' v) = Some (of_nat n) \<and> txcs s' = txcs s \<and>
    iso_txc_find K x d s' = iso_txc_find K x d s \<and> iso_vq_find K x d s' = iso_vq_find K x d s"
proof -
  have ok: "dp_ok d (locked s)" using s dp_ok_config [of d s False] by (simp_all add: served_def)
  obtain r u where u: "set_vq_weight K d k (int n) (locked s) = Some (r, u)" "dp_step d (locked s) u"
    using set_vq_weight_step [OF ok, of "int n" K k] n by auto
  note spec = set_vq_weight_spec [where s = "locked s", OF _ _ _ u(1), of v, simplified, OF v n(2)]
  have "iso_sys_set_vq_weight K (echo (''dev '' @ dev @ '' '' @ iso_class_show k @ '' weight '' @ dec n)) s =
      in_config (set_vq_weight K d (iso_class_parse (iso_class_show k)) (int n)) s"
    unfolding iso_sys_set_vq_weight_def
    using set_handler_cmd [where s = s and dev = dev and d = d and klass = "iso_class_show k" and n = n and kw = "''weight''" and body = "set_vq_weight K"] s dev n class_word(1) [of k]
    by (simp add: served_def)
  then show ?thesis
    using commit [where body = "set_vq_weight K d k (int n)", OF s u env_same_frames(2) [OF spec(2)]] spec vq_frame_fields(5) [OF spec(2)]
    by (intro exI [of _ "up_config u"]) (simp add: class_parse_show, simp add: up_config_def)
qed

section \<open>The flow of pi.py\<close>

lemma echo_cmd:
  assumes "module_param K name (echo str) s = Some (0, s')"
  shows "cmd (module_os K tc links) (Echo str name) T (Some s) = Done 0 T (Some s')"
  using assms by (simp add: cmd_def module_os_def)

lemma module_params [simp]:
  "module_param K ''create_txc'' = iso_sys_create_txc K" "module_param K ''create_vq'' = iso_sys_create_vq K"
  "module_param K ''assoc_txc_vq'' = iso_sys_assoc_txc_vq K" "module_param K ''set_txc_weight'' = iso_sys_set_txc_weight K"
  "module_param K ''set_vq_weight'' = iso_sys_set_vq_weight K"
  by (simp_all add: module_param_def fun_eq_iff)

lemma tenant_steps:
  assumes s: "served dev d s" and dev: "is_word dev" and n: "0 < n" "n \<le> 1024"
    and new: "iso_txc_find K k d s = Some None" "iso_vq_find K k d s = Some None"
    and tool: "is_netdev dev links = Some True" "ISO_CREATED T dev" "iso_class_show k \<notin> set (txcs_dev T dev)"
      "iso_class_show k \<notin> set (vqs_dev T dev)"
  shows "\<exists>s' t v. create_or_change (module_os K tc links) True dev (iso_class_show k) (dec n) None T (Some s) = Done 0 T (Some s') \<and>
    served dev d s' \<and> iso_txc_find K k d s' = Some (Some t) \<and> iso_vq_find K k d s' = Some (Some v) \<and>
    map_option txc_weight (txcs s' t) = Some (int n) \<and> map_option txc_vq (txcs s' t) = Some (Some v) \<and>
    map_option vq_weight (vqs s' v) = Some (of_nat n)"
proof -
  let ?X = "module_os K tc links"
  obtain s1 t where s1: "module_param K ''create_txc'' (echo (''dev '' @ dev @ '' '' @ iso_class_show k)) s = Some (0, s1)" "served dev d s1"
    "iso_txc_find K k d s1 = Some (Some t)" "map_option txc_vq (txcs s1 t) = Some None" "iso_vq_find K k d s1 = Some None"
    using create_txc_step [OF s dev new(1)] new(2) by auto
  obtain s2 v where s2: "module_param K ''create_vq'' (echo (''dev '' @ dev @ '' '' @ iso_class_show k)) s1 = Some (0, s2)" "served dev d s2"
    "iso_vq_find K k d s2 = Some (Some v)" "iso_txc_find K k d s2 = Some (Some t)" "map_option txc_vq (txcs s2 t) = Some None"
    using create_vq_step [OF s1(2) dev s1(5)] s1(3,4) by auto
  obtain s3 where s3: "module_param K ''assoc_txc_vq'' (echo (''dev '' @ dev @ '' associate txc '' @ iso_class_show k @ '' vq '' @ iso_class_show k)) s2 =
      Some (0, s3)" "served dev d s3" "map_option txc_vq (txcs s3 t) = Some (Some v)" "iso_txc_find K k d s3 = Some (Some t)"
    "iso_vq_find K k d s3 = Some (Some v)"
    using associate_step [OF s2(2) dev s2(4,5,3), of k] s2(3,4) by auto
  obtain s4 where s4: "module_param K ''set_txc_weight'' (echo (''dev '' @ dev @ '' '' @ iso_class_show k @ '' weight '' @ dec n)) s3 =
      Some (0, s4)" "served dev d s4" "map_option txc_weight (txcs s4 t) = Some (int n)" "map_option txc_vq (txcs s4 t) = Some (Some v)"
    "iso_txc_find K k d s4 = Some (Some t)" "iso_vq_find K k d s4 = Some (Some v)"
    using txc_weight_step [OF s3(2) dev s3(4) n(2), of k] s3(3-5) by auto
  obtain s5 where s5: "module_param K ''set_vq_weight'' (echo (''dev '' @ dev @ '' '' @ iso_class_show k @ '' weight '' @ dec n)) s4 =
      Some (0, s5)" "served dev d s5" "map_option vq_weight (vqs s5 v) = Some (of_nat n)" "txcs s5 = txcs s4"
    "iso_txc_find K k d s5 = Some (Some t)" "iso_vq_find K k d s5 = Some (Some v)"
    using vq_weight_step [OF s4(2) dev s4(6) n, of k] s4(5,6) by auto
  note runs = s1(1) s2(1) s3(1) s4(1) s5(1)
  have "ip_link_show ?X w = links" for w by (simp add: module_os_def)
  then have "create_or_change ?X True dev (iso_class_show k) (dec n) None T (Some s) = Done 0 T (Some s5)"
    using tool runs [THEN echo_cmd, of tc links T]
    by (simp add: create_or_change_def txc_create_def vq_create_def ensure_def txc_associate_def txc_set_weight_def vq_set_weight_def)
  then show ?thesis using s5 s4(3,4) by auto
qed

end
