(* ===== verification/StatsLaws.thy ===== *)
theory StatsLaws
  imports StatsParser
begin

text \<open>
  The round trip of the statistics: what \<open>iso_stats_proc_seq_show\<close> prints, \<open>stats\<close> of
  \<open>src/tools/perfiso.py\<close> reads back.
\<close>

section \<open>Words in a line\<close>

definition solid :: "string \<Rightarrow> bool" where
  "solid w \<longleftrightarrow> w \<noteq> [] \<and> (\<forall>c \<in> set w. \<not> is_space c)"

lemma is_word_solid: "is_word w \<Longrightarrow> solid w"
  by (simp add: is_word_def solid_def)

lemma solid_dec [simp]: "solid (dec n)"
  using dec_nonempty [of n] dec_digits [of n] digit_no_space by (auto simp: solid_def)

lemma solid_append: "solid v \<Longrightarrow> solid w \<Longrightarrow> solid (v @ w)"
  by (auto simp: solid_def)

lemma solid_dec_int [simp]: "solid (dec_int n)"
  using solid_dec [of "nat n"] solid_dec [of "nat (- n)"] by (auto simp: dec_int_def solid_def is_space_def)

lemma solid_class [simp]: "solid (iso_class_show k)"
  by (rule is_word_solid) (rule class_word)

lemma hex_digit_val: "n < 16 \<Longrightarrow> hex_val (hex_digit n) = Some n"
  by (auto simp: hex_val_def hex_digit_def is_digit_def digit_def digit_val_def)

lemma hex_digit_space: "n < 16 \<Longrightarrow> \<not> is_space (hex_digit n)"
proof -
  assume "n < 16"
  then have "48 \<le> (of_char (hex_digit n) :: nat)" by (simp add: hex_digit_def digit_def)
  then show ?thesis by (auto simp: is_space_def)
qed

lemma solid_hex [simp]: "solid (hex n)"
proof (induction n rule: hex.induct)
  case (1 n)
  then show ?case by (subst hex.simps) (auto simp: solid_def hex_digit_space)
qed

lemma hex_int_append: "hex_int acc (xs @ ys) = hex_int acc xs \<bind> (\<lambda>n. hex_int n ys)"
  by (induction xs arbitrary: acc) (auto split: Option.bind_splits)

lemma hex_int_hex: "hex_int 0 (hex n) = Some n"
proof (induction n rule: hex.induct)
  case (1 n)
  then show ?case by (subst hex.simps) (auto simp: hex_int_append hex_digit_val)
qed

definition ip_text :: "u32 \<Rightarrow> string" where
  "ip_text a = dec (unat (octet 3 a)) @ ''.'' @ dec (unat (octet 2 a)) @ ''.'' @ dec (unat (octet 1 a)) @ ''.'' @
     dec (unat (octet 0 a))"

lemma unat_octet: "unat (octet i a) = unat a div 2 ^ (8 * i) mod 256"
proof -
  have "unat a < 2 ^ LENGTH(32)" by (rule unsigned_less)
  then have "take_bit 32 (unat a) = unat a" by (simp add: take_bit_nat_eq_self_iff)
  then have "unat (octet i a) = take_bit 8 (drop_bit (8 * i) (unat a))"
    by (simp add: octet_def unsigned_take_bit_eq unsigned_drop_bit_eq)
  then show ?thesis by (simp add: take_bit_eq_mod drop_bit_eq_div)
qed

lemma IP_hex: "IP (hex (unat a)) = Some (ip_text a)"
proof -
  have "unat a < 2 ^ LENGTH(32)" by (rule unsigned_less)
  moreover from this have "unat a div 2 ^ 24 mod 256 = unat a div 2 ^ 24" by (simp add: less_mult_imp_div_less)
  moreover have "hex (unat a) \<noteq> []" using solid_hex by (simp add: solid_def del: solid_hex)
  ultimately show ?thesis by (simp add: IP_def hex_int_hex ip_text_def unat_octet)
qed

text \<open>A line is a sequence of words, each followed by white space.\<close>

definition words :: "(string \<times> string) list \<Rightarrow> string" where
  "words ws = concat (map (\<lambda>(w, sp). w @ sp) ws)"

definition spaced :: "(string \<times> string) list \<Rightarrow> bool" where
  "spaced ws = list_all (\<lambda>(w, sp). solid w \<and> sp \<noteq> [] \<and> list_all is_space sp) ws"

lemma skip_solid: "solid w \<Longrightarrow> skip_spaces (w @ r) = w @ r"
  by (cases w) (simp_all add: solid_def skip_spaces_def)

lemma skip_all: "list_all is_space sp \<Longrightarrow> skip_spaces (sp @ r) = skip_spaces r"
  by (induction sp) (simp_all add: skip_spaces_def)

lemma split_word:
  assumes "solid w" "is_space c"
  shows "re_spaces_split (w @ c # r) = w # re_spaces_split (skip_spaces r)"
proof -
  have "takeWhile (\<lambda>c. \<not> is_space c) (w @ c # r) = w" using assms by (simp add: solid_def)
  then show ?thesis using assms(2) by (subst re_spaces_split.simps) (simp add: Let_def skip_spaces_def)
qed

lemma split_words:
  "spaced ws \<Longrightarrow> ws \<noteq> [] \<Longrightarrow> re_spaces_split (words ws @ r) = map fst ws @ re_spaces_split (skip_spaces r)"
proof (induction ws)
  case (Cons e ws)
  obtain w sp where e: "e = (w, sp)" by fastforce
  obtain c sp' where sp: "sp = c # sp'" "is_space c" "list_all is_space sp'" "solid w"
    using Cons.prems(1) e by (cases sp) (simp_all add: spaced_def)
  have s: "re_spaces_split (w @ c # sp' @ x) = w # re_spaces_split (skip_spaces x)" for x
    using split_word [OF sp(4,2), of "sp' @ x"] skip_all [OF sp(3), of x] by simp
  show ?case
  proof (cases ws)
    case Nil
    then show ?thesis by (simp add: e words_def sp(1) s)
  next
    case (Cons e2 ws2)
    then have "spaced ws" "solid (fst e2)" using Cons.prems(1) by (auto simp: spaced_def split_beta)
    moreover from this have "skip_spaces (words ws @ r) = words ws @ r"
      using skip_solid [of "fst e2"] Cons by (simp add: words_def split_beta)
    ultimately show ?thesis using Cons.IH Cons by (simp add: e words_def sp(1) s)
  qed
qed simp

lemma split_line: "spaced ws \<Longrightarrow> ws \<noteq> [] \<Longrightarrow> re_spaces_split (words ws) = map fst ws @ [[]]"
  using split_words [of ws "[]"] by (simp add: skip_spaces_def re_spaces_split.simps)

lemma solid_Cons: "solid (c # w) \<longleftrightarrow> \<not> is_space c \<and> (w = [] \<or> solid w)"
  by (auto simp: solid_def)

lemma item_simps [simp]: "item (x # xs) 0 = Some x" "item (x # xs) (Suc n) = item xs n"
  "item (x # xs) (numeral k) = item xs (pred_numeral k)" "item (x # xs) 1 = item xs 0"
  by (simp_all add: item_def)

section \<open>Splitting at a character\<close>

lemma take_until: "c \<notin> set w \<Longrightarrow> takeWhile (\<lambda>x. x \<noteq> c) (w @ c # r) = w" "c \<notin> set w \<Longrightarrow> takeWhile (\<lambda>x. x \<noteq> c) w = w"
  by (induction w) auto

lemma split_at_here: "c \<notin> set w \<Longrightarrow> split_at c (Suc n) (w @ c # r) = w # split_at c n r"
  by (simp add: Let_def take_until)

lemma split_at_last: "c \<notin> set w \<Longrightarrow> split_at c n w = [w]"
  by (cases n) (simp_all add: Let_def take_until)

lemma split_all_first:
  assumes "c \<notin> set w"
  shows "item (split_all c (w @ c # r)) 0 = Some w"
  using assms by (simp add: split_all_def split_at_here del: split_at.simps)

lemma split_all_second:
  assumes "c \<notin> set w" "c \<notin> set v"
  shows "item (split_all c (w @ c # v)) 1 = Some v" "item (split_all c (w @ c # v @ c # r)) 1 = Some v"
  using assms by (simp_all add: split_all_def split_at_here split_at_last del: split_at.simps)

lemma solid_no_space: "solid w \<Longrightarrow> is_space c \<Longrightarrow> c \<notin> set w"
  by (auto simp: solid_def)

lemma no_comma_dec: "CHR '','' \<notin> set (dec n)"
  using dec_digits [of n] digit_no_space by blast

section \<open>The lines\<close>

abbreviation nl :: "string \<Rightarrow> string" where "nl l \<equiv> l @ [CHR 0x0A]"

definition txc_obj :: "string \<Rightarrow> iso_tx_class \<Rightarrow> iso_rl \<Rightarrow> py_rl list \<Rightarrow> py_txc" where
  "txc_obj vqc txc rl ls = \<lparr>pt_klass = iso_class_show (txc_klass txc), pt_rls = ls, pt_rate = dec (unat (rl_rate rl)),
     pt_tx_rate = dec (unat (tx_rate_smooth txc)), pt_min_rate = dec (unat (min_rate txc)),
     pt_weight = dec_int (txc_weight txc), pt_assoc = vqc\<rparr>"

definition rl_obj :: "iso_rl \<Rightarrow> py_rl" where
  "rl_obj rl = \<lparr>pr_dst = ip_text (rl_ip rl), pr_rate = dec (unat (rl_rate rl))\<rparr>"

definition vq_obj :: "iso_vq \<Rightarrow> py_vq" where
  "vq_obj vq = \<lparr>pv_klass = iso_class_show (vq_klass vq), pv_rate = dec (unat (vq_rate vq)),
     pv_rx_rate = dec (unat (vq_rx_rate vq)), pv_fb_rate = dec (unat (feedback_rate vq)),
     pv_alpha = dec (unat (vq_alpha vq)) @ ''/1024'', pv_weight = dec (unat (vq_weight vq))\<rparr>"

lemma startswith_simps [simp]:
  "startswith line []" "startswith (c # line) (d # p) \<longleftrightarrow> c = d \<and> startswith line p" "\<not> startswith [] (d # p)"
  by (auto simp: startswith_def)

lemma step_quiet:
  assumes "c \<notin> set ''trhv''"
  shows "parse_step f (c # line) st = Some st"
  using assms by (simp add: parse_step_def)

lemma more_spaces [simp]: "\<not> is_space (CHR ''x'')" "\<not> is_space (CHR ''c'')" "\<not> is_space (CHR ''l'')" "\<not> is_space (CHR ''s'')"
  "\<not> is_space (CHR ''e'')" "\<not> is_space (CHR ''i'')" "\<not> is_space (CHR ''g'')" "\<not> is_space (CHR ''h'')" "\<not> is_space (CHR ''o'')"
  "\<not> is_space (CHR ''q'')" "\<not> is_space (CHR ''f'')" "\<not> is_space (CHR ''_'')" "\<not> is_space (CHR ''m'')" "\<not> is_space (CHR ''n'')"
  "\<not> is_space (CHR ''u'')" "\<not> is_space (CHR ''d'')" "\<not> is_space (CHR ''p'')" "\<not> is_space (CHR ''k'')" "\<not> is_space (CHR ''b'')"
  "\<not> is_space (CHR ''-'')" "\<not> is_space (CHR ''/'')" "\<not> is_space (CHR '','')" "\<not> is_space (CHR ''1'')" "\<not> is_space (CHR ''0'')"
  "\<not> is_space (CHR ''2'')" "\<not> is_space (CHR ''4'')"
  by (simp_all add: is_space_def)

lemma toks_txc:
  assumes "solid vqc"
  shows "re_spaces_split (nl (txc_line vqc txc)) = [''txc'', ''class'', iso_class_show (txc_klass txc), ''weight'',
    dec_int (txc_weight txc), ''assoc'', ''vq'', vqc, ''freelist'', dec_int (freelist_count txc), []]"
  using split_line [of "[(''txc'', '' ''), (''class'', '' ''), (iso_class_show (txc_klass txc), ''   ''), (''weight'', '' ''),
    (dec_int (txc_weight txc), ''   ''), (''assoc'', '' ''), (''vq'', '' ''), (vqc, ''   ''), (''freelist'', '' ''),
    (dec_int (freelist_count txc), [CHR 0x0A])]"] assms
  by (simp add: words_def spaced_def solid_Cons txc_line_def)

lemma step_txc:
  assumes "solid vqc"
  shows "parse_step f (nl (txc_line vqc txc)) st = Some (st\<lparr>all_txcs := all_txcs st @
      [txc_obj vqc txc rl []\<lparr>pt_rate := [], pt_tx_rate := [], pt_min_rate := []\<rparr>],
    p_txc := Some (length (all_txcs st)), p_rl_parse := False\<rparr>)"
proof -
  obtain r where r: "nl (txc_line vqc txc) = ''txc class'' @ r" by (simp add: txc_line_def)
  have "parse_step f (nl (txc_line vqc txc)) st = on_txc (nl (txc_line vqc txc)) st"
    unfolding r by (simp add: parse_step_def Let_def)
  then show ?thesis by (simp add: on_txc_def toks_txc [OF assms] txc_obj_def)
qed

lemma toks_txc_rl:
  "re_spaces_split (nl (txc_rl_line txc rl)) = [''txc'', ''rl'', ''tx_rate'',
    dec (unat (txc_tx_rate txc)) @ CHR '','' # dec (unat (tx_rate_smooth txc)), ''rate'', dec (unat (rl_rate rl)), ''min_rate'',
    dec (unat (min_rate txc)), ''xmit'', dec (unat (accum_xmit rl)), ''queued'', dec (unat (accum_enqueued rl)), []]"
proof -
  have "solid (dec a @ CHR '','' # dec b)" for a b using solid_append [of "dec a" "CHR '','' # dec b"] by (simp add: solid_Cons)
  then show ?thesis
    using split_line [of "[(''txc'', '' ''), (''rl'', '' ''), (''tx_rate'', '' ''),
      (dec (unat (txc_tx_rate txc)) @ CHR '','' # dec (unat (tx_rate_smooth txc)), ''   ''), (''rate'', '' ''),
      (dec (unat (rl_rate rl)), ''   ''), (''min_rate'', '' ''), (dec (unat (min_rate txc)), ''   ''), (''xmit'', '' ''),
      (dec (unat (accum_xmit rl)), ''   ''), (''queued'', '' ''), (dec (unat (accum_enqueued rl)), [CHR 0x0A])]"]
    by (simp add: words_def spaced_def solid_Cons txc_rl_line_def)
qed

lemma step_txc_rl:
  assumes "p_txc st = Some t" "p_dev st = Some i"
  shows "parse_step f (nl (txc_rl_line txc rl)) st = Some (st\<lparr>
    all_txcs := (all_txcs st)[t := (all_txcs st ! t)\<lparr>pt_min_rate := dec (unat (min_rate txc)),
      pt_rate := dec (unat (rl_rate rl)), pt_tx_rate := dec (unat (tx_rate_smooth txc))\<rparr>],
    all_devs := (all_devs st)[i := (all_devs st ! i)\<lparr>pd_txcs := pd_txcs (all_devs st ! i) @ [t]\<rparr>]\<rparr>)"
proof -
  obtain r where r: "nl (txc_rl_line txc rl) = ''txc rl'' @ r" by (simp add: txc_rl_line_def)
  have "parse_step f (nl (txc_rl_line txc rl)) st = on_txc_rl (nl (txc_rl_line txc rl)) st"
    unfolding r by (simp add: parse_step_def Let_def)
  moreover have "item (split_all (CHR '','') (dec a @ CHR '','' # dec b)) 1 = Some (dec b)" for a b
    by (rule split_all_second(1)) (rule no_comma_dec)+
  ultimately show ?thesis using assms by (simp add: on_txc_rl_def toks_txc_rl Let_def)
qed

lemma step_limiters: "parse_step f (nl ''rate limiters:'') st = Some (st\<lparr>p_rl_parse := True\<rparr>)"
  by (simp add: parse_step_def Let_def)

lemma step_hash:
  assumes "p_txc st = Some t" "p_rl_parse st"
  shows "parse_step f (nl (''hash '' @ dec i @ '' '' @ rl_line pp p rl)) st = Some (st\<lparr>
    all_txcs := (all_txcs st)[t := (all_txcs st ! t)\<lparr>pt_rls := pt_rls (all_txcs st ! t) @ [rl_obj rl]\<rparr>]\<rparr>)"
proof -
  let ?l = "nl (''hash '' @ dec i @ '' '' @ rl_line pp p rl)"
  let ?r = "''total_tokens '' @ dec (unat (total_tokens rl)) @ ''   last '' @
    hex (unat (of_int (last_update_time rl) :: u64)) @ ''   '' @ pp p @ [CHR 0x0A]"
  let ?ws = "[(''hash'', '' ''), (dec i, '' ''), (''ip'', '' ''), (hex (unat (rl_ip rl)), ''   ''), (''rate'', '' ''),
    (dec (unat (rl_rate rl)), ''   '')]"
  have l: "?l = words ?ws @ ?r" by (simp add: words_def rl_line_def)
  have toks: "re_spaces_split ?l = map fst ?ws @ re_spaces_split (skip_spaces ?r)"
    unfolding l by (rule split_words) (simp_all add: spaced_def solid_Cons)
  obtain x where x: "?l = ''hash '' @ x" by simp
  have "parse_step f ?l st = on_hash ?l st"
    unfolding x using assms(2) by (simp add: parse_step_def Let_def on_hash_def split: Option.bind_split)
  then show ?thesis unfolding on_hash_def toks using assms(1) by (simp add: IP_hex rl_obj_def Let_def)
qed

lemma step_vqs:
  assumes "solid name"
  shows "parse_step f (nl (''vqs->dev '' @ name @ ''   '' @ r)) st = Some (st\<lparr>p_vq_dev := Some name\<rparr>)"
proof -
  have "item (split_all (CHR '' '') (''vqs->dev'' @ CHR '' '' # name @ CHR '' '' # ''  '' @ r @ [CHR 0x0A])) 1 = Some name"
    by (rule split_all_second(2)) (use assms solid_no_space [of name "CHR '' ''"] in simp_all)
  then show ?thesis by (simp add: parse_step_def Let_def on_vqs_def)
qed

lemma toks_vq:
  "re_spaces_split (nl (vq_line vq)) = [''vq'', ''class'', iso_class_show (vq_klass vq), ''flags'',
    dec (unat (vq_enabled vq)) @ CHR '','' # dec (unat (vq_is_static vq)), ''rate'', dec (unat (vq_rate vq)), ''rx_rate'',
    dec (unat (vq_rx_rate vq)), ''fb_rate'', dec (unat (feedback_rate vq)), ''alpha'', dec (unat (vq_alpha vq)) @ ''/1024'',
    ''backlog'', ''-'', ''weight'', dec (unat (vq_weight vq)), ''refcnt'', dec_int (vq_refcnt vq), []]"
proof -
  have "solid (dec a @ CHR '','' # dec b)" "solid (dec a @ ''/1024'')" for a b
    using solid_append [of "dec a" "CHR '','' # dec b"] solid_append [of "dec a" "''/1024''"] by (simp_all add: solid_Cons)
  then show ?thesis
    using split_line [of "[(''vq'', '' ''), (''class'', '' ''), (iso_class_show (vq_klass vq), ''   ''), (''flags'', '' ''),
      (dec (unat (vq_enabled vq)) @ CHR '','' # dec (unat (vq_is_static vq)), ''   ''), (''rate'', '' ''),
      (dec (unat (vq_rate vq)), ''  ''), (''rx_rate'', '' ''), (dec (unat (vq_rx_rate vq)), ''  ''), (''fb_rate'', '' ''),
      (dec (unat (feedback_rate vq)), ''  ''), (''alpha'', '' ''), (dec (unat (vq_alpha vq)) @ ''/1024'', ''   ''),
      (''backlog'', '' ''), (''-'', ''   ''), (''weight'', '' ''), (dec (unat (vq_weight vq)), ''   ''), (''refcnt'', '' ''),
      (dec_int (vq_refcnt vq), [CHR 0x0A])]"]
    by (simp add: words_def spaced_def solid_Cons vq_line_def)
qed

lemma step_vq:
  assumes "(case Option.bind (p_vq_dev st) (p_dev_by_name st) of None \<Rightarrow> p_dev st | Some i \<Rightarrow> Some i) = Some i"
  shows "parse_step f (nl (vq_line vq)) st = Some (st\<lparr>
    all_devs := (all_devs st)[i := (all_devs st ! i)\<lparr>pd_vqs := pd_vqs (all_devs st ! i) @ [vq_obj vq]\<rparr>]\<rparr>)"
proof -
  obtain r where r: "nl (vq_line vq) = ''vq class'' @ r" by (simp add: vq_line_def)
  have "parse_step f (nl (vq_line vq)) st = on_vq (nl (vq_line vq)) st"
    unfolding r by (simp add: parse_step_def Let_def)
  then show ?thesis using assms by (simp add: on_vq_def toks_vq vq_obj_def Let_def)
qed

lemma step_dev:
  assumes "solid name" "CHR '','' \<notin> set name"
  shows "parse_step f (nl (''tx->dev '' @ name @ '', tx_rate '' @ r)) st = (let st = close_dev f st in
    Some (st\<lparr>p_created := (p_created st)(name := True),
      all_devs := all_devs st @ [\<lparr>pd_dev = name, pd_txcs = [], pd_vqs = []\<rparr>],
      p_dev := Some (length (all_devs st)), p_rl_parse := False\<rparr>))"
proof -
  let ?l = "nl (''tx->dev '' @ name @ '', tx_rate '' @ r)"
  have "item (split_all (CHR '','') ((''tx->dev '' @ name) @ CHR '','' # '' tx_rate '' @ r @ [CHR 0x0A])) 0 = Some (''tx->dev '' @ name)"
    by (rule split_all_first) (use assms(2) in simp)
  moreover have "item (split_all (CHR '' '') (''tx->dev'' @ CHR '' '' # name)) 1 = Some name"
    by (rule split_all_second(1)) (use assms(1) solid_no_space [of name "CHR '' ''"] in simp_all)
  ultimately have "on_dev f ?l st = (let st = close_dev f st in
    Some (st\<lparr>p_created := (p_created st)(name := True),
      all_devs := all_devs st @ [\<lparr>pd_dev = name, pd_txcs = [], pd_vqs = []\<rparr>],
      p_dev := Some (length (all_devs st)), p_rl_parse := False\<rparr>))"
    by (simp add: on_dev_def Let_def)
  moreover have "parse_step f ?l st = on_dev f ?l st" by (simp add: parse_step_def Let_def on_dev_def split: Option.bind_split)
  ultimately show ?thesis by simp
qed

section \<open>The lines of a class\<close>

abbreviation run :: "string option \<Rightarrow> string list \<Rightarrow> parse \<Rightarrow> parse option" where
  "run f ls \<equiv> foldM (parse_step f) (map nl ls)"

definition quiet :: "string \<Rightarrow> bool" where
  "quiet l \<longleftrightarrow> l = [] \<or> hd l \<notin> set ''trhv''"

lemma step_quiet_line: "quiet l \<Longrightarrow> parse_step f (nl l) st = Some st"
  by (cases l) (use step_quiet [of _ f _ st] in \<open>auto simp: quiet_def\<close>)

lemma run_quiet: "list_all quiet ls \<Longrightarrow> run f ls st = Some st"
  by (induction ls) (simp_all add: step_quiet_line)

lemma show_all_list:
  assumes "\<And>x l. f x = Some l \<Longrightarrow> list_all P l"
  shows "show_all f xs = Some ls \<Longrightarrow> list_all P ls"
  using assms by (induction xs arbitrary: ls) (auto split: Option.bind_splits)

lemma quiet_tab: "quiet (tab @ l)" "quiet (CHR 0x09 # l)"
  by (simp_all add: quiet_def)

lemma rl_show_lines:
  assumes "iso_rl_show pp p s = Some ls"
  obtains rl rest where "rls s p = Some rl" "ls = rl_line pp p rl # rest" "list_all quiet ls"
proof -
  obtain rl cbs where rl: "rls s p = Some rl" "rlcbs s (rl_rlcb rl) = Some cbs"
    using assms by (auto simp: iso_rl_show_def split: Option.bind_splits)
  have "list_all quiet (rl_cpu_line p rl cbs c)" for c by (simp add: rl_cpu_line_def Let_def quiet_tab)
  then have "list_all quiet (concat (map (rl_cpu_line p rl cbs) cs))" for cs by (induction cs) simp_all
  moreover have "quiet (rl_line pp p rl)" by (simp add: quiet_def rl_line_def)
  ultimately show ?thesis using that assms rl by (auto simp: iso_rl_show_def quiet_tab)
qed

definition bucket_rls :: "'z rl_mem_scheme \<Rightarrow> iso_tx_class \<Rightarrow> nat \<Rightarrow> py_rl list" where
  "bucket_rls s txc i = (case rl_bucket txc i of [] \<Rightarrow> [] | p # ps \<Rightarrow> [rl_obj (the (rls s p))])"

lemma run_bucket:
  assumes "show_bucket pp txc s i = Some ls" "p_txc st = Some t" "p_rl_parse st"
  shows "run f ls st = Some (st\<lparr>all_txcs := (all_txcs st)[t := (all_txcs st ! t)\<lparr>
    pt_rls := pt_rls (all_txcs st ! t) @ bucket_rls s txc i\<rparr>]\<rparr>)"
proof (cases "rl_bucket txc i")
  case Nil
  then show ?thesis using assms(1) by (simp add: show_bucket_def bucket_rls_def)
next
  case (Cons p ps)
  then obtain l1 l2 where l: "iso_rl_show pp p s = Some l1" "show_all (\<lambda>p. iso_rl_show pp p s) ps = Some l2"
    using assms(1) by (auto simp: show_bucket_def split: Option.bind_splits)
  obtain rl rest where rl: "rls s p = Some rl" "l1 = rl_line pp p rl # rest" "list_all quiet l1"
    using rl_show_lines [OF l(1)] .
  have "list_all quiet l2" using show_all_list [OF _ l(2), of quiet] rl_show_lines by metis
  then have q: "list_all quiet (rest @ l2)" using rl by simp
  have "ls = (''hash '' @ dec i @ '' '' @ rl_line pp p rl) # rest @ l2"
    using assms(1) Cons l rl(2) by (simp add: show_bucket_def)
  then show ?thesis
    using step_hash [OF assms(2,3), of f i pp p rl] run_quiet [OF q] Cons rl(1) by (simp add: bucket_rls_def)
qed

lemma run_append: "run f (xs @ ys) st = run f xs st \<bind> run f ys"
  by (induction xs arbitrary: st) (auto split: Option.bind_splits)

lemma run_buckets:
  assumes "show_all (show_bucket pp txc s) is = Some ls" "p_txc st = Some t" "p_rl_parse st" "t < length (all_txcs st)"
  shows "run f ls st = Some (st\<lparr>all_txcs := (all_txcs st)[t := (all_txcs st ! t)\<lparr>
    pt_rls := pt_rls (all_txcs st ! t) @ concat (map (bucket_rls s txc) is)\<rparr>]\<rparr>)"
  using assms
proof (induction "is" arbitrary: ls st)
  case (Cons i "is")
  then obtain l1 l2 where l: "show_bucket pp txc s i = Some l1" "show_all (show_bucket pp txc s) is = Some l2" "ls = l1 @ l2"
    by (auto split: Option.bind_splits)
  show ?case
    unfolding l(3) run_append run_bucket [OF l(1) Cons.prems(2,3)]
    using Cons.IH [OF l(2)] Cons.prems by simp
qed simp

definition txc_report :: "'z tx_mem_scheme \<Rightarrow> nat \<Rightarrow> py_txc" where
  "txc_report s t = (let txc = the (txcs s t) in
     txc_obj (the (vq_name s txc)) txc (the (rls s (TxcRl t))) (concat (map (bucket_rls s txc) [0..<ISO_MAX_RL_BUCKETS])))"

lemma vq_name_solid: "vq_name s txc = Some vqc \<Longrightarrow> solid vqc"
  by (auto simp: vq_name_def solid_Cons is_space_def split: option.splits)

lemma run_txc:
  assumes out: "iso_txc_show pp s t = Some ls" and i: "p_dev st = Some i"
  shows "run f ls st = Some (st\<lparr>all_txcs := all_txcs st @ [txc_report s t],
    all_devs := (all_devs st)[i := (all_devs st ! i)\<lparr>pd_txcs := pd_txcs (all_devs st ! i) @ [length (all_txcs st)]\<rparr>],
    p_txc := Some (length (all_txcs st)), p_rl_parse := True\<rparr>)"
proof -
  obtain txc vqc rl own dests where o: "txcs s t = Some txc" "vq_name s txc = Some vqc" "rls s (TxcRl t) = Some rl"
    "iso_rl_show pp (TxcRl t) s = Some own" "show_all (show_bucket pp txc s) [0..<ISO_MAX_RL_BUCKETS] = Some dests"
    "ls = [txc_line vqc txc, txc_rl_line txc rl] @ own @ [[], ''rate limiters:''] @ dests @ [[]]"
    using out by (auto simp: iso_txc_show_def split: Option.bind_splits)
  have "list_all quiet own" using rl_show_lines [OF o(4)] by metis
  note q = run_quiet [OF this] step_quiet_line [of "[]", simplified]
  let ?n = "length (all_txcs st)"
  let ?dev = "(all_devs st)[i := (all_devs st ! i)\<lparr>pd_txcs := pd_txcs (all_devs st ! i) @ [?n]\<rparr>]"
  let ?st = "st\<lparr>all_txcs := all_txcs st @ [txc_obj vqc txc rl []], all_devs := ?dev, p_txc := Some ?n, p_rl_parse := True\<rparr>"
  let ?ls = "[txc_line vqc txc, txc_rl_line txc rl] @ own @ [[], ''rate limiters:'']"
  have 1: "run f ?ls st = Some ?st"
    using step_txc [OF vq_name_solid [OF o(2)], of f txc st rl] step_txc_rl i step_limiters
    by (cases st) (simp add: q foldM_append quiet_def txc_obj_def)
  have 2: "run f (dests @ [[]]) ?st = Some (st\<lparr>all_txcs := all_txcs st @ [txc_report s t], all_devs := ?dev,
      p_txc := Some ?n, p_rl_parse := True\<rparr>)"
    using run_buckets [OF o(5), of ?st ?n f] q(2)
    by (simp add: foldM_append txc_report_def o(1-3) txc_obj_def quiet_def)
  have "ls = ?ls @ dests @ [[]]" using o(6) by simp
  then show ?thesis using run_append [of f ?ls "dests @ [[]]" st] by (simp only: 1 2 bind.bind_lunit)
qed

section \<open>The lines of a device\<close>

text \<open>The devices read so far; the last one is still open.\<close>

definition view :: "parse \<Rightarrow> (string \<times> py_txc list \<times> py_vq list) list" where
  "view st = map (\<lambda>dev. (pd_dev dev, map ((!) (all_txcs st)) (pd_txcs dev), pd_vqs dev)) (all_devs st)"

definition pinv :: "parse \<Rightarrow> bool" where
  "pinv st \<longleftrightarrow> p_devs st = [0..<length (all_devs st) - 1] \<and>
     p_dev st = (if all_devs st = [] then None else Some (length (all_devs st) - 1)) \<and>
     distinct (map pd_dev (all_devs st)) \<and>
     (\<forall>n i. p_dev_by_name st n = Some i \<longleftrightarrow> i < length (all_devs st) - 1 \<and> pd_dev (all_devs st ! i) = n) \<and>
     (\<forall>dev \<in> set (all_devs st). \<forall>j \<in> set (pd_txcs dev). j < length (all_txcs st))"

lemma pinvD:
  assumes "pinv st"
  shows "p_devs st = [0..<length (all_devs st) - 1]"
    "p_dev st = (if all_devs st = [] then None else Some (length (all_devs st) - 1))" "distinct (map pd_dev (all_devs st))"
    "p_dev_by_name st n = Some i \<longleftrightarrow> i < length (all_devs st) - 1 \<and> pd_dev (all_devs st ! i) = n"
    "dev \<in> set (all_devs st) \<Longrightarrow> j \<in> set (pd_txcs dev) \<Longrightarrow> j < length (all_txcs st)"
  using assms by (auto simp: pinv_def)

lemma view_names: "map fst (view st) = map pd_dev (all_devs st)"
  by (simp add: view_def)

text \<open>More classes in the store do not change the devices.\<close>

lemma view_more:
  assumes "pinv st" "all_devs st' = all_devs st" "all_txcs st' = all_txcs st @ ts"
  shows "view st' = view st"
  using pinvD(5) [OF assms(1)] by (auto simp: view_def assms(2,3) nth_append)

lemma run_txcs:
  assumes "show_all (iso_txc_show pp s) ts = Some ls" "p_dev st = Some i" "i < length (all_devs st)"
  shows "\<exists>a b. run f ls st = Some (st\<lparr>all_txcs := all_txcs st @ map (txc_report s) ts,
    all_devs := (all_devs st)[i := (all_devs st ! i)\<lparr>pd_txcs := pd_txcs (all_devs st ! i) @
      [length (all_txcs st)..<length (all_txcs st) + length ts]\<rparr>], p_txc := a, p_rl_parse := b\<rparr>)"
  using assms
proof (induction ts arbitrary: ls st)
  case (Cons t ts)
  then obtain l1 l2 where l: "iso_txc_show pp s t = Some l1" "show_all (iso_txc_show pp s) ts = Some l2" "ls = l1 @ l2"
    by (auto split: Option.bind_splits)
  have u: "[n..<n + length (t # ts)] = n # [Suc n..<Suc n + length ts]" for n by (simp add: upt_rec del: upt_Suc)
  let ?st = "st\<lparr>all_txcs := all_txcs st @ [txc_report s t],
    all_devs := (all_devs st)[i := (all_devs st ! i)\<lparr>pd_txcs := pd_txcs (all_devs st ! i) @ [length (all_txcs st)]\<rparr>],
    p_txc := Some (length (all_txcs st)), p_rl_parse := True\<rparr>"
  show ?case
    unfolding l(3) run_append run_txc [OF l(1) Cons.prems(2)] bind.bind_lunit u
    using Cons.IH [OF l(2), of ?st] Cons.prems(2,3) by (simp del: upt_Suc)
next
  case Nil
  then show ?case by (intro exI [of _ "p_txc st"] exI [of _ "p_rl_parse st"]) simp
qed

text \<open>Opening a device closes the one before.\<close>

definition open_dev :: "string \<Rightarrow> parse \<Rightarrow> parse" where
  "open_dev name st = (let st = close_dev None st in
     st\<lparr>p_created := (p_created st)(name := True), all_devs := all_devs st @ [\<lparr>pd_dev = name, pd_txcs = [], pd_vqs = []\<rparr>],
        p_dev := Some (length (all_devs st)), p_rl_parse := False\<rparr>)"

lemma open_fields:
  "all_devs (open_dev name st) = all_devs st @ [\<lparr>pd_dev = name, pd_txcs = [], pd_vqs = []\<rparr>]"
  "all_txcs (open_dev name st) = all_txcs st" "p_dev (open_dev name st) = Some (length (all_devs st))"
  "p_created (open_dev name st) = (p_created st)(name := True)"
  by (auto simp: open_dev_def close_dev_def Let_def split: option.splits)

lemma open_pinv:
  assumes "pinv st" "name \<notin> set (map fst (view st))"
  shows "pinv (open_dev name st)" "view (open_dev name st) = view st @ [(name, [], [])]"
proof -
  note i = pinvD [OF assms(1)]
  have n: "name \<notin> set (map pd_dev (all_devs st))" using assms(2) unfolding view_names .
  have d: "p_devs (open_dev name st) = [0..<length (all_devs st)]"
    using i(1,2) by (cases "all_devs st" rule: rev_cases) (simp_all add: open_dev_def close_dev_def wanted_def)
  have b: "p_dev_by_name (open_dev name st) m = Some j \<longleftrightarrow> j < length (all_devs st) \<and> pd_dev (all_devs st ! j) = m" for m j
  proof (cases "all_devs st" rule: rev_cases)
    case Nil
    then show ?thesis using i(2) i(4) by (simp add: open_dev_def close_dev_def)
  next
    case (snoc ds x)
    then have "pd_dev (ds ! j) \<noteq> pd_dev x" if "j < length ds" for j
      using i(3) imageI [OF nth_mem [OF that], of pd_dev] snoc by auto
    then show ?thesis using i(2) i(4) snoc
      by (auto simp: open_dev_def close_dev_def wanted_def nth_append less_Suc_eq)
  qed
  show "pinv (open_dev name st)"
    unfolding pinv_def using i(3,5) n by (auto simp: open_fields d b nth_append)
  show "view (open_dev name st) = view st @ [(name, [], [])]" by (simp add: view_def open_fields)
qed

definition classes_of :: "'z tx_mem_scheme \<Rightarrow> dev \<Rightarrow> nat list" where
  "classes_of s d = concat (map (iso_tx_bucket (the (txctxs s d))) [0..<ISO_MAX_TX_BUCKETS])"

lemma run_txctx:
  assumes out: "show_txctx pp s d = Some ls" "netdev_name s d = Some name" and name: "solid name" "CHR '','' \<notin> set name"
    and st: "pinv st" "name \<notin> set (map fst (view st))"
  shows "\<exists>st'. run None ls st = Some st' \<and> pinv st' \<and> p_created st' = (p_created st)(name := True) \<and>
    view st' = view st @ [(name, map (txc_report s) (classes_of s d), [])]"
proof -
  obtain ctx l r where l: "txctxs s d = Some ctx" "show_all (iso_txc_show pp s) (classes_of s d) = Some l"
    "ls = (''tx->dev '' @ name @ '', tx_rate '' @ r) # l"
    using out by (auto simp: show_txctx_def classes_of_def split: Option.bind_splits)
  let ?o = "open_dev name st" and ?n = "length (all_devs st)" and ?t = "length (all_txcs st)"
  note i = pinvD [OF st(1)] and o = open_pinv [OF st] open_fields [of name st]
  have "run None ls st = run None l ?o"
    unfolding l(3) using step_dev [OF name, of None r st] by (simp add: open_dev_def Let_def)
  moreover obtain a b where r: "run None l ?o = Some (?o\<lparr>all_txcs := all_txcs ?o @ map (txc_report s) (classes_of s d),
    all_devs := (all_devs ?o)[?n := (all_devs ?o ! ?n)\<lparr>pd_txcs := pd_txcs (all_devs ?o ! ?n) @
      [length (all_txcs ?o)..<length (all_txcs ?o) + length (classes_of s d)]\<rparr>], p_txc := a, p_rl_parse := b\<rparr>)"
      (is "_ = Some ?st")
    using run_txcs [OF l(2), of ?o ?n None] o(3,5) by auto
  moreover have "all_devs ?st = all_devs st @ [\<lparr>pd_dev = name, pd_txcs = [?t..<?t + length (classes_of s d)], pd_vqs = []\<rparr>]"
    by (simp add: o(3,4))
  moreover have "map ((!) (xs @ ys)) [length xs..<length xs + length ys] = ys" for xs ys :: "py_txc list"
    by (rule nth_equalityI) simp_all
  from this [of "all_txcs st" "map (txc_report s) (classes_of s d)"]
  have "view ?st = view st @ [(name, map (txc_report s) (classes_of s d), [])]"
    using i(5) by (auto simp: view_def o(3,4) nth_append)
  moreover have "pinv ?st"
    using o(1) i(5) unfolding pinv_def by (auto simp: o(3-5) nth_append intro: trans_less_add1)
  ultimately show ?thesis using o(6) by (intro exI [of _ ?st]) simp
qed

lemma run_txctxs:
  assumes "show_all (show_txctx pp s) ds = Some ls" "pinv st" "distinct (map fst (view st) @ map name ds)"
    "\<And>d. d \<in> set ds \<Longrightarrow> netdev_name s d = Some (name d) \<and> solid (name d) \<and> CHR '','' \<notin> set (name d)"
  shows "\<exists>st'. run None ls st = Some st' \<and> pinv st' \<and>
    (\<forall>n. p_created st' n \<longleftrightarrow> p_created st n \<or> n \<in> name ` set ds) \<and>
    view st' = view st @ map (\<lambda>d. (name d, map (txc_report s) (classes_of s d), [])) ds"
  using assms
proof (induction ds arbitrary: ls st)
  case (Cons d ds)
  then obtain l1 l2 where l: "show_txctx pp s d = Some l1" "show_all (show_txctx pp s) ds = Some l2" "ls = l1 @ l2"
    by (auto split: Option.bind_splits)
  obtain st1 where st1: "run None l1 st = Some st1" "pinv st1" "p_created st1 = (p_created st)(name d := True)"
    "view st1 = view st @ [(name d, map (txc_report s) (classes_of s d), [])]"
    using run_txctx [OF l(1), of "name d" st] Cons.prems(2,3) Cons.prems(4) [of d] by auto
  have "distinct (map fst (view st1) @ map name ds)" using Cons.prems(3) st1(4) by auto
  then obtain st2 where "run None l2 st1 = Some st2" "pinv st2"
    "\<And>n. p_created st2 n \<longleftrightarrow> p_created st1 n \<or> n \<in> name ` set ds"
    "view st2 = view st1 @ map (\<lambda>d. (name d, map (txc_report s) (classes_of s d), [])) ds"
    using Cons.IH [OF l(2) st1(2)] Cons.prems(4) by auto
  then show ?case using st1 unfolding l(3) run_append by auto
qed simp

section \<open>The virtual queues\<close>

definition vq_report :: "'z vq_mem_scheme \<Rightarrow> dev \<Rightarrow> py_vq list" where
  "vq_report s d = map (\<lambda>v. vq_obj (the (vqs s v))) (vq_list (the (rxctxs s d)))"

lemma run_vqs:
  assumes "show_all (iso_vq_show s) vs = Some ls"
    "(case Option.bind (p_vq_dev st) (p_dev_by_name st) of None \<Rightarrow> p_dev st | Some i \<Rightarrow> Some i) = Some i"
    "i < length (all_devs st)"
  shows "run f ls st = Some (st\<lparr>all_devs := (all_devs st)[i := (all_devs st ! i)\<lparr>
    pd_vqs := pd_vqs (all_devs st ! i) @ map (\<lambda>v. vq_obj (the (vqs s v))) vs\<rparr>]\<rparr>)"
  using assms
proof (induction vs arbitrary: ls st)
  case (Cons v vs)
  then obtain l1 l2 where l: "iso_vq_show s v = Some l1" "show_all (iso_vq_show s) vs = Some l2" "ls = l1 @ l2"
    by (auto split: Option.bind_splits)
  obtain vq rest where vq: "vqs s v = Some vq" "l1 = vq_line vq # rest" "list_all quiet rest"
  proof -
    have "list_all quiet (concat (map (\<lambda>c. vq_cpu_line c (st c)) cs))" for st cs
      by (induction cs) (simp_all add: vq_cpu_line_def quiet_tab)
    then show ?thesis using that l(1) by (auto simp: iso_vq_show_def quiet_tab split: Option.bind_splits)
  qed
  let ?st = "st\<lparr>all_devs := (all_devs st)[i := (all_devs st ! i)\<lparr>pd_vqs := pd_vqs (all_devs st ! i) @ [vq_obj vq]\<rparr>]\<rparr>"
  have "run f l1 st = Some ?st"
    using step_vq [OF Cons.prems(2), of f vq] run_quiet [OF vq(3), of f] vq(2) by simp
  moreover have "run f l2 ?st = Some (?st\<lparr>all_devs := (all_devs ?st)[i := (all_devs ?st ! i)\<lparr>
    pd_vqs := pd_vqs (all_devs ?st ! i) @ map (\<lambda>v. vq_obj (the (vqs s v))) vs\<rparr>]\<rparr>)"
    using Cons.prems(2,3) by (intro Cons.IH [OF l(2)]) (simp_all cong: option.case_cong)
  ultimately show ?case using Cons.prems(3) vq(1) unfolding l(3) run_append by simp
qed simp

definition add_vqs :: "string \<Rightarrow> py_vq list \<Rightarrow> (string \<times> py_txc list \<times> py_vq list) list \<Rightarrow> (string \<times> py_txc list \<times> py_vq list) list" where
  "add_vqs name vs = map (\<lambda>(n, ts, vs'). (n, ts, if n = name then vs' @ vs else vs'))"

lemma run_rxctx:
  assumes out: "show_rxctx s d = Some ls" "netdev_name s d = Some name" "solid name"
    and st: "pinv st" "name \<in> set (map fst (view st))"
  shows "\<exists>st'. run f ls st = Some st' \<and> pinv st' \<and> p_created st' = p_created st \<and> view st' = add_vqs name (vq_report s d) (view st)"
proof -
  obtain ctx l r where l: "rxctxs s d = Some ctx" "show_all (iso_vq_show s) (vq_list ctx) = Some l"
    "ls = [] # (''vqs->dev '' @ name @ ''   '' @ r) # l"
    using out by (auto simp: show_rxctx_def split: Option.bind_splits)
  note i = pinvD [OF st(1)]
  obtain j where j: "j < length (all_devs st)" "pd_dev (all_devs st ! j) = name"
    using st(2) unfolding view_names by (auto simp: in_set_conv_nth)
  have u: "k = j" if "k < length (all_devs st)" "pd_dev (all_devs st ! k) = name" for k
    using nth_eq_iff_index_eq [OF i(3), of k j] that j by simp
  let ?st = "st\<lparr>p_vq_dev := Some name\<rparr>"
  have t: "(case Option.bind (p_vq_dev ?st) (p_dev_by_name ?st) of None \<Rightarrow> p_dev ?st | Some i \<Rightarrow> Some i) = Some j"
  proof (cases "j < length (all_devs st) - 1")
    case True
    then show ?thesis using i(4) [of name j] j by simp
  next
    case False
    have "p_dev_by_name st name \<noteq> Some k" for k using i(4) [of name k] u [of k] False by (auto dest: less_imp_diff_less simp: less_diff_conv)
    then have "p_dev_by_name st name = None" using not_None_eq by blast
    moreover have "j = length (all_devs st) - 1" using False j(1) by simp
    ultimately show ?thesis using i(2) j(1) by auto
  qed
  let ?devs = "(all_devs st)[j := (all_devs st ! j)\<lparr>pd_vqs := pd_vqs (all_devs st ! j) @ vq_report s d\<rparr>]"
  let ?st' = "?st\<lparr>all_devs := ?devs\<rparr>"
  have r: "run f ls st = Some ?st'"
    using run_vqs [OF l(2) t, of f] step_quiet_line [of "[]" f st] step_vqs [OF out(3), of f r st] j(1)
    by (simp add: l(1,3) quiet_def vq_report_def)
  have e: "pd_dev (?devs ! k) = pd_dev (all_devs st ! k)" "pd_txcs (?devs ! k) = pd_txcs (all_devs st ! k)" for k
    using j(1) by (cases "k = j"; simp)+
  then have n: "map pd_dev ?devs = map pd_dev (all_devs st)"
    by (intro nth_equalityI) simp_all
  have "view ?st' = add_vqs name (vq_report s d) (view st)"
  proof (rule nth_equalityI)
    show "length (view ?st') = length (add_vqs name (vq_report s d) (view st))" by (simp add: view_def add_vqs_def)
    show "view ?st' ! k = add_vqs name (vq_report s d) (view st) ! k" if "k < length (view ?st')" for k
      using u [of k] j(2) that by (cases "k = j") (auto simp: view_def add_vqs_def)
  qed
  moreover have "pinv ?st'"
  proof -
    have "x < length (all_txcs st)" if "dev \<in> set ?devs" "x \<in> set (pd_txcs dev)" for dev x
      using that e(2) i(5) nth_mem by (fastforce simp: in_set_conv_nth)
    then show ?thesis using i(1-4) e(1) n j(1) by (simp add: pinv_def)
  qed
  ultimately show ?thesis using r by (intro exI [of _ ?st']) simp
qed

lemma run_rxctxs:
  assumes "show_all (show_rxctx s) ds = Some ls" "pinv st" "distinct (map name ds)" "name ` set ds \<subseteq> set (map fst (view st))"
    "\<And>d. d \<in> set ds \<Longrightarrow> netdev_name s d = Some (name d) \<and> solid (name d)"
  shows "\<exists>st'. run f ls st = Some st' \<and> pinv st' \<and> p_created st' = p_created st \<and>
    view st' = foldl (\<lambda>vw d. add_vqs (name d) (vq_report s d) vw) (view st) ds"
  using assms
proof (induction ds arbitrary: ls st)
  case (Cons d ds)
  then obtain l1 l2 where l: "show_rxctx s d = Some l1" "show_all (show_rxctx s) ds = Some l2" "ls = l1 @ l2"
    by (auto split: Option.bind_splits)
  obtain st1 where st1: "run f l1 st = Some st1" "pinv st1" "p_created st1 = p_created st"
    "view st1 = add_vqs (name d) (vq_report s d) (view st)"
    using run_rxctx [OF l(1), of "name d" st f] Cons.prems(2,4) Cons.prems(5) [of d] by auto
  have "map fst (view st1) = map fst (view st)" by (simp add: st1(4) add_vqs_def split_beta)
  then have "\<exists>st'. run f l2 st1 = Some st' \<and> pinv st' \<and> p_created st' = p_created st1 \<and>
      view st' = foldl (\<lambda>vw d. add_vqs (name d) (vq_report s d) vw) (view st1) ds"
    using Cons.prems by (intro Cons.IH [OF l(2) st1(2)]) auto
  then show ?case using st1 unfolding l(3) run_append by auto
qed simp

lemma add_all_vqs:
  assumes "inj_on name (set ts)" "set ds \<subseteq> set ts" "distinct ds"
  shows "foldl (\<lambda>vw d. add_vqs (name d) (r d) vw) (map (\<lambda>d. (name d, c d, v d)) ts) ds =
    map (\<lambda>d. (name d, c d, if d \<in> set ds then v d @ r d else v d)) ts"
  using assms
proof (induction ds arbitrary: v)
  case (Cons d ds)
  have "add_vqs (name d) (r d) (map (\<lambda>d. (name d, c d, v d)) ts) =
      map (\<lambda>x. (name x, c x, if x = d then v x @ r x else v x)) ts"
    using Cons.prems(1,2) by (auto simp: add_vqs_def dest: inj_onD)
  then show ?case using Cons by auto
qed simp

section \<open>The file\<close>

definition clean :: "string \<Rightarrow> bool" where
  "clean l \<longleftrightarrow> CHR 0x0A \<notin> set l"

lemma readlines_text: "list_all clean ls \<Longrightarrow> readlines (file_text ls) = map nl ls"
proof (induction ls)
  case (Cons l ls)
  have e: "takeWhile (\<lambda>c. c \<noteq> CHR 0x0A) (l @ CHR 0x0A # r) = l" for r
    using Cons.prems by (intro take_until) (simp add: clean_def)
  show ?case using Cons by (subst readlines.simps) (simp add: file_text_def e Let_def)
qed (simp add: file_text_def readlines.simps)

lemma clean_append [simp]: "clean (xs @ ys) \<longleftrightarrow> clean xs \<and> clean ys"
  by (simp add: clean_def)

lemma clean_Cons [simp]: "clean (c # xs) \<longleftrightarrow> c \<noteq> CHR 0x0A \<and> clean xs" "clean []"
  by (auto simp: clean_def)

lemma clean_solid: "solid w \<Longrightarrow> clean w"
  by (auto simp: clean_def solid_def)

lemma clean_formats [simp]: "clean (dec n)" "clean (dec_int i)" "clean (hex n)" "clean (iso_class_show k)" "clean (flag b)"
  "clean (pad m w) \<longleftrightarrow> clean w"
  by (simp_all add: clean_solid flag_def pad_def) (simp add: clean_def)

lemma clean_rl:
  assumes "\<And>p. clean (pp p)"
  shows "iso_rl_show pp p s = Some ls \<Longrightarrow> list_all clean ls"
  using assms by (auto simp: iso_rl_show_def rl_line_def rl_cpu_line_def Let_def list_all_iff split: Option.bind_splits if_splits)

lemma clean_txc:
  assumes "\<And>p. clean (pp p)" "iso_txc_show pp s t = Some ls"
  shows "list_all clean ls"
proof -
  note rl = clean_rl [of pp _ s, OF assms(1)]
  have b: "list_all clean l" if "show_bucket pp txc s i = Some l" for txc i l
    using that show_all_list [of "\<lambda>p. iso_rl_show pp p s" clean, OF rl]
    by (fastforce simp: show_bucket_def split: Option.bind_splits list.splits)
  show ?thesis
    using assms(2) show_all_list [of "show_bucket pp _ s" clean, OF b] rl [of "TxcRl t"] clean_solid [OF vq_name_solid]
    by (auto simp: iso_txc_show_def txc_line_def txc_rl_line_def split: Option.bind_splits)
qed

lemma clean_vq: "iso_vq_show s v = Some ls \<Longrightarrow> list_all clean ls"
  by (auto simp: iso_vq_show_def vq_line_def vq_cpu_line_def list_all_iff split: Option.bind_splits if_splits)

lemma clean_txctx:
  assumes "\<And>p. clean (pp p)" "\<And>d n. netdev_name s d = Some n \<Longrightarrow> clean n" "show_txctx pp s d = Some ls"
  shows "list_all clean ls"
  using assms(2,3) show_all_list [of "iso_txc_show pp s" clean, OF clean_txc [OF assms(1)]]
  by (auto simp: show_txctx_def split: Option.bind_splits)

lemma clean_rxctx:
  assumes "\<And>d n. netdev_name s d = Some n \<Longrightarrow> clean n" "show_rxctx s d = Some ls"
  shows "list_all clean ls"
  using assms show_all_list [of "iso_vq_show s" clean, OF clean_vq]
  by (auto simp: show_rxctx_def split: Option.bind_splits)

text \<open>What the tool should find, and the conditions on names and lists.\<close>

definition module_report :: "'z sys_mem_scheme \<Rightarrow> (string \<times> py_txc list \<times> py_vq list) list" where
  "module_report s = map (\<lambda>d. (the (netdev_name s d), map (txc_report s) (classes_of s d),
     if d \<in> set (rxctx_list s) then vq_report s d else [])) (txctx_list s)"

definition listed :: "'z sys_mem_scheme \<Rightarrow> bool" where
  "listed s \<longleftrightarrow> distinct (map (netdev_name s) (txctx_list s)) \<and> distinct (rxctx_list s) \<and>
     set (rxctx_list s) \<subseteq> set (txctx_list s) \<and>
     list_all (\<lambda>(n, d). solid n \<and> CHR '','' \<notin> set n) (netdevs s)"

lemma find_in: "find P xs = Some x \<Longrightarrow> x \<in> set xs"
  by (induction xs) (auto split: if_splits)

lemma listedD:
  assumes "listed s"
  shows "netdev_name s d = Some n \<Longrightarrow> solid n \<and> CHR '','' \<notin> set n" "distinct (map (netdev_name s) (txctx_list s))"
    "distinct (rxctx_list s)" "set (rxctx_list s) \<subseteq> set (txctx_list s)"
  using assms by (auto simp: listed_def netdev_name_def list_all_iff dest!: find_in)

lemma show_all_Some: "show_all f xs = Some ls \<Longrightarrow> x \<in> set xs \<Longrightarrow> f x \<noteq> None"
  by (induction xs arbitrary: ls) (auto split: Option.bind_splits)

lemma distinct_names:
  assumes "distinct (map f xs)" "\<And>x. x \<in> set xs \<Longrightarrow> f x \<noteq> None"
  shows "distinct (map (\<lambda>x. the (f x)) xs)" "inj_on (\<lambda>x. the (f x)) (set xs)" "distinct xs"
proof -
  have "inj_on f (set xs)" "distinct xs" using assms(1) by (simp_all add: distinct_map)
  moreover have "f x = f y" if "x \<in> set xs" "y \<in> set xs" "the (f x) = the (f y)" for x y
    using assms(2) [OF that(1)] assms(2) [OF that(2)] that(3) by auto
  ultimately show "inj_on (\<lambda>x. the (f x)) (set xs)" "distinct xs" by (auto simp: inj_on_def)
  then show "distinct (map (\<lambda>x. the (f x)) xs)" by (simp add: distinct_map)
qed

lemma clean_stats:
  assumes out: "iso_stats_proc_seq_show pp s = Some ls" and pp: "\<And>p. clean (pp p)"
    and c: "\<And>d n. netdev_name s d = Some n \<Longrightarrow> clean n"
  shows "list_all clean ls"
proof -
  obtain tx rx where l: "show_all (show_txctx pp s) (txctx_list s) = Some tx" "show_all (show_rxctx s) (rxctx_list s) = Some rx"
    "ls = tx @ rx"
    using out by (auto simp: iso_stats_proc_seq_show_def split: Option.bind_splits)
  have "list_all clean tx" by (rule show_all_list [OF _ l(1)]) (rule clean_txctx [OF pp c])
  moreover have "list_all clean rx" by (rule show_all_list [OF _ l(2)]) (rule clean_rxctx [OF c])
  ultimately show ?thesis by (simp add: l(3))
qed

lemma stats_roundtrip:
  assumes out: "iso_stats_proc_seq_show pp s = Some ls" and lst: "listed s" and pp: "\<And>p. clean (pp p)"
  shows "\<exists>st. stats None created (file_text ls) = Some st \<and> report st = module_report s \<and>
    (\<forall>n. p_created st n \<longleftrightarrow> created n \<or> Some n \<in> netdev_name s ` set (txctx_list s))"
proof -
  note d = listedD [OF lst]
  obtain tx rx where l: "show_all (show_txctx pp s) (txctx_list s) = Some tx" "show_all (show_rxctx s) (rxctx_list s) = Some rx"
    "ls = tx @ rx"
    using out by (auto simp: iso_stats_proc_seq_show_def split: Option.bind_splits)
  let ?n = "\<lambda>d. the (netdev_name s d)" and ?v = "\<lambda>d. (\<lambda>x. []) d :: py_vq list"
  have nn: "netdev_name s x \<noteq> None" if "x \<in> set (txctx_list s)" for x
    using show_all_Some [OF l(1) that] by (cases "netdev_name s x") (simp_all add: show_txctx_def)
  then have n: "netdev_name s x = Some (?n x) \<and> solid (?n x) \<and> CHR '','' \<notin> set (?n x)" if "x \<in> set (txctx_list s)" for x
    using d(1) [of x "?n x"] that by auto
  note dn = distinct_names [OF d(2) nn]
  have parse_start_fields: "p_created (parse_start created) = created" by (simp add: parse_start_def)
  have i: "pinv (parse_start created)" "view (parse_start created) = []" by (simp_all add: pinv_def view_def parse_start_def)
  obtain st1 where st1: "run None tx (parse_start created) = Some st1" "pinv st1"
    "\<And>m. p_created st1 m \<longleftrightarrow> created m \<or> m \<in> ?n ` set (txctx_list s)"
    "view st1 = map (\<lambda>d. (?n d, map (txc_report s) (classes_of s d), [])) (txctx_list s)"
    using run_txctxs [OF l(1) i(1) _ n] dn(1) unfolding i(2) parse_start_fields by auto
  have "map fst (view st1) = map ?n (txctx_list s)" by (simp add: st1(4))
  then have "?n ` set (rxctx_list s) \<subseteq> set (map fst (view st1))" using d(4) by auto
  moreover have "distinct (map ?n (rxctx_list s))" using d(3,4) dn(2) by (simp add: distinct_map inj_on_subset)
  ultimately obtain st2 where st2: "run None rx st1 = Some st2" "pinv st2" "p_created st2 = p_created st1"
    "view st2 = foldl (\<lambda>vw d. add_vqs (?n d) (vq_report s d) vw) (view st1) (rxctx_list s)"
    using run_rxctxs [OF l(2) st1(2), of ?n None] n d(4) by blast
  have v: "view st2 = module_report s"
    unfolding st2(4) st1(4) using add_all_vqs [OF dn(2) d(4,3), of "vq_report s" "\<lambda>d. map (txc_report s) (classes_of s d)" ?v]
    by (simp add: module_report_def)
  have c: "clean m" if "netdev_name s x = Some m" for x m using d(1) [OF that] clean_solid by blast
  have "list_all clean ls" by (rule clean_stats [OF out pp c])
  then have "foldM (parse_step None) (readlines (file_text ls)) (parse_start created) = Some st2"
    using st1(1) st2(1) by (simp add: readlines_text l(3) foldM_append)
  moreover have "report (st2\<lparr>p_devs := [0..<length (all_devs st2)]\<rparr>) = view st2"
    by (rule nth_equalityI) (simp_all add: report_def view_def Let_def)
  moreover have "m \<in> ?n ` set (txctx_list s) \<longleftrightarrow> Some m \<in> netdev_name s ` set (txctx_list s)" for m
    by (subst image_cong [of _ _ _ "\<lambda>d. Some (?n d)", OF refl]) (use n in blast, simp add: image_iff)
  ultimately show ?thesis
    using pinvD(1,2) [OF st2(2)] st2(3) st1(3) v
    by (cases "all_devs st2" rule: rev_cases) (simp_all add: stats_def wanted_def report_def Let_def)
qed

end
