(* ===== verification/SavedConfig.thy ===== *)
theory SavedConfig
  imports Tenants StatsLaws
begin

text \<open>
  A saved configuration is restored: \<open>pi.py --save\<close> reads the statistics of the module and keeps names,
  weights and associations, and \<open>pi.py --load\<close> gives the commands that create them again. The
  configuration of a device is the abstraction: a map from the virtual queues to their weights, and a map
  from the transmit classes to their weight and queue. The commands of the tool implement updates of these
  two maps.
\<close>

section \<open>The configuration of a device\<close>

definition vq_conf :: "kapi \<Rightarrow> dev \<Rightarrow> 'z vq_mem_scheme \<Rightarrow> iso_class_t \<Rightarrow> nat option" where
  "vq_conf K d s k = (case iso_vq_find K k d s of
     Some (Some v) \<Rightarrow> map_option (\<lambda>vq. unat (vq_weight vq)) (vqs s v) | _ \<Rightarrow> None)"

definition txc_view :: "'z tx_mem_scheme \<Rightarrow> nat \<Rightarrow> (int \<times> iso_class_t option) option" where
  "txc_view s t = map_option (\<lambda>txc. (txc_weight txc, Option.bind (txc_vq txc) (\<lambda>v. map_option vq_klass (vqs s v)))) (txcs s t)"

definition txc_conf :: "kapi \<Rightarrow> dev \<Rightarrow> 'z tx_mem_scheme \<Rightarrow> iso_class_t \<Rightarrow> (int \<times> iso_class_t option) option" where
  "txc_conf K d s k = (case iso_txc_find K k d s of Some (Some t) \<Rightarrow> txc_view s t | _ \<Rightarrow> None)"

lemma txc_find_class: "iso_txc_find K k d s = Some (Some t) \<Longrightarrow> \<exists>txc. txcs s t = Some txc \<and> txc_klass txc = k"
  by (auto simp: iso_txc_find_def txc_has_class_def split: Option.bind_splits dest!: hlist_find_SomeD)

lemma vq_find_class: "iso_vq_find K k d s = Some (Some v) \<Longrightarrow> \<exists>vq. vqs s v = Some vq \<and> vq_klass vq = k"
  by (auto simp: iso_vq_find_def vq_has_class_def split: Option.bind_splits dest!: hlist_find_SomeD)

lemma txc_find_old:
  assumes "dp_ok d s" "iso_txc_find K k d s = Some (Some t)"
  shows "t < fresh s"
proof -
  obtain ctx where ctx: "txctxs s d = Some ctx" "t \<in> set (iso_tx_bucket ctx (txc_index K k))"
    using assms(2) by (auto simp: iso_txc_find_def split: Option.bind_splits dest!: hlist_find_SomeD)
  then show ?thesis using assms(1) tx_okD(2,4) [of d s ctx] by (auto simp: dp_ok_def tx_table_def)
qed

lemma vq_find_old:
  assumes "dp_ok d s" "iso_vq_find K k d s = Some (Some v)"
  shows "v < fresh s"
proof -
  obtain ctx where ctx: "rxctxs s d = Some ctx" "v \<in> set (vq_bucket ctx (vq_index K k))"
    using assms(2) by (auto simp: iso_vq_find_def split: Option.bind_splits dest!: hlist_find_SomeD)
  then show ?thesis using assms(1) rx_okD(4,5) [of d s ctx] by (auto simp: dp_ok_def)
qed

text \<open>Two states whose lookups agree on all classes but one.\<close>

lemma vq_conf_upd:
  assumes "\<And>x. x \<noteq> k \<Longrightarrow> iso_vq_find K x d s' = iso_vq_find K x d s" "iso_vq_find K k d s' = Some (Some v)"
    "map_option (\<lambda>vq. unat (vq_weight vq)) (vqs s' v) = Some w"
    "\<And>x u. x \<noteq> k \<Longrightarrow> iso_vq_find K x d s = Some (Some u) \<Longrightarrow> map_option vq_weight (vqs s' u) = map_option vq_weight (vqs s u)"
  shows "vq_conf K d s' = (vq_conf K d s)(k \<mapsto> w)"
proof
  fix x
  show "vq_conf K d s' x = ((vq_conf K d s)(k \<mapsto> w)) x"
  proof (cases "x = k")
    case False
    have "map_option (\<lambda>vq. unat (vq_weight vq)) (vqs s' u) = map_option (\<lambda>vq. unat (vq_weight vq)) (vqs s u)"
      if "iso_vq_find K x d s = Some (Some u)" for u
      using assms(4) [OF False that] by (cases "vqs s u"; cases "vqs s' u") simp_all
    then show ?thesis using False assms(1) [OF False] by (simp add: vq_conf_def split: option.split)
  qed (simp add: vq_conf_def assms(2,3))
qed

lemma txc_conf_upd:
  assumes "\<And>x. x \<noteq> k \<Longrightarrow> iso_txc_find K x d s' = iso_txc_find K x d s" "iso_txc_find K k d s' = Some (Some t)"
    "txc_view s' t = Some w" "\<And>x u. x \<noteq> k \<Longrightarrow> iso_txc_find K x d s = Some (Some u) \<Longrightarrow> txc_view s' u = txc_view s u"
  shows "txc_conf K d s' = (txc_conf K d s)(k \<mapsto> w)"
proof
  fix x
  show "txc_conf K d s' x = ((txc_conf K d s)(k \<mapsto> w)) x"
    using assms by (cases "x = k") (auto simp: txc_conf_def split: option.split)
qed

lemma vq_conf_cong:
  assumes "vqs s' = vqs s" "rxctxs s' = rxctxs s"
  shows "vq_conf K d s' = vq_conf K d s"
proof
  fix k
  have "iso_vq_find K k d s' = iso_vq_find K k d s" by (rule vq_find_cong) (simp_all add: assms)
  then show "vq_conf K d s' k = vq_conf K d s k" by (simp add: vq_conf_def assms(1) split: option.split)
qed

section \<open>The bodies of the handlers\<close>

lemma alike_weight: "vq_alike s s' \<Longrightarrow> map_option vq_weight (vqs s' v) = map_option vq_weight (vqs s v)"
proof -
  assume "vq_alike s s'"
  then have "map_option vq_weight (map_option (\<lambda>c. c\<lparr>vq_rate := 0\<rparr>) (vqs s' v)) =
      map_option vq_weight (map_option (\<lambda>c. c\<lparr>vq_rate := 0\<rparr>) (vqs s v))" by (simp add: vq_alike_def)
  then show ?thesis by (simp add: option.map_comp comp_def)
qed

lemma vq_install_weights:
  assumes "vq_install_class K k d s = Some (0, u)" "v \<noteq> fresh s"
  shows "map_option vq_weight (vqs u v) = map_option vq_weight (vqs s v)"
proof -
  obtain s1 vq where s1: "iso_vq_calculate_rates d s1 = Some u" "vqs s1 = (vqs s)(fresh s \<mapsto> vq)"
    using assms(1) by (auto simp: vq_install_class_def iso_vq_alloc_def kmalloc_def iso_vq_init_def ktime_get_def alloc_percpu_def Let_def
        split: Option.bind_splits if_splits)
  then show ?thesis using alike_weight [OF rates_alike(1) [OF s1(1)], of v] assms(2) by simp
qed

lemma install_vq_conf:
  assumes ok: "dp_ok d s" and i: "vq_install_class K k d s = Some (0, u)"
  shows "\<exists>w. vq_conf K d u = (vq_conf K d s)(k \<mapsto> w)"
proof -
  have tab: "vq_table d s" using ok rx_ok_table [of d s] by (simp add: dp_ok_def)
  note r = vq_classes.install_result [OF tab i]
  obtain v where v: "iso_vq_find K k d u = Some (Some v)" using r(3) by auto
  obtain w where w: "map_option (\<lambda>vq. unat (vq_weight vq)) (vqs u v) = Some w" using vq_find_class [OF v] by auto
  have "map_option vq_weight (vqs u y) = map_option vq_weight (vqs s y)" if "iso_vq_find K x d s = Some (Some y)" for x y
    using vq_install_weights [OF i, of y] vq_find_old [OF ok that] by simp
  then show ?thesis using vq_conf_upd [of k K d u s, OF _ v w] r(4) by blast
qed

lemma set_vq_weight_conf:
  fixes s u :: "'z sys_mem_scheme"
  assumes f: "iso_vq_find K k d s = Some (Some v)" and n: "n \<le> 1024" and i: "set_vq_weight K d k (int n) s = Some (r, u)"
  shows "vq_conf K d u = (vq_conf K d s)(k \<mapsto> n)"
proof -
  obtain vq where vq: "vqs s v = Some vq" "iso_vq_calculate_rates d (put_vq v (vq\<lparr>vq_weight := of_int (int n)\<rparr>) s) = Some u"
    using i f n by (auto simp: set_vq_weight_def split: Option.bind_splits)
  note a = alike_weight [OF rates_alike(1) [OF vq(2)]] and sp = set_vq_weight_spec [OF f _ _ i]
  have "unat (of_nat n :: u64) = n" using n by (simp add: unat_of_nat take_bit_nat_eq_self)
  then have w: "map_option (\<lambda>vq. unat (vq_weight vq)) (vqs u v) = Some n"
    using sp(3) n by (auto simp: map_option_eq_Some)
  have other: "map_option vq_weight (vqs u y) = map_option vq_weight (vqs s y)" if "x \<noteq> k" "iso_vq_find K x d s = Some (Some y)" for x y
    using a [of y] vq_find_class [OF that(2)] vq_find_class [OF f] that(1) by auto
  have find: "iso_vq_find K x d u = iso_vq_find K x d s" for x using sp(5) [of x] n by simp
  show ?thesis by (rule vq_conf_upd [OF find _ w other]) (simp_all add: find f)
qed

lemma txc_view_same: "txc_same s s' \<Longrightarrow> vqs s' = vqs s \<Longrightarrow> txc_view s' t = txc_view s t"
proof -
  assume same: "txc_same s s'" and vqs: "vqs s' = vqs s"
  show ?thesis
  proof (cases "txcs s t")
    case (Some txc)
    from same this obtain txc' where "txcs s' t = Some txc'" "txc_weight txc' = txc_weight txc" "txc_vq txc' = txc_vq txc"
      by (rule txc_sameD)
    then show ?thesis using Some vqs by (simp add: txc_view_def)
  next
    case None
    then have "map_option (\<lambda>c. c\<lparr>min_rate := 0\<rparr>) (txcs s' t) = None" using same by (simp add: txc_same_def)
    then have "txcs s' t = None" by simp
    then show ?thesis using None by (simp add: txc_view_def)
  qed
qed

lemma install_txc_conf:
  fixes s u :: "'z sys_mem_scheme"
  assumes ok: "dp_ok d s" and i: "txc_install_class K k d s = Some (0, u)"
  shows "\<exists>w. txc_conf K d u = (txc_conf K d s)(k \<mapsto> (w, None))" "vq_conf K d u = vq_conf K d s"
proof -
  have tab: "tx_table d s" using ok by (simp add: dp_ok_def)
  then have iv: "tx_ok d s" "sched_inv {} s" "unused s" by (simp_all add: tx_table_def)
  note r = tx_classes.install_result [OF tab i] and fr = tx_frame_fields [OF txc_install_frame [OF i]]
  obtain t where t: "iso_txc_find K k d u = Some (Some t)" using r(3) by auto
  have "map_option txc_vq (txcs u t) = Some None" by (rule txc_install_no_vq [OF tab i t])
  then obtain w where w: "txc_view u t = Some (w, None)" by (auto simp: txc_view_def)
  let ?s1 = "s\<lparr>nallocs := Suc (nallocs s), fresh := Suc (fresh s)\<rparr>"
  obtain s2 s3 ctx where s3: "iso_txc_init (fresh s) d k ?s1 = Some s2" "iso_txc_prealloc (fresh s) 32 s2 = Some s3"
    "iso_txc_recompute_rates d (put_txctx d ctx s3) = Some u"
    using i by (auto simp: txc_install_class_def iso_txc_alloc_def kmalloc_def Let_def split: Option.bind_splits if_splits)
  have d: "rlcbs s d \<noteq> None" using iv(1) by (auto simp: tx_ok_def)
  have b: "building d (fresh s) k s s3"
    using txc_init_building [OF iv(3,2) d refl refl s3(1)] d s3(2) by (rule prealloc_building)
  have v3: "vqs s3 = vqs s" using b by (simp add: building_def)
  have "txc_view u y = txc_view s y" if "iso_txc_find K x d s = Some (Some y)" for x y
  proof -
    have "txc_view u y = txc_view (put_txctx d ctx s3) y"
      by (rule txc_view_same [OF recompute_same(1) [OF s3(3)]]) (use fr(5) v3 in simp)
    also have "\<dots> = txc_view s y"
      using b v3 txc_find_old [OF ok that] by (simp add: txc_view_def building_def)
    finally show ?thesis .
  qed
  then show "\<exists>w. txc_conf K d u = (txc_conf K d s)(k \<mapsto> (w, None))"
    using txc_conf_upd [of k K d u s, OF _ t w] r(4) by blast
  show "vq_conf K d u = vq_conf K d s" by (rule vq_conf_cong [OF fr(5,6)])
qed

lemma set_txc_weight_conf:
  fixes s u :: "'z sys_mem_scheme"
  assumes f: "iso_txc_find K k d s = Some (Some t)" and n: "n \<le> 1024" and c: "txc_conf K d s k = Some (w, a)"
    and i: "set_txc_weight K d k (int n) s = Some (r, u)"
  shows "txc_conf K d u = (txc_conf K d s)(k \<mapsto> (int n, a))" "vq_conf K d u = vq_conf K d s"
proof -
  note sp = set_txc_weight_spec [OF f _ _ i]
  have fr: "vqs u = vqs s" "rxctxs u = rxctxs s" using tx_frame_fields [OF sp(2)] n by simp_all
  obtain txc ctx m where h: "txcs s t = Some txc"
    "iso_txc_recompute_rates d (put_txctx d (ctx\<lparr>txc_total_weight := m\<rparr>) (put_txc t (txc\<lparr>txc_weight := int n\<rparr>) s)) = Some u"
    using i f n by (auto simp: set_txc_weight_def Let_def split: Option.bind_splits)
  have vw: "txc_view u y = txc_view (put_txctx d (ctx\<lparr>txc_total_weight := m\<rparr>) (put_txc t (txc\<lparr>txc_weight := int n\<rparr>) s)) y" for y
    by (rule txc_view_same [OF recompute_same(1) [OF h(2)]]) (use fr in simp)
  have "txc_view s t = Some (w, a)" using c f by (simp add: txc_conf_def)
  then have new: "txc_view u t = Some (int n, a)" using vw [of t] h(1) by (simp add: txc_view_def)
  have other: "txc_view u y = txc_view s y" if "x \<noteq> k" "iso_txc_find K x d s = Some (Some y)" for x y
    using vw [of y] txc_find_class [OF that(2)] txc_find_class [OF f] that(1) by (auto simp: txc_view_def)
  have find: "iso_txc_find K x d u = iso_txc_find K x d s" for x using sp(5) [of x] n by simp
  show "txc_conf K d u = (txc_conf K d s)(k \<mapsto> (int n, a))"
    by (rule txc_conf_upd [OF find _ new other]) (simp_all add: find f)
  show "vq_conf K d u = vq_conf K d s" by (rule vq_conf_cong [OF fr])
qed

lemma associate_conf:
  fixes s u :: "'z sys_mem_scheme"
  assumes f: "iso_txc_find K k d s = Some (Some t)" "iso_vq_find K k' d s = Some (Some v)" and c: "txc_conf K d s k = Some (w, a)"
    and n: "map_option txc_vq (txcs s t) = Some None" and i: "associate t v s = Some u"
  shows "txc_conf K d u = (txc_conf K d s)(k \<mapsto> (w, Some k'))" "vq_conf K d u = vq_conf K d s"
proof -
  obtain txc where txc: "txcs s t = Some txc" "txc_vq txc = None" using n by auto
  obtain vq where vq: "vqs s v = Some vq" "vq_klass vq = k'" using vq_find_class [OF f(2)] by blast
  let ?vq = "vq\<lparr>vq_refcnt := s32 (vq_refcnt vq + 1)\<rparr>"
  have u: "u = put_vq v ?vq (put_txc t (txc\<lparr>txc_vq := Some v\<rparr>) s)"
    using i txc vq by (auto simp: associate_def vq_refcnt_add_def)
  have find: "iso_txc_find K x d u = iso_txc_find K x d s" "iso_vq_find K x d u = iso_vq_find K x d s" for x
    unfolding u by (rule txc_find_cong vq_find_cong; use txc(1) vq(1) in simp)+
  have kl: "map_option vq_klass (vqs u y) = map_option vq_klass (vqs s y)" for y by (simp add: u vq(1))
  have new: "txc_view u t = Some (w, Some k')"
    using c f(1) txc vq by (simp add: txc_conf_def txc_view_def u)
  have other: "txc_view u y = txc_view s y" if "x \<noteq> k" "iso_txc_find K x d s = Some (Some y)" for x y
    using txc_find_class [OF that(2)] txc_find_class [OF f(1)] that(1) kl by (auto simp: txc_view_def u)
  show "txc_conf K d u = (txc_conf K d s)(k \<mapsto> (w, Some k'))"
    by (rule txc_conf_upd [OF find(1) _ new other]) (simp_all add: find f)
  have "map_option (\<lambda>vq. unat (vq_weight vq)) (vqs u y) = map_option (\<lambda>vq. unat (vq_weight vq)) (vqs s y)" for y
    by (simp add: u vq(1))
  then show "vq_conf K d u = vq_conf K d s" by (intro ext) (simp add: vq_conf_def find split: option.split)
qed

section \<open>The commands\<close>

lemma conf_config [simp]:
  "vq_conf K d (s\<lparr>config_mutex := b\<rparr>) = vq_conf K d s" "txc_conf K d (s\<lparr>config_mutex := b\<rparr>) = txc_conf K d s"
  "vq_conf K d (up_config s) = vq_conf K d s" "txc_conf K d (up_config s) = txc_conf K d s"
  by (simp_all add: fun_eq_iff vq_conf_def txc_conf_def txc_view_def up_config_def split: option.split)

lemma conf_None:
  assumes "dp_ok d s"
  shows "vq_conf K d s k = None \<longleftrightarrow> iso_vq_find K k d s = Some None"
    "txc_conf K d s k = None \<longleftrightarrow> iso_txc_find K k d s = Some None"
  using vq_find_live [OF assms, of K k] txc_find_live [OF assms, of K k]
  by (auto simp: vq_conf_def txc_conf_def txc_view_def split: option.splits)

lemma create_txc_conf:
  assumes s: "served dev d s" and dev: "is_word dev" and new: "txc_conf K d s k = None"
  shows "\<exists>s' t w. iso_sys_create_txc K (echo (''dev '' @ dev @ '' '' @ iso_class_show k)) s = Some (0, s') \<and> served dev d s' \<and>
    iso_txc_find K k d s' = Some (Some t) \<and> map_option txc_vq (txcs s' t) = Some None \<and>
    txc_conf K d s' = (txc_conf K d s)(k \<mapsto> (w, None)) \<and> vq_conf K d s' = vq_conf K d s"
proof -
  have ok: "dp_ok d s" using s by (simp add: served_def)
  have none: "iso_txc_find K k d s = Some None" using new conf_None(2) [OF ok] by simp
  obtain s' t where c: "iso_sys_create_txc K (echo (''dev '' @ dev @ '' '' @ iso_class_show k)) s = Some (0, s')" "served dev d s'"
    "iso_txc_find K k d s' = Some (Some t)" "map_option txc_vq (txcs s' t) = Some None"
    using create_txc_step [OF s dev none] by blast
  have "in_config (\<lambda>s. einval (iso_txc_install K (iso_class_show k) d s)) s = Some (0, s')"
    using create_cmd(1) [of s dev d "iso_class_show k" K] s dev class_word(1,2) [of k] c(1) by (simp add: served_def is_word_def)
  then obtain u where u: "txc_install_class K k d (locked s) = Some (0, u)" "s' = up_config u"
    by (auto simp: in_config_def einval_def iso_txc_install_def iso_txc_mark_install_def class_parse_show EINVAL_def split: if_splits)
  show ?thesis
    using c install_txc_conf [OF dp_ok_config [OF ok] u(1)] unfolding u(2) by auto
qed

lemma create_vq_conf:
  assumes s: "served dev d s" and dev: "is_word dev" and new: "vq_conf K d s k = None"
  shows "\<exists>s' v w. iso_sys_create_vq K (echo (''dev '' @ dev @ '' '' @ iso_class_show k)) s = Some (0, s') \<and> served dev d s' \<and>
    iso_vq_find K k d s' = Some (Some v) \<and> (\<forall>x. iso_txc_find K x d s' = iso_txc_find K x d s) \<and>
    vq_conf K d s' = (vq_conf K d s)(k \<mapsto> w)"
proof -
  have ok: "dp_ok d s" using s by (simp add: served_def)
  have none: "iso_vq_find K k d s = Some None" using new conf_None(1) [OF ok] by simp
  obtain s' v where c: "iso_sys_create_vq K (echo (''dev '' @ dev @ '' '' @ iso_class_show k)) s = Some (0, s')" "served dev d s'"
    "iso_vq_find K k d s' = Some (Some v)"
    using create_vq_step [OF s dev none] by blast
  have "in_config (\<lambda>s. einval (iso_vq_install K (iso_class_show k) d s)) s = Some (0, s')"
    using create_cmd(2) [of s dev d "iso_class_show k" K] s dev class_word(1,2) [of k] c(1) by (simp add: served_def is_word_def)
  then obtain u where u: "vq_install_class K k d (locked s) = Some (0, u)" "s' = up_config u"
    by (auto simp: in_config_def einval_def iso_vq_install_def class_parse_show EINVAL_def split: if_splits)
  have "iso_txc_find K x d u = iso_txc_find K x d (locked s)" for x
    by (rule txc_find_cong) (simp_all only: vq_frame_fields [OF vq_install_frame [OF u(1)]])
  then show ?thesis
    using c install_vq_conf [OF dp_ok_config [OF ok] u(1)] unfolding u(2) by auto
qed

lemma txc_weight_conf:
  assumes s: "served dev d s" and dev: "is_word dev" and t: "iso_txc_find K k d s = Some (Some t)" and n: "n \<le> 1024"
    and c: "txc_conf K d s k = Some (w, a)"
  shows "\<exists>s'. iso_sys_set_txc_weight K (echo (''dev '' @ dev @ '' '' @ iso_class_show k @ '' weight '' @ dec n)) s = Some (0, s') \<and>
    served dev d s' \<and> iso_txc_find K k d s' = Some (Some t) \<and> map_option txc_vq (txcs s' t) = map_option txc_vq (txcs s t) \<and>
    txc_conf K d s' = (txc_conf K d s)(k \<mapsto> (int n, a)) \<and> vq_conf K d s' = vq_conf K d s"
proof -
  obtain s' where h: "iso_sys_set_txc_weight K (echo (''dev '' @ dev @ '' '' @ iso_class_show k @ '' weight '' @ dec n)) s = Some (0, s')"
    "served dev d s'" "map_option txc_vq (txcs s' t) = map_option txc_vq (txcs s t)" "iso_txc_find K k d s' = Some (Some t)"
    using txc_weight_step [OF s dev t n, of k] t by auto
  have "in_config (set_txc_weight K d k (int n)) s = Some (0, s')"
    using set_handler_cmd [where s = s and dev = dev and d = d and klass = "iso_class_show k" and n = n and kw = "''weight''" and body = "set_txc_weight K"]
      s dev n class_word(1) [of k] h(1) by (simp add: served_def iso_sys_set_txc_weight_def class_parse_show)
  then obtain u where u: "set_txc_weight K d k (int n) (locked s) = Some (0, u)" "s' = up_config u" by (auto simp: in_config_def)
  show ?thesis using h set_txc_weight_conf [OF _ n _ u(1), of t w a] t c unfolding u(2) by auto
qed

lemma vq_weight_conf:
  assumes s: "served dev d s" and dev: "is_word dev" and v: "iso_vq_find K k d s = Some (Some v)" and n: "0 < n" "n \<le> 1024"
  shows "\<exists>s'. iso_sys_set_vq_weight K (echo (''dev '' @ dev @ '' '' @ iso_class_show k @ '' weight '' @ dec n)) s = Some (0, s') \<and>
    served dev d s' \<and> (\<forall>x. iso_txc_find K x d s' = iso_txc_find K x d s) \<and> vq_conf K d s' = (vq_conf K d s)(k \<mapsto> n)"
proof -
  obtain s' where h: "iso_sys_set_vq_weight K (echo (''dev '' @ dev @ '' '' @ iso_class_show k @ '' weight '' @ dec n)) s = Some (0, s')"
    "served dev d s'"
    using vq_weight_step [OF s dev v n] by blast
  have "in_config (set_vq_weight K d k (int n)) s = Some (0, s')"
    using set_handler_cmd [where s = s and dev = dev and d = d and klass = "iso_class_show k" and n = n and kw = "''weight''" and body = "set_vq_weight K"]
      s dev n class_word(1) [of k] h(1) by (simp add: served_def iso_sys_set_vq_weight_def class_parse_show)
  then obtain u where u: "set_vq_weight K d k (int n) (locked s) = Some (0, u)" "s' = up_config u" by (auto simp: in_config_def)
  have v': "iso_vq_find K k d (locked s) = Some (Some v)" using v by simp
  have "iso_txc_find K x d u = iso_txc_find K x d s" for x using set_vq_weight_spec(4) [OF v' _ _ u(1), of x] n by simp
  then show ?thesis using h set_vq_weight_conf [OF v' n(2) u(1)] unfolding u(2) by auto
qed

lemma associate_cmd_conf:
  assumes s: "served dev d s" and dev: "is_word dev" and t: "iso_txc_find K k d s = Some (Some t)" "map_option txc_vq (txcs s t) = Some None"
    and v: "vq_conf K d s k' \<noteq> None" and c: "txc_conf K d s k = Some (w, a)"
  shows "\<exists>s'. iso_sys_assoc_txc_vq K (echo (''dev '' @ dev @ '' associate txc '' @ iso_class_show k @ '' vq '' @ iso_class_show k')) s =
      Some (0, s') \<and> served dev d s' \<and> txc_conf K d s' = (txc_conf K d s)(k \<mapsto> (w, Some k')) \<and> vq_conf K d s' = vq_conf K d s"
proof -
  obtain v where v: "iso_vq_find K k' d s = Some (Some v)" using v by (auto simp: vq_conf_def split: option.splits)
  obtain s' where h: "iso_sys_assoc_txc_vq K (echo (''dev '' @ dev @ '' associate txc '' @ iso_class_show k @ '' vq '' @ iso_class_show k')) s =
      Some (0, s')" "served dev d s'"
    using associate_step [OF s dev t v] by blast
  have "iso_sys_assoc_txc_vq K (echo (''dev '' @ dev @ '' associate txc '' @ iso_class_show k @ '' vq '' @ iso_class_show k')) s =
      in_config (\<lambda>s. map_option (\<lambda>s. (0, s)) (associate t v s)) s"
    by (rule associate_cmd) (use s dev t v class_word(1) in \<open>simp_all add: served_def class_parse_show\<close>)
  then obtain u where u: "associate t v (locked s) = Some u" "s' = up_config u" using h(1) by (auto simp: in_config_def)
  show ?thesis using h associate_conf [OF _ _ _ _ u(1), of K k d k' w a] t v c unfolding u(2) by auto
qed

section \<open>Loading\<close>

lemma load_vq_step:
  assumes s: "served dev d s" and dev: "is_word dev" and new: "vq_conf K d s k = None" and n: "0 < n" "n \<le> 1024"
    and T: "ISO_CREATED T dev" "vqs_dev T dev = []"
  shows "\<exists>s'. and_then (vq_create (module_os K tc links) dev (iso_class_show k) T (Some s))
      (vq_set_weight (module_os K tc links) dev (iso_class_show k) (dec n)) = Done 0 T (Some s') \<and> served dev d s' \<and>
    (\<forall>x. iso_txc_find K x d s' = iso_txc_find K x d s) \<and> vq_conf K d s' = (vq_conf K d s)(k \<mapsto> n)"
proof -
  obtain s1 v w where s1: "module_param K ''create_vq'' (echo (''dev '' @ dev @ '' '' @ iso_class_show k)) s = Some (0, s1)" "served dev d s1"
    "iso_vq_find K k d s1 = Some (Some v)" "\<And>x. iso_txc_find K x d s1 = iso_txc_find K x d s" "vq_conf K d s1 = (vq_conf K d s)(k \<mapsto> w)"
    using create_vq_conf [OF s dev new] by auto
  obtain s2 where s2: "module_param K ''set_vq_weight'' (echo (''dev '' @ dev @ '' '' @ iso_class_show k @ '' weight '' @ dec n)) s1 = Some (0, s2)"
    "served dev d s2" "\<And>x. iso_txc_find K x d s2 = iso_txc_find K x d s1" "vq_conf K d s2 = (vq_conf K d s1)(k \<mapsto> n)"
    using vq_weight_conf [OF s1(2) dev s1(3) n] by auto
  show ?thesis
    using T s1(4,5) s2(2-4) [unfolded s1(5)] s1(1) [THEN echo_cmd, of tc links T] s2(1) [THEN echo_cmd, of tc links T]
    by (intro exI [of _ s2]) (simp add: vq_create_def ensure_def vq_set_weight_def)
qed

lemma load_txc_step:
  assumes s: "served dev d s" and dev: "is_word dev" and new: "txc_conf K d s k = None" and n: "n \<le> 1024"
    and vq: "vq_conf K d s k' \<noteq> None" and T: "ISO_CREATED T dev" "txcs_dev T dev = []"
  shows "\<exists>s'. and_then (txc_create (module_os K tc links) dev (iso_class_show k) T (Some s)) (\<lambda>T w.
      and_then (txc_set_weight (module_os K tc links) dev (iso_class_show k) (dec n) T w)
        (txc_associate (module_os K tc links) dev (iso_class_show k) (iso_class_show k'))) = Done 0 T (Some s') \<and> served dev d s' \<and>
    txc_conf K d s' = (txc_conf K d s)(k \<mapsto> (int n, Some k')) \<and> vq_conf K d s' = vq_conf K d s"
proof -
  obtain s1 t w where s1: "module_param K ''create_txc'' (echo (''dev '' @ dev @ '' '' @ iso_class_show k)) s = Some (0, s1)" "served dev d s1"
    "iso_txc_find K k d s1 = Some (Some t)" "map_option txc_vq (txcs s1 t) = Some None"
    "txc_conf K d s1 = (txc_conf K d s)(k \<mapsto> (w, None))" "vq_conf K d s1 = vq_conf K d s"
    using create_txc_conf [OF s dev new] by auto
  have c1: "txc_conf K d s1 k = Some (w, None)" by (simp add: s1(5))
  obtain s2 where s2: "module_param K ''set_txc_weight'' (echo (''dev '' @ dev @ '' '' @ iso_class_show k @ '' weight '' @ dec n)) s1 = Some (0, s2)"
    "served dev d s2" "iso_txc_find K k d s2 = Some (Some t)" "map_option txc_vq (txcs s2 t) = Some None"
    "txc_conf K d s2 = (txc_conf K d s)(k \<mapsto> (int n, None))" "vq_conf K d s2 = vq_conf K d s"
    using txc_weight_conf [OF s1(2) dev s1(3) n c1] s1(4-6) by auto
  have c2: "txc_conf K d s2 k = Some (int n, None)" "vq_conf K d s2 k' \<noteq> None" using vq by (simp_all add: s2(5,6))
  obtain s3 where s3: "module_param K ''assoc_txc_vq''
      (echo (''dev '' @ dev @ '' associate txc '' @ iso_class_show k @ '' vq '' @ iso_class_show k')) s2 = Some (0, s3)" "served dev d s3"
    "txc_conf K d s3 = (txc_conf K d s)(k \<mapsto> (int n, Some k'))" "vq_conf K d s3 = vq_conf K d s"
    using associate_cmd_conf [OF s2(2) dev s2(3,4) c2(2,1)] s2(5,6) by auto
  note runs = s1(1) s2(1) s3(1)
  show ?thesis
    using T s3(2-4) runs [THEN echo_cmd, of tc links T]
    by (intro exI [of _ s3]) (simp add: txc_create_def ensure_def txc_set_weight_def txc_associate_def)
qed

definition vq_vals :: "(iso_class_t \<times> nat) list \<Rightarrow> (string \<times> string) list" where
  "vq_vals = map (\<lambda>(k, n). (iso_class_show k, dec n))"

definition txc_vals :: "(iso_class_t \<times> nat \<times> iso_class_t) list \<Rightarrow> (string \<times> string \<times> string) list" where
  "txc_vals = map (\<lambda>(k, n, k'). (iso_class_show k, dec n, iso_class_show k'))"

lemma map_add_Cons: "k \<notin> dom (map_of vs) \<Longrightarrow> m ++ map_of ((k, n) # vs) = m(k \<mapsto> n) ++ map_of vs"
  by (auto simp: fun_eq_iff map_add_def split: option.split)

lemma load_vqs:
  assumes "served dev d s" "is_word dev" "ISO_CREATED T dev" "vqs_dev T dev = []" "distinct (map fst vs)"
    "\<forall>(k, n) \<in> set vs. vq_conf K d s k = None \<and> 0 < n \<and> n \<le> 1024"
  shows "\<exists>s'. for_each (\<lambda>(klass, weight) T w. and_then (vq_create (module_os K tc links) dev klass T w)
        (vq_set_weight (module_os K tc links) dev klass weight)) (vq_vals vs) T (Some s) = Done 0 T (Some s') \<and>
    served dev d s' \<and> (\<forall>x. iso_txc_find K x d s' = iso_txc_find K x d s) \<and> vq_conf K d s' = vq_conf K d s ++ map_of vs"
  using assms
proof (induction vs arbitrary: s)
  case Nil
  then show ?case by (simp add: vq_vals_def)
next
  case (Cons x vs)
  obtain k n where x: "x = (k, n)" by (cases x)
  have kn: "vq_conf K d s k = None" "0 < n" "n \<le> 1024" using Cons.prems(6) by (auto simp: x)
  obtain s1 where s1: "and_then (vq_create (module_os K tc links) dev (iso_class_show k) T (Some s))
      (vq_set_weight (module_os K tc links) dev (iso_class_show k) (dec n)) = Done 0 T (Some s1)" "served dev d s1"
    "\<And>x. iso_txc_find K x d s1 = iso_txc_find K x d s" "vq_conf K d s1 = (vq_conf K d s)(k \<mapsto> n)"
    using load_vq_step [OF Cons.prems(1,2) kn Cons.prems(3,4)] by blast
  have nk: "k \<notin> dom (map_of vs)" using Cons.prems(5) by (simp add: x dom_map_of_conv_image_fst)
  have "\<forall>(k, n) \<in> set vs. vq_conf K d s1 k = None \<and> 0 < n \<and> n \<le> 1024"
    using Cons.prems(5,6) by (auto simp: x s1(4)) (force+)
  then obtain s2 where s2: "for_each (\<lambda>(klass, weight) T w. and_then (vq_create (module_os K tc links) dev klass T w)
        (vq_set_weight (module_os K tc links) dev klass weight)) (vq_vals vs) T (Some s1) = Done 0 T (Some s2)" "served dev d s2"
    "\<And>x. iso_txc_find K x d s2 = iso_txc_find K x d s1" "vq_conf K d s2 = vq_conf K d s1 ++ map_of vs"
    using Cons.IH [OF s1(2) Cons.prems(2-4)] Cons.prems(5) by auto
  moreover have "for_each f (vq_vals (x # vs)) T (Some s) = and_then (f (iso_class_show k, dec n) T (Some s)) (for_each f (vq_vals vs))" for f
    by (simp add: vq_vals_def x)
  ultimately show ?case
    unfolding x map_add_Cons [OF nk] using s1(1,3) by (intro exI [of _ s2]) (simp add: vq_vals_def s1(4))
qed

lemma load_txcs:
  assumes "served dev d s" "is_word dev" "ISO_CREATED T dev" "txcs_dev T dev = []" "distinct (map fst ts)"
    "\<forall>(k, n, k') \<in> set ts. txc_conf K d s k = None \<and> n \<le> 1024 \<and> vq_conf K d s k' \<noteq> None"
  shows "\<exists>s'. for_each (\<lambda>(klass, weight, vq) T w. and_then (txc_create (module_os K tc links) dev klass T w) (\<lambda>T w.
        and_then (txc_set_weight (module_os K tc links) dev klass weight T w) (txc_associate (module_os K tc links) dev klass vq)))
      (txc_vals ts) T (Some s) = Done 0 T (Some s') \<and> served dev d s' \<and>
    txc_conf K d s' = txc_conf K d s ++ map_of (map (\<lambda>(k, n, k'). (k, (int n, Some k'))) ts) \<and> vq_conf K d s' = vq_conf K d s"
  using assms
proof (induction ts arbitrary: s)
  case Nil
  then show ?case by (simp add: txc_vals_def)
next
  case (Cons x ts)
  obtain k n k' where x: "x = (k, n, k')" by (cases x)
  have kn: "txc_conf K d s k = None" "n \<le> 1024" "vq_conf K d s k' \<noteq> None" using Cons.prems(6) by (auto simp: x)
  let ?m = "map_of (map (\<lambda>(k, n, k'). (k, (int n, Some k'))) ts)"
  let ?load = "for_each (\<lambda>(klass, weight, vq) T w. and_then (txc_create (module_os K tc links) dev klass T w) (\<lambda>T w.
        and_then (txc_set_weight (module_os K tc links) dev klass weight T w) (txc_associate (module_os K tc links) dev klass vq)))"
  obtain s1 where s1: "and_then (txc_create (module_os K tc links) dev (iso_class_show k) T (Some s)) (\<lambda>T w.
      and_then (txc_set_weight (module_os K tc links) dev (iso_class_show k) (dec n) T w)
        (txc_associate (module_os K tc links) dev (iso_class_show k) (iso_class_show k'))) = Done 0 T (Some s1)" "served dev d s1"
    "txc_conf K d s1 = (txc_conf K d s)(k \<mapsto> (int n, Some k'))" "vq_conf K d s1 = vq_conf K d s"
    using load_txc_step [OF Cons.prems(1,2) kn Cons.prems(3,4)] by blast
  have nk: "k \<notin> dom ?m" using Cons.prems(5) by (auto simp: x dom_map_of_conv_image_fst image_iff)
  have "\<forall>(k, n, k') \<in> set ts. txc_conf K d s1 k = None \<and> n \<le> 1024 \<and> vq_conf K d s1 k' \<noteq> None"
    using Cons.prems(5,6) by (auto simp: x s1(3,4)) (force+)
  then obtain s2 where s2: "?load (txc_vals ts) T (Some s1) = Done 0 T (Some s2)" "served dev d s2"
    "txc_conf K d s2 = txc_conf K d s1 ++ ?m" "vq_conf K d s2 = vq_conf K d s1"
    using Cons.IH [OF s1(2) Cons.prems(2-4)] Cons.prems(5) by auto
  moreover have "map_of (map (\<lambda>(k, n, k'). (k, (int n, Some k'))) (x # ts)) = map_of ((k, (int n, Some k')) # map (\<lambda>(k, n, k'). (k, (int n, Some k'))) ts)"
    by (simp add: x)
  ultimately show ?case
    unfolding map_add_Cons [OF nk] using s1(1) by (intro exI [of _ s2]) (simp only: map_add_Cons [OF nk] s1(3,4), simp add: x txc_vals_def)
qed

lemma install_known:
  "ISO_CREATED T dev \<Longrightarrow> install (module_os K tc links) dev T (Some s) = Done 0 (T\<lparr>ISO_INSMOD := True\<rparr>) (Some s)"
  by (simp add: install_def module_os_def)

text \<open>A configuration of one device, loaded into a device in service without classes and queues.\<close>

lemma load_config_conf:
  assumes s: "served dev d s" "is_word dev" and T: "ISO_CREATED T dev" "txcs_dev T dev = []" "vqs_dev T dev = []"
    and blank: "vq_conf K d s = Map.empty" "txc_conf K d s = Map.empty"
    and vs: "distinct (map fst vs)" "\<forall>(k, n) \<in> set vs. 0 < n \<and> n \<le> 1024"
    and ts: "distinct (map fst ts)" "\<forall>(k, n, k') \<in> set ts. n \<le> 1024 \<and> k' \<in> fst ` set vs"
  shows "\<exists>s'. load_config (module_os K tc links) [(dev, txc_vals ts, vq_vals vs)] T (Some s) =
      Done 0 (T\<lparr>ISO_INSMOD := True\<rparr>) (Some s') \<and> served dev d s' \<and> vq_conf K d s' = map_of vs \<and>
      txc_conf K d s' = map_of (map (\<lambda>(k, n, k'). (k, (int n, Some k'))) ts)"
proof -
  let ?T = "T\<lparr>ISO_INSMOD := True\<rparr>"
  have T': "ISO_CREATED ?T dev" "txcs_dev ?T dev = []" "vqs_dev ?T dev = []" using T by simp_all
  obtain s1 where s1: "for_each (\<lambda>(klass, weight) T w. and_then (vq_create (module_os K tc links) dev klass T w)
        (vq_set_weight (module_os K tc links) dev klass weight)) (vq_vals vs) ?T (Some s) = Done 0 ?T (Some s1)"
    "served dev d s1" "\<And>x. iso_txc_find K x d s1 = iso_txc_find K x d s" "vq_conf K d s1 = map_of vs"
    using load_vqs [OF s T'(1,3) vs(1), of K tc links] vs(2) blank(1) by auto
  have ok: "dp_ok d s" "dp_ok d s1" using s(1) s1(2) by (simp_all add: served_def)
  have b1: "txc_conf K d s1 k = None" for k
    using conf_None(2) [OF ok(2), of K k] conf_None(2) [OF ok(1), of K k] s1(3) [of k] blank(2) by simp
  then have "\<forall>(k, n, k') \<in> set ts. txc_conf K d s1 k = None \<and> n \<le> 1024 \<and> vq_conf K d s1 k' \<noteq> None"
    using ts(2) by (auto simp: s1(4) map_of_eq_None_iff)
  moreover have "txc_conf K d s1 = Map.empty" using b1 by (simp add: fun_eq_iff)
  ultimately obtain s2 where "for_each (\<lambda>(klass, weight, vq) T w. and_then (txc_create (module_os K tc links) dev klass T w) (\<lambda>T w.
        and_then (txc_set_weight (module_os K tc links) dev klass weight T w) (txc_associate (module_os K tc links) dev klass vq)))
      (txc_vals ts) ?T (Some s1) = Done 0 ?T (Some s2)" "served dev d s2"
    "txc_conf K d s2 = map_of (map (\<lambda>(k, n, k'). (k, (int n, Some k'))) ts)" "vq_conf K d s2 = map_of vs"
    using load_txcs [OF s1(2) s(2) T'(1,2) ts(1), of K tc links] s1(4) by auto
  then show ?thesis using s1(1) install_known [OF T(1), of K tc links s] install_known [OF T'(1), of K tc links s1]
    by (intro exI [of _ s2]) (simp add: load_config_def vq_load_def txc_load_def)
qed

section \<open>Saving\<close>

definition saved_txcs :: "'z tx_mem_scheme \<Rightarrow> dev \<Rightarrow> (iso_class_t \<times> nat \<times> iso_class_t) list" where
  "saved_txcs s d = map (\<lambda>t. let txc = the (txcs s t) in
     (txc_klass txc, nat (txc_weight txc), vq_klass (the (vqs s (the (txc_vq txc)))))) (classes_of s d)"

definition saved_vqs :: "'z vq_mem_scheme \<Rightarrow> dev \<Rightarrow> (iso_class_t \<times> nat) list" where
  "saved_vqs s d = map (\<lambda>v. let vq = the (vqs s v) in (vq_klass vq, unat (vq_weight vq))) (vq_list (the (rxctxs s d)))"

text \<open>
  A device whose configuration can be saved: the lookup of a class or queue by its name finds it, no one is
  listed twice, the weights are those the handler accepts, and every class is associated with a queue.
\<close>

definition savable :: "kapi \<Rightarrow> dev \<Rightarrow> 'z tx_mem_scheme \<Rightarrow> bool" where
  "savable K d s \<longleftrightarrow> dp_ok d s \<and> distinct (classes_of s d) \<and> distinct (vq_list (the (rxctxs s d))) \<and>
     (\<forall>t \<in> set (classes_of s d). \<exists>txc v. txcs s t = Some txc \<and> iso_txc_find K (txc_klass txc) d s = Some (Some t) \<and>
        0 \<le> txc_weight txc \<and> txc_weight txc \<le> 1024 \<and> txc_vq txc = Some v \<and> v \<in> set (vq_list (the (rxctxs s d)))) \<and>
     (\<forall>v \<in> set (vq_list (the (rxctxs s d))). \<exists>vq. vqs s v = Some vq \<and> iso_vq_find K (vq_klass vq) d s = Some (Some v))"

lemma savable_txcD:
  assumes "savable K d s" "t \<in> set (classes_of s d)"
  obtains txc v vq where "txcs s t = Some txc" "iso_txc_find K (txc_klass txc) d s = Some (Some t)" "0 \<le> txc_weight txc"
    "txc_weight txc \<le> 1024" "txc_vq txc = Some v" "v \<in> set (vq_list (the (rxctxs s d)))" "vqs s v = Some vq"
  using assms unfolding savable_def by blast

lemma savable_vqD:
  assumes "savable K d s" "v \<in> set (vq_list (the (rxctxs s d)))"
  obtains vq where "vqs s v = Some vq" "iso_vq_find K (vq_klass vq) d s = Some (Some v)" "0 < unat (vq_weight vq)" "unat (vq_weight vq) \<le> 1024"
proof -
  obtain vq where vq: "vqs s v = Some vq" "iso_vq_find K (vq_klass vq) d s = Some (Some v)"
    using assms unfolding savable_def by blast
  have "dp_ok d s" using assms(1) by (simp add: savable_def)
  then have "vq_ready vq" using vq_find_live [of d s K "vq_klass vq"] vq by auto
  then have "0 < uint (vq_weight vq)" "uint (vq_weight vq) \<le> 1024" by (simp_all add: vq_ready_def)
  then have "0 < nat (uint (vq_weight vq))" "nat (uint (vq_weight vq)) \<le> 1024" by linarith+
  then have "0 < unat (vq_weight vq)" "unat (vq_weight vq) \<le> 1024" by (simp_all only: unat_eq_nat_uint)
  with vq show thesis by (rule that)
qed

lemma map_of_keyed:
  assumes "\<And>x. x \<in> set xs \<Longrightarrow> look (key x) = Some x" "\<And>k x. look k = Some x \<Longrightarrow> x \<in> set xs \<and> key x = k"
  shows "map_of (map (\<lambda>x. (key x, g x)) xs) k = map_option g (look k)" "distinct xs \<Longrightarrow> distinct (map key xs)"
proof -
  have inj: "inj_on key (set xs)"
  proof (rule inj_onI)
    fix x y assume x: "x \<in> set xs" "y \<in> set xs" "key x = key y"
    have "Some x = Some y" using assms(1) [OF x(1)] assms(1) [OF x(2)] unfolding x(3) by (rule trans [OF sym])
    then show "x = y" by simp
  qed
  then show "distinct xs \<Longrightarrow> distinct (map key xs)" by (simp add: distinct_map)
  show "map_of (map (\<lambda>x. (key x, g x)) xs) k = map_option g (look k)"
  proof (cases "look k")
    case None
    have "key x \<noteq> k" if "x \<in> set xs" for x using assms(1) [OF that] None by auto
    then have "k \<notin> key ` set xs" by blast
    then have "k \<notin> fst ` set (map (\<lambda>x. (key x, g x)) xs)" by (simp add: image_image)
    then show ?thesis using None by (simp only: map_of_eq_None_iff [symmetric] option.map)
  next
    case (Some y)
    then have y: "y \<in> set xs" "key y = k" using assms(2) by blast+
    have u: "x = y" if "x \<in> set xs" "key x = k" for x using inj_onD [OF inj _ that(1) y(1)] that(2) y(2) by simp
    have "map_of (map (\<lambda>x. (key x, g x)) ys) k = Some (g y)" if "set ys \<subseteq> set xs" "y \<in> set ys" for ys
      using that
    proof (induction ys)
      case (Cons a ys)
      then show ?case using u [of a] y(2) by (cases "key a = k") auto
    qed simp
    then show ?thesis using Some y(1) by simp
  qed
qed

lemma saved_vqs_conf:
  assumes "savable K d s"
  shows "map_of (saved_vqs s d) = vq_conf K d s" "distinct (map fst (saved_vqs s d))"
    "\<forall>(k, n) \<in> set (saved_vqs s d). 0 < n \<and> n \<le> 1024"
proof -
  let ?xs = "vq_list (the (rxctxs s d))" and ?look = "\<lambda>k. Option.bind (iso_vq_find K k d s) id"
    and ?key = "\<lambda>v. vq_klass (the (vqs s v))" and ?g = "\<lambda>v. unat (vq_weight (the (vqs s v)))"
  have ok: "dp_ok d s" "distinct ?xs" using assms by (simp_all add: savable_def)
  have look: "?look (?key v) = Some v" if "v \<in> set ?xs" for v by (rule savable_vqD [OF assms that]) simp
  have found: "v \<in> set ?xs \<and> ?key v = k" if h: "?look k = Some v" for k v
  proof -
    have f: "iso_vq_find K k d s = Some (Some v)" using h by (cases "iso_vq_find K k d s") simp_all
    obtain ctx where ctx: "rxctxs s d = Some ctx" "v \<in> set (vq_bucket ctx (vq_index K k))"
      using f by (auto simp: iso_vq_find_def split: Option.bind_splits dest!: hlist_find_SomeD)
    then have "v \<in> set ?xs" using ok(1) rx_okD(4) [of d s ctx] by (auto simp: dp_ok_def)
    then show ?thesis using vq_find_class [OF f] by auto
  qed
  have e: "saved_vqs s d = map (\<lambda>v. (?key v, ?g v)) ?xs" by (simp add: saved_vqs_def Let_def)
  show "map_of (saved_vqs s d) = vq_conf K d s"
  proof
    fix k
    have "map_option ?g (?look k) = vq_conf K d s k"
      using vq_find_class [of K k d s] by (auto simp: vq_conf_def split: option.split)
    then show "map_of (saved_vqs s d) k = vq_conf K d s k" unfolding e using map_of_keyed(1) [where xs = ?xs and look = ?look and key = ?key and g = ?g and k = k, OF look found] by simp
  qed
  show "distinct (map fst (saved_vqs s d))" using map_of_keyed(2) [where xs = ?xs and look = ?look and key = ?key, OF look found ok(2)] by (simp add: e comp_def)
  show "\<forall>(k, n) \<in> set (saved_vqs s d). 0 < n \<and> n \<le> 1024"
  proof -
    have "0 < ?g v \<and> ?g v \<le> 1024" if "v \<in> set ?xs" for v by (rule savable_vqD [OF assms that]) simp
    then show ?thesis by (auto simp: e)
  qed
qed

lemma saved_txcs_conf:
  assumes "savable K d s"
  shows "map_of (map (\<lambda>(k, n, k'). (k, (int n, Some k'))) (saved_txcs s d)) = txc_conf K d s" "distinct (map fst (saved_txcs s d))"
    "\<forall>(k, n, k') \<in> set (saved_txcs s d). n \<le> 1024 \<and> k' \<in> fst ` set (saved_vqs s d)"
proof -
  let ?xs = "classes_of s d" and ?look = "\<lambda>k. Option.bind (iso_txc_find K k d s) id" and ?key = "\<lambda>t. txc_klass (the (txcs s t))"
    and ?g = "\<lambda>t. (int (nat (txc_weight (the (txcs s t)))), Some (vq_klass (the (vqs s (the (txc_vq (the (txcs s t))))))))"
  have ok: "dp_ok d s" "distinct ?xs" using assms by (simp_all add: savable_def)
  have look: "?look (?key t) = Some t" if "t \<in> set ?xs" for t by (rule savable_txcD [OF assms that]) simp
  have found: "t \<in> set ?xs \<and> ?key t = k" if h: "?look k = Some t" for k t
  proof -
    have f: "iso_txc_find K k d s = Some (Some t)" using h by (cases "iso_txc_find K k d s") simp_all
    obtain ctx where ctx: "txctxs s d = Some ctx" "t \<in> set (iso_tx_bucket ctx (txc_index K k))"
      using f by (auto simp: iso_txc_find_def split: Option.bind_splits dest!: hlist_find_SomeD)
    moreover have "txc_index K k < ISO_MAX_TX_BUCKETS"
      unfolding txc_index_def by (rule bucket_index_bound) (simp_all add: ISO_MAX_TX_BUCKETS_def)
    ultimately have "t \<in> set ?xs" by (auto simp: classes_of_def)
    then show ?thesis using txc_find_class [OF f] by auto
  qed
  have e: "map (\<lambda>(k, n, k'). (k, (int n, Some k'))) (saved_txcs s d) = map (\<lambda>t. (?key t, ?g t)) ?xs"
    by (simp add: saved_txcs_def Let_def comp_def)
  have view: "txc_view s t = Some (?g t)" if "t \<in> set ?xs" for t
    by (rule savable_txcD [OF assms that]) (simp add: txc_view_def)
  show "map_of (map (\<lambda>(k, n, k'). (k, (int n, Some k'))) (saved_txcs s d)) = txc_conf K d s"
  proof
    fix k
    have "map_option ?g (?look k) = txc_conf K d s k"
    proof (cases "?look k")
      case (Some t)
      then have "iso_txc_find K k d s = Some (Some t)" by (cases "iso_txc_find K k d s") simp_all
      then show ?thesis using view found [OF Some] by (simp add: txc_conf_def)
    next
      case None
      then show ?thesis by (cases "iso_txc_find K k d s") (simp_all add: txc_conf_def)
    qed
    then show "map_of (map (\<lambda>(k, n, k'). (k, (int n, Some k'))) (saved_txcs s d)) k = txc_conf K d s k"
      unfolding e using map_of_keyed(1) [where xs = ?xs and look = ?look and key = ?key and g = ?g and k = k, OF look found] by simp
  qed
  have "map fst (saved_txcs s d) = map ?key ?xs" by (simp add: saved_txcs_def Let_def comp_def)
  then show "distinct (map fst (saved_txcs s d))" using map_of_keyed(2) [where xs = ?xs and look = ?look and key = ?key, OF look found ok(2)] by simp
  have "nat (txc_weight (the (txcs s t))) \<le> 1024 \<and> vq_klass (the (vqs s (the (txc_vq (the (txcs s t)))))) \<in> fst ` set (saved_vqs s d)"
    if h: "t \<in> set ?xs" for t
  proof -
    obtain txc v where t: "txcs s t = Some txc" "txc_weight txc \<le> 1024" "txc_vq txc = Some v" "v \<in> set (vq_list (the (rxctxs s d)))"
      by (rule savable_txcD [OF assms h])
    then show ?thesis by (auto simp: saved_vqs_def Let_def image_image)
  qed
  then show "\<forall>(k, n, k') \<in> set (saved_txcs s d). n \<le> 1024 \<and> k' \<in> fst ` set (saved_vqs s d)"
    by (auto simp: saved_txcs_def Let_def)
qed

text \<open>What the tool saves.\<close>

lemma saved_lines:
  fixes s :: "'z sys_mem_scheme"
  assumes r: "report st = module_report s" and l: "txctx_list s = [d]" "rxctx_list s = [d]" "netdev_name s d = Some dev"
    and sv: "savable K d s"
  shows "save st = [(dev, txc_vals (saved_txcs s d), vq_vals (saved_vqs s d))]"
proof -
  have t: "(pt_klass (txc_report s t), pt_weight (txc_report s t), pt_assoc (txc_report s t)) =
      (let txc = the (txcs s t) in
       (iso_class_show (txc_klass txc), dec (nat (txc_weight txc)), iso_class_show (vq_klass (the (vqs s (the (txc_vq txc)))))))"
    if h: "t \<in> set (classes_of s d)" for t
  proof -
    obtain txc v vq where "txcs s t = Some txc" "0 \<le> txc_weight txc" "txc_vq txc = Some v" "vqs s v = Some vq"
      by (rule savable_txcD [OF sv h])
    then show ?thesis by (simp add: txc_report_def txc_obj_def dec_int_def vq_name_def Let_def)
  qed
  then have "map (\<lambda>t. (pt_klass t, pt_weight t, pt_assoc t)) (map (txc_report s) (classes_of s d)) = txc_vals (saved_txcs s d)"
    by (auto simp: txc_vals_def saved_txcs_def Let_def comp_def)
  moreover have "map (\<lambda>v. (pv_klass v, pv_weight v)) (vq_report s d) = vq_vals (saved_vqs s d)"
    by (simp add: vq_report_def vq_vals_def saved_vqs_def vq_obj_def Let_def comp_def)
  ultimately show ?thesis by (simp add: save_def r module_report_def l)
qed

lemma save_load:
  fixes s s0 :: "'z sys_mem_scheme"
  assumes out: "iso_stats_proc_seq_show pp s = Some ls" "listed s" "\<And>p. clean (pp p)"
    and l: "txctx_list s = [d]" "rxctx_list s = [d]" "netdev_name s d = Some dev" and sv: "savable K d s"
    and s0: "served dev d0 s0" "is_word dev" "vq_conf K d0 s0 = Map.empty" "txc_conf K d0 s0 = Map.empty"
    and T: "ISO_CREATED T dev" "txcs_dev T dev = []" "vqs_dev T dev = []"
  shows "\<exists>st T' s'. stats None created (file_text ls) = Some st \<and>
    load_config (module_os K tc links) (save st) T (Some s0) = Done 0 T' (Some s') \<and>
    served dev d0 s' \<and> vq_conf K d0 s' = vq_conf K d s \<and> txc_conf K d0 s' = txc_conf K d s"
proof -
  obtain st where st: "stats None created (file_text ls) = Some st" "report st = module_report s"
    using stats_roundtrip [OF out] by blast
  note v = saved_vqs_conf [OF sv] and t = saved_txcs_conf [OF sv]
  show ?thesis
    using load_config_conf [OF s0(1,2) T s0(3,4) v(2,3) t(2,3), of tc links] st(1)
    unfolding saved_lines [OF st(2) l sv, symmetric] v(1) t(1) by (intro exI [of _ st]) blast
qed

end
