(* ===== verification/CommandLaws.thy ===== *)
theory CommandLaws
  imports Commands SavedConfig "HOL-Library.Multiset"
begin

text \<open>
  The command line against the module: the files under the tool are the sysctl table and the statistics
  of the module. Setting a tunable from the command line changes that tunable, is seen by the tool, and
  recomputes the rates of the device; the settings for 1 Gb/s change five tunables in any order, and
  nothing else.
\<close>

section \<open>The files of the module\<close>

definition param_table :: "ctl_table list" where
  "param_table = snd (iso_params_init True)"

text \<open>
  The sysctl files and the statistics of a loaded module. \<open>dointvec\<close> is what \<open>proc_dointvec\<close> reads from a
  text, \<open>order\<close> the order of dictionaries, and the JSON files are parameters.
\<close>

definition module_files :: "'z sys_mem_scheme option os \<Rightarrow> (rl_ptr \<Rightarrow> string) \<Rightarrow> (string \<Rightarrow> int option) \<Rightarrow> (dict \<Rightarrow> dict) \<Rightarrow>
    (string \<Rightarrow> 'z sys_mem_scheme option \<Rightarrow> (dict \<times> saved) option) \<Rightarrow>
    (string \<Rightarrow> dict \<times> saved \<Rightarrow> 'z sys_mem_scheme option \<Rightarrow> 'z sys_mem_scheme option) \<Rightarrow> 'z sys_mem_scheme option files" where
  "module_files X pp dointvec order load dump = \<lparr>
     shell = X,
     sysctl_names = (\<lambda>w. if w = None then [] else exported),
     open_read = (\<lambda>f w. do {
       s \<leftarrow> w;
       if f = ISO_PROCFILE then map_option file_text (iso_stats_proc_seq_show pp s)
       else if startswith f ISO_SYSCTL_DIR
       then map_option (\<lambda>v. dec_int v @ [CHR 0x0A]) (sysctl_read param_table (drop (length ISO_SYSCTL_DIR) f) (tun s))
       else None }),
     open_write = (\<lambda>f text w. do {
       s \<leftarrow> w;
       let name = drop (length ISO_SYSCTL_DIR) f;
       if \<not> startswith f ISO_SYSCTL_DIR \<or> sysctl_entry param_table name = None then None
       else (case dointvec text of
               None \<Rightarrow> Some w
             | Some v \<Rightarrow> map_option (\<lambda>P. Some (s\<lparr>tun := P\<rparr>)) (sysctl_write param_table name v (tun s))) }),
     json_load = load, json_dump = dump, iteritems = order\<rparr>"

text \<open>\<open>proc_dointvec\<close> stores the number that is written in decimal.\<close>

definition dointvec_documented :: "(string \<Rightarrow> int option) \<Rightarrow> bool" where
  "dointvec_documented D \<longleftrightarrow> (\<forall>n < 2 ^ 31. D (dec n) = Some (int n))"

lemma module_files_simps [simp]:
  "shell (module_files X pp D order load dump) = X" "iteritems (module_files X pp D order load dump) = order"
  "sysctl_names (module_files X pp D order load dump) (Some s) = exported"
  by (simp_all add: module_files_def)

lemma params_entries:
  "list_all (\<lambda>n. \<exists>e g u. sysctl_entry param_table n = Some e \<and> ctl_data e = Some (g, u) \<and> (\<forall>f P. g (u f P) = f (g P))) exported"
  by (simp add: exported_def iso_params_def param_table_def iso_params_init_def ctl_zero_def numeral_eq_Suc)

lemma exported_entry:
  assumes "name \<in> set exported"
  obtains e g u where "sysctl_entry param_table name = Some e" "ctl_data e = Some (g, u)" "\<And>f P. g (u f P) = f (g P)"
  using params_entries assms unfolding list_all_iff by blast

lemma exported_names:
  "list_all (\<lambda>n. n \<noteq> [] \<and> \<not> is_digit (hd n) \<and> CHR '','' \<notin> set n \<and> \<not> startswith n ''/'') exported"
  by (simp add: exported_def iso_params_def startswith_def is_digit_def)

lemma write_then_read:
  assumes "name \<in> set exported" "sysctl_write param_table name v P = Some P'"
  shows "sysctl_read param_table name P' = Some (s32 v)"
  using assms by (elim exported_entry) (auto simp: sysctl_write_def sysctl_read_def)

section \<open>Reading\<close>

lemma strip_line: "solid w \<Longrightarrow> strip (w @ [CHR 0x0A]) = w"
proof -
  assume w: "solid w"
  then have "solid (rev w)" by (simp add: solid_def)
  then show ?thesis using skip_solid [OF w, of "[CHR 0x0A]"] skip_solid [of "rev w" "[]"]
    by (simp add: strip_def skip_spaces_def)
qed

lemma startswith_append [simp]: "startswith (p @ x) p"
  by (simp add: startswith_def)

lemma sysctl_no_proc: "ISO_SYSCTL_DIR @ name \<noteq> ISO_PROCFILE"
  by (simp add: ISO_SYSCTL_DIR_def ISO_PROCFILE_def)

lemma read_sysctl_file:
  "read_file (module_files X pp D order load dump) (ISO_SYSCTL_DIR @ name) (Some s) =
     map_option dec_int (sysctl_read param_table name (tun s))"
  by (cases "sysctl_read param_table name (tun s)") (simp_all add: read_file_def module_files_def sysctl_no_proc strip_line)

lemma read_params_of:
  assumes "\<And>n. n \<in> set names \<Longrightarrow> read_file F (ISO_SYSCTL_DIR @ n) w = Some (v n)"
  shows "\<exists>ps'. read_params F w names ps = Some ps' \<and> map_of ps' = (\<lambda>n. if n \<in> set names then Some (v n) else map_of ps n)"
  using assms
proof (induction names arbitrary: ps)
  case (Cons n names)
  obtain ps' where ps': "read_params F w names (AList.update n (v n) ps) = Some ps'"
    "map_of ps' = (\<lambda>m. if m \<in> set names then Some (v m) else map_of (AList.update n (v n) ps) m)"
    using Cons.IH [of "AList.update n (v n) ps"] Cons.prems by auto
  moreover have "map_of ps' = (\<lambda>m. if m \<in> set (n # names) then Some (v m) else map_of ps m)"
    unfolding ps'(2) update_conv' by (rule ext) simp
  ultimately show ?case using Cons.prems [of n] by simp
qed simp

lemma params_read_module:
  assumes "world S = Some s"
  shows "\<exists>ps. params_read (module_files X pp D order load dump) S = Inr (S\<lparr>params := ps, params_list := order ps\<rparr>) \<and>
    (\<forall>name \<in> set exported. map_of ps name = map_option dec_int (sysctl_read param_table name (tun s)))"
proof -
  have r: "read_file (module_files X pp D order load dump) (ISO_SYSCTL_DIR @ n) (Some s) =
      Some (dec_int (the (sysctl_read param_table n (tun s))))" if n: "n \<in> set exported" for n
    using n by (elim exported_entry) (auto simp: read_sysctl_file sysctl_read_def)
  obtain ps where ps: "read_params (module_files X pp D order load dump) (Some s) exported (params S) = Some ps"
    "map_of ps = (\<lambda>n. if n \<in> set exported then Some (dec_int (the (sysctl_read param_table n (tun s)))) else map_of (params S) n)"
    using read_params_of [of exported "module_files X pp D order load dump" "Some s"
        "\<lambda>n. dec_int (the (sysctl_read param_table n (tun s)))" "params S"] r by blast
  have "\<forall>name \<in> set exported. map_of ps name = map_option dec_int (sysctl_read param_table name (tun s))"
    unfolding ps(2) using r [unfolded read_sysctl_file] by (simp del: map_option_eq_Some)
  then show ?thesis using assms ps(1) by (auto simp: params_read_def)
qed

lemma py_stats_module:
  assumes "world S = Some s" "path_exists X ISO_PROCFILE (Some s)" "iso_stats_proc_seq_show pp s = Some ls" "listed s" "\<And>p. clean (pp p)"
  shows "\<exists>st T. py_stats (module_files X pp D order load dump) None S = Inr (st, S\<lparr>known := T\<rparr>) \<and> report st = module_report s"
proof -
  obtain st where "stats None (ISO_CREATED (known S)) (file_text ls) = Some st" "report st = module_report s"
    using stats_roundtrip [OF assms(3,4,5)] by blast
  then show ?thesis using assms(1-3) by (auto simp: py_stats_def module_files_def)
qed

lemma py_objects_module:
  assumes "world S = Some s" "path_exists X ISO_PROCFILE (Some s)" "iso_stats_proc_seq_show pp s = Some ls" "listed s" "\<And>p. clean (pp p)"
  shows "\<exists>T. py_objects (module_files X pp D order load dump) S = Inr (S\<lparr>known := T\<rparr>)"
proof -
  let ?S = "S\<lparr>known := (known S)\<lparr>txcs_dev := (\<lambda>_. []), vqs_dev := (\<lambda>_. [])\<rparr>\<rparr>"
  obtain st T where "py_stats (module_files X pp D order load dump) None ?S = Inr (st, ?S\<lparr>known := T\<rparr>)"
    using py_stats_module [OF _ assms(2-5), of ?S D order load dump] assms(1) by auto
  then show ?thesis using assms(1,2) by (auto simp: py_objects_def)
qed

text \<open>The start of the program.\<close>

lemma start_module:
  assumes "path_exists X ISO_PROCFILE (Some s)" "iso_stats_proc_seq_show pp s = Some ls" "listed s" "\<And>p. clean (pp p)"
  shows "\<exists>S. pi_main (module_files X pp D order load dump) a (Some s) = pi_command (module_files X pp D order load dump) a S \<and>
    world S = Some s \<and> printed S = []"
proof -
  let ?F = "module_files X pp D order load dump"
  obtain ps where "params_read ?F \<lparr>params = [], params_list = [], known = no_tool, printed = [], world = Some s\<rparr> =
      Inr \<lparr>params = ps, params_list = order ps, known = no_tool, printed = [], world = Some s\<rparr>"
    using params_read_module [of "\<lparr>params = [], params_list = [], known = no_tool, printed = [], world = Some s\<rparr>" s X pp D order load dump]
    by auto
  moreover obtain T where "py_objects ?F \<lparr>params = ps, params_list = order ps, known = no_tool, printed = [], world = Some s\<rparr> =
      Inr \<lparr>params = ps, params_list = order ps, known = T, printed = [], world = Some s\<rparr>"
    using py_objects_module [OF _ assms, of "\<lparr>params = ps, params_list = order ps, known = no_tool, printed = [], world = Some s\<rparr>"
      D order load dump] by auto
  moreover obtain st T' where "py_stats ?F None \<lparr>params = ps, params_list = order ps, known = T, printed = [], world = Some s\<rparr> =
      Inr (st, \<lparr>params = ps, params_list = order ps, known = T', printed = [], world = Some s\<rparr>)"
    using py_stats_module [OF _ assms, of "\<lparr>params = ps, params_list = order ps, known = T, printed = [], world = Some s\<rparr>"
      D order load dump] by auto
  ultimately have "pi_main ?F a (Some s) =
      pi_command ?F a \<lparr>params = ps, params_list = order ps, known = T', printed = [], world = Some s\<rparr>"
    by (simp add: pi_main_def import_perfiso_def)
  then show ?thesis by (intro exI [of _ "\<lparr>params = ps, params_list = order ps, known = T', printed = [], world = Some s\<rparr>"]) simp
qed

section \<open>Tunables are independent\<close>

definition apart :: "iso_param \<Rightarrow> iso_param \<Rightarrow> bool" where
  "apart p q \<longleftrightarrow> (case (param_ptr p, param_ptr q) of
     (Some (g, _), Some (_, u)) \<Rightarrow> param_name p = param_name q \<or> (\<forall>f P. g (u f P) = g P) | _ \<Rightarrow> True)"

lemma params_apart: "list_all (\<lambda>p. list_all (apart p) iso_params) iso_params"
  by (simp add: iso_params_def apart_def)

lemma entry_param:
  "sysctl_entry (fill_table ps es) n = Some e \<Longrightarrow> list_all (\<lambda>e. procname e = None) es \<Longrightarrow>
    \<exists>p \<in> set ps. param_name p = n \<and> param_ptr p = ctl_data e"
  by (induction ps es rule: fill_table.induct) (auto split: option.splits if_splits elim!: sysctl_entry.elims)

lemma write_keeps_others:
  assumes "sysctl_write param_table name v P = Some P'" "other \<noteq> name"
  shows "sysctl_read param_table other P' = sysctl_read param_table other P"
proof (cases "sysctl_entry param_table other")
  case (Some e)
  have t: "param_table = fill_table iso_params (replicate 32 ctl_zero)" by (simp add: param_table_def iso_params_init_def)
  have z: "list_all (\<lambda>e. procname e = None) (replicate 32 ctl_zero)" by (simp add: list_all_iff ctl_zero_def)
  obtain e' g u where e': "sysctl_entry param_table name = Some e'" "ctl_data e' = Some (g, u)" "P' = u (\<lambda>_. s32 v) P"
    using assms(1) by (auto simp: sysctl_write_def split: Option.bind_splits)
  obtain p q where pq: "p \<in> set iso_params" "param_name p = other" "param_ptr p = ctl_data e"
    "q \<in> set iso_params" "param_name q = name" "param_ptr q = Some (g, u)"
    using entry_param [OF Some [unfolded t] z] entry_param [OF e'(1) [unfolded t] z] e'(2) by auto
  then have "apart p q" using params_apart by (simp add: list_all_iff)
  then show ?thesis using pq assms(2) Some e'(3) by (auto simp: apart_def sysctl_read_def split: option.splits)
qed (simp add: sysctl_read_def)

section \<open>Setting a tunable\<close>

lemma params_set_module:
  assumes "world S = Some s" "name \<in> set exported" "dointvec_documented D" "n < 2 ^ 31"
  shows "\<exists>P S'. sysctl_write param_table name (int n) (tun s) = Some P \<and>
    params_set (module_files X pp D order load dump) name (Some (dec n)) S = Inr S' \<and>
    world S' = Some (s\<lparr>tun := P\<rparr>) \<and> printed S' = printed S @ [''Setting '' @ name @ '' = '' @ dec n] \<and>
    known S' = known S \<and> map_of (params S') name = Some (dec n)"
proof -
  let ?F = "module_files X pp D order load dump"
  obtain e g u where e: "sysctl_entry param_table name = Some e" "ctl_data e = Some (g, u)"
    using exported_entry [OF assms(2)] by metis
  define P where "P = u (\<lambda>_. s32 (int n)) (tun s)"
  have w: "sysctl_write param_table name (int n) (tun s) = Some P" using e by (simp add: sysctl_write_def P_def)
  have name: "name \<noteq> []" "\<not> is_digit (hd name)" "\<not> startswith name ''/''"
    using exported_names assms(2) by (auto simp: list_all_iff)
  have D: "D (dec n) = Some (int n)" using assms(3,4) by (simp add: dointvec_documented_def)
  have o: "open_write ?F (ISO_SYSCTL_DIR @ name) (dec n) (Some s) = Some (Some (s\<lparr>tun := P\<rparr>))"
    using e(1) w D by (simp add: module_files_def Let_def)
  define S1 where "S1 = say (''Setting '' @ name @ '' = '' @ dec n) (S\<lparr>world := Some (s\<lparr>tun := P\<rparr>)\<rparr>)"
  have s1: "world S1 = Some (s\<lparr>tun := P\<rparr>)" "printed S1 = printed S @ [''Setting '' @ name @ '' = '' @ dec n]" "known S1 = known S"
    by (simp_all add: S1_def say_def)
  obtain ps where ps: "params_read ?F S1 = Inr (S1\<lparr>params := ps, params_list := order ps\<rparr>)"
    "map_of ps name = map_option dec_int (sysctl_read param_table name P)"
    using params_read_module [OF s1(1), of X pp D order load dump] assms(2) by auto
  have "s32 (int n) = int n" using assms(4) by (simp add: s32_id)
  then have "map_of ps name = Some (dec n)" using ps(2) write_then_read [OF assms(2) w] by (simp add: dec_int_def)
  moreover have "params_set ?F name (Some (dec n)) S = params_read ?F S1"
    using o name assms(1) by (simp add: params_set_def numbered_def path_join_def S1_def)
  ultimately show ?thesis using w ps(1) s1 by auto
qed

lemma show_tun [simp]: "iso_stats_proc_seq_show pp (s\<lparr>tun := P\<rparr>) = iso_stats_proc_seq_show pp s"
proof -
  have r: "iso_rl_show pp p (s\<lparr>tun := P\<rparr>) = iso_rl_show pp p s" for p by (simp add: iso_rl_show_def)
  have b: "show_bucket pp txc (s\<lparr>tun := P\<rparr>) = show_bucket pp txc s" for txc by (simp add: fun_eq_iff show_bucket_def r)
  have v: "vq_name (s\<lparr>tun := P\<rparr>) txc = vq_name s txc" for txc by (simp add: vq_name_def split: option.split)
  have t: "iso_txc_show pp (s\<lparr>tun := P\<rparr>) = iso_txc_show pp s" by (simp add: fun_eq_iff iso_txc_show_def r b v)
  have q: "iso_vq_show (s\<lparr>tun := P\<rparr>) = iso_vq_show s" by (simp add: fun_eq_iff iso_vq_show_def)
  have n: "netdev_name (s\<lparr>tun := P\<rparr>) = netdev_name s" by (simp add: fun_eq_iff netdev_name_def)
  have "show_txctx pp (s\<lparr>tun := P\<rparr>) = show_txctx pp s" by (rule ext) (simp add: show_txctx_def t n)
  moreover have "show_rxctx (s\<lparr>tun := P\<rparr>) = show_rxctx s" by (rule ext) (simp add: show_rxctx_def q n)
  ultimately show ?thesis by (simp add: iso_stats_proc_seq_show_def)
qed

text \<open>The rates of a device can be recomputed whatever the tunables are.\<close>

lemma recompute_any_tunables:
  assumes "dp_ok d s"
  shows "\<exists>u u'. iso_txc_recompute_rates d (s\<lparr>tun := P, config_mutex := b\<rparr>) = Some u \<and>
    iso_vq_calculate_rates d u = Some u' \<and> tun u' = P"
proof -
  let ?s = "s\<lparr>tun := P, config_mutex := b\<rparr>"
  have "tx_ok d ?s" using assms by (simp add: dp_ok_def tx_table_def tx_ok_def txc_ok_def)
  then obtain u where u: "iso_txc_recompute_rates d ?s = Some u" using recompute_total by blast
  have f: "vqs u = vqs s" "rxctxs u = rxctxs s" "tun u = P"
    using tx_frame_fields(5,6) [OF recompute_frame [OF tx_frame_refl u]] recompute_step [OF u] by (auto simp: tx_step_def)
  obtain ctx where ctx: "rxctxs s d = Some ctx" "\<forall>v \<in> set (vq_list ctx). vqs s v \<noteq> None"
    using assms by (fastforce simp: dp_ok_def rx_ok_def)
  show ?thesis using u calculate_rates_eq [of u d ctx] f ctx by (auto simp: share_all_def)
qed

lemma module_report_one:
  assumes "txctx_list s = [d]" "netdev_name s d = Some dev"
  shows "\<exists>ts vs. module_report s = [(dev, ts, vs)]"
  using assms by (simp add: module_report_def)

lemma listed_tun [simp]: "listed (s\<lparr>tun := P\<rparr>) = listed s" "netdev_name (s\<lparr>tun := P\<rparr>) = netdev_name s"
  by (simp_all add: listed_def fun_eq_iff netdev_name_def [abs_def])

lemma via_recompute:
  assumes "served dev d s" "is_word dev" "world S = Some (s\<lparr>tun := P\<rparr>)" "shell F = module_os K tc links"
  shows "\<exists>u u'. iso_txc_recompute_rates d (locked (s\<lparr>tun := P\<rparr>)) = Some u \<and> iso_vq_calculate_rates d u = Some u' \<and> tun u' = P \<and>
    via (recompute_dev (shell F) dev) S = Inr (S\<lparr>world := Some (up_config u')\<rparr>)"
proof -
  obtain u u' where u: "iso_txc_recompute_rates d (locked (s\<lparr>tun := P\<rparr>)) = Some u" "iso_vq_calculate_rates d u = Some u'" "tun u' = P"
    using recompute_any_tunables [where P = P and b = False and d = d and s = s] assms(1) by (auto simp: served_def)
  have "iso_sys_recompute_dev (echo (''dev '' @ dev)) (s\<lparr>tun := P\<rparr>) = Some (0, up_config u')"
    using recompute_cmd [of "s\<lparr>tun := P\<rparr>" dev d] assms(1,2) u
    by (simp add: served_def enabled_dev_def iso_search_netdev_def iso_enabled_def in_config_def)
  then have "via (recompute_dev (shell F) dev) S = Inr (S\<lparr>world := Some (up_config u')\<rparr>)"
    using assms(3,4) by (simp add: via_def recompute_dev_def cmd_def module_os_def module_param_def)
  then show ?thesis using u by blast
qed

lemma set_args_pair:
  assumes "CHR '','' \<notin> set name"
  shows "set_args (name @ '','' @ dec n) None = Some (name, Some (dec n))"
  using assms no_comma_dec [of n] by (simp add: set_args_def split_all_def split_at_here split_at_last del: split_at.simps)

lemma cmd_set_module:
  assumes "world S = Some s" "name \<in> set exported" "dointvec_documented D" "n < 2 ^ 31"
    and st: "iso_stats_proc_seq_show pp s = Some ls" "listed s" "\<And>p. clean (pp p)"
    and d: "txctx_list s = [d]" "netdev_name s d = Some dev" "served dev d s" "is_word dev"
  shows "\<exists>P u u' S'. sysctl_write param_table name (int n) (tun s) = Some P \<and>
    cmd_set (module_files (module_os K tc links) pp D order load dump) (name @ '','' @ dec n) None S = Inr S' \<and>
    iso_txc_recompute_rates d (locked (s\<lparr>tun := P\<rparr>)) = Some u \<and> iso_vq_calculate_rates d u = Some u' \<and>
    world S' = Some (up_config u') \<and> tun u' = P \<and>
    printed S' = printed S @ [''Setting '' @ name @ '' = '' @ dec n] \<and> map_of (params S') name = Some (dec n)"
proof -
  let ?F = "module_files (module_os K tc links) pp D order load dump"
  obtain P S1 where P: "sysctl_write param_table name (int n) (tun s) = Some P"
    and S1: "params_set ?F name (Some (dec n)) S = Inr S1" "world S1 = Some (s\<lparr>tun := P\<rparr>)"
      "printed S1 = printed S @ [''Setting '' @ name @ '' = '' @ dec n]" "map_of (params S1) name = Some (dec n)"
    using params_set_module [OF assms(1-4), of "module_os K tc links" pp order load dump] by blast
  have x: "path_exists (module_os K tc links) ISO_PROCFILE (Some (s\<lparr>tun := P\<rparr>))" by (simp add: module_os_def)
  obtain st T where st2: "py_stats ?F None S1 = Inr (st, S1\<lparr>known := T\<rparr>)" "report st = module_report (s\<lparr>tun := P\<rparr>)"
    using py_stats_module [where pp = pp, OF S1(2) x, of ls D order load dump] st by auto
  obtain ts vs where r: "report st = [(dev, ts, vs)]" using st2(2) module_report_one [of "s\<lparr>tun := P\<rparr>" d dev] d(1,2) by auto
  obtain u u' where u: "iso_txc_recompute_rates d (locked (s\<lparr>tun := P\<rparr>)) = Some u" "iso_vq_calculate_rates d u = Some u'" "tun u' = P"
    "via (recompute_dev (shell ?F) dev) (S1\<lparr>known := T\<rparr>) = Inr (S1\<lparr>known := T, world := Some (up_config u')\<rparr>)"
    using via_recompute [OF d(3,4), of "S1\<lparr>known := T\<rparr>" P ?F K tc links] S1(2) by auto
  have "CHR '','' \<notin> set name" using exported_names assms(2) by (auto simp: list_all_iff)
  then have "cmd_set ?F (name @ '','' @ dec n) None S = Inr (S1\<lparr>known := T, world := Some (up_config u')\<rparr>)"
    using S1(1) st2(1) r u(4) set_args_pair [of name n] by (simp add: cmd_set_def)
  then show ?thesis using P u(1-3) S1(3,4) by (intro exI conjI) (assumption | simp)+
qed

section \<open>Runs of the program\<close>

lemma pi_set:
  assumes "name \<in> set exported" "dointvec_documented D" "n < 2 ^ 31"
    and st: "iso_stats_proc_seq_show pp s = Some ls" "listed s" "\<And>p. clean (pp p)"
    and d: "txctx_list s = [d]" "netdev_name s d = Some dev" "served dev d s" "is_word dev"
    and a: "\<not> arg_get a" "arg_value a = None" "arg_set a = Some (name @ '','' @ dec n)"
  shows "\<exists>P u u' S'. pi_main (module_files (module_os K tc links) pp D order load dump) a (Some s) = Inr S' \<and>
    sysctl_read param_table name P = Some (int n) \<and>
    (\<forall>other. other \<noteq> name \<longrightarrow> sysctl_read param_table other P = sysctl_read param_table other (tun s)) \<and>
    iso_txc_recompute_rates d (locked (s\<lparr>tun := P\<rparr>)) = Some u \<and> iso_vq_calculate_rates d u = Some u' \<and>
    world S' = Some (up_config u') \<and> tun u' = P \<and>
    printed S' = [''Setting '' @ name @ '' = '' @ dec n] \<and> map_of (params S') name = Some (dec n)"
proof -
  let ?F = "module_files (module_os K tc links) pp D order load dump"
  have x: "path_exists (module_os K tc links) ISO_PROCFILE (Some s)" by (simp add: module_os_def)
  obtain S where S: "pi_main ?F a (Some s) = pi_command ?F a S" "world S = Some s" "printed S = []"
    using start_module [OF x st] by blast
  obtain P u u' S' where P: "sysctl_write param_table name (int n) (tun s) = Some P"
    and r: "cmd_set ?F (name @ '','' @ dec n) None S = Inr S'"
      "iso_txc_recompute_rates d (locked (s\<lparr>tun := P\<rparr>)) = Some u" "iso_vq_calculate_rates d u = Some u'"
      "world S' = Some (up_config u')" "tun u' = P" "printed S' = printed S @ [''Setting '' @ name @ '' = '' @ dec n]"
      "map_of (params S') name = Some (dec n)"
    using cmd_set_module [OF S(2) assms(1-3) st d] by blast
  have "pi_command ?F a S = Inr S'" using a r(1) by (simp add: pi_command_def given_def)
  moreover have "sysctl_read param_table name P = Some (int n)" using write_then_read [OF assms(1) P] assms(3) by (simp add: s32_id)
  ultimately show ?thesis using r(2-7) S(1,3) write_keeps_others [OF P] by (intro exI conjI) (assumption | simp)+
qed

text \<open>Without the module every command ends at once, \<open>--load\<close> included.\<close>

lemma pi_not_loaded:
  assumes "\<not> path_exists (shell F) ISO_PROCFILE w"
  shows "pi_main F a w = Inl w"
proof -
  let ?S = "\<lparr>params = [], params_list = [], known = no_tool, printed = [], world = w\<rparr>"
  have "params_read F ?S = Inl w \<or> (\<exists>S. params_read F ?S = Inr S \<and> world S = w)"
    by (cases "read_params F w (sysctl_names F w) []") (auto simp: params_read_def)
  then show ?thesis using assms by (auto simp: pi_main_def import_perfiso_def py_objects_def py_stats_def)
qed

section \<open>The settings for 1 Gb/s\<close>

definition write_param :: "(string \<Rightarrow> int option) \<Rightarrow> string \<times> string \<Rightarrow> tunables \<Rightarrow> tunables" where
  "write_param D = (\<lambda>(name, v) P. the (sysctl_write param_table name (the (D v)) P))"

lemma each_params_set:
  assumes "dointvec_documented D" "world S = Some s" "\<forall>(name, v) \<in> set l. name \<in> set exported \<and> (\<exists>n < 2 ^ 31. v = dec n)"
  shows "\<exists>S'. each (\<lambda>(name, v). params_set (module_files X pp D order load dump) name (Some v)) l S = Inr S' \<and>
    world S' = Some (s\<lparr>tun := fold (write_param D) l (tun s)\<rparr>)"
  using assms(2,3)
proof (induction l arbitrary: S s)
  case (Cons e l)
  obtain name n where e: "e = (name, dec n)" "name \<in> set exported" "n < 2 ^ 31" using Cons.prems(2) by (cases e) auto
  obtain P S1 where P: "sysctl_write param_table name (int n) (tun s) = Some P"
    and S1: "params_set (module_files X pp D order load dump) name (Some (dec n)) S = Inr S1" "world S1 = Some (s\<lparr>tun := P\<rparr>)"
    using params_set_module [OF Cons.prems(1) e(2) assms(1) e(3), of X pp order load dump] by blast
  have "D (dec n) = Some (int n)" using assms(1) e(3) by (simp add: dointvec_documented_def)
  then have "write_param D e (tun s) = P" using P e(1) by (simp add: write_param_def)
  then show ?case using Cons.IH [OF S1(2)] Cons.prems(2) e(1) S1(1) by auto
qed simp

lemma onegbe_numbers:
  "onegbe_vals = [(''ISO_TOKENBUCKET_TIMEOUT_NS'', dec 100000), (''ISO_VQ_DRAIN_RATE_MBPS'', dec 920),
     (''ISO_MAX_TX_RATE'', dec 980), (''ISO_RFAIR_INITIAL'', dec 500), (''ISO_RL_UPDATE_INTERVAL_US'', dec 50)]"
  by (simp add: onegbe_vals_def dec.simps digit_def char_of_def bit_iff_odd)

lemma onegbe_entries:
  "sysctl_write param_table ''ISO_TOKENBUCKET_TIMEOUT_NS'' v P = Some (P\<lparr>ISO_TOKENBUCKET_TIMEOUT_NS := s32 v\<rparr>)"
  "sysctl_write param_table ''ISO_VQ_DRAIN_RATE_MBPS'' v P = Some (P\<lparr>ISO_VQ_DRAIN_RATE_MBPS := s32 v\<rparr>)"
  "sysctl_write param_table ''ISO_MAX_TX_RATE'' v P = Some (P\<lparr>ISO_MAX_TX_RATE := s32 v\<rparr>)"
  "sysctl_write param_table ''ISO_RFAIR_INITIAL'' v P = Some (P\<lparr>ISO_RFAIR_INITIAL := s32 v\<rparr>)"
  "sysctl_write param_table ''ISO_RL_UPDATE_INTERVAL_US'' v P = Some (P\<lparr>ISO_RL_UPDATE_INTERVAL_US := s32 v\<rparr>)"
  by (simp_all add: sysctl_write_def param_table_def iso_params_init_def iso_params_def ctl_zero_def numeral_eq_Suc)

lemma onegbe_writes:
  assumes "dointvec_documented D"
  shows "fold (write_param D) onegbe_vals = set_onegbe_params"
    "x \<in> set onegbe_vals \<Longrightarrow> y \<in> set onegbe_vals \<Longrightarrow> write_param D x \<circ> write_param D y = write_param D y \<circ> write_param D x"
proof -
  have D: "D (dec 100000) = Some 100000" "D (dec 920) = Some 920" "D (dec 980) = Some 980" "D (dec 500) = Some 500" "D (dec 50) = Some 50"
    using assms by (simp_all add: dointvec_documented_def)
  have w: "write_param D (''ISO_TOKENBUCKET_TIMEOUT_NS'', dec 100000) = (\<lambda>P. P\<lparr>ISO_TOKENBUCKET_TIMEOUT_NS := 100000\<rparr>)"
    "write_param D (''ISO_VQ_DRAIN_RATE_MBPS'', dec 920) = (\<lambda>P. P\<lparr>ISO_VQ_DRAIN_RATE_MBPS := 920\<rparr>)"
    "write_param D (''ISO_MAX_TX_RATE'', dec 980) = (\<lambda>P. P\<lparr>ISO_MAX_TX_RATE := 980\<rparr>)"
    "write_param D (''ISO_RFAIR_INITIAL'', dec 500) = (\<lambda>P. P\<lparr>ISO_RFAIR_INITIAL := 500\<rparr>)"
    "write_param D (''ISO_RL_UPDATE_INTERVAL_US'', dec 50) = (\<lambda>P. P\<lparr>ISO_RL_UPDATE_INTERVAL_US := 50\<rparr>)"
    by (simp_all add: write_param_def D onegbe_entries s32_id)
  show "fold (write_param D) onegbe_vals = set_onegbe_params"
    by (simp add: onegbe_numbers w fun_eq_iff set_onegbe_params_def)
  show "write_param D x \<circ> write_param D y = write_param D y \<circ> write_param D x" if "x \<in> set onegbe_vals" "y \<in> set onegbe_vals"
    using that unfolding onegbe_numbers by (auto simp: w fun_eq_iff)
qed

lemma pi_onegbe:
  assumes D: "dointvec_documented D" and order: "mset (order onegbe_vals) = mset onegbe_vals"
    and st: "iso_stats_proc_seq_show pp s = Some ls" "listed s" "\<And>p. clean (pp p)"
  shows "\<exists>S'. pi_main (module_files (module_os K tc links) pp D order load dump) (no_args\<lparr>one_gbe := True\<rparr>) (Some s) = Inr S' \<and>
    world S' = Some (s\<lparr>tun := set_onegbe_params (tun s)\<rparr>)"
proof -
  let ?F = "module_files (module_os K tc links) pp D order load dump"
  have x: "path_exists (module_os K tc links) ISO_PROCFILE (Some s)" by (simp add: module_os_def)
  obtain S where S: "pi_main ?F (no_args\<lparr>one_gbe := True\<rparr>) (Some s) = pi_command ?F (no_args\<lparr>one_gbe := True\<rparr>) S" "world S = Some s"
    using start_module [OF x st] by blast
  have set: "set (order onegbe_vals) = set onegbe_vals" using order by (metis set_mset_mset)
  have number: "\<exists>n < 2 ^ 31. dec m = dec n" if "m < 2 ^ 31" for m using that by blast
  have l: "\<forall>(name, v) \<in> set onegbe_vals. name \<in> set exported \<and> (\<exists>n < 2 ^ 31. v = dec n)"
    unfolding onegbe_numbers exported_def iso_params_def by (simp add: number [simplified])
  obtain S' where S': "each (\<lambda>(name, v). params_set ?F name (Some v)) (order onegbe_vals) S = Inr S'"
    "world S' = Some (s\<lparr>tun := fold (write_param D) (order onegbe_vals) (tun s)\<rparr>)"
    using each_params_set [OF D S(2), of "order onegbe_vals" "module_os K tc links" pp order load dump, unfolded set, OF l] by blast
  have "fold (write_param D) (order onegbe_vals) = fold (write_param D) onegbe_vals"
    by (rule fold_multiset_equiv) (use onegbe_writes(2) [OF D] set order in auto)
  then have "world S' = Some (s\<lparr>tun := set_onegbe_params (tun s)\<rparr>)" using S'(2) onegbe_writes(1) [OF D] by simp
  moreover have "pi_command ?F (no_args\<lparr>one_gbe := True\<rparr>) S = Inr S'"
    using S'(1) by (simp add: pi_command_def no_args_def given_def cmd_onegbe_def)
  ultimately show ?thesis using S(1) by simp
qed

end
