(* ===== verification/Attachments.thy ===== *)
theory Attachments
  imports Stats
begin

text \<open>
  The two other ways to attach EyeQ, \<open>src/direct.c\<close> and \<open>src/bridge.c\<close>, which the Makefile does not build.
  Direct attachment replaces the transmit function of the protected device and restores it on exit;
  the bridge attachment registers two hooks with the bridge. The last section has what \<open>src/class.h\<close> defines
  for the builds that classify by device, by Ethernet source, by mark and by layer-4 port and that Classes does not hold, and
  the printing function of the rate controller, which no file calls.
\<close>

section \<open>Direct attachment\<close>

datatype netdev_tx = NETDEV_TX_OK | NETDEV_TX_BUSY

text \<open>The transmit function of a device: the driver's, or EyeQ's.\<close>

datatype xmit_fn = DriverXmit | IsoXmit

record direct_mem = mod_mem +
  iso_netdev :: "dev option"
  ndo_start_xmit :: "dev \<Rightarrow> xmit_fn"
  old_ndo_start_xmit :: "xmit_fn option"
  ctx_xmit :: "xmit_fn option"

text \<open>
  \<open>skb_xmit\<close> sends on the protected device, whatever the device of the packet. The transmit function that
  was replaced is the driver's, unless EyeQ has been attached twice; then it would call itself. None
  stands for that and for a missing device. Before the attachment the packet is neither sent nor freed.
\<close>

definition direct_skb_xmit :: "sk_buff \<Rightarrow> 'z direct_mem_scheme \<Rightarrow> 'z direct_mem_scheme option" where
  "direct_skb_xmit skb s =
     (case old_ndo_start_xmit s of
        None \<Rightarrow> Some s
      | Some f \<Rightarrow> do {
          d \<leftarrow> iso_netdev s;
          if txq_stopped s d (queue_mapping skb) then Some (s\<lparr>freed_skbs := freed_skbs s @ [skb]\<rparr>)
          else if f = DriverXmit then Some (s\<lparr>wire := wire s @ [skb]\<rparr>)
          else None })"

definition direct_tx_hook_init :: "'z direct_mem_scheme \<Rightarrow> int \<times> 'z direct_mem_scheme" where
  "direct_tx_hook_init s =
     (case iso_netdev s of
        None \<Rightarrow> (1, s)
      | Some d \<Rightarrow>
          if \<not> has_netdev_ops s d then (1, s)
          else (0, s\<lparr>old_ndo_start_xmit := Some (ndo_start_xmit s d), ctx_xmit := Some (ndo_start_xmit s d),
                    ndo_start_xmit := (ndo_start_xmit s)(d := IsoXmit)\<rparr>))"

definition direct_tx_hook_exit :: "'z direct_mem_scheme \<Rightarrow> 'z direct_mem_scheme option" where
  "direct_tx_hook_exit s = do {
     d \<leftarrow> iso_netdev s;
     f \<leftarrow> ctx_xmit s;
     Some (s\<lparr>ndo_start_xmit := (ndo_start_xmit s)(d := f)\<rparr>) }"

definition direct_rx_hook_init :: "'z direct_mem_scheme \<Rightarrow> int \<times> 'z direct_mem_scheme" where
  "direct_rx_hook_init s =
     (case iso_netdev s of
        None \<Rightarrow> (1, s)
      | Some d \<Rightarrow> if rx_handlers s d then (- EBUSY, s) else (0, s\<lparr>rx_handlers := (rx_handlers s)(d := True)\<rparr>))"

definition direct_rx_hook_exit :: "'z direct_mem_scheme \<Rightarrow> 'z direct_mem_scheme option" where
  "direct_rx_hook_exit s = do {
     d \<leftarrow> iso_netdev s;
     Some (s\<lparr>rx_handlers := (rx_handlers s)(d := False)\<rparr>) }"

text \<open>A dropped packet stays with the caller, which is told to try again.\<close>

definition iso_ndo_start_xmit :: "kapi \<Rightarrow> sk_buff \<Rightarrow> dev \<Rightarrow> 'z direct_mem_scheme \<Rightarrow>
    (netdev_tx \<times> 'z direct_mem_scheme) option" where
  "iso_ndo_start_xmit K skb d s = do {
     (verdict, s) \<leftarrow> iso_tx K skb d s;
     case verdict of
       ISO_VERDICT_DROP \<Rightarrow> Some (NETDEV_TX_BUSY, s)
     | ISO_VERDICT_PASS \<Rightarrow> do { s \<leftarrow> direct_skb_xmit skb s; Some (NETDEV_TX_OK, s) }
     | ISO_VERDICT_SUCCESS \<Rightarrow> Some (NETDEV_TX_OK, s)
     | ISO_VERDICT_ERROR \<Rightarrow> Some (NETDEV_TX_OK, s) }"

definition direct_rx_handler :: "kapi \<Rightarrow> sk_buff \<Rightarrow> dev \<Rightarrow> 'z direct_mem_scheme \<Rightarrow>
    (rx_handler_result \<times> sk_buff \<times> 'z direct_mem_scheme) option" where
  "direct_rx_handler K skb d s =
     (if skb_pkt_type skb = PACKET_LOOPBACK then Some (RX_HANDLER_PASS, skb, s)
      else do {
        (verdict, skb, s) \<leftarrow> iso_rx K skb d s;
        case verdict of
          ISO_VERDICT_DROP \<Rightarrow> Some (RX_HANDLER_CONSUMED, skb, kfree_skb skb s)
        | _ \<Rightarrow> Some (RX_HANDLER_PASS, skb, s) })"

text \<open>Attaching and detaching leaves the device as it was.\<close>

lemma direct_hooks_restore:
  assumes "iso_netdev s = Some d" "has_netdev_ops s d" "\<not> rx_handlers s d"
  shows "\<exists>s1 s2 s3 s4. direct_rx_hook_init s = (0, s1) \<and> direct_tx_hook_init s1 = (0, s2) \<and> ndo_start_xmit s2 d = IsoXmit \<and>
    direct_tx_hook_exit s2 = Some s3 \<and> direct_rx_hook_exit s3 = Some s4 \<and>
    ndo_start_xmit s4 = ndo_start_xmit s \<and> rx_handlers s4 = rx_handlers s"
  using assms by (auto simp: direct_rx_hook_init_def direct_tx_hook_init_def direct_tx_hook_exit_def direct_rx_hook_exit_def fun_eq_iff)

section \<open>Bridge attachment\<close>

datatype nf_verdict = NF_DROP | NF_ACCEPT | NF_STOLEN

datatype nf_hook = HookOut | HookIn

text \<open>
  The registered hooks; the argument tells whether \<open>nf_register_hook\<close> succeeds. \<open>HookOut\<close> is
  \<open>iso_tx_bridge\<close> at \<open>NF_BR_POST_ROUTING\<close>, \<open>HookIn\<close> is \<open>iso_rx_bridge\<close> at \<open>NF_BR_PRE_ROUTING\<close>.
\<close>

definition bridge_tx_hook_init :: "int \<Rightarrow> nf_hook list \<Rightarrow> int \<times> nf_hook list" where
  "bridge_tx_hook_init ret hooks = (ret, if ret = 0 then HookOut # hooks else hooks)"

definition bridge_rx_hook_init :: "int \<Rightarrow> nf_hook list \<Rightarrow> int \<times> nf_hook list" where
  "bridge_rx_hook_init ret hooks = (ret, if ret = 0 then HookIn # hooks else hooks)"

definition bridge_tx_hook_exit :: "nf_hook list \<Rightarrow> nf_hook list" where
  "bridge_tx_hook_exit hooks = remove1 HookOut hooks"

definition bridge_rx_hook_exit :: "nf_hook list \<Rightarrow> nf_hook list" where
  "bridge_rx_hook_exit hooks = remove1 HookIn hooks"

definition iso_rx_bridge :: "kapi \<Rightarrow> dev \<Rightarrow> sk_buff \<Rightarrow> dev \<Rightarrow> 'z tx_mem_scheme \<Rightarrow>
    (nf_verdict \<times> sk_buff \<times> 'z tx_mem_scheme) option" where
  "iso_rx_bridge K ndev skb d s =
     (if d \<noteq> ndev then Some (NF_ACCEPT, skb, s)
      else do {
        (verdict, skb, s) \<leftarrow> iso_rx K skb d s;
        case verdict of
          ISO_VERDICT_DROP \<Rightarrow> Some (NF_DROP, skb, s)
        | _ \<Rightarrow> Some (NF_ACCEPT, skb, s) })"

definition iso_tx_bridge :: "kapi \<Rightarrow> dev \<Rightarrow> sk_buff \<Rightarrow> dev \<Rightarrow> 'z tx_mem_scheme \<Rightarrow>
    (nf_verdict \<times> 'z tx_mem_scheme) option" where
  "iso_tx_bridge K ndev skb d s =
     (if d \<noteq> ndev then Some (NF_ACCEPT, s)
      else do {
        (verdict, s) \<leftarrow> iso_tx K skb d s;
        case verdict of
          ISO_VERDICT_DROP \<Rightarrow> Some (NF_DROP, s)
        | ISO_VERDICT_SUCCESS \<Rightarrow> Some (NF_STOLEN, s)
        | ISO_VERDICT_PASS \<Rightarrow> Some (NF_ACCEPT, s)
        | ISO_VERDICT_ERROR \<Rightarrow> Some (NF_ACCEPT, s) })"

text \<open>
  \<open>skb_xmit\<close> of the bridge: the Ethernet header is pushed back, which panics without room for it, and the
  packet is given to the kernel's \<open>dev_queue_xmit\<close>, a parameter.
\<close>

definition bridge_skb_xmit :: "(sk_buff \<Rightarrow> 's \<Rightarrow> 's) \<Rightarrow> nat \<Rightarrow> sk_buff \<Rightarrow> 's \<Rightarrow> 's option" where
  "bridge_skb_xmit dev_queue_xmit headroom skb s =
     (if headroom < 14 then None else Some (dev_queue_xmit (skb\<lparr>skb_len := skb_len skb + 14\<rparr>) s))"

section \<open>Other classes\<close>

text \<open>Classes by device are pointers; their difference is truncated to an \<open>int\<close>.\<close>

definition iso_txc_classify_dev :: "sk_buff \<Rightarrow> dev" where
  "iso_txc_classify_dev pkt = skb_dev pkt"

definition iso_rx_classify_dev :: "sk_buff \<Rightarrow> dev" where
  "iso_rx_classify_dev skb = skb_dev skb"

text \<open>
  \<open>dev_put\<close> lowers the reference count of the device. \<open>iso_class_parse\<close> looks the device up without taking a
  reference and gives one back; with no such device it reads through a null pointer.
\<close>

definition iso_class_free_dev :: "dev \<Rightarrow> (dev \<Rightarrow> int) \<Rightarrow> (dev \<Rightarrow> int)" where
  "iso_class_free_dev klass refcnt = refcnt(klass := refcnt klass - 1)"

definition iso_class_parse_dev :: "(string \<rightharpoonup> dev) \<Rightarrow> string \<Rightarrow> (dev \<Rightarrow> int) \<Rightarrow> (dev \<times> (dev \<Rightarrow> int)) option" where
  "iso_class_parse_dev dev_get_by_name_rcu devname refcnt = do {
     dev \<leftarrow> dev_get_by_name_rcu devname;
     Some (dev, refcnt(dev := refcnt dev - 1)) }"

text \<open>\<open>%p\<close> is a parameter.\<close>

definition iso_class_show_dev :: "(dev \<Rightarrow> string) \<Rightarrow> dev \<Rightarrow> string" where
  "iso_class_show_dev pp klass = pp klass"

text \<open>Every parsing of a name loses a reference to the device.\<close>

lemma iso_class_parse_dev_loses_reference:
  assumes "names devname = Some dev"
  shows "(((\<lambda>r. snd (the (iso_class_parse_dev names devname r))) ^^ n) refcnt) dev = refcnt dev - int n"
  using assms by (induction n) (simp_all add: iso_class_parse_dev_def)

definition iso_class_cmp_dev :: "u64 \<Rightarrow> u64 \<Rightarrow> int" where
  "iso_class_cmp_dev a b = sint (ucast (a - b) :: u32)"

definition iso_class_hash_dev :: "u64 \<Rightarrow> u32" where
  "iso_class_hash_dev klass = ucast (drop_bit 12 klass)"

text \<open>Two devices 4 GiB apart are taken for one class.\<close>

lemma iso_class_cmp_dev_collides: "iso_class_cmp_dev (a + 0x100000000) a = 0"
  by (simp add: iso_class_cmp_dev_def)

text \<open>Classes by Ethernet source are six octets.\<close>

definition octets_of_mac :: "48 word \<Rightarrow> u8 list" where
  "octets_of_mac m = map (\<lambda>i. ucast (drop_bit (8 * (5 - i)) m)) [0..<6]"

definition iso_txc_classify_ether :: "sk_buff \<Rightarrow> u8 list" where
  "iso_txc_classify_ether skb = octets_of_mac (h_source (eth_hdr skb))"

definition iso_rx_classify_ether :: "sk_buff \<Rightarrow> u8 list" where
  "iso_rx_classify_ether skb = octets_of_mac (h_dest (eth_hdr skb))"

fun memcmp :: "u8 list \<Rightarrow> u8 list \<Rightarrow> int" where
  "memcmp (a # as) (b # bs) = (if a = b then memcmp as bs else uint a - uint b)"
| "memcmp _ _ = 0"

definition iso_class_cmp_ether :: "u8 list \<Rightarrow> u8 list \<Rightarrow> int" where
  "iso_class_cmp_ether a b = memcmp a b"

definition iso_class_hash_ether :: "(u8 list \<Rightarrow> u32 \<Rightarrow> u32) \<Rightarrow> u8 list \<Rightarrow> u32" where
  "iso_class_hash_ether jhash klass = jhash klass 0"

text \<open>\<open>%02x\<close>.\<close>

definition hex2 :: "u8 \<Rightarrow> string" where
  "hex2 b = [hex_digit (unat b div 16), hex_digit (unat b mod 16)]"

definition iso_class_show_ether :: "u8 list \<Rightarrow> string" where
  "iso_class_show_ether o6 = hex2 (o6 ! 0) @ '':'' @ hex2 (o6 ! 1) @ '':'' @ hex2 (o6 ! 2) @ '':'' @ hex2 (o6 ! 3) @ '':'' @
     hex2 (o6 ! 4) @ '':'' @ hex2 (o6 ! 5)"

text \<open>The kernel's \<open>mac_pton\<close> is a parameter; it writes nothing when it fails.\<close>

definition iso_class_parse_ether :: "(string \<Rightarrow> u8 list option) \<Rightarrow> string \<Rightarrow> u8 list" where
  "iso_class_parse_ether mac_pton hwaddr = (case mac_pton hwaddr of None \<Rightarrow> replicate 6 0 | Some ret \<Rightarrow> ret)"

lemma iso_class_cmp_ether_eq: "length a = length b \<Longrightarrow> iso_class_cmp_ether a b = 0 \<longleftrightarrow> a = b"
  unfolding iso_class_cmp_ether_def by (induction a b rule: list_induct2) (auto simp: word_uint_eq_iff)

text \<open>Six pairs of hexadecimal digits with colons between them are the six octets.\<close>

definition mac_pton_documented :: "(string \<Rightarrow> u8 list option) \<Rightarrow> bool" where
  "mac_pton_documented P \<longleftrightarrow> (\<forall>x xs. length xs = 5 \<longrightarrow> list_all (\<lambda>(h, l). h < 16 \<and> l < 16) (x # xs) \<longrightarrow>
     P ([hex_digit (fst x), hex_digit (snd x)] @ concat (map (\<lambda>(h, l). [CHR '':'', hex_digit h, hex_digit l]) xs)) =
     Some (map (\<lambda>(h, l). of_nat (16 * h + l)) (x # xs)))"

lemma ether_name_roundtrip:
  assumes "mac_pton_documented P" "length k = 6"
  shows "iso_class_parse_ether P (iso_class_show_ether k) = k"
proof -
  let ?d = "\<lambda>b :: u8. (unat b div 16, unat b mod 16)"
  have d: "unat b div 16 < 16" for b :: u8 using unsigned_less [where 'a = nat and w = b] by (simp add: less_mult_imp_div_less)
  obtain a b c e f g where k: "k = [a, b, c, e, f, g]" using assms(2) by (auto simp: numeral_eq_Suc length_Suc_conv)
  have "P (iso_class_show_ether k) = Some (map (\<lambda>(h, l). of_nat (16 * h + l)) (map ?d k))"
    using assms(1) [unfolded mac_pton_documented_def, rule_format, of "map ?d [b, c, e, f, g]" "?d a"] d
    by (simp add: k iso_class_show_ether_def hex2_def)
  also have "map (\<lambda>(h, l). of_nat (16 * h + l)) (map ?d k) = k" by (simp add: k del: of_nat_add of_nat_mult)
  finally show ?thesis by (simp add: iso_class_parse_ether_def)
qed

definition iso_class_show_mark :: "u32 \<Rightarrow> string" where
  "iso_class_show_mark klass = dec_int (sint klass)"

definition iso_class_parse_mark :: "string \<Rightarrow> u32" where
  "iso_class_parse_mark str = (case scan_d str of None \<Rightarrow> 0 | Some (ret, _) \<Rightarrow> of_int ret)"

definition iso_class_cmp_l4port :: "u32 \<Rightarrow> u32 \<Rightarrow> int" where
  "iso_class_cmp_l4port a b = sint (a - b)"

definition iso_class_hash_l4port :: "kapi \<Rightarrow> u32 \<Rightarrow> u32" where
  "iso_class_hash_l4port K klass = jhash_1word K klass 0xdeadbeef"

lemma scan_d_nat: "scan_d (dec n) = Some (s32 (int n), [])"
proof -
  obtain c cs where cs: "dec n = c # cs" using dec_nonempty by (cases "dec n") auto
  with dec_digits [of n] have c: "is_digit c" by auto
  then have "\<not> is_space c" "c \<noteq> CHR ''-''" by (auto simp: is_digit_def is_space_def)
  moreover have "scan_digits 0 (dec n) = (n, [])"
    using scan_digits_append [of "dec n" 0 "[]"] by (simp add: dec_digits scan_digits_dec_value)
  ultimately show ?thesis using c cs by (simp add: scan_d_def skip_spaces_def)
qed

lemma scan_d_minus: "scan_d (CHR ''-'' # dec n) = Some (s32 (- int n), [])"
proof -
  obtain c cs where cs: "dec n = c # cs" using dec_nonempty by (cases "dec n") auto
  with dec_digits [of n] have c: "is_digit c" by auto
  moreover have "scan_digits 0 (dec n) = (n, [])"
    using scan_digits_append [of "dec n" 0 "[]"] by (simp add: dec_digits scan_digits_dec_value)
  ultimately show ?thesis using cs by (simp add: scan_d_def skip_spaces_def is_space_def)
qed

lemma mark_name_roundtrip: "iso_class_parse_mark (iso_class_show_mark k) = k"
proof -
  have "scan_d (iso_class_show_mark k) = Some (s32 (sint k), [])"
    by (auto simp: iso_class_show_mark_def dec_int_def scan_d_nat scan_d_minus)
  moreover have "s32 (sint k) = sint k"
    using sint_ge [of k] sint_lt [of k] by (simp add: s32_def signed_take_bit_int_eq_self)
  ultimately show ?thesis by (simp add: iso_class_parse_mark_def)
qed

text \<open>\<open>iso_rc_show\<close>.\<close>

definition iso_rc_show :: "iso_rc_state \<Rightarrow> string list" where
  "iso_rc_show rc =
     [tab @ ''rfair '' @ dec (unat (rfair rc)) @ '' ('' @ dec (unat (rfair_target rc)) @ '')   alpha '' @
      dec (unat (rc_alpha rc)) @ ''   state '' @ iso_rc_state_str (rc_phase rc) @
      ''   last_change '' @ hex (unat (of_int (last_rfair_change_time rc) :: u64)) @
      ''   last_decrease '' @ hex (unat (of_int (last_rfair_decrease_time rc) :: u64)) @
      ''   last_feedback '' @ hex (unat (of_int (last_feedback_time rc) :: u64)), []]"

end
