(* ===== verification/Monitor.thy ===== *)
theory Monitor
  imports Complex_Main Tools "HOL-Library.Char_ord" "HOL-Library.List_Lexorder"
begin

text \<open>
  The rate monitor \<open>src/tools/monitor/pimonitor.cc\<close>, which samples the CSV statistics and prints the
  rates between two samples. A sample is a \<open>std::map\<close> from class names to counters, modelled by a list
  of pairs sorted by name. None is undefined behaviour: a token that overflows its buffer, and the use of
  the line buffer before anything was read into it (an empty file).
\<close>

section \<open>Samples\<close>

record mon_stats =
  mon_tx :: u64
  mon_rx :: u64

definition mon_zero :: mon_stats where "mon_zero = \<lparr>mon_tx = 0, mon_rx = 0\<rparr>"

type_synonym sample = "(string \<times> mon_stats) list"

text \<open>\<open>db[i][klass]\<close> inserts a zero entry for a new class; \<open>f\<close> is what is done to the entry.\<close>

fun db_upd :: "string \<Rightarrow> (mon_stats \<Rightarrow> mon_stats) \<Rightarrow> sample \<Rightarrow> sample" where
  "db_upd k f [] = [(k, f mon_zero)]"
| "db_upd k f ((k', v) # xs) =
     (if k' = k then (k', f v) # xs
      else if k < k' then (k, f mon_zero) # (k', v) # xs
      else (k', v) # db_upd k f xs)"

definition db_at :: "sample \<Rightarrow> string \<Rightarrow> mon_stats" where
  "db_at db k = (case map_of db k of None \<Rightarrow> mon_zero | Some v \<Rightarrow> v)"

section \<open>Reading\<close>

text \<open>\<open>%llu\<close>: a sign is accepted, too large numbers give the largest one.\<close>

definition scan_llu :: "string \<Rightarrow> u64 option" where
  "scan_llu str =
     (case skip_spaces str of
        [] \<Rightarrow> None
      | c # cs \<Rightarrow>
          let ds = (if c = CHR ''-'' \<or> c = CHR ''+'' then cs else c # cs) in
          (case ds of
             [] \<Rightarrow> None
           | d # _ \<Rightarrow>
               if is_digit d
               then let n = fst (scan_digits 0 ds) in
                 Some (if 2 ^ 64 \<le> n then - 1 else if c = CHR ''-'' then - of_nat n else of_nat n)
               else None))"

definition scan_word :: "string \<Rightarrow> string \<times> string" where
  "scan_word str =
     (let str = skip_spaces str; w = takeWhile (\<lambda>c. \<not> is_space c) str in (w, drop (length w) str))"

text \<open>\<open>sscanf(line, "%s %s %llu", dir, klass, &bytes)\<close>: the inner None is a result other than 3.\<close>

definition parse_line :: "string \<Rightarrow> (string \<times> string \<times> u64) option option" where
  "parse_line line =
     (let (dir, r) = scan_word line; (klass, r) = scan_word r in
      if 32 \<le> length dir \<or> 32 \<le> length klass then None
      else if dir = [] \<or> klass = [] then Some None
      else Some (map_option (\<lambda>n. (dir, klass, n)) (scan_llu r)))"

definition store :: "string \<Rightarrow> string \<Rightarrow> u64 \<Rightarrow> sample \<Rightarrow> sample" where
  "store dir klass bytes db =
     (if hd dir = CHR ''t'' then db_upd klass (\<lambda>v. v\<lparr>mon_tx := bytes\<rparr>) db
      else db_upd klass (\<lambda>v. v\<lparr>mon_rx := bytes\<rparr>) db)"

lemma skip_shorter: "length (skip_spaces xs) \<le> length xs"
  by (simp add: skip_spaces_def length_dropWhile_le)

lemma scan_word_shorter:
  assumes "(w, r') = scan_word r" "w \<noteq> []"
  shows "length (skip_spaces r') < length r"
proof -
  have "length (skip_spaces r') \<le> length r'" by (rule skip_shorter)
  also have "length r' < length (skip_spaces r)"
    using assms by (auto simp: scan_word_def Let_def intro!: diff_less)
  also have "\<dots> \<le> length r" by (rule skip_shorter)
  finally show ?thesis .
qed

text \<open>
  The loop of \<open>read_data\<close> on the rest of the file: \<open>fscanf(fp, "%s\n", line)\<close> reads a word and the white
  space behind it, and hits the end of the file when nothing is left.
\<close>

function read_data :: "string \<Rightarrow> sample \<Rightarrow> sample option" where
  "read_data r db =
     (let (line, r) = scan_word r; r = skip_spaces r in
      if line = [] \<or> 256 \<le> length line then None
      else do {
        p \<leftarrow> parse_line (map (\<lambda>c. if c = CHR '','' then CHR '' '' else c) line);
        case p of
          None \<Rightarrow> Some db
        | Some (dir, klass, bytes) \<Rightarrow>
            let db = store dir klass bytes db in
            if r = [] then Some db else read_data r db })"
  by pat_completeness auto
termination
  by (relation "measure (length o fst)") (auto dest: scan_word_shorter)

declare read_data.simps [simp del]

section \<open>Printing\<close>

text \<open>\<open>rate\<close> computes with \<open>double\<close>; here it is exact. The unit is bits per microsecond.\<close>

definition rate :: "u64 \<Rightarrow> int \<Rightarrow> rat" where
  "rate bytes us = of_int (8 * uint bytes) / of_int us"

text \<open>
  \<open>print_data\<close>, for an interval of \<open>us\<close> microseconds: for each class of the previous sample its name and the
  rates of the bytes sent and received since, with unsigned subtraction; the current sample gets an entry for
  each of them. The time stamp of the line and the rounding to three digits are left out.
\<close>

fun print_data :: "int \<Rightarrow> sample \<Rightarrow> sample \<Rightarrow> (string \<times> rat \<times> rat) list \<times> sample" where
  "print_data us [] cur = ([], cur)"
| "print_data us ((k, v) # prev) cur =
     (let cur = db_upd k id cur; v2 = db_at cur k;
          tx_bytes = mon_tx v2 - mon_tx v; rx_bytes = mon_rx v2 - mon_rx v;
          (out, cur) = print_data us prev cur
      in ((k, rate tx_bytes us, rate rx_bytes us) # out, cur))"

text \<open>One round of \<open>monitor_loop\<close>: the two samples take turns.\<close>

record monitor =
  mon_db0 :: sample
  mon_db1 :: sample
  mon_i :: bool

definition monitor_round :: "int \<Rightarrow> string \<Rightarrow> monitor \<Rightarrow> ((string \<times> rat \<times> rat) list \<times> monitor) option" where
  "monitor_round us text m =
     (if mon_i m
      then do {
        db \<leftarrow> read_data text (mon_db1 m);
        let (out, db) = print_data us (mon_db0 m) db;
        Some (out, m\<lparr>mon_db1 := db, mon_i := False\<rparr>) }
      else do {
        db \<leftarrow> read_data text (mon_db0 m);
        let (out, db) = print_data us (mon_db1 m) db;
        Some (out, m\<lparr>mon_db0 := db, mon_i := True\<rparr>) })"

text \<open>The first sample, before the loop.\<close>

definition monitor_start :: "string \<Rightarrow> monitor option" where
  "monitor_start text = do { db \<leftarrow> read_data text []; Some \<lparr>mon_db0 = db, mon_db1 = [], mon_i = True\<rparr> }"

text \<open>
  \<open>main\<close>: the interval, when an argument gives one, is at least a millisecond; \<open>atoi\<close> of a text that is no
  number is 0. Without the file the program dies.
\<close>

definition atoi :: "string \<Rightarrow> int" where
  "atoi str =
     (case skip_spaces str of
        CHR ''+'' # d # ds \<Rightarrow> if is_digit d then s32 (int (fst (scan_digits 0 (d # ds)))) else 0
      | _ \<Rightarrow> (case scan_d str of None \<Rightarrow> 0 | Some (n, _) \<Rightarrow> n))"

definition interval_us :: "string option \<Rightarrow> int" where
  "interval_us arg =
     (case arg of
        None \<Rightarrow> 100 * 1000
      | Some str \<Rightarrow> max 1000 (atoi str))"

definition mon_main :: "string option \<Rightarrow> string option \<Rightarrow> (int \<times> monitor) option" where
  "mon_main arg file = do { text \<leftarrow> file; m \<leftarrow> monitor_start text; Some (interval_us arg, m) }"

section \<open>Samples are maps\<close>

definition sorted_db :: "sample \<Rightarrow> bool" where
  "sorted_db db \<longleftrightarrow> sorted_wrt (<) (map fst db)"

lemma db_upd_keys: "set (map fst (db_upd k f db)) = insert k (set (map fst db))"
  by (induction db rule: db_upd.induct) auto

lemma sorted_upd: "sorted_db db \<Longrightarrow> sorted_db (db_upd k f db)"
proof (induction k f db rule: db_upd.induct)
  case (2 k f k' v xs)
  have "\<forall>x \<in> insert k (fst ` set xs). k' < x" if "k' < k"
    using 2(2) that by (auto simp: sorted_db_def)
  then show ?case
    using 2 db_upd_keys [of k f xs] by (auto simp: sorted_db_def not_less_iff_gr_or_eq)
qed (simp add: sorted_db_def)

lemma db_at_upd: "sorted_db db \<Longrightarrow> db_at (db_upd k f db) k' = (if k' = k then f (db_at db k) else db_at db k')"
proof (induction k f db rule: db_upd.induct)
  case (2 k f k1 v xs)
  have "map_of xs k = None" if "k < k1"
    using 2(2) that by (fastforce simp: sorted_db_def map_of_eq_None_iff)
  then show ?case using 2 by (auto simp: db_at_def sorted_db_def)
qed (simp add: db_at_def)

lemma print_data_spec:
  assumes "sorted_db prev" "sorted_db cur"
  shows "fst (print_data us prev cur) =
    map (\<lambda>(k, v). (k, rate (mon_tx (db_at cur k) - mon_tx v) us, rate (mon_rx (db_at cur k) - mon_rx v) us)) prev"
  using assms
proof (induction prev arbitrary: cur)
  case (Cons e prev)
  obtain k v where e: "e = (k, v)" by fastforce
  have "db_at (db_upd k id cur) x = db_at cur x" for x using db_at_upd [OF Cons.prems(2), of k id x] by simp
  moreover have "sorted_db prev" using Cons.prems(1) by (simp add: sorted_db_def)
  ultimately show ?case
    using Cons.IH [of "db_upd k id cur"] sorted_upd [OF Cons.prems(2), of k id]
    by (simp add: e Let_def split_beta)
qed simp

section \<open>The monitor reads what the module prints\<close>

text \<open>The entries of the CSV file: sent bytes (True) and received bytes (False) of a class.\<close>

type_synonym csv_entry = "bool \<times> iso_class_t \<times> u64"

definition txc_entry :: "'z tx_mem_scheme \<Rightarrow> nat \<Rightarrow> csv_entry list option" where
  "txc_entry s t = do { txc \<leftarrow> txcs s t; rl \<leftarrow> rls s (TxcRl t); Some [(True, txc_klass txc, accum_xmit rl)] }"

definition vq_entry :: "'z vq_mem_scheme \<Rightarrow> nat \<Rightarrow> csv_entry list option" where
  "vq_entry s v = do { vq \<leftarrow> vqs s v; st \<leftarrow> percpu_stats vq;
     Some [(False, vq_klass vq, sum_list (map (\<lambda>c. vs_rx_bytes (st c)) (online s)))] }"

definition csv_entries :: "'z tx_mem_scheme \<Rightarrow> csv_entry list option" where
  "csv_entries s = do {
     tx \<leftarrow> show_all (\<lambda>d. do { ctx \<leftarrow> txctxs s d; show_all (txc_entry s) (txc_list ctx) }) (txctx_list s);
     rx \<leftarrow> show_all (\<lambda>d. do { ctx \<leftarrow> rxctxs s d; show_all (vq_entry s) (vq_list ctx) }) (rxctx_list s);
     Some (tx @ rx) }"

definition csv_text :: "csv_entry list \<Rightarrow> string" where
  "csv_text es = concat (map (\<lambda>(t, k, n). csv_line (if t then ''tx'' else ''rx'') k n) es)"

lemma csv_text_append: "csv_text (xs @ ys) = csv_text xs @ csv_text ys" "csv_text [] = []"
  by (simp_all add: csv_text_def)

lemma show_all_text:
  assumes "\<And>x. f x = map_option csv_text (h x)"
  shows "show_all f xs = map_option csv_text (show_all h xs)"
proof (induction xs)
  case (Cons x xs)
  then show ?case by (cases "h x"; cases "show_all h xs") (simp_all add: assms csv_text_append)
qed (simp add: csv_text_append)

lemma csv_file: "iso_csvstats_proc_seq_show s = map_option csv_text (csv_entries s)"
proof -
  have "csv_txc s t = map_option csv_text (txc_entry s t)" for t
    by (cases "txcs s t"; cases "rls s (TxcRl t)") (simp_all add: csv_txc_def txc_entry_def csv_text_def)
  note T = show_all_text [of "csv_txc s", OF this]
  have "csv_vq s v = map_option csv_text (vq_entry s v)" for v
    by (auto simp: csv_vq_def vq_entry_def csv_text_def split: Option.bind_splits)
  note V = show_all_text [of "csv_vq s", OF this]
  have 1: "show_all (\<lambda>d. do { ctx \<leftarrow> txctxs s d; show_all (csv_txc s) (txc_list ctx) }) ds =
      map_option csv_text (show_all (\<lambda>d. do { ctx \<leftarrow> txctxs s d; show_all (txc_entry s) (txc_list ctx) }) ds)" for ds
    by (rule show_all_text) (simp add: T split: Option.bind_split)
  have 2: "show_all (\<lambda>d. do { ctx \<leftarrow> rxctxs s d; show_all (csv_vq s) (vq_list ctx) }) ds =
      map_option csv_text (show_all (\<lambda>d. do { ctx \<leftarrow> rxctxs s d; show_all (vq_entry s) (vq_list ctx) }) ds)" for ds
    by (rule show_all_text) (simp add: V split: Option.bind_split)
  show ?thesis
    unfolding iso_csvstats_proc_seq_show_def csv_entries_def 1 2
    by (auto simp: csv_text_append map_option_bind split: Option.bind_splits)
qed

text \<open>One line.\<close>

definition record_entry :: "csv_entry \<Rightarrow> sample \<Rightarrow> sample" where
  "record_entry e db = (case e of (t, k, n) \<Rightarrow> store (if t then ''tx'' else ''rx'') (iso_class_show k) n db)"

lemma unat_u64: "unat (n :: u64) < 2 ^ 64"
proof -
  have "unat n < 2 ^ LENGTH(64)" by (rule unsigned_less)
  then show ?thesis by simp
qed

lemma dec_no_comma: "CHR '','' \<notin> set (dec n)"
  using dec_digits [of n] digit_no_space(2) by blast

lemma scan_llu_dec: "scan_llu (CHR '' '' # dec (unat (n :: u64))) = Some n"
proof -
  obtain c cs where cs: "dec (unat n) = c # cs" using dec_nonempty by (cases "dec (unat n)") auto
  with dec_digits [of "unat n"] have c: "is_digit c" by auto
  then have "\<not> is_space c" "c \<noteq> CHR ''-''" "c \<noteq> CHR ''+''" by (auto simp: is_digit_def is_space_def)
  moreover have "fst (scan_digits 0 (c # cs)) = unat n" using scan_digits_dec_value [of "unat n"] cs by simp
  moreover have "unat n < 2 ^ 64" by (rule unat_u64)
  ultimately show ?thesis using c cs by (simp add: scan_llu_def skip_spaces_def Let_def)
qed

lemma word_end: "is_word w \<Longrightarrow> takeWhile (\<lambda>c. \<not> is_space c) w = w"
  by (simp add: is_word_def)

lemma scan_word_line:
  "is_word w \<Longrightarrow> is_space c \<Longrightarrow> scan_word (w @ c # r) = (w, c # r)"
  "is_word w \<Longrightarrow> scan_word (CHR '' '' # w @ CHR '' '' # r) = (w, CHR '' '' # r)"
  using skip_word [of w "c # r"] skip_space_word [of w "CHR '' '' # r"]
  by (simp_all add: scan_word_def take_word Let_def)

lemma csv_words: "is_word ''tx''" "is_word ''rx''"
  by (simp_all add: is_word_def is_space_def)

definition csv_word :: "csv_entry \<Rightarrow> string" where
  "csv_word e = (case e of (t, k, n) \<Rightarrow>
     (if t then ''tx'' else ''rx'') @ CHR '','' # iso_class_show k @ CHR '','' # dec (unat n))"

lemma csv_word_is_word: "is_word (csv_word e)" "length (csv_word e) < 256"
proof -
  obtain t k n where e: "e = (t, k, n)" by (cases e) auto
  have n: "unat n < 2 ^ 64" by (rule unat_u64)
  then have l: "length (dec (unat n)) \<le> 20" using length_dec [of "unat n" 19] by simp
  have w: "is_word (dec (unat n))" by (rule dec_word [OF n])
  show "is_word (csv_word e)" "length (csv_word e) < 256"
    using w l class_word [of k] by (auto simp: csv_word_def e is_word_def is_space_def)
qed

lemma csv_text_cons: "csv_text (e # es) = csv_word e @ CHR 0x0A # csv_text es"
  by (cases e) (simp add: csv_text_def csv_line_def csv_word_def)

lemma parse_csv_word:
  "parse_line (map (\<lambda>c. if c = CHR '','' then CHR '' '' else c) (csv_word (t, k, n))) =
     Some (Some (if t then ''tx'' else ''rx'', iso_class_show k, n))"
proof -
  have id: "map (\<lambda>c. if c = CHR '','' then CHR '' '' else c) w = w" if "CHR '','' \<notin> set w" for w
    using that by (induction w) auto
  have m: "map (\<lambda>c. if c = CHR '','' then CHR '' '' else c) (csv_word (t, k, n)) =
      (if t then ''tx'' else ''rx'') @ CHR '' '' # iso_class_show k @ CHR '' '' # dec (unat n)"
    by (simp add: csv_word_def id class_word(3) dec_no_comma)
  have d: "is_word (if t then ''tx'' else ''rx'')" by (simp add: csv_words)
  have "length (iso_class_show k) < 32" "iso_class_show k \<noteq> []"
    using class_word(2) [of k] class_word(1) [of k] by (auto simp: is_word_def)
  then show ?thesis
    unfolding m parse_line_def scan_word_line(1) [OF d space_chars(1)]
    by (simp add: scan_word_line(2) class_word(1) scan_llu_dec)
qed

lemma skip_text: "skip_spaces (CHR 0x0A # csv_text es) = csv_text es"
proof (cases es)
  case (Cons e es')
  then show ?thesis using skip_word [OF csv_word_is_word(1), of e "CHR 0x0A # csv_text es'"]
    by (simp add: csv_text_cons skip_spaces_def)
qed (simp add: csv_text_append skip_spaces_def)

lemma record_entry_simp: "record_entry (t, k, n) db = store (if t then ''tx'' else ''rx'') (iso_class_show k) n db"
  by (simp add: record_entry_def)

lemma read_csv: "es \<noteq> [] \<Longrightarrow> read_data (csv_text es) db = Some (fold record_entry es db)"
proof (induction es arbitrary: db)
  case (Cons e es)
  obtain t k n where e: "e = (t, k, n)" by (cases e) auto
  have l: "csv_word e \<noteq> []" "\<not> 256 \<le> length (csv_word e)" using csv_word_is_word [of e] by (auto simp: is_word_def)
  have "csv_text es = [] \<longleftrightarrow> es = []" by (cases es) (simp_all add: csv_text_append csv_text_cons)
  then show ?case
    using l Cons.IH
    by (subst read_data.simps)
      (simp add: csv_text_cons scan_word_line(1) [OF csv_word_is_word(1)] skip_text e parse_csv_word record_entry_simp Let_def)
qed simp

text \<open>The counters of a class in a sample.\<close>

lemma class_show_inj: "iso_class_show a = iso_class_show b \<longleftrightarrow> a = b"
  by (metis class_parse_show)

lemma record_entry_at:
  assumes "sorted_db db"
  shows "sorted_db (record_entry (t, k, n) db)"
    "db_at (record_entry (t, k, n) db) (iso_class_show x) = (if x = k
       then (if t then (db_at db (iso_class_show k))\<lparr>mon_tx := n\<rparr> else (db_at db (iso_class_show k))\<lparr>mon_rx := n\<rparr>)
       else db_at db (iso_class_show x))"
    "iso_class_show x \<in> fst ` set (record_entry (t, k, n) db) \<longleftrightarrow> x = k \<or> iso_class_show x \<in> fst ` set db"
  using db_upd_keys [of "iso_class_show k" _ db]
  by (auto simp: record_entry_simp store_def sorted_upd [OF assms] db_at_upd [OF assms] class_show_inj)

definition counter :: "bool \<Rightarrow> mon_stats \<Rightarrow> u64" where
  "counter t v = (if t then mon_tx v else mon_rx v)"

definition csv_key :: "csv_entry \<Rightarrow> bool \<times> iso_class_t" where
  "csv_key e = (fst e, fst (snd e))"

lemma fold_sorted: "sorted_db db \<Longrightarrow> sorted_db (fold record_entry es db)"
proof (induction es arbitrary: db)
  case (Cons e es)
  then show ?case using record_entry_at(1) [of db "fst e" "fst (snd e)" "snd (snd e)"] by simp
qed simp

lemma fold_keys:
  "sorted_db db \<Longrightarrow> iso_class_show x \<in> fst ` set (fold record_entry es db) \<longleftrightarrow>
     x \<in> (\<lambda>e. fst (snd e)) ` set es \<or> iso_class_show x \<in> fst ` set db"
proof (induction es arbitrary: db)
  case (Cons e es)
  obtain u k n where e: "e = (u, k, n)" by (cases e) auto
  note r = record_entry_at [OF Cons.prems, where t = u and k = k and n = n]
  then show ?case using Cons.IH [OF r(1)] by (auto simp: e)
qed simp

lemma fold_other:
  "sorted_db db \<Longrightarrow> (t, x) \<notin> csv_key ` set es \<Longrightarrow>
     counter t (db_at (fold record_entry es db) (iso_class_show x)) = counter t (db_at db (iso_class_show x))"
proof (induction es arbitrary: db)
  case (Cons e es)
  obtain u k n where e: "e = (u, k, n)" by (cases e) auto
  note r = record_entry_at [OF Cons.prems(1), where t = u and k = k and n = n]
  then show ?case using Cons.IH [OF r(1)] Cons.prems(2) by (auto simp: e csv_key_def counter_def)
qed simp

lemma fold_counter:
  "sorted_db db \<Longrightarrow> distinct (map csv_key es) \<Longrightarrow> (t, x, n) \<in> set es \<Longrightarrow>
     counter t (db_at (fold record_entry es db) (iso_class_show x)) = n"
proof (induction es arbitrary: db)
  case (Cons e es)
  obtain u k m where e: "e = (u, k, m)" by (cases e) auto
  note r = record_entry_at [OF Cons.prems(1), where t = u and k = k and n = m]
  show ?case
  proof (cases "e = (t, x, n)")
    case True
    then have "(t, x) \<notin> csv_key ` set es" using Cons.prems(2) by (simp add: csv_key_def)
    from fold_other [OF r(1) this] show ?thesis using r(2) [of x] True by (cases t) (auto simp: e counter_def)
  next
    case False
    then show ?thesis using Cons.IH [OF r(1)] Cons.prems(2,3) by (auto simp: e)
  qed
qed simp

text \<open>Two samples in a row.\<close>

lemma monitor_pair:
  assumes es: "es1 \<noteq> []" "es2 \<noteq> []" "distinct (map csv_key es1)" "distinct (map csv_key es2)"
    and tx: "(True, k, a1) \<in> set es1" "(True, k, a2) \<in> set es2"
    and rx: "(False, k, b1) \<in> set es1" "(False, k, b2) \<in> set es2"
  shows "\<exists>m out m'. monitor_start (csv_text es1) = Some m \<and> monitor_round us (csv_text es2) m = Some (out, m') \<and>
    (iso_class_show k, rate (a2 - a1) us, rate (b2 - b1) us) \<in> set out"
proof -
  let ?d1 = "fold record_entry es1 []" and ?d2 = "fold record_entry es2 []" and ?k = "iso_class_show k"
  have s0: "sorted_db []" by (simp add: sorted_db_def)
  note s = fold_sorted [OF s0, of es1] fold_sorted [OF s0, of es2]
  have c1: "mon_tx (db_at ?d1 ?k) = a1" "mon_rx (db_at ?d1 ?k) = b1"
    using fold_counter [OF s0 es(3) tx(1)] fold_counter [OF s0 es(3) rx(1)] by (simp_all add: counter_def)
  have c2: "mon_tx (db_at ?d2 ?k) = a2" "mon_rx (db_at ?d2 ?k) = b2"
    using fold_counter [OF s0 es(4) tx(2)] fold_counter [OF s0 es(4) rx(2)] by (simp_all add: counter_def)
  have "?k \<in> fst ` set ?d1" using fold_keys [OF s0, of k es1] tx(1) by force
  then obtain v where v: "map_of ?d1 ?k = Some v" by (metis map_of_eq_None_iff not_Some_eq)
  then have "(?k, v) \<in> set ?d1" "v = db_at ?d1 ?k" by (auto simp: db_at_def dest: map_of_SomeD)
  then have "(?k, rate (a2 - a1) us, rate (b2 - b1) us) \<in> set (fst (print_data us ?d1 ?d2))"
    unfolding print_data_spec [OF s] using c1 c2 by force
  then show ?thesis
    using es(1,2) by (simp add: monitor_start_def monitor_round_def read_csv split_beta Let_def)
qed

text \<open>
  A class that is gone: its entry in the older of the two samples is never refreshed, and the next
  round subtracts the newer counters from the older ones.
\<close>

lemma print_data_snd:
  "sorted_db cur \<Longrightarrow> sorted_db (snd (print_data us prev cur)) \<and> db_at (snd (print_data us prev cur)) = db_at cur \<and>
     fst ` set cur \<subseteq> fst ` set (snd (print_data us prev cur))"
proof (induction prev arbitrary: cur)
  case (Cons e prev)
  obtain k v where e: "e = (k, v)" by fastforce
  have "db_at (db_upd k id cur) = db_at cur" using db_at_upd [OF Cons.prems, of k id] by (auto simp: fun_eq_iff)
  then show ?case
    using Cons.IH [OF sorted_upd [OF Cons.prems], of k id] db_upd_keys [of k id cur] by (auto simp: e Let_def split_beta)
qed simp

lemma monitor_stale:
  assumes es: "es1 \<noteq> []" "es2 \<noteq> []" "es3 \<noteq> []" "distinct (map csv_key es1)" "distinct (map csv_key es2)"
    and tx: "(True, k, a1) \<in> set es1" "(True, k, a2) \<in> set es2" "(True, k) \<notin> csv_key ` set es3"
    and rx: "(False, k, b1) \<in> set es1" "(False, k, b2) \<in> set es2" "(False, k) \<notin> csv_key ` set es3"
  shows "\<exists>m out m' out' m''. monitor_start (csv_text es1) = Some m \<and> monitor_round us (csv_text es2) m = Some (out, m') \<and>
    monitor_round us (csv_text es3) m' = Some (out', m'') \<and> (iso_class_show k, rate (a1 - a2) us, rate (b1 - b2) us) \<in> set out'"
proof -
  let ?k = "iso_class_show k"
  define d1 where "d1 = fold record_entry es1 []"
  define d2 where "d2 = fold record_entry es2 []"
  define p2 where "p2 = snd (print_data us d1 d2)"
  define d3 where "d3 = fold record_entry es3 d1"
  have s0: "sorted_db []" by (simp add: sorted_db_def)
  have s: "sorted_db d1" "sorted_db d2" using fold_sorted [OF s0] by (simp_all add: d1_def d2_def)
  have p: "sorted_db p2" "db_at p2 = db_at d2" "fst ` set d2 \<subseteq> fst ` set p2"
    using print_data_snd [OF s(2), of us d1] by (simp_all add: p2_def)
  have s3: "sorted_db d3" using fold_sorted [OF s(1)] by (simp add: d3_def)
  have c2: "mon_tx (db_at p2 ?k) = a2" "mon_rx (db_at p2 ?k) = b2"
    using fold_counter [OF s0 es(5) tx(2)] fold_counter [OF s0 es(5) rx(2)] by (simp_all add: counter_def p(2) d2_def)
  have c3: "mon_tx (db_at d3 ?k) = a1" "mon_rx (db_at d3 ?k) = b1"
    using fold_other [OF s(1) tx(3)] fold_other [OF s(1) rx(3)] fold_counter [OF s0 es(4) tx(1)]
      fold_counter [OF s0 es(4) rx(1)] by (simp_all add: counter_def d3_def d1_def)
  have "?k \<in> fst ` set p2" using fold_keys [OF s0, of k es2] tx(2) p(3) by (force simp: d2_def)
  then obtain v where "map_of p2 ?k = Some v" by (metis map_of_eq_None_iff not_Some_eq)
  then have "(?k, v) \<in> set p2" "v = db_at p2 ?k" by (auto simp: db_at_def dest: map_of_SomeD)
  then have "(?k, rate (a1 - a2) us, rate (b1 - b2) us) \<in> set (fst (print_data us p2 d3))"
    unfolding print_data_spec [OF p(1) s3] using c2 c3 by force
  then show ?thesis
    using es(1-3) by (simp add: monitor_start_def monitor_round_def read_csv split_beta Let_def d1_def d2_def d3_def p2_def)
qed

end
