(* ===== verification/DeviceProps.thy ===== *)
theory DeviceProps
  imports Example CommandLaws Attachments Monitor
begin

text \<open>
  The properties of a device over its life, of its configuration, and of the tools that observe and
  configure it, with an instance of each on the configuration of \<open>Example\<close>.
\<close>

section \<open>Set-up and tear-down\<close>

text \<open>
  C30. A set-up gives a device on which no enabled event oopses: with memory at hand, \<open>mq_init\<close> on a device
  that EyeQ does not manage succeeds, and after any sequence of enabled events the next enabled event runs to
  its end too. The events are packets, timers, tasklets and configuration changes; not enabled are feedback
  for a new destination of a class whose pool is used up, the weight 0 for a virtual queue, and refills and
  installations when allocations fail; deletions are not among the events. The code does not survive these.
\<close>
theorem setup_then_never_oopses:
  assumes "unmanaged d s" "allocs s = (\<lambda>_. True)" "tick_tunables (tun s)" "tick_interval (tun s)" "rx_tunables (tun s)"
    "\<not> iso_exiting s" "gso_documented K"
  shows "\<exists>s'. mq_init d True s = Some (0, s') \<and>
    (\<forall>es u e. runs K d s' es u \<longrightarrow> event_enabled K d e u \<longrightarrow> event_run K d e u \<noteq> None)"
proof -
  obtain s' where s': "mq_init d True s = Some (0, s')" "started d s s'" using mq_init_eq [OF assms(1,2)] by blast
  have "tun s' = tun s" "iso_exiting s' = iso_exiting s" using s'(2) by (simp_all add: started_def)
  then have "dp_system K d s'" using started_ok [OF assms(1) s'(2) assms(5)] assms(3-7) by (simp add: dp_system_def dp_env_def)
  then have "event_run K d e u \<noteq> None" if "runs K d s' es u" "event_enabled K d e u" for es u e
    using event_total [OF runs_system [OF that(1)] that(2)] by auto
  then show ?thesis using s'(1) by blast
qed

theorem setup_then_never_oopses_witness:
  "\<exists>s'. mq_init 0 True demo_boot = Some (0, s') \<and> event_run demo_K 0 (TxPacket (demo_pkt tenant peer) 0) s' \<noteq> None"
proof -
  obtain s' where s': "mq_init 0 True demo_boot = Some (0, s')"
    "\<And>es u e. runs demo_K 0 s' es u \<Longrightarrow> event_enabled demo_K 0 e u \<Longrightarrow> event_run demo_K 0 e u \<noteq> None"
    using setup_then_never_oopses [OF demo_boot_unmanaged, of demo_K] by auto
  have "txctx_xmit s' 0 = Some True" using mq_init_eq [OF demo_boot_unmanaged] s'(1) by (auto simp: started_def)
  then have "event_enabled demo_K 0 (TxPacket (demo_pkt tenant peer) 0) s'" by (simp add: skb_ok_def)
  then show ?thesis using s'(1) s'(2) [OF runs_start] by blast
qed

text \<open>
  C31. The life cycle of a device is a round trip: set-up, attachment and tear-down on an idle device
  succeed, every transmit queue has a leaf in between, and the end has the contexts, lists, limiters,
  handlers and settings of the beginning, so that the device can be set up again.
\<close>
theorem mq_lifecycle:
  assumes "unmanaged d s" "allocs s = (\<lambda>_. True)" "d \<notin> set (txctx_list s)" "d \<notin> set (rxctx_list s)"
    "txctxs s d = None" "rxctxs s d = None" "txctx_xmit s d = None"
  shows "\<exists>s1 s2 s3. mq_init d True s = Some (0, s1) \<and> mq_attach d s1 = Some s2 \<and>
    (\<forall>i < num_tx_queues s d. txq_qdisc s2 d i \<noteq> None) \<and> mq_destroy d s2 = Some s3 \<and>
    txctxs s3 = txctxs s \<and> rxctxs s3 = rxctxs s \<and> txctx_list s3 = txctx_list s \<and> rxctx_list s3 = rxctx_list s \<and>
    rls s3 = rls s \<and> rlcbs s3 = rlcbs s \<and> gso_max_size s3 = gso_max_size s \<and> rx_handlers s3 = rx_handlers s \<and> unmanaged d s3"
proof -
  obtain s1 s2 s3 where c: "mq_init d True s = Some (0, s1)" "mq_attach d s1 = Some s2"
    "\<forall>i < num_tx_queues s d. txq_qdisc s2 d i \<noteq> None" "mq_destroy d s2 = Some s3" "released d s s3"
    using mq_cycle [OF assms] by blast
  have "unmanaged d s3" by (rule released_unmanaged [OF c(5) assms(1)])
  then show ?thesis using c unfolding released_def by blast
qed

theorem mq_lifecycle_witness:
  "\<exists>s1 s2 s3. mq_init 0 True demo_boot = Some (0, s1) \<and> mq_attach 0 s1 = Some s2 \<and> txq_qdisc s2 0 0 \<noteq> None \<and>
     mq_destroy 0 s2 = Some s3 \<and> txctxs s3 = Map.empty \<and> unmanaged 0 s3"
  using mq_lifecycle [OF demo_boot_unmanaged] by (auto 0 3)

section \<open>The administration tools\<close>

text \<open>
  C32. \<open>pi.py --create-tenant\<close> does what it says: on a device in service, with memory at hand and a
  class that does not exist yet, its five commands are all accepted; then the transmit class and the
  virtual queue of the tenant exist and are found by its address, both have the weight asked for, the
  class is associated with the queue, and the device is in service still.
\<close>
theorem tenant_created:
  fixes s :: "'z sys_mem_scheme"
  assumes "served dev d s" "is_word dev" "0 < n" "n \<le> 1024" "iso_txc_find K k d s = Some None" "iso_vq_find K k d s = Some None"
    "is_netdev dev links = Some True" "ISO_CREATED T dev" "iso_class_show k \<notin> set (txcs_dev T dev)"
    "iso_class_show k \<notin> set (vqs_dev T dev)"
  shows "\<exists>s' t v. create_or_change (module_os K tc links) True dev (iso_class_show k) (dec n) None T (Some s) =
      Done 0 T (Some s') \<and> served dev d s' \<and>
    iso_txc_find K k d s' = Some (Some t) \<and> iso_vq_find K k d s' = Some (Some v) \<and>
    map_option txc_weight (txcs s' t) = Some (int n) \<and> map_option txc_vq (txcs s' t) = Some (Some v) \<and>
    map_option vq_weight (vqs s' v) = Some (of_nat n)"
  using assms by (rule tenant_steps)

definition demo_links :: string where
  "demo_links = ''1: lo: <LOOPBACK>'' @ [CHR 0x0A] @ ''2: eth0: <UP>'' @ [CHR 0x0A]"

definition demo_tool :: tool where
  "demo_tool = \<lparr>txcs_dev = (\<lambda>_. [iso_class_show tenant]), vqs_dev = (\<lambda>_. [iso_class_show tenant]), ISO_CREATED = (\<lambda>dev. dev = ''eth0''),
     ISO_INSMOD = True\<rparr>"

theorem tenant_created_witness:
  "\<exists>s' t. create_or_change (module_os demo_K (\<lambda>_ _. None) demo_links) True ''eth0'' ''10.0.0.2'' ''5'' None demo_tool (Some demo) =
      Done 0 demo_tool (Some s') \<and> iso_txc_find demo_K peer 0 s' = Some (Some t) \<and> map_option txc_weight (txcs s' t) = Some 5"
proof -
  have n: "iso_class_show peer = ''10.0.0.2''" "iso_class_show tenant = ''10.0.0.1''" "dec 5 = ''5''" by code_simp+
  have "served ''eth0'' 0 demo"
    using demo_dp_ok by (simp add: served_def enabled_dev_def iso_search_netdev_def iso_enabled_def)
  moreover have "is_word ''eth0''" by (simp add: is_word_def is_space_def)
  moreover have "iso_txc_find demo_K peer 0 demo = Some None" "iso_vq_find demo_K peer 0 demo = Some None" by code_simp+
  moreover have "is_netdev ''eth0'' demo_links = Some True" by code_simp
  ultimately show ?thesis
    using tenant_created [of "''eth0''" 0 demo 5 demo_K peer demo_links demo_tool "\<lambda>_ _. None"]
    by (auto simp: n demo_tool_def)
qed

text \<open>
  C33. The names of classes are a round trip: what \<open>iso_class_show\<close> prints for a class, \<open>iso_class_parse\<close>
  reads back as the same class, so two classes never share a name; a name is one word of at most 15
  characters and fits into every buffer and command it is put into.
\<close>
theorem class_name_roundtrip:
  "iso_class_parse (iso_class_show k) = k \<and> (iso_class_show k = iso_class_show k' \<longleftrightarrow> k = k') \<and>
   is_word (iso_class_show k) \<and> length (iso_class_show k) \<le> 15"
  using class_word(1,2) [of k] by (simp add: class_parse_show class_show_inj)

text \<open>
  C34. A refused command changes nothing, for the seven of the ten handlers that set a weight or a rate, delete
  or associate: when one of them returns an error, the whole state is as before, and the semaphore is free again
  if it was. (A refused creation may have called the allocator, and a malformed \<open>recompute_dev\<close> keeps the
  semaphore.)
\<close>
theorem rejected_command_changes_nothing:
  fixes s s' :: "'z sys_mem_scheme"
  assumes "h \<in> {iso_sys_set_txc_weight K, iso_sys_set_txc_rate K, iso_sys_set_vq_weight K, iso_sys_set_vq_rate K,
      iso_sys_delete_txc K, iso_sys_delete_vq K, iso_sys_assoc_txc_vq K}"
    "h val s = Some (r, s')" "r \<noteq> 0"
  shows "s' = s"
  using assms set_handler_refuses [OF bodies_refuse(1)] set_handler_refuses [OF bodies_refuse(2)]
    set_handler_refuses [OF bodies_refuse(3)] set_handler_refuses [OF bodies_refuse(4)]
    delete_handler_refuses [OF bodies_refuse(5)] delete_handler_refuses [OF bodies_refuse(6)] associate_refuses
  by (auto simp: iso_sys_set_txc_weight_def iso_sys_set_txc_rate_def iso_sys_set_vq_weight_def iso_sys_set_vq_rate_def
      iso_sys_delete_txc_def iso_sys_delete_vq_def)

text \<open>A weight that is too large, for the class of the example.\<close>

theorem rejected_command_changes_nothing_witness:
  "\<exists>s'. iso_sys_set_txc_weight demo_K ''dev eth0 10.0.0.1 weight 4096'' demo = Some (- EINVAL, s') \<and> s' = demo"
proof -
  have "map_option fst (iso_sys_set_txc_weight demo_K ''dev eth0 10.0.0.1 weight 4096'' demo) = Some (- EINVAL)"
    by code_simp
  then obtain s' where s': "iso_sys_set_txc_weight demo_K ''dev eth0 10.0.0.1 weight 4096'' demo = Some (- EINVAL, s')"
    by auto
  have "s' = demo"
    by (rule rejected_command_changes_nothing [of "iso_sys_set_txc_weight demo_K" demo_K, OF _ s']) (simp_all add: EINVAL_def)
  then show ?thesis using s' by blast
qed

section \<open>The files\<close>

text \<open>
  C35. The monitor reports what the module counted: started with the CSV file of one moment and fed with that
  of a later one, it prints for a class with sent and received bytes in both the two rates in bits per
  microsecond: the differences of the counters, modulo their width, over the interval, which is at least a
  millisecond. The rates are exact, before the rounding of the printed numbers.
\<close>
theorem monitor_reports_rates:
  fixes s1 s2 :: "'z tx_mem_scheme"
  assumes "iso_csvstats_proc_seq_show s1 = Some text1" "iso_csvstats_proc_seq_show s2 = Some text2"
    "csv_entries s1 = Some es1" "csv_entries s2 = Some es2" "distinct (map csv_key es1)" "distinct (map csv_key es2)"
    "(True, k, a1) \<in> set es1" "(True, k, a2) \<in> set es2" "(False, k, b1) \<in> set es1" "(False, k, b2) \<in> set es2"
  shows "\<exists>us m out m'. mon_main arg (Some text1) = Some (us, m) \<and> 1000 \<le> us \<and> monitor_round us text2 m = Some (out, m') \<and>
    (iso_class_show k, rate (a2 - a1) us, rate (b2 - b1) us) \<in> set out"
proof -
  have "text1 = csv_text es1" "text2 = csv_text es2" using assms(1-4) by (simp_all add: csv_file)
  moreover have "es1 \<noteq> []" "es2 \<noteq> []" using assms(7,8) by auto
  ultimately obtain m out m' where "monitor_start text1 = Some m" "monitor_round (interval_us arg) text2 m = Some (out, m')"
    "(iso_class_show k, rate (a2 - a1) (interval_us arg), rate (b2 - b1) (interval_us arg)) \<in> set out"
    using monitor_pair [OF _ _ assms(5-10), of "interval_us arg"] by blast
  moreover have "1000 \<le> interval_us arg" by (simp add: interval_us_def split: option.splits)
  ultimately show ?thesis by (auto simp: mon_main_def)
qed

definition demo_later :: mod_mem where
  "demo_later = demo\<lparr>rls := (rls demo)(TxcRl 1 \<mapsto> (demo_rl None [])\<lparr>accum_xmit := 4500\<rparr>),
     vqs := [4 \<mapsto> demo_vq\<lparr>percpu_stats := Some (\<lambda>_. vq_stats_zero\<lparr>vs_rx_bytes := 1500\<rparr>)\<rparr>]\<rparr>"

theorem monitor_reports_rates_witness:
  "\<exists>text1 text2 m out m'. iso_csvstats_proc_seq_show demo = Some text1 \<and> iso_csvstats_proc_seq_show demo_later = Some text2 \<and>
     mon_main (Some ''1000'') (Some text1) = Some (1000, m) \<and> monitor_round 1000 text2 m = Some (out, m') \<and>
     (''10.0.0.1'', 36, 24) \<in> set out"
proof -
  have e: "csv_entries demo = Some [(True, tenant, 0), (False, tenant, 0)]"
    "csv_entries demo_later = Some [(True, tenant, 4500), (False, tenant, 3000)]" by code_simp+
  have n: "iso_class_show tenant = ''10.0.0.1''" "interval_us (Some ''1000'') = 1000" by code_simp+
  have f: "iso_csvstats_proc_seq_show demo = Some (csv_text [(True, tenant, 0), (False, tenant, 0)])"
    "iso_csvstats_proc_seq_show demo_later = Some (csv_text [(True, tenant, 4500), (False, tenant, 3000)])"
    by (simp_all add: csv_file e)
  obtain us m out m' where m: "mon_main (Some ''1000'') (Some (csv_text [(True, tenant, 0), (False, tenant, 0)])) = Some (us, m)"
    "monitor_round us (csv_text [(True, tenant, 4500), (False, tenant, 3000)]) m = Some (out, m')"
    "(''10.0.0.1'', rate 4500 us, rate 3000 us) \<in> set out"
    using monitor_reports_rates [OF f e, of tenant 0 4500 0 3000 "Some ''1000''"] by (auto simp: n csv_key_def)
  then have "us = 1000" by (auto simp: mon_main_def n split: Option.bind_splits)
  then have "(''10.0.0.1'', 36, 24) \<in> set out" using m(3) by (simp add: rate_def)
  then show ?thesis using f m(1,2) unfolding \<open>us = 1000\<close> by blast
qed

text \<open>
  C36. The statistics are a round trip: what the module prints for people, the tool's \<open>stats\<close> reads back
  without an exception, and it finds exactly the devices of the module, each with its transmit classes
  (name, weight, associated queue, rates, and the first limiter of each bucket) and its virtual queues
  (name, weight, rates), and knows the devices as created.
\<close>
theorem statistics_roundtrip:
  fixes s :: "'z sys_mem_scheme"
  assumes "iso_stats_proc_seq_show pp s = Some ls" "listed s" "\<And>p. clean (pp p)"
  shows "\<exists>st. stats None created (file_text ls) = Some st \<and> report st = module_report s \<and>
    (\<forall>n. p_created st n \<longleftrightarrow> created n \<or> Some n \<in> netdev_name s ` set (txctx_list s))"
  using assms by (rule stats_roundtrip)

text \<open>The example can be printed.\<close>

lemma bind_total: "x \<noteq> None \<Longrightarrow> (\<And>a. x = Some a \<Longrightarrow> f a \<noteq> None) \<Longrightarrow> x \<bind> f \<noteq> None"
  by (cases x) auto

lemma show_all_total: "(\<And>x. x \<in> set xs \<Longrightarrow> f x \<noteq> None) \<Longrightarrow> show_all f xs \<noteq> None"
  by (induction xs) (simp, simp del: not_None_eq add: bind_total)

lemma demo_txc_show: "iso_txc_show pp demo 1 \<noteq> None"
proof -
  have r: "iso_rl_show pp p demo \<noteq> None" if "p \<in> {TxcRl 1, DestRl 3}" for p using that by (auto simp: iso_rl_show_def)
  have "set (rl_bucket demo_txc i) \<subseteq> {DestRl 3}" for i by (auto simp: demo_txc_def)
  then have "show_bucket pp demo_txc demo i \<noteq> None" for i
    unfolding show_bucket_def using r by (intro bind_total show_all_total) (blast, simp)
  then have "show_all (show_bucket pp demo_txc demo) is \<noteq> None" for "is" by (rule show_all_total)
  moreover have "vq_name demo demo_txc \<noteq> None" by (simp add: vq_name_def demo_txc_def)
  ultimately show ?thesis using r [of "TxcRl 1"] by (simp add: iso_txc_show_def del: not_None_eq add: bind_total)
qed

lemma demo_show: "iso_stats_proc_seq_show pp demo \<noteq> None"
proof -
  have "set (concat (map (iso_tx_bucket demo_txctx) is)) \<subseteq> {1}" for "is"
    by (auto simp: demo_txctx_def split: if_splits)
  then have "show_all (iso_txc_show pp demo) (concat (map (iso_tx_bucket demo_txctx) is)) \<noteq> None" for "is"
    using demo_txc_show by (intro show_all_total) blast
  then have "show_txctx pp demo 0 \<noteq> None" by (simp add: show_txctx_def netdev_name_def del: not_None_eq add: bind_total)
  moreover have "show_rxctx demo 0 \<noteq> None" by (simp add: show_rxctx_def netdev_name_def demo_rxctx_def iso_vq_show_def demo_vq_def)
  moreover have "txctx_list demo = [0]" "rxctx_list demo = [0]" by (simp_all add: demo_def)
  ultimately show ?thesis by (simp add: iso_stats_proc_seq_show_def del: not_None_eq add: bind_total)
qed

theorem statistics_roundtrip_witness:
  "\<exists>ls st. iso_stats_proc_seq_show (\<lambda>_. ''0'') demo = Some ls \<and> stats None (\<lambda>_. False) (file_text ls) = Some st \<and>
     report st = module_report demo \<and> p_created st ''eth0''"
proof -
  obtain ls where ls: "iso_stats_proc_seq_show (\<lambda>_. ''0'') demo = Some ls" using demo_show [of "\<lambda>_. ''0''"] by auto
  have l: "txctx_list demo = [0]" "rxctx_list demo = [0]" by (simp_all add: demo_def)
  have "listed demo" by (simp add: listed_def l solid_Cons)
  then obtain st where "stats None (\<lambda>_. False) (file_text ls) = Some st" "report st = module_report demo"
    "\<And>n. p_created st n \<longleftrightarrow> Some n \<in> netdev_name demo ` set (txctx_list demo)"
    using statistics_roundtrip [OF ls, of "\<lambda>_. False"] by auto
  then show ?thesis using ls by (auto simp: l netdev_name_def)
qed

section \<open>What goes wrong\<close>

text \<open>
  C37. The error path of \<open>mq_init\<close> oopses: on a device that EyeQ does not manage, when memory runs out for the
  receive context (the third allocation), for the limiters of the CPUs in \<open>iso_tx_init\<close> (the fourth) or for
  the counters in \<open>iso_rx_init\<close> (the fifth), \<open>mq_init\<close> calls \<open>mq_destroy\<close>, which cleans up a context that was
  allocated and never initialised.
\<close>
theorem mq_init_error_path_oopses:
  assumes "unmanaged d s" "d \<notin> set (rxctx_list s)" "k \<in> {2, 3, 4}" "\<And>j. j < k \<Longrightarrow> allocs s (nallocs s + j)"
    "\<not> allocs s (nallocs s + k)"
  shows "mq_init d True s = None"
  using assms by (rule mq_init_oops)

theorem mq_init_error_path_oopses_witness:
  "mq_init 0 True (demo_boot\<lparr>allocs := (\<lambda>n. n < 2)\<rparr>) = None \<and> mq_init 0 True (demo_boot\<lparr>allocs := (\<lambda>n. n < 4)\<rparr>) = None"
proof -
  have u: "unmanaged 0 (demo_boot\<lparr>allocs := a\<rparr>)" for a
    using demo_boot_unmanaged by (simp add: unmanaged_def unused_def sched_inv_same [of "demo_boot\<lparr>allocs := a\<rparr>" demo_boot])
  have n: "nallocs demo_boot = 0" by (simp add: demo_boot_def demo_def)
  show ?thesis
    using mq_init_error_path_oopses [OF u, of "\<lambda>n. n < 2" 2] mq_init_error_path_oopses [OF u, of "\<lambda>n. n < 4" 4] by (simp add: n)
qed

text \<open>
  C38. Of the ten configuration commands only a malformed \<open>recompute_dev\<close> keeps the semaphore: a command that
  starts with the semaphore free and runs to its end leaves it free, unless it is a \<open>recompute_dev\<close> whose text does
  not scan. After that the configuration is locked for good: none of the handlers gives the semaphore back, so in
  every sequence of further commands, with texts below 128 characters, each one waits until a signal ends it,
  with an error and no effect.
\<close>
theorem recompute_dev_locks_out:
  fixes s s' :: "'z sys_mem_scheme"
  assumes "config_mutex s" "module_param K name val s = Some (r, s')"
  shows "(config_mutex s' \<longleftrightarrow> name \<noteq> ''recompute_dev'' \<or> length (scanf (lits ''dev '' @ [ConvS]) (take 127 val)) = 1) \<and>
    (\<not> config_mutex s' \<longrightarrow> (\<forall>cs. (\<forall>(name, val) \<in> set cs. length val < 128) \<longrightarrow>
      (\<exists>rs. module_params K cs s' = Some (rs, s') \<and> length rs = length cs \<and> (\<forall>r \<in> set rs. r < 0))))"
  using semaphore_released [OF assms] locked_out [of s' _ K] by blast

theorem recompute_dev_locks_out_witness:
  "\<exists>r s' rs. module_param demo_K ''recompute_dev'' ''eth0'' demo = Some (r, s') \<and> \<not> config_mutex s' \<and>
     module_params demo_K [(''create_txc'', ''dev eth0 10.0.0.2''), (''recompute_dev'', ''dev eth0'')] s' = Some (rs, s') \<and>
     length rs = 2 \<and> (\<forall>r \<in> set rs. r < 0)"
proof -
  have "map_option fst (module_param demo_K ''recompute_dev'' ''eth0'' demo) = Some (- EINVAL)" by code_simp
  then obtain r s' where s': "module_param demo_K ''recompute_dev'' ''eth0'' demo = Some (r, s')" by auto
  have "config_mutex demo" by (simp add: demo_def)
  note l = recompute_dev_locks_out [OF this s']
  have "length (scanf (lits ''dev '' @ [ConvS]) (take 127 ''eth0'')) = 0" by code_simp
  then have "\<not> config_mutex s'" using l by auto
  moreover obtain rs where
    "module_params demo_K [(''create_txc'', ''dev eth0 10.0.0.2''), (''recompute_dev'', ''dev eth0'')] s' = Some (rs, s')"
    "length rs = 2" "\<forall>r \<in> set rs. r < 0"
    using l calculation by (auto dest!: spec [of _ "[(''create_txc'', ''dev eth0 10.0.0.2''), (''recompute_dev'', ''dev eth0'')]"]
        simp del: module_params.simps)
  ultimately show ?thesis using s' by blast
qed

text \<open>
  C39. A deleted class is used again: a class that \<open>delete_txc\<close> has freed stays on the list of its
  context, and the next due update of the rates reads it.
\<close>
theorem deleted_class_oopses_tick:
  fixes s s' :: "'z tx_mem_scheme"
  assumes "tx_table d s" "tick_due d s" "delete_txc K d k s = Some (0, s')"
  shows "iso_txc_tick d s' = None"
  using assms by (rule delete_dangles)

theorem deleted_class_oopses_tick_witness:
  "\<exists>s'. delete_txc demo_K 0 tenant demo = Some (0, s') \<and> iso_txc_tick 0 s' = None"
proof -
  have "map_option fst (delete_txc demo_K 0 tenant demo) = Some 0" by code_simp
  then obtain s' where s': "delete_txc demo_K 0 tenant demo = Some (0, s')" by auto
  have "tx_table 0 demo" using demo_dp_ok by (simp add: dp_ok_def)
  then show ?thesis using deleted_class_oopses_tick [OF _ demo_tick_due s'] s' by blast
qed

text \<open>
  The settings for 1 Gb/s are sound: with them the tunables satisfy the conditions under which the rate
  computations of the transmit classes, of the virtual queues, of the receive context and of the rate
  controller are exact and stay within their bounds.
\<close>

lemma onegbe_in_range:
  "(let P = set_onegbe_params default_tunables in tick_tunables P \<and> tick_interval P \<and> rx_tunables P \<and> rc_tunables P \<and>
    ISO_VQ_DRAIN_RATE_MBPS P < ISO_MAX_TX_RATE P \<and> ISO_MAX_TX_RATE P \<le> 1000)"
  by (simp add: set_onegbe_params_def Let_def tick_tunables_def tick_interval_def rx_tunables_def drain_tunables_def
      rcp_tunables_def rc_tunables_def default_tunables_def ISO_IDLE_RATE_def)

section \<open>Save and load\<close>

text \<open>
  C40. A saved configuration is restored. The statistics of a device whose classes are all associated with a
  virtual queue are printed, read by the tool and saved; loaded into a device in service without classes,
  every command succeeds, and the device ends with the same virtual queues and weights and the same transmit
  classes, weights and associations.
\<close>
theorem saved_configuration_restored:
  fixes s s0 :: "'z sys_mem_scheme"
  assumes "iso_stats_proc_seq_show pp s = Some ls" "listed s" "\<And>p. clean (pp p)"
    "txctx_list s = [d]" "rxctx_list s = [d]" "netdev_name s d = Some dev" "savable K d s"
    "served dev d0 s0" "is_word dev" "vq_conf K d0 s0 = Map.empty" "txc_conf K d0 s0 = Map.empty"
    "ISO_CREATED T dev" "txcs_dev T dev = []" "vqs_dev T dev = []"
  shows "\<exists>st T' s'. stats None created (file_text ls) = Some st \<and>
    load_config (module_os K tc links) (save st) T (Some s0) = Done 0 T' (Some s') \<and>
    served dev d0 s' \<and> vq_conf K d0 s' = vq_conf K d s \<and> txc_conf K d0 s' = txc_conf K d s"
  using assms by (rule save_load)

definition demo_blank :: mod_mem where
  "demo_blank = demo\<lparr>rls := Map.empty, txcs := Map.empty, states := Map.empty, vqs := Map.empty,
     txctxs := [0 \<mapsto> demo_txctx\<lparr>iso_tx_bucket := (\<lambda>_. []), txc_list := [], txc_total_weight := 0\<rparr>],
     rxctxs := [0 \<mapsto> demo_rxctx\<lparr>vq_list := [], vq_bucket := (\<lambda>_. [])\<rparr>]\<rparr>"

lemma demo_blank_served: "served ''eth0'' 0 demo_blank"
proof -
  have "sched_inv {} demo_blank"
    by (auto simp: sched_inv_def heap_inv_def queues_inv_def links_inv_def shape_def sane_queue_limit_def active_inv_def
        cb_sched_def cb_zero_def backlog_inv_def backlogged_def queue_at_def timer_inv_def demo_blank_def split: if_splits)
  moreover have "tx_ok 0 demo_blank" "unused demo_blank" by (auto simp: tx_ok_def unused_def demo_blank_def)
  moreover have "rx_ok 0 demo_blank" by (auto simp: rx_ok_def demo_blank_def demo_rxctx_def rxctx_zero_def)
  ultimately have "dp_ok 0 demo_blank" by (simp add: dp_ok_def tx_table_def)
  then show ?thesis
    by (simp add: served_def demo_blank_def enabled_dev_def iso_search_netdev_def iso_enabled_def)
qed

lemma demo_blank_conf: "vq_conf demo_K 0 demo_blank = Map.empty" "txc_conf demo_K 0 demo_blank = Map.empty"
  by (simp_all add: fun_eq_iff vq_conf_def txc_conf_def iso_vq_find_def iso_txc_find_def demo_blank_def)

lemma demo_savable: "savable demo_K 0 demo"
proof -
  have f: "iso_txc_find demo_K tenant 0 demo = Some (Some 1)" "iso_vq_find demo_K tenant 0 demo = Some (Some 4)" by code_simp+
  have c: "classes_of demo 0 = [1]" by code_simp
  show ?thesis unfolding savable_def c
    using demo_dp_ok f by (simp add: demo_txc_def txc_new_def demo_rxctx_def demo_vq_def)
qed

theorem saved_configuration_restored_witness:
  "\<exists>ls st T' s'. iso_stats_proc_seq_show (\<lambda>_. ''0'') demo = Some ls \<and> stats None (\<lambda>_. False) (file_text ls) = Some st \<and>
     load_config (module_os demo_K (\<lambda>_ _. None) []) (save st)
       \<lparr>txcs_dev = (\<lambda>_. []), vqs_dev = (\<lambda>_. []), ISO_CREATED = (\<lambda>n. n = ''eth0''), ISO_INSMOD = False\<rparr> (Some demo_blank) =
       Done 0 T' (Some s') \<and>
     vq_conf demo_K 0 s' tenant = Some 1 \<and> txc_conf demo_K 0 s' tenant = Some (1, Some tenant)"
proof -
  obtain ls where ls: "iso_stats_proc_seq_show (\<lambda>_. ''0'') demo = Some ls" using demo_show [of "\<lambda>_. ''0''"] by auto
  have l: "txctx_list demo = [0]" "rxctx_list demo = [0]" "netdev_name demo 0 = Some ''eth0''"
    by (simp_all add: demo_def netdev_name_def)
  have "listed demo" by (simp add: listed_def l solid_Cons)
  moreover have "is_word ''eth0''" by (simp add: is_word_def is_space_def)
  moreover have "vq_conf demo_K 0 demo tenant = Some 1" "txc_conf demo_K 0 demo tenant = Some (1, Some tenant)" by code_simp+
  ultimately show ?thesis
    using saved_configuration_restored [OF ls _ _ l demo_savable demo_blank_served _ demo_blank_conf, of
      "\<lparr>txcs_dev = (\<lambda>_. []), vqs_dev = (\<lambda>_. []), ISO_CREATED = (\<lambda>n. n = ''eth0''), ISO_INSMOD = False\<rparr>" "\<lambda>_. False" "\<lambda>_ _. None" "[]"] ls
    by auto
qed

section \<open>Setting a tunable\<close>

text \<open>
  C21. \<open>pi.py --set NAME,VALUE\<close> takes effect: against a module that serves a device, the run ends normally,
  the tunable of that name has the value and no other tunable has changed, the tool has read the value back,
  and the rates of the transmit classes and of the virtual queues of the device have been computed again
  from the new tunables.
\<close>
theorem set_command_takes_effect:
  fixes s :: "'z sys_mem_scheme"
  assumes "name \<in> set exported" "dointvec_documented D" "n < 2 ^ 31" "iso_stats_proc_seq_show pp s = Some ls" "listed s"
    "\<And>p. clean (pp p)" "txctx_list s = [d]" "netdev_name s d = Some dev" "served dev d s" "is_word dev"
    "\<not> arg_get a" "arg_value a = None" "arg_set a = Some (name @ '','' @ dec n)"
  shows "\<exists>P u u' S'. pi_main (module_files (module_os K tc links) pp D order load dump) a (Some s) = Inr S' \<and>
    sysctl_read param_table name P = Some (int n) \<and>
    (\<forall>other. other \<noteq> name \<longrightarrow> sysctl_read param_table other P = sysctl_read param_table other (tun s)) \<and>
    iso_txc_recompute_rates d (locked (s\<lparr>tun := P\<rparr>)) = Some u \<and> iso_vq_calculate_rates d u = Some u' \<and>
    world S' = Some (up_config u') \<and> tun u' = P \<and>
    printed S' = [''Setting '' @ name @ '' = '' @ dec n] \<and> map_of (params S') name = Some (dec n)"
  using assms by (rule pi_set)

lemma demo_dointvec: "dointvec_documented (\<lambda>t. map_option fst (scan_d t))"
  by (simp add: dointvec_documented_def scan_d_nat s32_id)

theorem set_command_takes_effect_witness:
  "\<exists>S' s'. pi_main (module_files (module_os demo_K (\<lambda>_ _. None) []) (\<lambda>_. ''0'') (\<lambda>t. map_option fst (scan_d t)) id
       (\<lambda>_ _. None) (\<lambda>_ _ w. w)) (no_args\<lparr>arg_set := Some (''ISO_MAX_TX_RATE'' @ '','' @ dec 5000)\<rparr>) (Some demo) = Inr S' \<and>
     world S' = Some s' \<and> sysctl_read param_table ''ISO_MAX_TX_RATE'' (tun s') = Some 5000"
proof -
  obtain ls where ls: "iso_stats_proc_seq_show (\<lambda>_. ''0'') demo = Some ls" using demo_show [of "\<lambda>_. ''0''"] by auto
  have l: "txctx_list demo = [0]" "rxctx_list demo = [0]" "netdev_name demo 0 = Some ''eth0''"
    by (simp_all add: demo_def netdev_name_def)
  have x: "''ISO_MAX_TX_RATE'' \<in> set exported" "listed demo" "is_word ''eth0''"
    by (simp_all add: exported_def iso_params_def listed_def l solid_Cons is_word_def is_space_def)
  have s: "served ''eth0'' 0 demo"
    using demo_dp_ok by (simp add: served_def demo_def enabled_dev_def iso_search_netdev_def iso_enabled_def)
  let ?a = "no_args\<lparr>arg_set := Some (''ISO_MAX_TX_RATE'' @ '','' @ dec 5000)\<rparr>"
  have a: "\<not> arg_get ?a" "arg_value ?a = None" "arg_set ?a = Some (''ISO_MAX_TX_RATE'' @ '','' @ dec 5000)"
    by (simp_all add: no_args_def)
  obtain S' u where "pi_main (module_files (module_os demo_K (\<lambda>_ _. None) []) (\<lambda>_. ''0'') (\<lambda>t. map_option fst (scan_d t)) id
       (\<lambda>_ _. None) (\<lambda>_ _ w. w)) ?a (Some demo) = Inr S'" "world S' = Some (up_config u)"
      "sysctl_read param_table ''ISO_MAX_TX_RATE'' (tun u) = Some (int 5000)"
    using set_command_takes_effect [OF x(1) demo_dointvec _ ls x(2) _ l(1,3) s x(3) a, of demo_K "\<lambda>_ _. None" "[]" id
      "\<lambda>_ _. None" "\<lambda>_ _ w. w"] by auto
  then show ?thesis by (auto simp: up_config_def)
qed

end
