(* ===== verification/Spec2Isabelle.thy ===== *)
theory Spec2Isabelle
  imports RateProps RecvProps SenderProps DeviceProps Attachments
begin

text \<open>
  A verification of EyeQ, a Linux kernel module that divides the bandwidth of a host between tenants.

  \<^bold>\<open>The program.\<close> A tenant is a traffic class, here an IPv4 address. On the sending side every class has a
  transmit class with a token-bucket rate limiter and, for each destination that sends feedback, a
  state with a limiter of its own. On the receiving side every class has a virtual queue that measures
  what arrives and computes the rate its senders should use; the rate travels back in small feedback
  packets. Three control loops of the same form (RCP: the new rate is \<open>r (3 C - y) / 2 C\<close> for a capacity
  \<open>C\<close> and a measured load \<open>y\<close>) run in the virtual queues, in the receive context and in the transmit
  context. The module attaches to a device as a queueing discipline: packets enter through
  \<open>iso_enqueue\<close>, wait in the limiters, and leave from a timer and a tasklet per CPU; received packets pass
  through \<open>iso_rx_handler\<close>. It is configured by strings written to module parameters, and prints two
  statistics files. \<open>tools/pi.py\<close> and \<open>tools/perfiso.py\<close> write the former and read the latter, and
  \<open>tools/monitor/pimonitor.cc\<close> prints rates.

  \<^bold>\<open>The build.\<close> The model follows the Makefile: \<open>ISO_TX_CLASS_IPADDR\<close> and \<open>QDISC\<close>, on a 64-bit little-endian
  host. Parts of other builds are in Classes and Attachments.

  \<^bold>\<open>How C is read.\<close> \<open>u8\<close> to \<open>u64\<close> are words; \<open>int\<close> and \<open>s64\<close> are integers that are wrapped (\<open>s32\<close>, \<open>s64\<close>) where
  the code can overflow them, and conversions between widths are written out. A structure is a record; a
  heap is a map from addresses to records, so that a freed object is absent. A function returns None
  when the code would read a freed or invalid object, divide by zero, or use an uninitialised buffer
  (an oops). The state is one record, extended component by component (\<open>kenv\<close>, \<open>rl_mem\<close>, \<open>vq_mem\<close>,
  \<open>tx_mem\<close>, \<open>rx_mem\<close>, \<open>sys_mem\<close>, \<open>qd_mem\<close>, \<open>mod_mem\<close>); each operation is polymorphic in the extension. The
  clock, the success of \<open>spin_trylock\<close> and of the allocators are arbitrary sequences in the state, each
  call consuming one element. Locks and RCU themselves are not modelled: an event runs to its end, and
  interleaving is the order of the events, on any CPU.

  \<^bold>\<open>Kernel code.\<close> \<open>jhash_1word\<close>, \<open>skb_gso_segment\<close> and \<open>ipv4_change_dsfield\<close> are the fields of a parameter
  \<open>kapi\<close>. Two hypotheses state their documented behaviour: \<open>gso_documented\<close> (segmentation of a sane packet
  fails or gives sane segments for the same device) and \<open>change_ds_documented\<close> (mask, then or). Nothing
  is assumed of the hash. \<open>dointvec_documented\<close> says that \<open>proc_dointvec\<close> reads a number in decimal.

  \<^bold>\<open>Theories of the model\<close> (in the order of imports).
  \<^item> Prelude: integers and words, lists as the kernel walks them, bounded loops, the collections of rules.
  \<^item> Params: the tunables (\<open>params.h\<close>, \<open>params.c\<close>), the table \<open>iso_params\<close>, its registration.
  \<^item> Kernel: machine state, packets, and the inline helpers of \<open>rl.h\<close>, \<open>tx.h\<close>, \<open>rx.h\<close>.
  \<^item> Classes: \<open>class.h\<close>, with what it uses of \<open>sprintf\<close> and \<open>sscanf\<close>.
  \<^item> RateLimiter: \<open>rl.h\<close>, \<open>rl.c\<close>. \<open>iso_rl_enqueue\<close>, \<open>iso_rl_dequeue\<close>, \<open>iso_rl_clock\<close>, \<open>iso_rl_borrow_tokens\<close>,
    the timer \<open>iso_rl_timeout\<close> and the tasklet \<open>iso_rl_xmit_tasklet\<close> carry the names of the functions.
  \<^item> RateControl: \<open>rc.h\<close>, \<open>rc.c\<close>. VirtualQueue: \<open>vq.h\<close>, \<open>vq.c\<close>. TxPath: \<open>tx.h\<close>, \<open>tx.c\<close>. RxPath: \<open>rx.h\<close>, \<open>rx.c\<close>.
  \<^item> Config: the handlers of \<open>params.c\<close> with the part of the kernel's \<open>sscanf\<close> they use.
  \<^item> Qdisc: \<open>qdisc.c\<close> and \<open>main.c\<close>. Attachments: \<open>direct.c\<close>, \<open>bridge.c\<close> and other classes.
  \<^item> Stats: \<open>stats.c\<close> and the printing functions. StatsParser: \<open>stats\<close> of \<open>tools/perfiso.py\<close>.
  \<^item> Tools: the commands of \<open>tools/perfiso.py\<close> and the tenant flows of \<open>tools/pi.py\<close>. Commands: the class
    \<open>Parameters\<close>, the commands that get, set, save, clear and load, the listings and the dispatch of \<open>pi.py\<close>.
    Monitor: \<open>pimonitor.cc\<close>.

  \<^bold>\<open>Interfaces\<close> (theory Interfaces). \<open>rcp_law\<close> is the control law: a step on words that computes the law on
  integers has a fixed point, converges to it in bounded time and does not overload the link at rest. It
  is interpreted on \<open>drain_feedback\<close> (VQLaws), \<open>tick_rate\<close> and \<open>rx_rcp_rate\<close> (RcpLaws). \<open>class_table\<close> is a
  table of classes with lookup and installation, interpreted on the virtual queues (VQLaws) and on the
  transmit classes (TxTable). \<open>token_bucket\<close> bounds what a bucket lets through in a window, interpreted
  on the limiter of a transmit class (Shaping).

  \<^bold>\<open>What is shown.\<close>
  \<^item> Rate limiting (TokenBucket, Pacing, Shaping; C1 to C5, C7): a class sends at most its tokens and rate
    times time, in order, from bounded queues; no queue with packets is forgotten by timer and tasklet;
    the tasklet's loop ends.
  \<^item> Conservation (Inventory, Conservation; C9): over every run of the transition system below, the packets
    offered to the module are, as a multiset and up to the feedback bits, those on the wire, those freed
    and those still in the queues of the limiters: none is lost or sent twice.
  \<^item> Safety (TxLaws, TxTable, RxLaws, DataPath, Lifecycle; C5, C6, C30, C31): a device in service is a
    transition system whose events are packets, timers, tasklets, the allocator, installations and changes
    of weights and rates; its invariant holds after every set-up and no enabled event oopses. Not enabled are
    feedback for a new destination of a class whose pool is used up (C28 shows the oops), the weight 0 for a
    virtual queue (C13), and refills and installations when allocations fail.
  \<^item> Control (RateControl, VQLaws, RcpLaws; C8, C10 to C14, C18 to C20): the word arithmetic computes the law and
    stays in range, the rates converge (that of a virtual queue from a start without overload, that of the
    receive context from any rate, its initial one included), and where it wraps.
  \<^item> Sharing and tables (VQLaws, TxShares, TxTable, TxLookup; C15 to C17, C22 to C29): weighted shares fit into
    the capacity, tables implement sets of classes, feedback reaches the limiter of its destination.
  \<^item> Configuration and tools (ConfigLaws, Tenants, StatsLaws, SavedConfig, CommandLaws, Monitor; C21, C32 to
    C40): a run of \<open>pi.py --set\<close> sets one tunable and has the rates recomputed, a tenant
    created from the command line is in service with its weight, a refused command that sets, deletes or
    associates changes nothing, the
    printed statistics are read back, a configuration saved by the tool and loaded into a fresh device gives
    the same classes, queues, weights and associations, the monitor reports the rates of the bytes counted.
  \<^item> Defects: C12, C13, C17, C27, C28, C37, C38 and C39 prove, from stated conditions, that the code
    wraps, divides by zero, uses freed, foreign or never initialised objects, or keeps a semaphore.
  The theories RateProps, RecvProps, SenderProps and DeviceProps hold these statements, each followed by an
  instance on the configuration of Example.

  \<^bold>\<open>Loops and bounds.\<close> Loops over lists are recursive or folds over the list they walk. The only bound added
  to the code is the first argument of \<open>iso_rl_dequeue\<close>, the depth of its calls on parents: its callers
  pass 2, which is enough because the limiter of a class has no parent; the safety theorems show that it
  is never exhausted. \<open>tasklet_loop\<close> walks a list that grows meanwhile; it ends because its count is limited by the
  budget of the source. The rates in \<open>tick_tunables\<close> are at most 37837 Mb/s, the largest value for which
  the 32-bit product of \<open>iso_txc_tick\<close> cannot wrap, and those in \<open>rx_tunables\<close> at most 32768 Mb/s, so that a
  rate times a weight (at most 1024) stays positive as a 32-bit number. The default tunables satisfy both.

  \<^bold>\<open>Not modelled.\<close> Locks, RCU grace periods and memory ordering, \<open>printk\<close> and checksums. A caller that blocks on
  the configuration semaphore is modelled by its return after a signal. Deletions, failing allocations,
  feedback for a new destination when the pool of its class is empty, and virtual queues of weight 0 are
  modelled but are not enabled events of the safe transition system, since the code does not survive them.
  The rates of the monitor are exact rationals instead of doubles, without the rounding of \<open>printf\<close>. The branches of \<open>main.c\<close> for builds without the queueing discipline, whose contexts are
  global objects; the installers of the builds by device and by Ethernet source (\<open>tx.c\<close>, lines 503 to 568),
  which call \<open>iso_txc_find\<close> with a missing argument and do not compile. What these builds call in the kernel
  (\<open>jhash\<close>, \<open>mac_pton\<close>, \<open>dev_get_by_name_rcu\<close>, \<open>dev_queue_xmit\<close>) is a parameter in Attachments. Of the tools: the
  parsing of the command line, the log, the help text and time stamps; files, JSON, \<open>rmmod\<close>, \<open>insmod\<close>, \<open>tc\<close>, the
  reading of a number by \<open>proc_dointvec\<close> and the order of Python's dictionaries are parameters of Commands and
  CommandLaws. \<open>scripts/kernel.py\<close>, \<open>xen/fabfile.py\<close> and the shell scripts
  build kernels and drive experiments on remote hosts: they only run other programs.
\<close>

end
